(* ===== verification/Prelude.thy ===== *)
theory Prelude
  imports Complex_Main "HOL-Library.AList" "HOL-Library.Sublist"
    "HOL-Library.List_Lexorder" "HOL-Library.Char_ord"
begin

text \<open>
  Shared vocabulary of the development: Python dictionaries, the string operations the
  program uses, exceptions as values, and the lemma collections the component theories
  extend.
\<close>

named_theorems authority_simps
  \<open>unfolding rules of the authority checks of the security components\<close>
named_theorems machine_simps
  \<open>unfolding rules of the primitive operations of the conversation state machine\<close>
named_theorems queue_simps
  \<open>unfolding rules of the task queue's row updates\<close>

section \<open>Dictionaries\<close>

text \<open>
  A Python \<open>dict\<close> iterates in insertion order, and assigning to an existing key keeps its
  position. Association lists with \<open>AList.update\<close> behave the same way.
\<close>

type_synonym ('k, 'v) pydict = "('k \<times> 'v) list"

abbreviation dget :: "('k, 'v) pydict \<Rightarrow> 'k \<Rightarrow> 'v option" where
  "dget d k \<equiv> map_of d k"

abbreviation dset :: "'k \<Rightarrow> 'v \<Rightarrow> ('k, 'v) pydict \<Rightarrow> ('k, 'v) pydict" where
  "dset k v d \<equiv> AList.update k v d"

abbreviation dpop :: "'k \<Rightarrow> ('k, 'v) pydict \<Rightarrow> ('k, 'v) pydict" where
  "dpop k d \<equiv> AList.delete k d"

abbreviation dkeys :: "('k, 'v) pydict \<Rightarrow> 'k list" where
  "dkeys d \<equiv> map fst d"

abbreviation dvalues :: "('k, 'v) pydict \<Rightarrow> 'v list" where
  "dvalues d \<equiv> map snd d"

lemma dget_dset [simp]: "dget (dset k v d) k' = (if k' = k then Some v else dget d k')"
  by (simp add: update_conv')

lemma dget_dpop [simp]: "dget (dpop k d) k' = (if k' = k then None else dget d k')"
  by (simp add: delete_conv')

lemma dkeys_dset [simp]: "set (dkeys (dset k v d)) = insert k (set (dkeys d))"
  by (simp only: set_map flip: dom_map_of_conv_image_fst) (auto simp: dom_def split: if_splits)

lemma dkeys_dpop [simp]: "set (dkeys (dpop k d)) = set (dkeys d) - {k}"
  by (simp add: delete_keys)

lemma distinct_dset [simp]: "distinct (dkeys d) \<Longrightarrow> distinct (dkeys (dset k v d))"
  by (rule distinct_update)

lemma distinct_dpop [simp]: "distinct (dkeys d) \<Longrightarrow> distinct (dkeys (dpop k d))"
  by (rule distinct_delete)

section \<open>Exceptions as values\<close>

text \<open>
  A Python computation that may raise returns \<open>Inl\<close> of the exception or \<open>Inr\<close> of the value.
  An exception is its class name and its message.
\<close>

datatype pyexn = PyExn (exn_type: string) (exn_message: string)

type_synonym 'a pyres = "pyexn + 'a"

definition rbind :: "'e + 'a \<Rightarrow> ('a \<Rightarrow> 'e + 'b) \<Rightarrow> 'e + 'b" where
  "rbind x f = (case x of Inl e \<Rightarrow> Inl e | Inr a \<Rightarrow> f a)"

lemma rbind_simps [simp]: "rbind (Inl e) f = Inl e" "rbind (Inr a) f = f a"
  by (simp_all add: rbind_def)

lemma rbind_Inr: "rbind x f = Inr b \<longleftrightarrow> (\<exists>a. x = Inr a \<and> f a = Inr b)"
  by (cases x) simp_all

lemma rbind_Inl: "rbind x f = Inl e \<longleftrightarrow> x = Inl e \<or> (\<exists>a. x = Inr a \<and> f a = Inl e)"
  by (cases x) simp_all

text \<open>A comprehension over a computation that may raise stops at the first exception.\<close>

fun rmap :: "('a \<Rightarrow> 'e + 'b) \<Rightarrow> 'a list \<Rightarrow> 'e + 'b list" where
  "rmap f [] = Inr []"
| "rmap f (x # xs) = rbind (f x) (\<lambda>y. rbind (rmap f xs) (\<lambda>ys. Inr (y # ys)))"

lemma rmap_Inr_length: "rmap f xs = Inr ys \<Longrightarrow> length ys = length xs"
  by (induction xs arbitrary: ys) (auto simp: rbind_Inr)

lemma rmap_Inr_set: "rmap f xs = Inr ys \<Longrightarrow> y \<in> set ys \<Longrightarrow> \<exists>x \<in> set xs. f x = Inr y"
  by (induction xs arbitrary: ys) (auto simp: rbind_Inr)

section \<open>Strings\<close>

text \<open>
  The string operations of the source. Strings are lists of ASCII characters; whitespace and
  letter case are those of the ASCII range.
\<close>

definition is_space :: "char \<Rightarrow> bool" where
  "is_space c \<longleftrightarrow> (of_char c :: nat) \<in> {9, 10, 11, 12, 13, 28, 29, 30, 31, 32}"

definition lstrip_when :: "(char \<Rightarrow> bool) \<Rightarrow> string \<Rightarrow> string" where
  "lstrip_when p s = dropWhile p s"

definition rstrip_when :: "(char \<Rightarrow> bool) \<Rightarrow> string \<Rightarrow> string" where
  "rstrip_when p s = rev (dropWhile p (rev s))"

definition strip :: "string \<Rightarrow> string" where
  "strip s = rstrip_when is_space (lstrip_when is_space s)"

definition strip_char :: "char \<Rightarrow> string \<Rightarrow> string" where
  "strip_char c s = rstrip_when (\<lambda>x. x = c) (lstrip_when (\<lambda>x. x = c) s)"

definition lower_char :: "char \<Rightarrow> char" where
  "lower_char c = (let n = (of_char c :: nat)
     in if 65 \<le> n \<and> n \<le> 90 then char_of (n + 32) else c)"

definition lower :: "string \<Rightarrow> string" where
  "lower s = map lower_char s"

fun split_when :: "(char \<Rightarrow> bool) \<Rightarrow> string \<Rightarrow> string list" where
  "split_when p [] = [[]]"
| "split_when p (c # cs) =
     (if p c then [] # split_when p cs
      else (case split_when p cs of [] \<Rightarrow> [[c]] | w # ws \<Rightarrow> (c # w) # ws))"

definition split_char :: "char \<Rightarrow> string \<Rightarrow> string list" where
  "split_char c = split_when (\<lambda>x. x = c)"

fun join_with :: "string \<Rightarrow> string list \<Rightarrow> string" where
  "join_with sep [] = []"
| "join_with sep [x] = x"
| "join_with sep (x # y # zs) = x @ sep @ join_with sep (y # zs)"

definition is_line_break :: "char \<Rightarrow> bool" where
  "is_line_break c \<longleftrightarrow> (of_char c :: nat) \<in> {10, 11, 12, 13, 28, 29, 30}"

lemma rstrip_when_no_suffix:
  "rstrip_when p s = [] \<or> \<not> p (last (rstrip_when p s))"
proof (cases "dropWhile p (rev s)")
  case Nil
  then show ?thesis by (simp add: rstrip_when_def)
next
  case (Cons c cs)
  then have "\<not> p c" by (metis hd_dropWhile list.distinct(1) list.sel(1))
  then show ?thesis by (simp add: rstrip_when_def Cons)
qed

lemma rstrip_when_id: "s = [] \<or> \<not> p (last s) \<Longrightarrow> rstrip_when p s = s"
  by (cases s rule: rev_cases) (auto simp: rstrip_when_def)

lemma rstrip_when_idem [simp]: "rstrip_when p (rstrip_when p s) = rstrip_when p s"
  by (rule rstrip_when_id) (rule rstrip_when_no_suffix)

lemma rstrip_when_append:
  "\<not> p c \<Longrightarrow> rstrip_when p (s @ c # t) = s @ c # rstrip_when p t"
proof (induction t rule: rev_induct)
  case Nil
  then show ?case by (simp add: rstrip_when_def)
next
  case (snoc x xs)
  show ?case
  proof (cases "p x")
    case True
    then have "rstrip_when p (s @ c # xs @ [x]) = rstrip_when p (s @ c # xs)"
      and "rstrip_when p (xs @ [x]) = rstrip_when p xs"
      by (simp_all add: rstrip_when_def)
    with snoc show ?thesis by simp
  next
    case False
    then show ?thesis by (simp add: rstrip_when_id)
  qed
qed

section \<open>Searching\<close>

lemma find_SomeD: "find p xs = Some x \<Longrightarrow> x \<in> set xs \<and> p x"
  by (auto simp: find_Some_iff)

lemma find_NoneD: "find p xs = None \<Longrightarrow> x \<in> set xs \<Longrightarrow> \<not> p x"
  by (simp add: find_None_iff)

end
