(* ===== verification/PyValue.thy ===== *)
theory PyValue
  imports Prelude
begin

text \<open>
  The dynamically typed values the program passes around (action contents, form values, frame
  data, manifest tables, JSON payloads), with Python's truth test, its \<open>==\<close> across the
  numeric types, and the conversions \<open>int\<close>, \<open>float\<close>, \<open>str\<close> the forms use. Everything a
  conversion needs from outside the repository (JSON and float parsing, \<open>repr\<close>, path
  normalisation, the file system) is a field of the record \<open>host\<close>.
\<close>

section \<open>Values\<close>

text \<open>
  A finite double is a rational number. \<open>VObj\<close> is an object of a class the model does not
  open (an attachment, say), known by its identity.
\<close>

datatype pyval =
    VNone
  | VBool bool
  | VInt int
  | VFloat rat
  | VStr string
  | VList "pyval list"
  | VDict "(string \<times> pyval) list"
  | VObj string

fun truthy :: "pyval \<Rightarrow> bool" where
  "truthy VNone = False"
| "truthy (VBool b) = b"
| "truthy (VInt i) = (i \<noteq> 0)"
| "truthy (VFloat r) = (r \<noteq> 0)"
| "truthy (VStr s) = (s \<noteq> [])"
| "truthy (VList xs) = (xs \<noteq> [])"
| "truthy (VDict d) = (d \<noteq> [])"
| "truthy (VObj _) = True"

text \<open>\<open>x or y\<close> and the test of an optional value.\<close>

definition py_or :: "pyval \<Rightarrow> pyval \<Rightarrow> pyval" where
  "py_or x y = (if truthy x then x else y)"

fun opt_val :: "pyval option \<Rightarrow> pyval" where
  "opt_val None = VNone"
| "opt_val (Some v) = v"

fun num_of :: "pyval \<Rightarrow> rat option" where
  "num_of (VBool b) = Some (if b then 1 else 0)"
| "num_of (VInt i) = Some (of_int i)"
| "num_of (VFloat r) = Some r"
| "num_of _ = None"

text \<open>
  Python's \<open>==\<close>: \<open>True == 1 == 1.0\<close>, containers element by element, dictionaries without
  regard to order.
\<close>

fun pyeq :: "pyval \<Rightarrow> pyval \<Rightarrow> bool"
  and pyeq_list :: "pyval list \<Rightarrow> pyval list \<Rightarrow> bool"
  and pyeq_items :: "(string \<times> pyval) list \<Rightarrow> (string \<times> pyval) list \<Rightarrow> bool"
  and pyeq_key :: "string \<Rightarrow> pyval \<Rightarrow> (string \<times> pyval) list \<Rightarrow> bool" where
  "pyeq VNone VNone = True"
| "pyeq (VStr s) (VStr t) = (s = t)"
| "pyeq (VObj s) (VObj t) = (s = t)"
| "pyeq (VList xs) (VList ys) = pyeq_list xs ys"
| "pyeq (VDict d) (VDict e) = (length d = length e \<and> pyeq_items d e)"
| "pyeq a b = (case (num_of a, num_of b) of (Some x, Some y) \<Rightarrow> x = y | _ \<Rightarrow> False)"
| "pyeq_list [] [] = True"
| "pyeq_list (x # xs) (y # ys) = (pyeq x y \<and> pyeq_list xs ys)"
| "pyeq_list _ _ = False"
| "pyeq_items [] e = True"
| "pyeq_items ((k, v) # d) e = (pyeq_key k v e \<and> pyeq_items d e)"
| "pyeq_key k v [] = False"
| "pyeq_key k v ((k', v') # e) = (if k' = k then pyeq v v' else pyeq_key k v e)"

definition py_in :: "pyval \<Rightarrow> pyval list \<Rightarrow> bool" where
  "py_in x xs = list_ex (\<lambda>y. pyeq x y) xs"

text \<open>\<open>(v or {}).get(key, default)\<close>: an attribute error when the value is no dictionary.\<close>

definition py_get :: "pyval \<Rightarrow> string \<Rightarrow> pyval \<Rightarrow> pyval pyres" where
  "py_get v key dflt =
     (if \<not> truthy v then Inr dflt
      else (case v of
          VDict d \<Rightarrow> Inr (case dget d key of None \<Rightarrow> dflt | Some x \<Rightarrow> x)
        | _ \<Rightarrow> Inl (PyExn ''AttributeError'' ''get'')))"

text \<open>\<open>dict(v or {})\<close>; the contents the program copies this way are dictionaries.\<close>

definition py_dict :: "pyval \<Rightarrow> (string, pyval) pydict pyres" where
  "py_dict v =
     (if \<not> truthy v then Inr []
      else (case v of VDict d \<Rightarrow> Inr d | _ \<Rightarrow> Inl (PyExn ''TypeError'' ''dict'')))"

lemma py_get_VDict [simp]:
  "py_get (VDict d) k x = Inr (case dget d k of None \<Rightarrow> x | Some y \<Rightarrow> y)"
  by (cases d) (simp_all add: py_get_def)

lemma py_dict_VDict [simp]: "py_dict (VDict d) = Inr d"
  by (cases d) (simp_all add: py_dict_def)

lemma py_dict_VNone [simp]: "py_dict VNone = Inr []"
  by (simp add: py_dict_def)

section \<open>Printing and reading integers\<close>

definition digit_char :: "nat \<Rightarrow> char" where
  "digit_char n = char_of (48 + n)"

fun show_nat :: "nat \<Rightarrow> string" where
  "show_nat n = (if n < 10 then [digit_char n] else show_nat (n div 10) @ [digit_char (n mod 10)])"

declare show_nat.simps [simp del]

definition show_int :: "int \<Rightarrow> string" where
  "show_int i = (if i < 0 then CHR ''-'' # show_nat (nat (- i)) else show_nat (nat i))"

definition digit_value :: "char \<Rightarrow> nat option" where
  "digit_value c = (let n = (of_char c :: nat) in if 48 \<le> n \<and> n \<le> 57 then Some (n - 48) else None)"

text \<open>Digits with single underscores between them, as \<open>int\<close> accepts.\<close>

fun read_digits :: "nat \<Rightarrow> string \<Rightarrow> nat option" where
  "read_digits acc [] = Some acc"
| "read_digits acc (c # cs) =
     (case digit_value c of
        Some d \<Rightarrow> read_digits (10 * acc + d) cs
      | None \<Rightarrow>
          (if c = CHR ''_'' then
             (case cs of
                [] \<Rightarrow> None
              | c' # cs' \<Rightarrow>
                  (case digit_value c' of None \<Rightarrow> None | Some d \<Rightarrow> read_digits (10 * acc + d) cs'))
           else None))"

definition read_nat :: "string \<Rightarrow> nat option" where
  "read_nat s = (case s of
      [] \<Rightarrow> None
    | c # cs \<Rightarrow> (case digit_value c of None \<Rightarrow> None | Some d \<Rightarrow> read_digits d cs))"

definition int_of_string :: "string \<Rightarrow> int option" where
  "int_of_string s = (case strip s of
      [] \<Rightarrow> None
    | c # cs \<Rightarrow>
        (if c = CHR ''-'' then map_option (\<lambda>n. - int n) (read_nat cs)
         else if c = CHR ''+'' then map_option int (read_nat cs)
         else map_option int (read_nat (c # cs))))"

lemma digit_value_digit_char [simp]: "n < 10 \<Longrightarrow> digit_value (digit_char n) = Some n"
  by (simp add: digit_value_def digit_char_def)

lemma read_digits_show_nat:
  "read_digits acc (show_nat n @ cs) = read_digits (acc * 10 ^ length (show_nat n) + n) cs"
proof (induction n arbitrary: cs acc rule: show_nat.induct)
  case (1 n)
  show ?case
  proof (cases "n < 10")
    case True
    then show ?thesis by (simp add: show_nat.simps [of n] mult.commute)
  next
    case False
    then have "n mod 10 < 10" by simp
    with 1 False show ?thesis
      by (subst (1 2) show_nat.simps) (simp add: algebra_simps)
  qed
qed

section \<open>The host\<close>

text \<open>
  What the code calls outside the repository. \<open>host_json\<close> is \<open>json.loads\<close> (\<open>None\<close> for a
  decoding error), \<open>host_float\<close> is \<open>float\<close> on text, \<open>host_repr\<close> prints the values whose
  text the model does not spell out, \<open>host_norm_path\<close> is \<open>normpath(expanduser(s))\<close>,
  \<open>host_suffix\<close> is the suffix of a path, the predicates are those of the file system, and
  \<open>host_uuid n\<close> is the hexadecimal text of the \<open>n\<close>-th \<open>uuid4\<close> drawn, and \<open>host_to_dict\<close> is the
  \<open>to_dict\<close> of an object that has one.
\<close>

record host =
  host_json :: "string \<Rightarrow> pyval option"
  host_float :: "string \<Rightarrow> rat option"
  host_repr :: "pyval \<Rightarrow> string"
  host_norm_path :: "string \<Rightarrow> string"
  host_suffix :: "string \<Rightarrow> string"
  host_is_dir :: "string \<Rightarrow> bool"
  host_exists :: "string \<Rightarrow> bool"
  host_parent :: "string \<Rightarrow> string"
  host_uuid :: "nat \<Rightarrow> string"
  host_to_dict :: "string \<Rightarrow> pyval option"

definition py_str :: "host \<Rightarrow> pyval \<Rightarrow> string" where
  "py_str h v = (case v of
      VNone \<Rightarrow> ''None''
    | VBool b \<Rightarrow> (if b then ''True'' else ''False'')
    | VInt i \<Rightarrow> show_int i
    | VStr s \<Rightarrow> s
    | _ \<Rightarrow> host_repr h v)"

text \<open>A method called on a value that has no such attribute.\<close>

definition attribute_error :: "'a pyres" where
  "attribute_error = Inl (PyExn ''AttributeError'' ''object has no attribute'')"

text \<open>\<open>int(v)\<close> and \<open>float(v)\<close>; \<open>int\<close> of a float truncates towards zero.\<close>

definition trunc_rat :: "rat \<Rightarrow> int" where
  "trunc_rat r = (if r < 0 then - \<lfloor>- r\<rfloor> else \<lfloor>r\<rfloor>)"

definition py_int :: "pyval \<Rightarrow> int pyres" where
  "py_int v = (case v of
      VBool b \<Rightarrow> Inr (if b then 1 else 0)
    | VInt i \<Rightarrow> Inr i
    | VFloat r \<Rightarrow> Inr (trunc_rat r)
    | VStr s \<Rightarrow> (case int_of_string s of
          Some i \<Rightarrow> Inr i
        | None \<Rightarrow> Inl (PyExn ''ValueError'' ''invalid literal for int() with base 10''))
    | _ \<Rightarrow> Inl (PyExn ''TypeError'' ''int() argument must be a string or a real number''))"

definition py_float :: "host \<Rightarrow> pyval \<Rightarrow> rat pyres" where
  "py_float h v = (case num_of v of
      Some r \<Rightarrow> Inr r
    | None \<Rightarrow> (case v of
          VStr s \<Rightarrow> (case host_float h s of
              Some r \<Rightarrow> Inr r
            | None \<Rightarrow> Inl (PyExn ''ValueError'' ''could not convert string to float''))
        | _ \<Rightarrow> Inl (PyExn ''TypeError'' ''float() argument must be a string or a real number'')))"

text \<open>A host for concrete runs: every path exists, JSON and float texts are rejected.\<close>

definition plain_host :: host where
  "plain_host =
     \<lparr>host_json = (\<lambda>_. None), host_float = (\<lambda>_. None), host_repr = (\<lambda>_. ''?''),
      host_norm_path = (\<lambda>s. s), host_suffix = (\<lambda>_. []), host_is_dir = (\<lambda>_. True),
      host_exists = (\<lambda>_. True), host_parent = (\<lambda>_. ''/''), host_uuid = show_nat,
      host_to_dict = (\<lambda>_. None)\<rparr>"

lemma trunc_rat_of_int [simp]: "trunc_rat (of_int i) = i"
  by (auto simp: trunc_rat_def)

lemma read_nat_show_nat: "read_nat (show_nat n) = Some n"
proof (cases "n < 10")
  case True
  then show ?thesis by (simp add: show_nat.simps [of n] read_nat_def)
next
  case False
  have ne: "show_nat n \<noteq> []" for n by (subst show_nat.simps) simp
  have hd_digit: "\<exists>d. digit_value (hd (show_nat n)) = Some d" for n
  proof (induction n rule: show_nat.induct)
    case (1 n)
    then show ?case
      by (cases "n < 10") (simp_all add: show_nat.simps [of n] ne hd_append)
  qed
  obtain c cs where c: "show_nat n = c # cs" using ne by (meson neq_Nil_conv)
  with hd_digit [of n] obtain d where d: "digit_value c = Some d" by auto
  with c have "read_nat (show_nat n) = read_digits 0 (show_nat n @ [])"
    by (simp add: read_nat_def)
  then show ?thesis by (simp only: read_digits_show_nat) simp
qed

end
