(* ===== verification/Manifest.thy ===== *)
theory Manifest
  imports PyValue
begin

text \<open>
  \<open>security/manifest.py\<close>: the selector language, the capability ceiling of a plugin and the
  parser that builds it from the tables of \<open>plugin.toml\<close>. Reading the file and decoding TOML
  are the parameter \<open>read_toml\<close>; every check after that is modelled, each refusal as a value of
  \<open>manifest_error\<close>.
\<close>

section \<open>Selectors\<close>

definition rstrip_slash :: "string \<Rightarrow> string" where
  "rstrip_slash = rstrip_when (\<lambda>c. c = CHR ''/'')"

definition selector_contains :: "string \<Rightarrow> string \<Rightarrow> bool" where
  "selector_contains granted requested =
     (if granted = ''*'' then True
      else (let g = rstrip_slash granted; r = rstrip_slash requested
            in if suffix ''/*'' g
               then (let p = rstrip_slash (take (length g - 2) g)
                     in r = p \<or> prefix (p @ ''/'') r)
               else g = r))"

text \<open>
  A selector whose only wildcard is the whole selector or its last segment. The docstring of
  \<open>_selector_contains\<close> takes this for granted; the code checks it nowhere.
\<close>

definition plain_stem :: "string \<Rightarrow> bool" where
  "plain_stem p \<longleftrightarrow> p \<noteq> ''*'' \<and> \<not> suffix ''/*'' p"

definition clean_selector :: "string \<Rightarrow> bool" where
  "clean_selector s \<longleftrightarrow>
     s = ''*'' \<or>
     (let g = rstrip_slash s
      in if suffix ''/*'' g then plain_stem (rstrip_slash (take (length g - 2) g))
         else plain_stem g)"

lemma rstrip_slash_idem [simp]: "rstrip_slash (rstrip_slash s) = rstrip_slash s"
  by (simp add: rstrip_slash_def)

lemma rstrip_slash_append:
  "c \<noteq> CHR ''/'' \<Longrightarrow> rstrip_slash (s @ c # t) = s @ c # rstrip_slash t"
  by (simp add: rstrip_slash_def rstrip_when_append)

lemma rstrip_slash_star [simp]: "rstrip_slash ''*'' = ''*''"
  by (simp add: rstrip_slash_def rstrip_when_def)

lemma rstrip_slash_wild [simp]: "rstrip_slash (s @ ''/*'') = s @ ''/*''"
  by (simp add: rstrip_slash_def rstrip_when_def)

text \<open>Stripping the slashes below a fixed stripped prefix never reaches into the prefix.\<close>

lemma rstrip_slash_below:
  assumes "rstrip_slash p = p"
  shows "rstrip_slash (p @ ''/'' @ t) = p \<or> prefix (p @ ''/'') (rstrip_slash (p @ ''/'' @ t))"
proof (induction t rule: rev_induct)
  case Nil
  from assms have "rstrip_slash (p @ ''/'') = p"
    by (simp add: rstrip_slash_def rstrip_when_def)
  then show ?case by simp
next
  case (snoc c t)
  show ?case
  proof (cases "c = CHR ''/''")
    case True
    then have "rstrip_slash (p @ ''/'' @ t @ [c]) = rstrip_slash (p @ ''/'' @ t)"
      by (simp add: rstrip_slash_def rstrip_when_def)
    with snoc show ?thesis by simp
  next
    case False
    then have "rstrip_slash ((p @ ''/'' @ t) @ [c]) = (p @ ''/'' @ t) @ [c]"
      using rstrip_slash_append [of c "p @ ''/'' @ t" "[]"]
      by (simp add: rstrip_slash_def rstrip_when_def)
    then show ?thesis by simp
  qed
qed

text \<open>What a stripped selector denotes: everything, a subtree, or one name.\<close>

lemma contains_wild:
  "suffix ''/*'' (rstrip_slash g) \<Longrightarrow> p = rstrip_slash (take (length (rstrip_slash g) - 2) (rstrip_slash g)) \<Longrightarrow>
   selector_contains g r \<longleftrightarrow> rstrip_slash r = p \<or> prefix (p @ ''/'') (rstrip_slash r)"
  by (auto simp: selector_contains_def Let_def suffix_def)

lemma contains_exact:
  "g \<noteq> ''*'' \<Longrightarrow> \<not> suffix ''/*'' (rstrip_slash g) \<Longrightarrow>
   selector_contains g r \<longleftrightarrow> rstrip_slash g = rstrip_slash r"
  by (simp add: selector_contains_def Let_def)

lemma no_star_below: "\<not> prefix (p @ ''/'') ''*''"
proof
  assume "prefix (p @ ''/'') ''*''"
  then have "CHR ''/'' \<in> set ''*''" by (metis in_set_conv_decomp set_mono_prefix subsetD)
  then show False by simp
qed

lemma selector_contains_star [simp]: "selector_contains ''*'' r"
  by (simp add: selector_contains_def)

lemma selector_contains_refl: "selector_contains s s"
proof (cases "suffix ''/*'' (rstrip_slash s)")
  case True
  then obtain t where t: "rstrip_slash s = t @ ''/*''" by (auto simp: suffix_def)
  let ?p = "rstrip_slash t"
  have "t @ ''/*'' = ?p \<or> prefix (?p @ ''/'') (t @ ''/*'')"
  proof -
    have "\<exists>u. t = ?p @ u \<and> (\<forall>c \<in> set u. c = CHR ''/'')"
      by (rule exI [of _ "rev (takeWhile (\<lambda>c. c = CHR ''/'') (rev t))"])
        (auto simp: rstrip_slash_def rstrip_when_def simp flip: rev_append dest: set_takeWhileD)
    then obtain u where "t = ?p @ u" "\<forall>c \<in> set u. c = CHR ''/''" by blast
    then show ?thesis
    proof (cases u)
      case Nil
      with \<open>t = ?p @ u\<close> show ?thesis by simp
    next
      case (Cons c u')
      with \<open>t = ?p @ u\<close> \<open>\<forall>c \<in> set u. c = CHR ''/''\<close> have "t = (?p @ ''/'') @ u'" by simp
      then have "t @ ''/*'' = (?p @ ''/'') @ (u' @ ''/*'')" by (metis append.assoc)
      then show ?thesis unfolding prefix_def by blast
    qed
  qed
  with t show ?thesis by (subst contains_wild [OF True refl]) simp
next
  case False
  then show ?thesis by (cases "s = ''*''") (simp_all add: contains_exact)
qed

text \<open>
  Containment is transitive from a clean selector: whatever a narrowed selector covers, the
  clean parent covers too.
\<close>

lemma selector_contains_trans:
  assumes clean: "clean_selector g" and gm: "selector_contains g m" and mr: "selector_contains m r"
  shows "selector_contains g r"
proof (cases "g = ''*''")
  case True
  then show ?thesis by simp
next
  case g: False
  let ?g = "rstrip_slash g" and ?m = "rstrip_slash m" and ?r = "rstrip_slash r"
  show ?thesis
  proof (cases "suffix ''/*'' ?g")
    case wild: True
    define p where "p = rstrip_slash (take (length ?g - 2) ?g)"
    have plain: "plain_stem p" using clean g wild by (simp add: clean_selector_def Let_def p_def)
    have sp: "rstrip_slash p = p" by (simp add: p_def)
    from gm have m: "?m = p \<or> prefix (p @ ''/'') ?m" by (simp add: contains_wild [OF wild p_def])
    have "m \<noteq> ''*''" using m plain no_star_below [of p] by (auto simp: plain_stem_def)
    show ?thesis
    proof (cases "suffix ''/*'' ?m")
      case mwild: True
      then have "?m \<noteq> p" using plain by (auto simp: plain_stem_def)
      with m mwild obtain t u where tu: "?m = p @ ''/'' @ t" "?m = u @ ''/*''"
        by (auto simp: prefix_def suffix_def)
      define q where "q = rstrip_slash (take (length ?m - 2) ?m)"
      have q: "q = p \<or> prefix (p @ ''/'') q"
      proof (cases "t = ''*''")
        case True
        with tu have "take (length ?m - 2) ?m = p" by simp
        with sp show ?thesis by (simp add: q_def)
      next
        case False
        have "last (u @ ''/*'') = CHR ''*''" by simp
        with tu have "last (p @ ''/'' @ t) = CHR ''*''" by (simp only:)
        then have "\<exists>t'. t = t' @ ''*''"
          by (cases t rule: rev_cases) auto
        then obtain t' where t': "t = t' @ ''*''" by blast
        with tu have "u @ ''/'' = p @ ''/'' @ t'" by simp
        with t' False obtain t'' where "t' = t'' @ ''/''"
          by (cases t' rule: rev_cases) auto
        with tu t' have "take (length ?m - 2) ?m = p @ ''/'' @ t''" by simp
        with rstrip_slash_below [OF sp, of t''] show ?thesis by (simp add: q_def)
      qed
      from mr have "?r = q \<or> prefix (q @ ''/'') ?r" by (simp add: contains_wild [OF mwild q_def])
      with q have "?r = p \<or> prefix (p @ ''/'') ?r" by (auto simp: prefix_def)
      then show ?thesis by (simp add: contains_wild [OF wild p_def])
    next
      case False
      with mr \<open>m \<noteq> ''*''\<close> have "?r = ?m" by (simp add: contains_exact)
      with m show ?thesis by (simp add: contains_wild [OF wild p_def])
    qed
  next
    case exact: False
    then have plain: "plain_stem ?g" using clean g by (simp add: clean_selector_def Let_def)
    from gm have m: "?g = ?m" by (simp add: contains_exact [OF g exact])
    with plain have "m \<noteq> ''*''" "\<not> suffix ''/*'' ?m" by (auto simp: plain_stem_def)
    with mr m show ?thesis by (simp add: contains_exact [OF g exact] contains_exact)
  qed
qed

lemmas selector_eval =
  selector_contains_def clean_selector_def plain_stem_def rstrip_slash_def rstrip_when_def
  suffix_to_prefix Let_def

section \<open>The manifest\<close>

record capability_pattern =
  cp_right :: string
  cp_resource :: string
  cp_destinations :: "string list"
  cp_labels :: "string list"
  cp_constraints :: "(string, pyval) pydict"

text \<open>
  A destination is only admitted by a pattern that lists destinations, and a pattern without
  destinations admits exactly the requests without one.
\<close>

definition pattern_matches :: "capability_pattern \<Rightarrow> string \<Rightarrow> string \<Rightarrow> string \<Rightarrow> bool" where
  "pattern_matches cp right selector destination =
     (if cp_right cp \<noteq> right then False
      else if \<not> selector_contains (cp_resource cp) selector then False
      else if destination \<noteq> [] \<and> cp_destinations cp \<noteq> []
        then list_ex (\<lambda>item. selector_contains item destination) (cp_destinations cp)
      else destination = [] \<or> cp_destinations cp \<noteq> [])"

record handler_manifest =
  hm_kind :: string
  hm_name :: string
  hm_entrypoint :: string
  hm_description :: string
  hm_schema :: "(string, pyval) pydict"
  hm_subscriptions :: "string list"
  hm_persistent :: bool

record resource_budgets =
  rb_memory_mb :: int
  rb_cpu_seconds :: int
  rb_wall_seconds :: int
  rb_max_output_bytes :: int
  rb_max_concurrency :: int

record plugin_manifest =
  pm_schema_version :: int
  pm_plugin_id :: string
  pm_version :: string
  pm_runtime :: string
  pm_description :: string
  pm_handlers :: "handler_manifest list"
  pm_capabilities :: "capability_pattern list"
  pm_budgets :: resource_budgets
  pm_source_path :: string

definition manifest_handler :: "plugin_manifest \<Rightarrow> string \<Rightarrow> string \<Rightarrow> handler_manifest option" where
  "manifest_handler m kind nm = find (\<lambda>item. hm_kind item = kind \<and> hm_name item = nm) (pm_handlers m)"

definition manifest_declares :: "plugin_manifest \<Rightarrow> string \<Rightarrow> string \<Rightarrow> string \<Rightarrow> bool" where
  "manifest_declares m right selector destination =
     list_ex (\<lambda>item. pattern_matches item right selector destination) (pm_capabilities m)"

section \<open>Parsing\<close>

text \<open>One constructor per refusal; \<open>where\<close> names the place in the file, as the messages do.\<close>

datatype manifest_error =
    CouldNotParse string
  | RootNotTable
  | UnknownKeys string "string list"
  | NotInteger string
  | OutOfRange string int int
  | UnsupportedSchema int
  | NotText string
  | NotStrings string
  | NotTable string
  | NotArray string
  | NotBoolean string
  | BadId string
  | BadRuntime string
  | BadKind string
  | BadEntrypoint string
  | BadRight string
  | DuplicateHandlers

definition is_lower_alpha :: "char \<Rightarrow> bool" where
  "is_lower_alpha c = (let n = (of_char c :: nat) in 97 \<le> n \<and> n \<le> 122)"

definition is_upper_alpha :: "char \<Rightarrow> bool" where
  "is_upper_alpha c = (let n = (of_char c :: nat) in 65 \<le> n \<and> n \<le> 90)"

definition is_digit :: "char \<Rightarrow> bool" where
  "is_digit c = (digit_value c \<noteq> None)"

text \<open>\<open>[a-z][a-z0-9]*(?:[._-][a-z0-9]+)*\<close>, matched against the whole text.\<close>

definition matches_id :: "string \<Rightarrow> bool" where
  "matches_id s =
     (s \<noteq> [] \<and> is_lower_alpha (hd s) \<and>
      list_all (\<lambda>part. part \<noteq> [] \<and> list_all (\<lambda>c. is_lower_alpha c \<or> is_digit c) part)
        (split_when (\<lambda>c. c \<in> {CHR ''.'', CHR ''_'', CHR ''-''}) s))"

text \<open>\<open>[a-z][a-z0-9_]*\.[a-z][a-z0-9_]*\<close>\<close>

definition matches_right :: "string \<Rightarrow> bool" where
  "matches_right s =
     (let parts = split_char (CHR ''.'') s in
      length parts = 2 \<and>
      list_all (\<lambda>part. part \<noteq> [] \<and> is_lower_alpha (hd part) \<and>
        list_all (\<lambda>c. is_lower_alpha c \<or> is_digit c \<or> c = CHR ''_'') part) parts)"

definition is_word_char :: "char \<Rightarrow> bool" where
  "is_word_char c = (is_lower_alpha c \<or> is_upper_alpha c \<or> is_digit c \<or> c = CHR ''_'')"

text \<open>\<open>[A-Za-z_][A-Za-z0-9_.]*:[A-Za-z_][A-Za-z0-9_]*\<close>\<close>

definition matches_entrypoint :: "string \<Rightarrow> bool" where
  "matches_entrypoint s =
     (case split_char (CHR '':'') s of
        [m, f] \<Rightarrow>
          m \<noteq> [] \<and> \<not> is_digit (hd m) \<and> hd m \<noteq> CHR ''.'' \<and>
          list_all (\<lambda>c. is_word_char c \<or> c = CHR ''.'') m \<and>
          f \<noteq> [] \<and> \<not> is_digit (hd f) \<and> list_all is_word_char f
      | _ \<Rightarrow> False)"

definition schema_version_supported :: int where
  "schema_version_supported = 1"

definition handler_kinds :: "string list" where
  "handler_kinds = [''tool'', ''command'', ''task'', ''service'', ''frontend'', ''hook'', ''parser'',
     ''model_provider'']"

definition top_keys :: "string list" where
  "top_keys = [''schema_version'', ''id'', ''version'', ''runtime'', ''description'', ''handlers'',
     ''capabilities'', ''budgets'']"

definition handler_keys :: "string list" where
  "handler_keys = [''kind'', ''name'', ''entrypoint'', ''description'', ''schema'',
     ''subscriptions'', ''persistent'']"

definition capability_keys :: "string list" where
  "capability_keys = [''right'', ''resource'', ''destinations'', ''labels'', ''constraints'']"

definition budget_keys :: "string list" where
  "budget_keys = [''memory_mb'', ''cpu_seconds'', ''wall_seconds'', ''max_output_bytes'',
     ''max_concurrency'']"

definition reject_unknown ::
    "(string, pyval) pydict \<Rightarrow> string list \<Rightarrow> string \<Rightarrow> manifest_error + unit" where
  "reject_unknown raw allowed place =
     (let unknown = sort (remdups (filter (\<lambda>k. k \<notin> set allowed) (dkeys raw)))
      in if unknown \<noteq> [] then Inl (UnknownKeys place unknown) else Inr ())"

definition parse_text :: "pyval \<Rightarrow> string \<Rightarrow> bool \<Rightarrow> manifest_error + string" where
  "parse_text v place allow_empty = (case v of
      VStr s \<Rightarrow>
        (if \<not> allow_empty \<and> strip s = [] then Inl (NotText place)
         else Inr (if allow_empty then s else strip s))
    | _ \<Rightarrow> Inl (NotText place))"

definition parse_strings :: "pyval \<Rightarrow> string \<Rightarrow> manifest_error + string list" where
  "parse_strings v place = (case v of
      VList xs \<Rightarrow> rmap (\<lambda>item. case item of
          VStr s \<Rightarrow> (if strip s = [] then Inl (NotStrings place) else Inr (strip s))
        | _ \<Rightarrow> Inl (NotStrings place)) xs
    | _ \<Rightarrow> Inl (NotStrings place))"

definition parse_integer :: "pyval \<Rightarrow> string \<Rightarrow> int \<Rightarrow> int \<Rightarrow> manifest_error + int" where
  "parse_integer v place lo hi = (case v of
      VInt i \<Rightarrow> (if i < lo \<or> i > hi then Inl (OutOfRange place lo hi) else Inr i)
    | _ \<Rightarrow> Inl (NotInteger place))"

definition parse_table :: "pyval \<Rightarrow> string \<Rightarrow> manifest_error + (string, pyval) pydict" where
  "parse_table v place = (case v of VDict d \<Rightarrow> Inr d | _ \<Rightarrow> Inl (NotTable place))"

abbreviation raw_get :: "(string, pyval) pydict \<Rightarrow> string \<Rightarrow> pyval \<Rightarrow> pyval" where
  "raw_get d k dflt \<equiv> (case dget d k of None \<Rightarrow> dflt | Some v \<Rightarrow> v)"

definition indexed :: "string \<Rightarrow> nat \<Rightarrow> string \<Rightarrow> string" where
  "indexed base i sub = base @ ''['' @ show_nat i @ '']'' @ sub"

definition parse_handler :: "nat \<Rightarrow> pyval \<Rightarrow> manifest_error + handler_manifest" where
  "parse_handler i v =
     rbind (parse_table v (indexed ''handlers'' i '''')) (\<lambda>raw.
     rbind (reject_unknown raw handler_keys (indexed ''handlers'' i '''')) (\<lambda>_.
     rbind (parse_text (raw_get raw ''kind'' VNone) (indexed ''handlers'' i ''.kind'') False) (\<lambda>kind.
     if kind \<notin> set handler_kinds then Inl (BadKind kind) else
     rbind (parse_text (raw_get raw ''name'' VNone) (indexed ''handlers'' i ''.name'') False) (\<lambda>nm.
     if \<not> matches_id nm then Inl (BadId nm) else
     rbind (parse_text (raw_get raw ''entrypoint'' VNone) (indexed ''handlers'' i ''.entrypoint'') False) (\<lambda>ep.
     if \<not> matches_entrypoint ep then Inl (BadEntrypoint ep) else
     rbind (parse_table (raw_get raw ''schema'' (VDict [])) (indexed ''handlers'' i ''.schema'')) (\<lambda>schema.
     rbind (parse_strings (raw_get raw ''subscriptions'' (VList []))
             (indexed ''handlers'' i ''.subscriptions'')) (\<lambda>subs.
     rbind (case raw_get raw ''persistent'' (VBool False) of
              VBool b \<Rightarrow> Inr b | _ \<Rightarrow> Inl (NotBoolean (indexed ''handlers'' i ''.persistent''))) (\<lambda>persistent.
     rbind (parse_text (raw_get raw ''description'' (VStr ''''))
             (indexed ''handlers'' i ''.description'') True) (\<lambda>description.
     Inr \<lparr>hm_kind = kind, hm_name = nm, hm_entrypoint = ep, hm_description = description,
          hm_schema = schema, hm_subscriptions = subs, hm_persistent = persistent\<rparr>)))))))))"

definition parse_capability :: "nat \<Rightarrow> pyval \<Rightarrow> manifest_error + capability_pattern" where
  "parse_capability i v =
     rbind (parse_table v (indexed ''capabilities'' i '''')) (\<lambda>raw.
     rbind (reject_unknown raw capability_keys (indexed ''capabilities'' i '''')) (\<lambda>_.
     rbind (parse_text (raw_get raw ''right'' VNone) (indexed ''capabilities'' i ''.right'') False) (\<lambda>right.
     if \<not> matches_right right then Inl (BadRight right) else
     rbind (parse_text (raw_get raw ''resource'' (VStr ''*''))
             (indexed ''capabilities'' i ''.resource'') False) (\<lambda>resource.
     rbind (parse_strings (raw_get raw ''destinations'' (VList []))
             (indexed ''capabilities'' i ''.destinations'')) (\<lambda>destinations.
     rbind (parse_strings (raw_get raw ''labels'' (VList []))
             (indexed ''capabilities'' i ''.labels'')) (\<lambda>labels.
     rbind (parse_table (raw_get raw ''constraints'' (VDict []))
             (indexed ''capabilities'' i ''.constraints'')) (\<lambda>constraints.
     Inr \<lparr>cp_right = right, cp_resource = resource, cp_destinations = destinations,
          cp_labels = labels, cp_constraints = constraints\<rparr>)))))))"

definition parse_budgets :: "pyval \<Rightarrow> manifest_error + resource_budgets" where
  "parse_budgets v =
     rbind (parse_table v ''budgets'') (\<lambda>raw.
     rbind (reject_unknown raw budget_keys ''budgets'') (\<lambda>_.
     rbind (parse_integer (raw_get raw ''memory_mb'' (VInt 512)) ''budgets.memory_mb'' 64 32768) (\<lambda>mem.
     rbind (parse_integer (raw_get raw ''cpu_seconds'' (VInt 30)) ''budgets.cpu_seconds'' 1 86400) (\<lambda>cpu.
     rbind (parse_integer (raw_get raw ''wall_seconds'' (VInt 30)) ''budgets.wall_seconds'' 1 86400) (\<lambda>wall.
     rbind (parse_integer (raw_get raw ''max_output_bytes'' (VInt (8 * 1024 * 1024)))
             ''budgets.max_output_bytes'' 1024 (256 * 1024 * 1024)) (\<lambda>out.
     rbind (parse_integer (raw_get raw ''max_concurrency'' (VInt 1)) ''budgets.max_concurrency'' 1 128) (\<lambda>conc.
     Inr \<lparr>rb_memory_mb = mem, rb_cpu_seconds = cpu, rb_wall_seconds = wall,
          rb_max_output_bytes = out, rb_max_concurrency = conc\<rparr>)))))))"

text \<open>The elements of a list with their indices, as \<open>enumerate\<close> pairs them.\<close>

definition parse_all :: "(nat \<Rightarrow> pyval \<Rightarrow> manifest_error + 'a) \<Rightarrow> pyval list \<Rightarrow> manifest_error + 'a list" where
  "parse_all f xs = rmap (\<lambda>(i, x). f i x) (List.enumerate 0 xs)"

definition load_manifest :: "(string \<Rightarrow> string + pyval) \<Rightarrow> string \<Rightarrow> manifest_error + plugin_manifest" where
  "load_manifest read_toml source =
     rbind (case read_toml source of Inl msg \<Rightarrow> Inl (CouldNotParse msg) | Inr v \<Rightarrow> Inr v) (\<lambda>root.
     rbind (case root of VDict d \<Rightarrow> Inr d | _ \<Rightarrow> Inl RootNotTable) (\<lambda>raw.
     rbind (reject_unknown raw top_keys ''manifest'') (\<lambda>_.
     rbind (parse_integer (raw_get raw ''schema_version'' VNone) ''schema_version'' 1 1) (\<lambda>version_no.
     if version_no \<noteq> schema_version_supported then Inl (UnsupportedSchema version_no) else
     rbind (parse_text (raw_get raw ''id'' VNone) ''id'' False) (\<lambda>plugin_id.
     if \<not> matches_id plugin_id then Inl (BadId plugin_id) else
     rbind (parse_text (raw_get raw ''version'' VNone) ''version'' False) (\<lambda>version.
     rbind (parse_text (raw_get raw ''runtime'' (VStr ''python'')) ''runtime'' False) (\<lambda>runtime.
     if runtime \<noteq> ''python'' then Inl (BadRuntime runtime) else
     rbind (case raw_get raw ''handlers'' VNone of
              VList xs \<Rightarrow> (if xs = [] then Inl (NotArray ''handlers'') else Inr xs)
            | _ \<Rightarrow> Inl (NotArray ''handlers'')) (\<lambda>handlers_raw.
     rbind (parse_all parse_handler handlers_raw) (\<lambda>handlers.
     if \<not> distinct (map (\<lambda>item. (hm_kind item, hm_name item)) handlers) then Inl DuplicateHandlers else
     rbind (case raw_get raw ''capabilities'' (VList []) of
              VList xs \<Rightarrow> Inr xs | _ \<Rightarrow> Inl (NotArray ''capabilities'')) (\<lambda>capabilities_raw.
     rbind (parse_all parse_capability capabilities_raw) (\<lambda>capabilities.
     rbind (parse_budgets (raw_get raw ''budgets'' (VDict []))) (\<lambda>budgets.
     rbind (parse_text (raw_get raw ''description'' (VStr '''')) ''description'' True) (\<lambda>description.
     Inr \<lparr>pm_schema_version = version_no, pm_plugin_id = plugin_id, pm_version = version,
          pm_runtime = runtime, pm_description = description, pm_handlers = handlers,
          pm_capabilities = capabilities, pm_budgets = budgets, pm_source_path = source\<rparr>)))))))))))))"

section \<open>What an accepted manifest guarantees\<close>

lemma parse_integer_bounds: "parse_integer v place lo hi = Inr i \<Longrightarrow> lo \<le> i \<and> i \<le> hi"
  by (auto simp: parse_integer_def split: pyval.splits if_splits)

definition budgets_ok :: "resource_budgets \<Rightarrow> bool" where
  "budgets_ok b \<longleftrightarrow>
     64 \<le> rb_memory_mb b \<and> rb_memory_mb b \<le> 32768 \<and>
     1 \<le> rb_cpu_seconds b \<and> rb_cpu_seconds b \<le> 86400 \<and>
     1 \<le> rb_wall_seconds b \<and> rb_wall_seconds b \<le> 86400 \<and>
     1024 \<le> rb_max_output_bytes b \<and> rb_max_output_bytes b \<le> 268435456 \<and>
     1 \<le> rb_max_concurrency b \<and> rb_max_concurrency b \<le> 128"

definition handler_ok :: "handler_manifest \<Rightarrow> bool" where
  "handler_ok item \<longleftrightarrow> hm_kind item \<in> set handler_kinds \<and> matches_id (hm_name item) \<and>
     matches_entrypoint (hm_entrypoint item)"

definition capability_ok :: "capability_pattern \<Rightarrow> bool" where
  "capability_ok item \<longleftrightarrow> matches_right (cp_right item) \<and> cp_resource item \<noteq> [] \<and>
     [] \<notin> set (cp_destinations item)"

definition manifest_ok :: "plugin_manifest \<Rightarrow> bool" where
  "manifest_ok m \<longleftrightarrow>
     pm_schema_version m = 1 \<and> matches_id (pm_plugin_id m) \<and> pm_runtime m = ''python'' \<and>
     pm_handlers m \<noteq> [] \<and> (\<forall>item \<in> set (pm_handlers m). handler_ok item) \<and>
     distinct (map (\<lambda>item. (hm_kind item, hm_name item)) (pm_handlers m)) \<and>
     (\<forall>item \<in> set (pm_capabilities m). capability_ok item) \<and> budgets_ok (pm_budgets m)"

lemma parse_budgets_ok: "parse_budgets v = Inr b \<Longrightarrow> budgets_ok b"
  by (auto simp: parse_budgets_def rbind_Inr budgets_ok_def dest!: parse_integer_bounds)

lemma parse_handler_ok: "parse_handler i v = Inr item \<Longrightarrow> handler_ok item"
  by (auto simp: parse_handler_def rbind_Inr handler_ok_def split: if_splits)

lemma parse_text_nonempty: "parse_text v place False = Inr s \<Longrightarrow> s \<noteq> []"
  by (auto simp: parse_text_def split: pyval.splits if_splits)

lemma parse_strings_nonempty: "parse_strings v place = Inr ss \<Longrightarrow> [] \<notin> set ss"
  by (auto simp: parse_strings_def split: pyval.splits if_splits dest!: rmap_Inr_set)

lemma parse_capability_ok: "parse_capability i v = Inr item \<Longrightarrow> capability_ok item"
  by (auto simp: parse_capability_def rbind_Inr capability_ok_def split: if_splits
      dest: parse_text_nonempty parse_strings_nonempty)

lemma parse_all_ok:
  "parse_all f xs = Inr ys \<Longrightarrow> (\<And>i x y. f i x = Inr y \<Longrightarrow> P y) \<Longrightarrow>
   (\<forall>y \<in> set ys. P y) \<and> length ys = length xs"
  by (fastforce simp: parse_all_def dest: rmap_Inr_length rmap_Inr_set)

lemmas parse_handlers_ok = parse_all_ok [where f = parse_handler and P = handler_ok, OF _ parse_handler_ok]
lemmas parse_capabilities_ok =
  parse_all_ok [where f = parse_capability and P = capability_ok, OF _ parse_capability_ok]

lemma load_manifest_ok: "load_manifest read_toml source = Inr m \<Longrightarrow> manifest_ok m"
  unfolding load_manifest_def manifest_ok_def
  by (auto simp: rbind_Inr schema_version_supported_def split: if_splits pyval.splits
      dest: parse_budgets_ok dest!: parse_handlers_ok parse_capabilities_ok)

end
