(* ===== verification/Capabilities.thy ===== *)
theory Capabilities
  imports Manifest
begin

text \<open>
  \<open>security/vocabulary.py\<close> and the data of \<open>security/capabilities.py\<close>: the closed vocabulary of
  rights, information labels, provenance, and the registry that issues, resolves, narrows and
  revokes opaque resource references. A clock reading is an integer; each operation takes the
  one reading it uses as an argument. Tokens drawn from \<open>secrets\<close> come from a generator
  \<open>gen\<close>, indexed by the number of draws the registry has made.
\<close>

type_synonym time = int

section \<open>The closed vocabulary\<close>

datatype effect_kind = OBSERVE | MUTATE | EGRESS | ADMINISTER

fun effect_name :: "effect_kind \<Rightarrow> string" where
  "effect_name OBSERVE = ''observe''"
| "effect_name MUTATE = ''mutate''"
| "effect_name EGRESS = ''egress''"
| "effect_name ADMINISTER = ''administer''"

record capability_descriptor =
  cd_right :: string
  cd_effect :: effect_kind
  cd_observes :: bool
  cd_mutates :: bool
  cd_egresses :: bool
  cd_administers :: bool
  cd_resource_required :: bool
  cd_may_be_reversible :: bool
  cd_autonomous :: bool

text \<open>The builder \<open>_d\<close>; \<open>None\<close> stands for the keyword arguments left out.\<close>

definition make_descriptor ::
    "string \<Rightarrow> effect_kind \<Rightarrow> bool \<Rightarrow> bool \<Rightarrow> bool option \<Rightarrow> bool option \<Rightarrow> capability_descriptor" where
  "make_descriptor right effect reversible autonomous observes resource_required =
     (let is_observe = (case observes of None \<Rightarrow> effect = OBSERVE | Some b \<Rightarrow> b);
          is_mutate = (effect = MUTATE)
      in \<lparr>cd_right = right, cd_effect = effect, cd_observes = is_observe, cd_mutates = is_mutate,
          cd_egresses = (effect = EGRESS), cd_administers = (effect = ADMINISTER),
          cd_resource_required =
            (case resource_required of None \<Rightarrow> is_observe \<or> is_mutate | Some b \<Rightarrow> b),
          cd_may_be_reversible = reversible, cd_autonomous = autonomous\<rparr>)"

definition capability_table :: "(string, capability_descriptor) pydict" where
  "capability_table = map (\<lambda>d. (cd_right d, d))
    [make_descriptor ''files.read'' OBSERVE False False None None,
     make_descriptor ''files.list'' OBSERVE False False None None,
     make_descriptor ''files.stat'' OBSERVE False False None None,
     make_descriptor ''files.write'' MUTATE True False None None,
     make_descriptor ''files.delete'' MUTATE True False None None,
     make_descriptor ''files.move'' MUTATE True False None None,
     make_descriptor ''data.read'' OBSERVE False False None None,
     make_descriptor ''data.write'' MUTATE True False None None,
     make_descriptor ''data.admin_sql'' ADMINISTER False False None None,
     make_descriptor ''network.http'' EGRESS False False (Some True) (Some False),
     make_descriptor ''network.websocket'' EGRESS False False (Some True) (Some False),
     make_descriptor ''network.listen'' EGRESS False True (Some True) (Some False),
     make_descriptor ''models.complete'' EGRESS False False (Some True) (Some False),
     make_descriptor ''models.embed'' EGRESS False False (Some True) (Some False),
     make_descriptor ''runtime.ask_user'' OBSERVE False False None (Some False),
     make_descriptor ''runtime.call_tool'' MUTATE False False None None,
     make_descriptor ''runtime.schedule'' MUTATE True True None None,
     make_descriptor ''runtime.emit'' MUTATE False False None None,
     make_descriptor ''runtime.notify'' EGRESS False False None (Some False),
     make_descriptor ''runtime.conversation_read'' OBSERVE False False None None,
     make_descriptor ''runtime.conversation_write'' MUTATE True False None None,
     make_descriptor ''runtime.spawn_agent'' MUTATE False True None None,
     make_descriptor ''runtime.package_admin'' ADMINISTER False False None None,
     make_descriptor ''process.run'' EGRESS False False (Some True) (Some False),
     make_descriptor ''process.host_run'' ADMINISTER False False None None,
     make_descriptor ''outputs.respond'' OBSERVE False False None None,
     make_descriptor ''outputs.attach'' OBSERVE False False None None]"

definition descriptor :: "string \<Rightarrow> capability_descriptor option" where
  "descriptor right = dget capability_table right"

section \<open>Information labels\<close>

datatype data_label = PUBLIC | USER_PRIVATE | SYSTEM_SENSITIVE | SECRET

fun label_value :: "data_label \<Rightarrow> nat" where
  "label_value PUBLIC = 0"
| "label_value USER_PRIVATE = 1"
| "label_value SYSTEM_SENSITIVE = 2"
| "label_value SECRET = 3"

lemma label_value_inj: "label_value a = label_value b \<Longrightarrow> a = b"
  by (cases a; cases b) simp_all

instantiation data_label :: linorder
begin

definition less_eq_data_label :: "data_label \<Rightarrow> data_label \<Rightarrow> bool" where
  "less_eq_data_label a b \<longleftrightarrow> label_value a \<le> label_value b"

definition less_data_label :: "data_label \<Rightarrow> data_label \<Rightarrow> bool" where
  "less_data_label a b \<longleftrightarrow> label_value a < label_value b"

instance
  by standard (auto simp: less_eq_data_label_def less_data_label_def dest: label_value_inj)

end

instance data_label :: finite
proof
  have "(UNIV :: data_label set) \<subseteq> {PUBLIC, USER_PRIVATE, SYSTEM_SENSITIVE, SECRET}"
    using data_label.exhaust by blast
  then show "finite (UNIV :: data_label set)" by (rule finite_subset) simp
qed

text \<open>\<open>max(labels, default=PUBLIC) > PUBLIC\<close>\<close>

definition sensitive :: "data_label set \<Rightarrow> bool" where
  "sensitive labels \<longleftrightarrow> (if labels = {} then PUBLIC else Max labels) > PUBLIC"

lemma PUBLIC_least: "PUBLIC < l \<longleftrightarrow> l \<noteq> PUBLIC"
  by (cases l) (simp_all add: less_data_label_def)

lemma sensitive_iff: "sensitive labels \<longleftrightarrow> (\<exists>l \<in> labels. l \<noteq> PUBLIC)"
  by (auto simp: sensitive_def PUBLIC_least Max_gr_iff [of labels PUBLIC] simp flip: PUBLIC_least)

lemma sensitive_mono: "sensitive A \<Longrightarrow> A \<subseteq> B \<Longrightarrow> sensitive B"
  by (auto simp: sensitive_iff)

section \<open>Provenance\<close>

record provenance_frame =
  pf_digest :: string
  pf_handler :: string

record provenance_chain =
  pc_principal :: string
  pc_frames :: "provenance_frame list"

definition current_digest :: "provenance_chain \<Rightarrow> string" where
  "current_digest c = (if pc_frames c = [] then '''' else pf_digest (last (pc_frames c)))"

datatype authority_error =
    ProvenanceCycle
  | MissingFields
  | ParentAbsent
  | NotDelegable
  | RightsNotSubset
  | SelectorBroader
  | DuplicateLease

definition provenance_enter ::
    "provenance_chain \<Rightarrow> string \<Rightarrow> string \<Rightarrow> authority_error + provenance_chain" where
  "provenance_enter c digest handler =
     (if list_ex (\<lambda>item. pf_digest item = digest \<and> pf_handler item = handler) (pc_frames c)
      then Inl ProvenanceCycle
      else Inr (c\<lparr>pc_frames := pc_frames c @ [\<lparr>pf_digest = digest, pf_handler = handler\<rparr>]\<rparr>))"

lemma provenance_enter_distinct:
  "provenance_enter c digest handler = Inr c' \<Longrightarrow> distinct (pc_frames c) \<Longrightarrow>
   distinct (pc_frames c') \<and> current_digest c' = digest \<and> pc_principal c' = pc_principal c"
  by (force simp: provenance_enter_def current_digest_def list_ex_iff split: if_splits)

section \<open>Invocation identity, requests and decisions\<close>

record authority_context =
  ac_digest :: string
  ac_principal :: string
  ac_provenance :: provenance_chain
  ac_user :: "int option"
  ac_session :: "string option"
  ac_conversation :: "int option"
  ac_unattended :: bool
  ac_taint :: "data_label set"

record capability_request =
  rq_right :: string
  rq_token :: string
  rq_selector :: string
  rq_destination :: string
  rq_labels :: "data_label set"

record mediation_facts =
  mf_undo_ready :: bool
  mf_destination_verified :: bool
  mf_resource_exists :: bool
  mf_observed :: "data_label set"

definition default_facts :: mediation_facts where
  "default_facts = \<lparr>mf_undo_ready = False, mf_destination_verified = False,
     mf_resource_exists = True, mf_observed = {}\<rparr>"

record policy_decision =
  pd_allowed :: bool
  pd_reason :: string
  pd_effect :: "effect_kind option"
  pd_lease_id :: string
  pd_labels :: "data_label set"
  pd_observes :: bool

text \<open>A scope field restricts the holder only when it is set.\<close>

definition scope_ok :: "'a option \<Rightarrow> 'a option \<Rightarrow> bool" where
  "scope_ok bound actual \<longleftrightarrow> bound = None \<or> bound = actual"

section \<open>Resource references\<close>

record resource_ref =
  ref_token :: string
  ref_digest :: string
  ref_principal :: string
  ref_rights :: "string set"
  ref_selector :: string
  ref_alias :: string
  ref_labels :: "data_label set"
  ref_user :: "int option"
  ref_session :: "string option"
  ref_conversation :: "int option"
  ref_expires :: "time option"
  ref_depth :: int

definition ref_expired :: "resource_ref \<Rightarrow> time \<Rightarrow> bool" where
  "ref_expired r now = (case ref_expires r of None \<Rightarrow> False | Some e \<Rightarrow> now \<ge> e)"

record 'b registry =
  rr_items :: "(string, resource_ref) pydict"
  rr_bindings :: "(string, 'b) pydict"
  rr_draws :: nat

definition empty_registry :: "'b registry" where
  "empty_registry = \<lparr>rr_items = [], rr_bindings = [], rr_draws = 0\<rparr>"

definition forget :: "string \<Rightarrow> 'b registry \<Rightarrow> 'b registry" where
  "forget token reg = reg\<lparr>rr_items := dpop token (rr_items reg), rr_bindings := dpop token (rr_bindings reg)\<rparr>"

definition issue ::
    "(nat \<Rightarrow> string) \<Rightarrow> string \<Rightarrow> string \<Rightarrow> string list \<Rightarrow> string \<Rightarrow> string \<Rightarrow> data_label set \<Rightarrow>
     int option \<Rightarrow> string option \<Rightarrow> int option \<Rightarrow> time option \<Rightarrow> int \<Rightarrow> 'b option \<Rightarrow>
     'b registry \<Rightarrow> (authority_error + resource_ref) \<times> 'b registry" where
  "issue gen digest princ rights selector alias labels user session conv expires depth bnd reg =
     (if digest = [] \<or> princ = [] \<or> set rights = {} \<or> selector = []
      then (Inl MissingFields, reg)
      else (let token = gen (rr_draws reg);
                ref = \<lparr>ref_token = token, ref_digest = digest, ref_principal = princ,
                  ref_rights = set rights, ref_selector = selector, ref_alias = alias,
                  ref_labels = (if labels = {} then {PUBLIC} else labels),
                  ref_user = user, ref_session = session, ref_conversation = conv,
                  ref_expires = expires, ref_depth = max 0 depth\<rparr>
            in (Inr ref,
                reg\<lparr>rr_draws := Suc (rr_draws reg),
                    rr_items := dset token ref (rr_items reg),
                    rr_bindings := (case bnd of None \<Rightarrow> rr_bindings reg
                                    | Some b \<Rightarrow> dset token b (rr_bindings reg))\<rparr>)))"

definition resolve :: "time \<Rightarrow> string \<Rightarrow> 'b registry \<Rightarrow> resource_ref option \<times> 'b registry" where
  "resolve now token reg = (case dget (rr_items reg) token of
      None \<Rightarrow> (None, forget token reg)
    | Some item \<Rightarrow>
        (if ref_expired item now then (None, forget token reg) else (Some item, reg)))"

definition revoke :: "string \<Rightarrow> 'b registry \<Rightarrow> bool \<times> 'b registry" where
  "revoke token reg = (dget (rr_items reg) token \<noteq> None, forget token reg)"

definition binding :: "time \<Rightarrow> string \<Rightarrow> 'b registry \<Rightarrow> 'b option \<times> 'b registry" where
  "binding now token reg = (case resolve now token reg of
      (None, reg') \<Rightarrow> (None, reg'\<lparr>rr_bindings := dpop token (rr_bindings reg')\<rparr>)
    | (Some _, reg') \<Rightarrow> (dget (rr_bindings reg') token, reg'))"

text \<open>A child never outlives its parent.\<close>

definition child_expiry :: "time option \<Rightarrow> time option \<Rightarrow> time option" where
  "child_expiry parent wanted = (case parent of
      None \<Rightarrow> wanted
    | Some p \<Rightarrow> (case wanted of None \<Rightarrow> Some p | Some w \<Rightarrow> if w > p then Some p else Some w))"

definition attenuate ::
    "(nat \<Rightarrow> string) \<Rightarrow> time \<Rightarrow> string \<Rightarrow> string \<Rightarrow> string list \<Rightarrow> string option \<Rightarrow> time option \<Rightarrow>
     'b registry \<Rightarrow> (authority_error + resource_ref) \<times> 'b registry" where
  "attenuate gen now parent_token digest rights selector expires reg =
     (case resolve now parent_token reg of
        (None, reg') \<Rightarrow> (Inl ParentAbsent, reg')
      | (Some parent, reg') \<Rightarrow>
          (if ref_depth parent \<le> 0 then (Inl NotDelegable, reg')
           else if set rights = {} \<or> \<not> set rights \<subseteq> ref_rights parent then (Inl RightsNotSubset, reg')
           else (let child_selector =
                   (case selector of None \<Rightarrow> ref_selector parent
                    | Some s \<Rightarrow> if s = [] then ref_selector parent else s)
                 in if \<not> selector_contains (ref_selector parent) child_selector
                    then (Inl SelectorBroader, reg')
                    else (case binding now parent_token reg' of (bnd, reg'') \<Rightarrow>
                      issue gen digest (ref_principal parent) rights child_selector (ref_alias parent)
                        (ref_labels parent) (ref_user parent) (ref_session parent)
                        (ref_conversation parent) (child_expiry (ref_expires parent) expires)
                        (ref_depth parent - 1) bnd reg''))))"

text \<open>The references an invocation may see, in issue order; expired ones are dropped on the way.\<close>

definition held_by :: "authority_context \<Rightarrow> resource_ref \<Rightarrow> bool" where
  "held_by auth ref \<longleftrightarrow>
     ref_digest ref = ac_digest auth \<and> ref_principal ref = ac_principal auth \<and>
     scope_ok (ref_user ref) (ac_user auth) \<and> scope_ok (ref_session ref) (ac_session auth) \<and>
     scope_ok (ref_conversation ref) (ac_conversation auth)"

fun collect_held :: "time \<Rightarrow> authority_context \<Rightarrow> string list \<Rightarrow> 'b registry \<Rightarrow> resource_ref list \<times> 'b registry" where
  "collect_held now auth [] reg = ([], reg)"
| "collect_held now auth (t # ts) reg =
     (case resolve now t reg of
        (None, reg') \<Rightarrow> collect_held now auth ts reg'
      | (Some ref, reg') \<Rightarrow>
          (case collect_held now auth ts reg' of (out, reg'') \<Rightarrow>
             (if held_by auth ref then (ref # out, reg'') else (out, reg''))))"

definition for_authority :: "time \<Rightarrow> authority_context \<Rightarrow> 'b registry \<Rightarrow> resource_ref list \<times> 'b registry" where
  "for_authority now auth reg = collect_held now auth (dkeys (rr_items reg)) reg"

end
