(* ===== verification/Registry.thy ===== *)
theory Registry
  imports Capabilities
begin

text \<open>
  Lemmas on the resource registry, and the contract every token registry of the program keeps:
  a lookup answers only live entries the caller may use, never changes another entry, and a
  removed or expired entry stays gone. The resource, secret and attachment registries are its
  instances.
\<close>

section \<open>The contract of a token registry\<close>

locale token_registry =
  fixes entry :: "'s \<Rightarrow> string \<Rightarrow> 'r option"
    and lookup :: "time \<Rightarrow> 'c \<Rightarrow> string \<Rightarrow> 's \<Rightarrow> 'r option \<times> 's"
    and remove :: "string \<Rightarrow> 's \<Rightarrow> 's"
    and expired :: "'r \<Rightarrow> time \<Rightarrow> bool"
    and permits :: "'c \<Rightarrow> 'r \<Rightarrow> bool"
  assumes lookup_Some: "fst (lookup now c t s) = Some r \<longleftrightarrow>
      entry s t = Some r \<and> \<not> expired r now \<and> permits c r"
    and lookup_same: "entry s t = Some r \<Longrightarrow> \<not> expired r now \<Longrightarrow> entry (snd (lookup now c t s)) = entry s"
    and lookup_drop: "entry s t = Some r \<Longrightarrow> expired r now \<Longrightarrow> entry (snd (lookup now c t s)) = (entry s)(t := None)"
    and lookup_absent: "entry s t = None \<Longrightarrow> entry (snd (lookup now c t s)) = entry s"
    and remove_entry: "entry (remove t s) = (entry s)(t := None)"
    and expired_mono: "expired r now \<Longrightarrow> now \<le> later \<Longrightarrow> expired r later"
begin

lemma lookup_frame: "t' \<noteq> t \<Longrightarrow> entry (snd (lookup now c t s)) t' = entry s t'"
  by (cases "entry s t") (metis fun_upd_other lookup_absent lookup_drop lookup_same)+

lemma lookup_shrinks: "entry (snd (lookup now c t s)) t' = Some r \<Longrightarrow> entry s t' = Some r"
  by (cases "entry s t") (metis fun_upd_apply lookup_absent lookup_drop lookup_same option.distinct(1))+

lemma removed_stays_gone: "fst (lookup now c t (remove t s)) = None"
  by (cases "fst (lookup now c t (remove t s))") (auto simp: lookup_Some remove_entry)

lemma lookup_again:
  "fst (lookup now c t s) = Some r \<Longrightarrow> fst (lookup now c t (snd (lookup now c t s))) = Some r"
  by (auto simp: lookup_Some lookup_same)

lemma expired_stays_gone:
  assumes "entry s t = Some r" and "expired r now" and "now \<le> later"
  shows "fst (lookup later c t s) = None"
    and "fst (lookup later c t (snd (lookup now c' t s))) = None"
proof -
  from assms show "fst (lookup later c t s) = None"
    by (cases "fst (lookup later c t s)") (auto simp: lookup_Some dest: expired_mono)
  from assms show "fst (lookup later c t (snd (lookup now c' t s))) = None"
    by (cases "fst (lookup later c t (snd (lookup now c' t s)))")
      (auto simp: lookup_Some lookup_drop)
qed

end

section \<open>The resource registry\<close>

abbreviation ref_of :: "'b registry \<Rightarrow> string \<Rightarrow> resource_ref option" where
  "ref_of reg \<equiv> dget (rr_items reg)"

lemma forget_items [simp]: "ref_of (forget t reg) = (ref_of reg)(t := None)"
  by (auto simp: forget_def)

lemma forget_draws [simp]: "rr_draws (forget t reg) = rr_draws reg"
  by (simp add: forget_def)

lemma resolve_Some:
  "resolve now t reg = (Some r, reg') \<longleftrightarrow> ref_of reg t = Some r \<and> \<not> ref_expired r now \<and> reg' = reg"
  by (auto simp: resolve_def split: option.splits if_splits)

lemma resolve_None:
  "resolve now t reg = (None, reg') \<longleftrightarrow>
   reg' = forget t reg \<and> (ref_of reg t = None \<or> (\<exists>r. ref_of reg t = Some r \<and> ref_expired r now))"
  by (auto simp: resolve_def split: option.splits if_splits)

lemma ref_expired_mono: "ref_expired r now \<Longrightarrow> now \<le> later \<Longrightarrow> ref_expired r later"
  by (auto simp: ref_expired_def split: option.splits)

interpretation resources: token_registry
  ref_of "\<lambda>now (_ :: unit) t reg. resolve now t reg" "\<lambda>t reg. snd (revoke t reg)"
  ref_expired "\<lambda>_ _. True"
proof unfold_locales
  fix now t and r :: resource_ref and s :: "'b registry"
  show "fst (resolve now t s) = Some r \<longleftrightarrow> ref_of s t = Some r \<and> \<not> ref_expired r now \<and> True"
    by (auto simp: resolve_def split: option.splits)
next
  fix s :: "'b registry" and t r now
  assume "ref_of s t = Some r" "\<not> ref_expired r now"
  then show "ref_of (snd (resolve now t s)) = ref_of s" by (simp add: resolve_def)
next
  fix s :: "'b registry" and t r now
  assume "ref_of s t = Some r" "ref_expired r now"
  then show "ref_of (snd (resolve now t s)) = (ref_of s)(t := None)" by (auto simp: resolve_def)
next
  fix s :: "'b registry" and t now
  assume "ref_of s t = None"
  then show "ref_of (snd (resolve now t s)) = ref_of s" by (auto simp: resolve_def)
next
  fix s :: "'b registry" and t
  show "ref_of (snd (revoke t s)) = (ref_of s)(t := None)" by (auto simp: revoke_def)
qed (rule ref_expired_mono)

text \<open>Every token was drawn from the generator, and a reference is filed under its own token.\<close>

definition registry_wf :: "(nat \<Rightarrow> string) \<Rightarrow> 'b registry \<Rightarrow> bool" where
  "registry_wf gen reg \<longleftrightarrow>
     (\<forall>t r. ref_of reg t = Some r \<longrightarrow> ref_token r = t \<and> (\<exists>i < rr_draws reg. t = gen i))"

lemma registry_wf_empty: "registry_wf gen empty_registry"
  by (simp add: registry_wf_def empty_registry_def)

lemma registry_wf_forget: "registry_wf gen reg \<Longrightarrow> registry_wf gen (forget t reg)"
  by (auto simp: registry_wf_def split: if_splits)

lemma registry_wf_resolve: "registry_wf gen reg \<Longrightarrow> registry_wf gen (snd (resolve now t reg))"
  by (auto simp: resolve_def registry_wf_forget split: option.splits)

lemma binding_items: "rr_items (snd (binding now t reg)) = rr_items (snd (resolve now t reg))"
  and binding_draws: "rr_draws (snd (binding now t reg)) = rr_draws (snd (resolve now t reg))"
  by (auto simp: binding_def split: prod.splits option.splits)

lemma binding_live: "resolve now t reg = (Some r, reg) \<Longrightarrow> binding now t reg = (dget (rr_bindings reg) t, reg)"
  by (simp add: binding_def)

lemma issue_Inr:
  assumes "issue gen digest princ rights selector alias labels user session conv expires depth bnd reg
             = (Inr ref, reg')"
  shows "ref_token ref = gen (rr_draws reg)" "ref_digest ref = digest" "ref_principal ref = princ"
    "ref_rights ref = set rights" "ref_rights ref \<noteq> {}" "ref_selector ref = selector"
    "ref_labels ref = (if labels = {} then {PUBLIC} else labels)"
    "ref_user ref = user" "ref_session ref = session" "ref_conversation ref = conv"
    "ref_expires ref = expires" "ref_depth ref = max 0 depth" "ref_alias ref = alias"
    "ref_of reg' = (ref_of reg)(gen (rr_draws reg) := Some ref)" "rr_draws reg' = Suc (rr_draws reg)"
  using assms by (auto simp: issue_def Let_def split: if_splits)

lemma issue_Inl:
  "issue gen digest princ rights selector alias labels user session conv expires depth bnd reg
     = (Inl e, reg') \<Longrightarrow> reg' = reg"
  by (auto simp: issue_def Let_def split: if_splits)

lemma registry_wf_issue:
  assumes "registry_wf gen reg"
    and "issue gen digest princ rights selector alias labels user session conv expires depth bnd reg
           = (Inr ref, reg')"
  shows "registry_wf gen reg'"
  using assms(1) issue_Inr [OF assms(2)]
  by (auto simp: registry_wf_def less_Suc_eq split: if_splits)

text \<open>A fresh token never replaces a reference that is already out.\<close>

lemma issue_fresh:
  assumes "inj gen" and "registry_wf gen reg"
  shows "ref_of reg (gen (rr_draws reg)) = None"
proof (rule ccontr)
  assume "ref_of reg (gen (rr_draws reg)) \<noteq> None"
  with assms(2) obtain i where "i < rr_draws reg" "gen i = gen (rr_draws reg)"
    by (auto simp: registry_wf_def) metis
  with assms(1) show False by (auto dest: injD)
qed

lemma issue_keeps_others:
  assumes "inj gen" and "registry_wf gen reg"
    and "issue gen digest princ rights selector alias labels user session conv expires depth bnd reg
           = (Inr ref, reg')"
    and "ref_of reg t = Some r"
  shows "ref_of reg' t = Some r"
  using issue_fresh [OF assms(1,2)] issue_Inr(14) [OF assms(3)] assms(4) by auto

section \<open>Attenuation\<close>

text \<open>What it means for a child reference to carry no more authority than its parent.\<close>

definition attenuates :: "resource_ref \<Rightarrow> resource_ref \<Rightarrow> bool" where
  "attenuates parent child \<longleftrightarrow>
     ref_rights child \<noteq> {} \<and> ref_rights child \<subseteq> ref_rights parent \<and>
     selector_contains (ref_selector parent) (ref_selector child) \<and>
     ref_principal child = ref_principal parent \<and>
     ref_labels parent \<subseteq> ref_labels child \<and>
     ref_user child = ref_user parent \<and> ref_session child = ref_session parent \<and>
     ref_conversation child = ref_conversation parent \<and>
     (\<forall>now. ref_expired parent now \<longrightarrow> ref_expired child now) \<and>
     ref_depth child < ref_depth parent \<and> 0 \<le> ref_depth child"

lemma child_expiry_expired:
  "ref_expires child = child_expiry (ref_expires parent) wanted \<Longrightarrow> ref_expired parent now \<Longrightarrow>
   ref_expired child now"
  by (auto simp: child_expiry_def ref_expired_def split: option.splits if_splits)

lemma attenuate_Inr:
  assumes "attenuate gen now pt digest rights selector expires reg = (Inr child, reg')"
  obtains parent where "ref_of reg pt = Some parent" "\<not> ref_expired parent now"
    "attenuates parent child" "ref_digest child = digest" "ref_rights child = set rights"
    "ref_token child = gen (rr_draws reg)" "rr_draws reg' = Suc (rr_draws reg)"
    "ref_of reg' = (ref_of reg)(gen (rr_draws reg) := Some child)"
proof -
  from assms obtain parent where p: "resolve now pt reg = (Some parent, reg)"
    by (auto simp: attenuate_def resolve_Some split: prod.splits option.splits)
  define cs where "cs = (case selector of None \<Rightarrow> ref_selector parent
                         | Some s \<Rightarrow> if s = [] then ref_selector parent else s)"
  from assms p have d: "ref_depth parent > 0" and r: "set rights \<noteq> {}" "set rights \<subseteq> ref_rights parent"
    and c: "selector_contains (ref_selector parent) cs"
    and i: "issue gen digest (ref_principal parent) rights cs (ref_alias parent)
        (ref_labels parent) (ref_user parent) (ref_session parent) (ref_conversation parent)
        (child_expiry (ref_expires parent) expires) (ref_depth parent - 1)
        (dget (rr_bindings reg) pt) reg = (Inr child, reg')"
    by (simp_all add: attenuate_def binding_live [OF p] cs_def [symmetric] split: if_splits)
  note f = issue_Inr [OF i]
  have "attenuates parent child"
    using r c d f child_expiry_expired [of child parent expires] by (auto simp: attenuates_def)
  with p f show ?thesis by (intro that) (auto simp: resolve_Some)
qed

lemma attenuate_Inl_items:
  "attenuate gen now pt digest rights selector expires reg = (Inl e, reg') \<Longrightarrow>
   ref_of reg' = ref_of reg \<or> ref_of reg' = (ref_of reg)(pt := None)"
proof -
  assume a: "attenuate gen now pt digest rights selector expires reg = (Inl e, reg')"
  show ?thesis
  proof (cases "resolve now pt reg")
    case (Pair res reg1)
    show ?thesis
    proof (cases res)
      case None
      with a Pair show ?thesis by (auto simp: attenuate_def resolve_None)
    next
      case (Some parent)
      with Pair have p: "resolve now pt reg = (Some parent, reg)" by (simp add: resolve_Some)
      with a show ?thesis
        by (auto simp: attenuate_def binding_live [OF p] Let_def dest!: issue_Inl split: if_splits)
    qed
  qed
qed

text \<open>Chains of delegation: each step attenuates the one before.\<close>

inductive delegated :: "resource_ref \<Rightarrow> nat \<Rightarrow> resource_ref \<Rightarrow> bool" where
  delegated_root: "delegated r 0 r"
| delegated_step: "delegated r n s \<Longrightarrow> attenuates s t \<Longrightarrow> delegated r (Suc n) t"

inductive_cases delegated_SucE: "delegated r (Suc n) t"

lemma delegated_bounds:
  "delegated r n s \<Longrightarrow> 0 \<le> ref_depth r \<Longrightarrow>
   0 \<le> ref_depth s \<and> int n + ref_depth s \<le> ref_depth r \<and> ref_rights s \<subseteq> ref_rights r \<and>
   ref_labels r \<subseteq> ref_labels s \<and> ref_principal s = ref_principal r \<and>
   (\<forall>now. ref_expired r now \<longrightarrow> ref_expired s now)"
  by (induction rule: delegated.induct) (auto simp: attenuates_def)

text \<open>
  Selectors narrow along the chain as well when the root's selector is clean; from an unclean
  root one delegation can widen the authority.
\<close>

lemma delegated_selector:
  "delegated r n s \<Longrightarrow> clean_selector (ref_selector r) \<Longrightarrow>
   selector_contains (ref_selector r) (ref_selector s)"
proof (induction rule: delegated.induct)
  case (delegated_root r)
  show ?case by (rule selector_contains_refl)
next
  case (delegated_step r n s t)
  then show ?case
    by (auto simp: attenuates_def intro: selector_contains_trans [of _ "ref_selector s"])
qed

end
