(* ===== verification/Leases.thy ===== *)
theory Leases
  imports Capabilities "HOL-Library.Product_Lexorder"
begin

text \<open>
  Grant leases: the in-memory store of \<open>security/capabilities.py\<close> and the durable one of
  \<open>security/storage.py\<close>, with the contract both keep towards the reference monitor.
\<close>

section \<open>Leases\<close>

record grant_lease =
  gl_id :: string
  gl_digest :: string
  gl_principal :: string
  gl_right :: string
  gl_selector :: string
  gl_labels :: "data_label set"
  gl_destination :: string
  gl_user :: "int option"
  gl_session :: "string option"
  gl_conversation :: "int option"
  gl_unattended :: bool
  gl_expires :: "time option"
  gl_uses :: "int option"
  gl_provenance :: "string list"
  gl_revoked :: bool

definition lease_active :: "grant_lease \<Rightarrow> time \<Rightarrow> bool" where
  "lease_active l now \<longleftrightarrow>
     \<not> gl_revoked l \<and>
     (case gl_expires l of None \<Rightarrow> True | Some e \<Rightarrow> now < e) \<and>
     (case gl_uses l of None \<Rightarrow> True | Some n \<Rightarrow> n > 0)"

definition frame_digests :: "authority_context \<Rightarrow> string list" where
  "frame_digests auth = map pf_digest (pc_frames (ac_provenance auth))"

text \<open>The tests both stores make on a candidate, in the order of the source.\<close>

definition lease_in_scope :: "authority_context \<Rightarrow> capability_request \<Rightarrow> data_label set \<Rightarrow> grant_lease \<Rightarrow> bool" where
  "lease_in_scope auth req labels l \<longleftrightarrow>
     selector_contains (gl_selector l) (rq_selector req) \<and>
     (rq_destination req \<noteq> [] \<longrightarrow> selector_contains (gl_destination l) (rq_destination req)) \<and>
     labels \<subseteq> gl_labels l \<and>
     scope_ok (gl_user l) (ac_user auth) \<and>
     scope_ok (gl_session l) (ac_session auth) \<and>
     scope_ok (gl_conversation l) (ac_conversation auth) \<and>
     (ac_unattended auth \<longrightarrow> gl_unattended l) \<and>
     (gl_provenance l \<noteq> [] \<longrightarrow> gl_provenance l = frame_digests auth)"

definition lease_admits ::
    "time \<Rightarrow> authority_context \<Rightarrow> capability_request \<Rightarrow> data_label set \<Rightarrow> grant_lease \<Rightarrow> bool" where
  "lease_admits now auth req labels l \<longleftrightarrow>
     lease_active l now \<and>
     gl_digest l = ac_digest auth \<and>
     gl_principal l = ac_principal auth \<and>
     gl_right l = rq_right req \<and>
     lease_in_scope auth req labels l"

definition use_lease :: "grant_lease \<Rightarrow> grant_lease" where
  "use_lease l = (case gl_uses l of None \<Rightarrow> l | Some n \<Rightarrow> l\<lparr>gl_uses := Some (n - 1)\<rparr>)"

lemma use_lease_fields [simp]:
  "gl_id (use_lease l) = gl_id l" "gl_digest (use_lease l) = gl_digest l"
  "gl_principal (use_lease l) = gl_principal l" "gl_right (use_lease l) = gl_right l"
  "gl_selector (use_lease l) = gl_selector l" "gl_labels (use_lease l) = gl_labels l"
  "gl_destination (use_lease l) = gl_destination l" "gl_user (use_lease l) = gl_user l"
  "gl_session (use_lease l) = gl_session l" "gl_conversation (use_lease l) = gl_conversation l"
  "gl_unattended (use_lease l) = gl_unattended l" "gl_expires (use_lease l) = gl_expires l"
  "gl_provenance (use_lease l) = gl_provenance l" "gl_revoked (use_lease l) = gl_revoked l"
  "gl_uses (use_lease l) = map_option (\<lambda>n. n - 1) (gl_uses l)"
  by (simp_all add: use_lease_def split: option.splits)

text \<open>What a consumed lease shows of the request it was consumed for.\<close>

definition lease_covers ::
    "time \<Rightarrow> authority_context \<Rightarrow> capability_request \<Rightarrow> data_label set \<Rightarrow> grant_lease \<Rightarrow> bool" where
  "lease_covers now auth req labels l \<longleftrightarrow>
     \<not> gl_revoked l \<and> (\<forall>e. gl_expires l = Some e \<longrightarrow> now < e) \<and>
     gl_digest l = ac_digest auth \<and> gl_principal l = ac_principal auth \<and>
     gl_right l = rq_right req \<and> lease_in_scope auth req labels l"

lemma lease_admits_covers: "lease_admits now auth req labels l \<Longrightarrow> lease_covers now auth req labels (use_lease l)"
  by (auto simp: lease_admits_def lease_covers_def lease_active_def lease_in_scope_def split: option.splits)

section \<open>The in-memory store\<close>

type_synonym lease_store = "(string, grant_lease) pydict"

definition lease_add :: "grant_lease \<Rightarrow> lease_store \<Rightarrow> authority_error + lease_store" where
  "lease_add l st =
     (if dget st (gl_id l) \<noteq> None then Inl DuplicateLease else Inr (dset (gl_id l) l st))"

definition lease_revoke :: "string \<Rightarrow> lease_store \<Rightarrow> bool \<times> lease_store" where
  "lease_revoke lid st = (case dget st lid of
      None \<Rightarrow> (False, st)
    | Some l \<Rightarrow> (True, dset lid (l\<lparr>gl_revoked := True\<rparr>) st))"

text \<open>The loop over \<open>self._leases.values()\<close>: the first match is used in place and returned.\<close>

fun consume_first :: "(grant_lease \<Rightarrow> bool) \<Rightarrow> lease_store \<Rightarrow> grant_lease option \<times> lease_store" where
  "consume_first p [] = (None, [])"
| "consume_first p ((k, l) # rest) =
     (if p l then (Some (use_lease l), (k, use_lease l) # rest)
      else (case consume_first p rest of (res, rest') \<Rightarrow> (res, (k, l) # rest')))"

definition find_and_consume ::
    "lease_store \<Rightarrow> time \<Rightarrow> authority_context \<Rightarrow> capability_request \<Rightarrow> data_label set \<Rightarrow>
     grant_lease option \<times> lease_store" where
  "find_and_consume st now auth req labels = consume_first (lease_admits now auth req labels) st"

section \<open>The durable store\<close>

text \<open>
  A row of \<open>capability_leases\<close>: the lease and its creation time, in table order. The select keeps
  the live rows of this artifact, principal and right, oldest first; the update that follows
  runs under the same database lock, so the row it guards is unchanged.
\<close>

type_synonym lease_table = "(grant_lease \<times> time) list"

definition sql_lease_add :: "time \<Rightarrow> grant_lease \<Rightarrow> lease_table \<Rightarrow> authority_error + lease_table" where
  "sql_lease_add now l rows =
     (if list_ex (\<lambda>(r, _). gl_id r = gl_id l) rows then Inl DuplicateLease else Inr (rows @ [(l, now)]))"

definition sql_lease_revoke :: "string \<Rightarrow> lease_table \<Rightarrow> bool \<times> lease_table" where
  "sql_lease_revoke lid rows =
     (list_ex (\<lambda>(r, _). gl_id r = lid \<and> \<not> gl_revoked r) rows,
      map (\<lambda>(r, t). (if gl_id r = lid \<and> \<not> gl_revoked r then r\<lparr>gl_revoked := True\<rparr> else r, t)) rows)"

definition sql_candidates :: "lease_table \<Rightarrow> time \<Rightarrow> authority_context \<Rightarrow> capability_request \<Rightarrow> lease_table" where
  "sql_candidates rows now auth req =
     sort_key (\<lambda>(r, t). (t, gl_id r))
       (filter (\<lambda>(r, _). gl_digest r = ac_digest auth \<and> gl_principal r = ac_principal auth \<and>
          gl_right r = rq_right req \<and> \<not> gl_revoked r \<and>
          (case gl_expires r of None \<Rightarrow> True | Some e \<Rightarrow> e > now) \<and>
          (case gl_uses r of None \<Rightarrow> True | Some n \<Rightarrow> n > 0)) rows)"

definition sql_use_row :: "string \<Rightarrow> lease_table \<Rightarrow> lease_table" where
  "sql_use_row lid rows =
     map (\<lambda>(r, t). (if gl_id r = lid \<and> \<not> gl_revoked r \<and> (case gl_uses r of None \<Rightarrow> False | Some n \<Rightarrow> n > 0)
                   then use_lease r else r, t)) rows"

definition sql_find_and_consume ::
    "lease_table \<Rightarrow> time \<Rightarrow> authority_context \<Rightarrow> capability_request \<Rightarrow> data_label set \<Rightarrow>
     grant_lease option \<times> lease_table" where
  "sql_find_and_consume rows now auth req labels =
     (case find (\<lambda>(r, _). lease_in_scope auth req labels r) (sql_candidates rows now auth req) of
        None \<Rightarrow> (None, rows)
      | Some (l, _) \<Rightarrow>
          (if gl_uses l = None then (Some l, rows)
           else (Some (use_lease l), sql_use_row (gl_id l) rows)))"

section \<open>The contract of a lease store\<close>

text \<open>How often a sequence of requests to a store is granted on one lease.\<close>

fun lease_grants ::
    "('s \<Rightarrow> time \<Rightarrow> authority_context \<Rightarrow> capability_request \<Rightarrow> data_label set \<Rightarrow> grant_lease option \<times> 's) \<Rightarrow>
     string \<Rightarrow> 's \<Rightarrow> (time \<times> authority_context \<times> capability_request \<times> data_label set) list \<Rightarrow> nat \<times> 's" where
  "lease_grants consume lid s [] = (0, s)"
| "lease_grants consume lid s ((now, auth, req, labels) # rest) =
     (case consume s now auth req labels of (res, s') \<Rightarrow>
       (case lease_grants consume lid s' rest of (n, s'') \<Rightarrow>
         ((case res of Some l \<Rightarrow> if gl_id l = lid then Suc n else n | None \<Rightarrow> n), s'')))"

text \<open>
  \<open>budget s lid\<close> is the number of uses a filed lease has left, when it is counted.
\<close>

locale lease_provider =
  fixes consume :: "'s \<Rightarrow> time \<Rightarrow> authority_context \<Rightarrow> capability_request \<Rightarrow> data_label set \<Rightarrow> grant_lease option \<times> 's"
    and budget :: "'s \<Rightarrow> string \<Rightarrow> int option"
    and inv :: "'s \<Rightarrow> bool"
  assumes consume_covers: "inv s \<Longrightarrow> consume s now auth req labels = (Some l, s') \<Longrightarrow> lease_covers now auth req labels l"
    and consume_none: "inv s \<Longrightarrow> consume s now auth req labels = (None, s') \<Longrightarrow> s' = s"
    and consume_inv: "inv s \<Longrightarrow> consume s now auth req labels = (Some l, s') \<Longrightarrow> inv s'"
    and consume_budget: "inv s \<Longrightarrow> consume s now auth req labels = (Some l, s') \<Longrightarrow> budget s (gl_id l) = Some n \<Longrightarrow>
       n > 0 \<and> budget s' (gl_id l) = Some (n - 1)"
    and consume_frame: "inv s \<Longrightarrow> consume s now auth req labels = (Some l, s') \<Longrightarrow> lid \<noteq> gl_id l \<Longrightarrow>
       budget s' lid = budget s lid"
begin

lemma consume_step:
  assumes "inv s" and "consume s now auth req labels = (res, s')"
  shows "inv s'"
  using assms by (cases res) (auto dest: consume_none consume_inv)

text \<open>Whatever sequence of requests is made, a counted lease authorises at most its budget.\<close>

lemma grants_bounded:
  "inv s \<Longrightarrow> budget s lid = Some n \<Longrightarrow> 0 \<le> n \<Longrightarrow> int (fst (lease_grants consume lid s reqs)) \<le> n"
proof (induction reqs arbitrary: s n)
  case Nil
  then show ?case by simp
next
  case (Cons r reqs)
  obtain now auth req labels where r: "r = (now, auth, req, labels)" by (cases r)
  obtain res s' where c: "consume s now auth req labels = (res, s')" by force
  have inv': "inv s'" using Cons.prems(1) c by (rule consume_step)
  show ?case
  proof (cases res)
    case None
    with c Cons.prems(1) have "s' = s" by (simp add: consume_none)
    with None Cons.IH [OF inv', of n] Cons.prems c r show ?thesis
        by (cases "lease_grants consume lid s' reqs") simp
  next
    case (Some l)
    show ?thesis
    proof (cases "gl_id l = lid")
      case True
      with Some c Cons.prems have "0 < n" "budget s' lid = Some (n - 1)"
        using consume_budget by auto
      with Cons.IH [OF inv', of "n - 1"] Some True c r show ?thesis
        by (cases "lease_grants consume lid s' reqs") simp
    next
      case False
      with Some c Cons.prems have "budget s' lid = Some n" using consume_frame by auto
      with Cons.IH [OF inv', of n] Cons.prems(3) Some False c r show ?thesis
        by (cases "lease_grants consume lid s' reqs") simp
    qed
  qed
qed

end

section \<open>Both stores keep it\<close>

definition lease_store_wf :: "lease_store \<Rightarrow> bool" where
  "lease_store_wf st \<longleftrightarrow> distinct (dkeys st) \<and> (\<forall>(k, l) \<in> set st. gl_id l = k)"

definition lease_budget :: "lease_store \<Rightarrow> string \<Rightarrow> int option" where
  "lease_budget st lid = Option.bind (dget st lid) gl_uses"

lemma consume_first_Some:
  "consume_first p st = (Some l', st') \<Longrightarrow>
   \<exists>pre k l post. st = pre @ (k, l) # post \<and> p l \<and> l' = use_lease l \<and> st' = pre @ (k, use_lease l) # post"
proof (induction st arbitrary: st')
  case Nil
  then show ?case by simp
next
  case (Cons kl st)
  obtain k l where kl: "kl = (k, l)" by (cases kl)
  show ?case
  proof (cases "p l")
    case True
    with Cons.prems kl show ?thesis by (intro exI [of _ "[]"] exI) auto
  next
    case False
    with Cons.prems kl obtain st1 where "consume_first p st = (Some l', st1)" "st' = (k, l) # st1"
      by (auto split: prod.splits)
    with Cons.IH obtain pre k0 l0 post where "st = pre @ (k0, l0) # post" "p l0" "l' = use_lease l0"
      "st' = (k, l) # pre @ (k0, use_lease l0) # post" by blast
    with kl show ?thesis by (intro exI [of _ "(k, l) # pre"] exI) auto
  qed
qed

lemma consume_first_None: "consume_first p st = (None, st') \<Longrightarrow> st' = st"
  by (induction st arbitrary: st') (auto split: if_splits prod.splits)

lemma dget_middle:
  "distinct (dkeys (pre @ (k, l) # post)) \<Longrightarrow> dget (pre @ (k, l) # post) j = (if j = k then Some l else dget (pre @ post) j)"
  by (auto simp: map_add_def map_of_append split: option.splits
      dest: map_of_SomeD) (metis fst_conv image_eqI map_of_SomeD option.exhaust)+

lemma consume_first_wf:
  assumes "lease_store_wf st" and "consume_first p st = (Some l', st')"
  shows "lease_store_wf st'"
    and "\<exists>l. dget st (gl_id l') = Some l \<and> p l \<and> l' = use_lease l"
    and "dget st' = (dget st)(gl_id l' := Some l')"
proof -
  from consume_first_Some [OF assms(2)] obtain pre k l post
    where s: "st = pre @ (k, l) # post" "p l" "l' = use_lease l" "st' = pre @ (k, use_lease l) # post"
    by blast
  from assms(1) s have d: "distinct (dkeys (pre @ (k, l) # post))" "gl_id l = k"
    by (auto simp: lease_store_wf_def)
  then have d': "distinct (dkeys (pre @ (k, use_lease l) # post))" by simp
  show "lease_store_wf st'" using assms(1) s d by (auto simp: lease_store_wf_def)
  show "\<exists>l. dget st (gl_id l') = Some l \<and> p l \<and> l' = use_lease l"
    using s d by (intro exI [of _ l]) (simp only: dget_middle [OF d(1)], simp)
  show "dget st' = (dget st)(gl_id l' := Some l')"
    unfolding s(1,4) by (rule ext) (simp only: dget_middle [OF d(1)] dget_middle [OF d'], simp add: s(3) d(2))
qed

interpretation memory_leases: lease_provider find_and_consume lease_budget lease_store_wf
proof unfold_locales
  fix s s' :: lease_store and now auth req labels l
  assume wf: "lease_store_wf s" and c: "find_and_consume s now auth req labels = (Some l, s')"
  note c' = c [unfolded find_and_consume_def]
  from consume_first_wf(2) [OF wf c'] obtain l0 where l0: "dget s (gl_id l) = Some l0"
    "lease_admits now auth req labels l0" "l = use_lease l0" by blast
  show "lease_covers now auth req labels l" using l0 by (simp add: lease_admits_covers)
  show "lease_store_wf s'" by (rule consume_first_wf(1) [OF wf c'])
  show "n > 0 \<and> lease_budget s' (gl_id l) = Some (n - 1)" if "lease_budget s (gl_id l) = Some n" for n
    using that l0 consume_first_wf(3) [OF wf c']
    by (auto simp: lease_budget_def lease_admits_def lease_active_def)
  show "lease_budget s' lid = lease_budget s lid" if "lid \<noteq> gl_id l" for lid
    using that consume_first_wf(3) [OF wf c'] by (simp add: lease_budget_def)
next
  fix s s' :: lease_store and now auth req labels
  assume "find_and_consume s now auth req labels = (None, s')"
  then show "s' = s" by (auto simp: find_and_consume_def dest: consume_first_None)
qed

abbreviation lease_index :: "lease_table \<Rightarrow> (string, grant_lease) pydict" where
  "lease_index rows \<equiv> map (\<lambda>(r, t). (gl_id r, r)) rows"

definition lease_table_wf :: "lease_table \<Rightarrow> bool" where
  "lease_table_wf rows \<longleftrightarrow> distinct (dkeys (lease_index rows))"

definition sql_lease_budget :: "lease_table \<Rightarrow> string \<Rightarrow> int option" where
  "sql_lease_budget rows lid = Option.bind (dget (lease_index rows) lid) gl_uses"

lemma index_map:
  assumes "\<And>r. gl_id (f r) = gl_id r"
  shows "dget (lease_index (map (\<lambda>(r, t). (f r, t)) rows)) j = map_option f (dget (lease_index rows) j)"
    and "dkeys (lease_index (map (\<lambda>(r, t). (f r, t)) rows)) = dkeys (lease_index rows)"
  using assms by (induction rows) auto

lemma sql_use_row_index:
  "dget (lease_index (sql_use_row lid rows)) j =
     map_option (\<lambda>r. if gl_id r = lid \<and> \<not> gl_revoked r \<and> (case gl_uses r of None \<Rightarrow> False | Some n \<Rightarrow> n > 0)
                     then use_lease r else r) (dget (lease_index rows) j)"
  unfolding sql_use_row_def by (rule index_map) simp

lemma sql_use_row_keys: "dkeys (lease_index (sql_use_row lid rows)) = dkeys (lease_index rows)"
  unfolding sql_use_row_def by (rule index_map) simp

lemma lease_table_dget:
  "lease_table_wf rows \<Longrightarrow> (l, t) \<in> set rows \<Longrightarrow> dget (lease_index rows) (gl_id l) = Some l"
  unfolding lease_table_wf_def by (rule map_of_is_SomeI) force+

lemma sql_find_Some:
  assumes "find (\<lambda>(r, _). lease_in_scope auth req labels r) (sql_candidates rows now auth req) = Some (l, t)"
  shows "(l, t) \<in> set rows" and "lease_admits now auth req labels l"
proof -
  from find_SomeD [OF assms] have m: "(l, t) \<in> set (sql_candidates rows now auth req)"
    and p: "lease_in_scope auth req labels l" by auto
  from m show "(l, t) \<in> set rows" by (auto simp: sql_candidates_def)
  from m p show "lease_admits now auth req labels l"
    by (auto simp: sql_candidates_def lease_admits_def lease_active_def)
qed

interpretation durable_leases: lease_provider sql_find_and_consume sql_lease_budget lease_table_wf
proof unfold_locales
  fix s s' :: lease_table and now auth req labels l
  assume wf: "lease_table_wf s" and c: "sql_find_and_consume s now auth req labels = (Some l, s')"
  from c obtain l0 t where f: "find (\<lambda>(r, _). lease_in_scope auth req labels r)
      (sql_candidates s now auth req) = Some (l0, t)"
    and r: "l = use_lease l0" "s' = (if gl_uses l0 = None then s else sql_use_row (gl_id l0) s)"
    by (auto simp: sql_find_and_consume_def use_lease_def split: option.splits if_splits)
  note adm = sql_find_Some(2) [OF f]
  have idx: "dget (lease_index s) (gl_id l0) = Some l0"
    by (rule lease_table_dget [OF wf sql_find_Some(1) [OF f]])
  show "lease_covers now auth req labels l" using r adm by (simp add: lease_admits_covers)
  have "lease_table_wf (sql_use_row (gl_id l0) s)"
    using wf by (simp only: lease_table_wf_def sql_use_row_keys)
  with wf r(2) show "lease_table_wf s'" by simp
  show "n > 0 \<and> sql_lease_budget s' (gl_id l) = Some (n - 1)"
    if "sql_lease_budget s (gl_id l) = Some n" for n
    using that r idx adm
    by (auto simp: sql_lease_budget_def sql_use_row_index lease_admits_def lease_active_def)
  show "sql_lease_budget s' lid = sql_lease_budget s lid" if "lid \<noteq> gl_id l" for lid
  proof (cases "dget (lease_index s) lid")
    case None
    with r show ?thesis by (simp add: sql_lease_budget_def sql_use_row_index)
  next
    case (Some r0)
    then have "gl_id r0 = lid" by (auto dest!: map_of_SomeD)
    with Some that r show ?thesis by (simp add: sql_lease_budget_def sql_use_row_index)
  qed
next
  fix s s' :: lease_table and now auth req labels
  assume "sql_find_and_consume s now auth req labels = (None, s')"
  then show "s' = s"
    by (auto simp: sql_find_and_consume_def split: option.splits if_splits)
qed

text \<open>Revocation is final in both stores, and each keeps its invariant under every operation.\<close>

lemma lease_add_wf: "lease_store_wf st \<Longrightarrow> lease_add l st = Inr st' \<Longrightarrow> lease_store_wf st'"
proof -
  assume wf: "lease_store_wf st" and a: "lease_add l st = Inr st'"
  from a have st': "st' = dset (gl_id l) l st" by (auto simp: lease_add_def split: if_splits)
  have d: "distinct (dkeys st')" using wf st' by (simp add: lease_store_wf_def)
  have "gl_id x = k" if "(k, x) \<in> set st'" for k x
  proof -
    from d that have "dget st' k = Some x" by simp
    with st' have "(if k = gl_id l then Some l else dget st k) = Some x" by simp
    with wf show ?thesis by (fastforce simp: lease_store_wf_def split: if_splits dest: map_of_SomeD)
  qed
  with d show ?thesis by (auto simp: lease_store_wf_def)
qed

lemma lease_revoke_spec:
  "lease_revoke lid st = (found, st') \<Longrightarrow>
   (found \<longleftrightarrow> dget st lid \<noteq> None) \<and> (\<forall>l. dget st' lid = Some l \<longrightarrow> gl_revoked l) \<and>
   (\<forall>k. k \<noteq> lid \<longrightarrow> dget st' k = dget st k)"
  by (auto simp: lease_revoke_def split: option.splits)

lemma sql_lease_revoke_index:
  "dget (lease_index (snd (sql_lease_revoke lid rows))) j =
     map_option (\<lambda>r. if gl_id r = lid \<and> \<not> gl_revoked r then r\<lparr>gl_revoked := True\<rparr> else r)
       (dget (lease_index rows) j)"
  unfolding sql_lease_revoke_def snd_conv by (rule index_map) simp

lemma sql_lease_revoke_spec:
  assumes "lease_table_wf rows"
  shows "lease_table_wf (snd (sql_lease_revoke lid rows))"
    and "dget (lease_index (snd (sql_lease_revoke lid rows))) lid = Some l \<Longrightarrow> gl_revoked l"
proof -
  have "dkeys (lease_index (snd (sql_lease_revoke lid rows))) = dkeys (lease_index rows)"
    unfolding sql_lease_revoke_def snd_conv by (rule index_map) simp
  with assms show "lease_table_wf (snd (sql_lease_revoke lid rows))" by (simp only: lease_table_wf_def)
  show "gl_revoked l" if "dget (lease_index (snd (sql_lease_revoke lid rows))) lid = Some l"
  proof -
    from that obtain r where r: "dget (lease_index rows) lid = Some r"
      "l = (if gl_id r = lid \<and> \<not> gl_revoked r then r\<lparr>gl_revoked := True\<rparr> else r)"
      by (auto simp: sql_lease_revoke_index)
    then have "gl_id r = lid" by (auto dest!: map_of_SomeD)
    with r show ?thesis by auto
  qed
qed

end
