(* ===== verification/Policy.thy ===== *)
theory Policy
  imports Registry Leases
begin

text \<open>
  The reference monitor: \<open>PolicyEngine\<close> of \<open>security/capabilities.py\<close> and the audit log of
  \<open>security/storage.py\<close>. The engine is written against any lease store; its guarantees are
  proved once from the store contract and then taken for the two stores of the program.
\<close>

section \<open>The audit log\<close>

record audit_row =
  au_ts :: time
  au_digest :: string
  au_principal :: string
  au_provenance :: "provenance_frame list"
  au_user :: "int option"
  au_session :: "string option"
  au_conversation :: "int option"
  au_right :: string
  au_token_hint :: string
  au_selector :: string
  au_destination :: string
  au_labels :: "nat list"
  au_allowed :: bool
  au_reason :: string
  au_effect :: "string option"
  au_lease :: "string option"

definition audit_record ::
    "time \<Rightarrow> authority_context \<Rightarrow> capability_request \<Rightarrow> policy_decision \<Rightarrow> audit_row list \<Rightarrow> audit_row list" where
  "audit_record now auth req d rows = rows @ [
     \<lparr>au_ts = now, au_digest = ac_digest auth, au_principal = ac_principal auth,
      au_provenance = pc_frames (ac_provenance auth), au_user = ac_user auth,
      au_session = ac_session auth, au_conversation = ac_conversation auth,
      au_right = rq_right req, au_token_hint = take 8 (rq_token req),
      au_selector = rq_selector req, au_destination = rq_destination req,
      au_labels = sorted_list_of_set (label_value ` pd_labels d),
      au_allowed = pd_allowed d, au_reason = pd_reason d,
      au_effect = map_option effect_name (pd_effect d),
      au_lease = (if pd_lease_id d = [] then None else Some (pd_lease_id d))\<rparr>]"

section \<open>The decision\<close>

text \<open>\<open>_check_resource\<close>: the empty text is no refusal.\<close>

definition check_resource :: "resource_ref option \<Rightarrow> authority_context \<Rightarrow> capability_request \<Rightarrow> string" where
  "check_resource res auth req = (case res of
      None \<Rightarrow> ''resource reference is absent, expired, or revoked''
    | Some r \<Rightarrow>
        (if ref_digest r \<noteq> ac_digest auth then ''resource belongs to a different artifact''
         else if ref_principal r \<noteq> ac_principal auth then ''resource belongs to a different principal''
         else if rq_right req \<notin> ref_rights r then ''resource does not grant the requested right''
         else if \<not> selector_contains (ref_selector r) (rq_selector req)
           then ''requested selector exceeds resource authority''
         else if ref_user r \<noteq> None \<and> ref_user r \<noteq> ac_user auth
           then ''resource belongs to a different user''
         else if ref_session r \<noteq> None \<and> ref_session r \<noteq> ac_session auth
           then ''resource belongs to a different session''
         else if ref_conversation r \<noteq> None \<and> ref_conversation r \<noteq> ac_conversation auth
           then ''resource belongs to a different conversation''
         else ''''))"

definition no_lease_reason :: string where
  "no_lease_reason = ''no matching active scoped lease''"

text \<open>A refusal before or after the labels are known, and the effects that need a lease.\<close>

definition refuse :: "string \<Rightarrow> capability_descriptor \<Rightarrow> data_label set \<Rightarrow> policy_decision" where
  "refuse reason cap labels = \<lparr>pd_allowed = False, pd_reason = reason, pd_effect = Some (cd_effect cap),
     pd_lease_id = '''', pd_labels = labels, pd_observes = cd_observes cap\<rparr>"

definition requires_lease ::
    "capability_descriptor \<Rightarrow> authority_context \<Rightarrow> mediation_facts \<Rightarrow> data_label set \<Rightarrow> bool" where
  "requires_lease cap auth facts labels =
     (let reversible = cd_mutates cap \<and> cd_may_be_reversible cap \<and> mf_undo_ready facts
      in sensitive labels \<or> cd_egresses cap \<or> cd_administers cap \<or>
         (cd_mutates cap \<and> \<not> reversible) \<or> cd_autonomous cap \<or> ac_unattended auth)"

text \<open>The tests made before any resource is looked up.\<close>

definition precheck ::
    "plugin_manifest \<Rightarrow> authority_context \<Rightarrow> capability_request \<Rightarrow> string option" where
  "precheck m auth req =
     (if ac_digest auth = [] then Some ''invocation has no artifact identity''
      else if pc_principal (ac_provenance auth) \<noteq> ac_principal auth
        then Some ''principal/provenance mismatch''
      else if current_digest (ac_provenance auth) \<noteq> [] \<and>
              current_digest (ac_provenance auth) \<noteq> ac_digest auth
        then Some ''current provenance frame mismatch''
      else if \<not> manifest_declares m (rq_right req) (rq_selector req) (rq_destination req)
        then Some ''request exceeds manifest ceiling''
      else None)"

definition lease_stage ::
    "('s \<Rightarrow> time \<Rightarrow> authority_context \<Rightarrow> capability_request \<Rightarrow> data_label set \<Rightarrow> grant_lease option \<times> 's) \<Rightarrow>
     capability_descriptor \<Rightarrow> time \<Rightarrow> authority_context \<Rightarrow> capability_request \<Rightarrow> mediation_facts \<Rightarrow>
     data_label set \<Rightarrow> 's \<Rightarrow> policy_decision \<times> 's" where
  "lease_stage consume cap now auth req facts labels leases =
     (if \<not> requires_lease cap auth facts labels
      then (\<lparr>pd_allowed = True, pd_reason = ''authorized resource and prompt-free safe effect'',
             pd_effect = Some (cd_effect cap), pd_lease_id = '''', pd_labels = labels,
             pd_observes = cd_observes cap\<rparr>, leases)
      else (case consume leases now auth req labels of
          (None, leases') \<Rightarrow> (refuse no_lease_reason cap labels, leases')
        | (Some l, leases') \<Rightarrow>
            (\<lparr>pd_allowed = True, pd_reason = ''authorized by scoped lease'',
              pd_effect = Some (cd_effect cap), pd_lease_id = gl_id l, pd_labels = labels,
              pd_observes = cd_observes cap\<rparr>, leases')))"

definition decide_core ::
    "('s \<Rightarrow> time \<Rightarrow> authority_context \<Rightarrow> capability_request \<Rightarrow> data_label set \<Rightarrow> grant_lease option \<times> 's) \<Rightarrow>
     plugin_manifest \<Rightarrow> time \<Rightarrow> authority_context \<Rightarrow> capability_request \<Rightarrow> mediation_facts \<Rightarrow>
     'b registry \<Rightarrow> 's \<Rightarrow> policy_decision \<times> 'b registry \<times> 's" where
  "decide_core consume m now auth req facts reg leases =
     (case descriptor (rq_right req) of
        None \<Rightarrow> (\<lparr>pd_allowed = False, pd_reason = ''right is not in the closed vocabulary'',
                  pd_effect = None, pd_lease_id = '''', pd_labels = {}, pd_observes = False\<rparr>, reg, leases)
      | Some cap \<Rightarrow>
          (case precheck m auth req of
             Some reason \<Rightarrow> (refuse reason cap {}, reg, leases)
           | None \<Rightarrow>
               (let labels = ac_taint auth \<union> rq_labels req \<union> mf_observed facts in
                if rq_token req \<noteq> [] then
                  (case resolve now (rq_token req) reg of (res, reg') \<Rightarrow>
                    (let refusal = check_resource res auth req in
                     if refusal \<noteq> [] then (refuse refusal cap labels, reg', leases)
                     else (case res of
                         None \<Rightarrow> (refuse refusal cap labels, reg', leases)
                       | Some r \<Rightarrow>
                           (case lease_stage consume cap now auth req facts (labels \<union> ref_labels r) leases of
                              (d, leases') \<Rightarrow> (d, reg', leases')))))
                else if cd_resource_required cap then
                  (refuse ''local operation requires an opaque resource reference'' cap labels, reg, leases)
                else (case lease_stage consume cap now auth req facts labels leases of
                        (d, leases') \<Rightarrow> (d, reg, leases')))))"

text \<open>The engine: its registry, its lease store and the decisions it has recorded.\<close>

record ('b, 's) engine =
  en_resources :: "'b registry"
  en_leases :: 's
  en_audit :: "audit_row list"

definition decide ::
    "('s \<Rightarrow> time \<Rightarrow> authority_context \<Rightarrow> capability_request \<Rightarrow> data_label set \<Rightarrow> grant_lease option \<times> 's) \<Rightarrow>
     plugin_manifest \<Rightarrow> time \<Rightarrow> authority_context \<Rightarrow> capability_request \<Rightarrow> mediation_facts \<Rightarrow>
     ('b, 's) engine \<Rightarrow> policy_decision \<times> ('b, 's) engine" where
  "decide consume m now auth req facts eng =
     (case decide_core consume m now auth req facts (en_resources eng) (en_leases eng) of
        (d, reg', leases') \<Rightarrow>
          (d, eng\<lparr>en_resources := reg', en_leases := leases',
                  en_audit := audit_record now auth req d (en_audit eng)\<rparr>))"

section \<open>What an allowed request went through\<close>

text \<open>
  Complete mediation: the right is in the vocabulary and under the manifest ceiling, the
  identity and provenance agree, and a local operation holds a live reference of its own that
  covers the request.
\<close>

definition authorised ::
    "plugin_manifest \<Rightarrow> time \<Rightarrow> authority_context \<Rightarrow> capability_request \<Rightarrow> 'b registry \<Rightarrow> bool" where
  "authorised m now auth req reg \<longleftrightarrow>
     (\<exists>cap. descriptor (rq_right req) = Some cap \<and>
        ac_digest auth \<noteq> [] \<and> pc_principal (ac_provenance auth) = ac_principal auth \<and>
        (current_digest (ac_provenance auth) = [] \<or> current_digest (ac_provenance auth) = ac_digest auth) \<and>
        manifest_declares m (rq_right req) (rq_selector req) (rq_destination req) \<and>
        (if rq_token req \<noteq> []
         then (\<exists>r. ref_of reg (rq_token req) = Some r \<and> \<not> ref_expired r now \<and> held_by auth r \<and>
                rq_right req \<in> ref_rights r \<and> selector_contains (ref_selector r) (rq_selector req))
         else \<not> cd_resource_required cap))"

text \<open>The labels a decision is taken over: taint, payload, observation and resource joined.\<close>

definition joined_labels ::
    "authority_context \<Rightarrow> capability_request \<Rightarrow> mediation_facts \<Rightarrow> 'b registry \<Rightarrow> data_label set" where
  "joined_labels auth req facts reg =
     ac_taint auth \<union> rq_labels req \<union> mf_observed facts \<union>
     (if rq_token req \<noteq> [] then (case ref_of reg (rq_token req) of None \<Rightarrow> {} | Some r \<Rightarrow> ref_labels r) else {})"

lemma check_resource_ok:
  "check_resource res auth req = [] \<longleftrightarrow>
   (\<exists>r. res = Some r \<and> held_by auth r \<and> rq_right req \<in> ref_rights r \<and>
        selector_contains (ref_selector r) (rq_selector req))"
  by (auto simp: check_resource_def held_by_def scope_ok_def split: option.splits)

lemma precheck_None:
  "precheck m auth req = None \<longleftrightarrow>
   ac_digest auth \<noteq> [] \<and> pc_principal (ac_provenance auth) = ac_principal auth \<and>
   (current_digest (ac_provenance auth) = [] \<or> current_digest (ac_provenance auth) = ac_digest auth) \<and>
   manifest_declares m (rq_right req) (rq_selector req) (rq_destination req)"
  by (auto simp: precheck_def)

lemma refuse_fields [simp]:
  "\<not> pd_allowed (refuse reason cap labels)" "pd_reason (refuse reason cap labels) = reason"
  "pd_labels (refuse reason cap labels) = labels" "pd_observes (refuse reason cap labels) = cd_observes cap"
  by (simp_all add: refuse_def)

text \<open>Every request that passes the authority checks reaches the lease stage, and no other does.\<close>

lemma decide_core_cases:
  obtains (refused) reason cap labels reg' where
      "decide_core consume m now auth req facts reg leases = (refuse reason cap labels, reg', leases)"
      "descriptor (rq_right req) = Some cap" "\<not> authorised m now auth req reg"
      "reason \<noteq> no_lease_reason" "ref_of reg' \<subseteq>\<^sub>m ref_of reg"
    | (unknown) "descriptor (rq_right req) = None" "\<not> authorised m now auth req reg"
      "\<exists>d. decide_core consume m now auth req facts reg leases = (d, reg, leases) \<and> \<not> pd_allowed d \<and>
           pd_reason d \<noteq> no_lease_reason"
    | (staged) cap d leases' where
      "descriptor (rq_right req) = Some cap" "authorised m now auth req reg"
      "lease_stage consume cap now auth req facts (joined_labels auth req facts reg) leases = (d, leases')"
      "decide_core consume m now auth req facts reg leases = (d, reg, leases')"
proof (cases "descriptor (rq_right req)")
  case None
  then show thesis by (intro unknown) (simp_all add: decide_core_def authorised_def no_lease_reason_def)
next
  case cap: (Some cap)
  show thesis
  proof (cases "precheck m auth req")
    case (Some reason)
    then have "\<not> authorised m now auth req reg" using precheck_None [of m auth req]
      by (auto simp: authorised_def)
    moreover from Some have "reason \<noteq> no_lease_reason"
      by (auto simp: precheck_def no_lease_reason_def split: if_splits)
    ultimately show thesis using cap Some by (intro refused [of reason cap "{}" reg]) (simp_all add: decide_core_def)
  next
    case pre: None
    let ?labels = "ac_taint auth \<union> rq_labels req \<union> mf_observed facts"
    show thesis
    proof (cases "rq_token req = []")
      case notok: True
      show thesis
      proof (cases "cd_resource_required cap")
        case True
        with cap notok have "\<not> authorised m now auth req reg" by (simp add: authorised_def)
        with cap pre notok True show thesis
          by (intro refused [of _ _ _ reg]) (auto simp: decide_core_def no_lease_reason_def)
      next
        case False
        with cap pre notok have "authorised m now auth req reg"
          by (simp add: authorised_def precheck_None)
        moreover obtain d leases' where "lease_stage consume cap now auth req facts ?labels leases = (d, leases')"
          by force
        ultimately show thesis using cap pre notok False
          by (intro staged) (simp_all add: decide_core_def joined_labels_def)
      qed
    next
      case tok: False
      obtain res reg' where r: "resolve now (rq_token req) reg = (res, reg')" by force
      have sub: "ref_of reg' \<subseteq>\<^sub>m ref_of reg"
        using r by (cases res) (auto simp: resolve_Some resolve_None map_le_def)
      have res_ok: "check_resource res auth req = [] \<longleftrightarrow> authorised m now auth req reg"
        using r cap pre tok
        by (cases res) (auto simp: check_resource_ok authorised_def precheck_None resolve_Some resolve_None)
      show thesis
      proof (cases "check_resource res auth req = []")
        case True
        with res_ok have au: "authorised m now auth req reg" by simp
        from True obtain x where x: "res = Some x" by (auto simp: check_resource_ok)
        with r have reg': "reg' = reg" "ref_of reg (rq_token req) = Some x" by (auto simp: resolve_Some)
        obtain d leases' where l: "lease_stage consume cap now auth req facts (?labels \<union> ref_labels x) leases = (d, leases')"
          by force
        with au cap pre tok r x reg' True show thesis
          by (intro staged) (simp_all add: decide_core_def joined_labels_def)
      next
        case False
        moreover have "check_resource res auth req \<noteq> no_lease_reason"
          by (auto simp: check_resource_def no_lease_reason_def split: option.splits)
        ultimately show thesis using cap pre tok r res_ok sub
          by (intro refused) (simp_all add: decide_core_def)
      qed
    qed
  qed
qed

section \<open>The engine over a lease store\<close>

context lease_provider
begin

lemma lease_stage_allowed:
  assumes "inv s" and "lease_stage consume cap now auth req facts labels s = (d, s')" and "pd_allowed d"
  shows "pd_labels d = labels \<and> pd_observes d = cd_observes cap \<and> inv s' \<and>
    (requires_lease cap auth facts labels \<longrightarrow>
       (\<exists>l. lease_covers now auth req labels l \<and> pd_lease_id d = gl_id l))"
  using assms
  by (auto simp: lease_stage_def split: if_splits prod.splits option.splits
      dest: consume_covers consume_inv)

lemma lease_stage_denied:
  assumes "inv s" and "lease_stage consume cap now auth req facts labels s = (d, s')" and "\<not> pd_allowed d"
  shows "s' = s \<and> pd_reason d = no_lease_reason \<and> requires_lease cap auth facts labels"
  using assms
  by (auto simp: lease_stage_def split: if_splits prod.splits option.splits dest: consume_none)

lemma decide_allowed:
  assumes "inv (en_leases eng)" and "decide consume m now auth req facts eng = (d, eng')" and "pd_allowed d"
  obtains cap where "descriptor (rq_right req) = Some cap"
    "authorised m now auth req (en_resources eng)"
    "pd_labels d = joined_labels auth req facts (en_resources eng)" "pd_observes d = cd_observes cap"
    "requires_lease cap auth facts (pd_labels d) \<Longrightarrow>
       \<exists>l. lease_covers now auth req (pd_labels d) l \<and> pd_lease_id d = gl_id l"
  using decide_core_cases [where consume = consume and m = m and now = now and auth = auth
      and req = req and facts = facts and reg = "en_resources eng" and leases = "en_leases eng"]
proof cases
  case (staged cap d' leases')
  with assms have "d' = d" by (simp add: decide_def)
  with staged lease_stage_allowed [OF assms(1)] assms(3) show thesis by (intro that) auto
qed (use assms in \<open>auto simp: decide_def\<close>)

lemma decide_denied:
  assumes "inv (en_leases eng)" and "decide consume m now auth req facts eng = (d, eng')"
    and "\<not> pd_allowed d"
  shows "en_leases eng' = en_leases eng"
    and "ref_of (en_resources eng') \<subseteq>\<^sub>m ref_of (en_resources eng)"
    and "pd_reason d = no_lease_reason \<longleftrightarrow> authorised m now auth req (en_resources eng)"
proof -
  show "en_leases eng' = en_leases eng"
    and "ref_of (en_resources eng') \<subseteq>\<^sub>m ref_of (en_resources eng)"
    and "pd_reason d = no_lease_reason \<longleftrightarrow> authorised m now auth req (en_resources eng)"
    using decide_core_cases [where consume = consume and m = m and now = now and auth = auth
        and req = req and facts = facts and reg = "en_resources eng" and leases = "en_leases eng"]
    by (cases; use assms in \<open>auto simp: decide_def dest: lease_stage_denied\<close>)+
qed

lemma decide_inv:
  assumes "inv (en_leases eng)" and "decide consume m now auth req facts eng = (d, eng')"
  shows "inv (en_leases eng')"
proof (cases "pd_allowed d")
  case False
  with assms decide_denied(1) show ?thesis by metis
next
  case True
  show ?thesis
    using decide_core_cases [where consume = consume and m = m and now = now and auth = auth
      and req = req and facts = facts and reg = "en_resources eng" and leases = "en_leases eng"]
    by (cases; use assms True in \<open>auto simp: decide_def dest: lease_stage_allowed\<close>)
qed

end

end
