(* ===== verification/Broker.thy ===== *)
theory Broker
  imports Policy
begin

text \<open>
  \<open>security/broker.py\<close>: the ordering of a capability request's side effects. An adapter prepares
  an effect, the engine decides, a lease may be asked for once, and only then is the effect
  enacted. The kernel state that adapters act on, outside the engine, is the type \<open>'w\<close>.
\<close>

section \<open>Prepared effects\<close>

type_synonym ('b, 'w) world = "'b registry \<times> 'w"

record ('b, 'w) prepared_effect =
  pe_request :: capability_request
  pe_facts :: mediation_facts
  pe_enact :: "('b, 'w) world \<Rightarrow> pyval pyres \<times> ('b, 'w) world"
  pe_abort :: "(('b, 'w) world \<Rightarrow> unit pyres \<times> ('b, 'w) world) option"

type_synonym payload = "(string, pyval) pydict"

type_synonym ('b, 'w) adapter =
  "authority_context \<Rightarrow> payload \<Rightarrow> ('b, 'w) world \<Rightarrow>
   ('b, 'w) prepared_effect pyres \<times> ('b, 'w) world"

text \<open>\<open>approval_provider\<close>: a lease, nothing, or an exception.\<close>

type_synonym ('b, 'w) approver =
  "plugin_manifest \<Rightarrow> authority_context \<Rightarrow> capability_request \<Rightarrow> policy_decision \<Rightarrow>
   ('b, 'w) world \<Rightarrow> grant_lease option pyres \<times> ('b, 'w) world"

section \<open>The broker\<close>

record ('b, 's, 'w) broker =
  br_engine :: "('b, 's) engine"
  br_adapters :: "(string, ('b, 'w) adapter) pydict"
  br_taint :: "(string, data_label set) pydict"
  br_world :: 'w

definition br_state :: "('b, 's, 'w) broker \<Rightarrow> ('b, 'w) world" where
  "br_state br = (en_resources (br_engine br), br_world br)"

definition put_state :: "('b, 'w) world \<Rightarrow> ('b, 's, 'w) broker \<Rightarrow> ('b, 's, 'w) broker" where
  "put_state rw br = br\<lparr>br_engine := (br_engine br)\<lparr>en_resources := fst rw\<rparr>, br_world := snd rw\<rparr>"

definition register ::
    "string \<Rightarrow> ('b, 'w) adapter \<Rightarrow> ('b, 's, 'w) broker \<Rightarrow> ('b, 's, 'w) broker pyres" where
  "register right prepare br =
     (if dget (br_adapters br) right \<noteq> None
      then Inl (PyExn ''ValueError'' (''adapter already registered for '' @ right))
      else Inr (br\<lparr>br_adapters := dset right prepare (br_adapters br)\<rparr>))"

definition finish_invocation :: "string \<Rightarrow> ('b, 's, 'w) broker \<Rightarrow> ('b, 's, 'w) broker" where
  "finish_invocation inv_id br = br\<lparr>br_taint := dpop inv_id (br_taint br)\<rparr>"

definition invocation_taint :: "string \<Rightarrow> data_label set \<Rightarrow> ('b, 's, 'w) broker \<Rightarrow> data_label set" where
  "invocation_taint inv_id default_taint br =
     (case dget (br_taint br) inv_id of None \<Rightarrow> default_taint | Some t \<Rightarrow> t)"

text \<open>What \<open>fulfill\<close> returns: the denial object, the enacted value, or an exception.\<close>

datatype outcome =
    Denied string "effect_kind option"
  | Value pyval
  | Raised pyexn
  | LeaseRefused authority_error

text \<open>
  \<open>fulfill\<close> in the two parts its awaits separate: first the taint is read and the effect
  prepared, later the decision is taken and the effect enacted. Other requests may run in
  between.
\<close>

definition fulfill_begin ::
    "string \<Rightarrow> authority_context \<Rightarrow> string \<Rightarrow> payload \<Rightarrow> ('b, 's, 'w) broker \<Rightarrow>
     (pyexn + authority_context \<times> ('b, 'w) prepared_effect) \<times> ('b, 's, 'w) broker" where
  "fulfill_begin inv_id auth right payload br =
     (case dget (br_adapters br) right of
        None \<Rightarrow> (Inl (PyExn ''BrokerError'' (''no kernel adapter for '' @ right)), br)
      | Some adapter \<Rightarrow>
          (let auth' = auth\<lparr>ac_taint := invocation_taint inv_id (ac_taint auth) br\<rparr> in
           case adapter auth' payload (br_state br) of
             (Inl e, rw) \<Rightarrow> (Inl e, put_state rw br)
           | (Inr p, rw) \<Rightarrow>
               (if rq_right (pe_request p) \<noteq> right
                then (Inl (PyExn ''BrokerError'' ''adapter prepared a different capability right''), put_state rw br)
                else (Inr (auth', p), put_state rw br))))"

definition run_abort :: "('b, 'w) prepared_effect \<Rightarrow> policy_decision \<Rightarrow> ('b, 's, 'w) broker \<Rightarrow> outcome \<times> ('b, 's, 'w) broker" where
  "run_abort p d br =
     (case pe_abort p of
        None \<Rightarrow> (Denied (pd_reason d) (pd_effect d), br)
      | Some abort \<Rightarrow>
          (case abort (br_state br) of
             (Inl e, rw) \<Rightarrow> (Raised e, put_state rw br)
           | (Inr _, rw) \<Rightarrow> (Denied (pd_reason d) (pd_effect d), put_state rw br)))"

definition run_enact ::
    "string \<Rightarrow> authority_context \<Rightarrow> ('b, 'w) prepared_effect \<Rightarrow> policy_decision \<Rightarrow>
     ('b, 's, 'w) broker \<Rightarrow> outcome \<times> ('b, 's, 'w) broker" where
  "run_enact inv_id auth p d br =
     (let br1 = (if pd_observes d
                 then br\<lparr>br_taint := dset inv_id (ac_taint auth \<union> pd_labels d) (br_taint br)\<rparr>
                 else br)
      in case pe_enact p (br_state br1) of
           (Inl e, rw) \<Rightarrow> (Raised e, put_state rw br1)
         | (Inr v, rw) \<Rightarrow> (Value v, put_state rw br1))"

definition settle ::
    "string \<Rightarrow> authority_context \<Rightarrow> ('b, 'w) prepared_effect \<Rightarrow> policy_decision \<Rightarrow>
     ('b, 's, 'w) broker \<Rightarrow> outcome \<times> ('b, 's, 'w) broker" where
  "settle inv_id auth p d br =
     (if pd_allowed d then run_enact inv_id auth p d br else run_abort p d br)"

definition decide_for ::
    "('s \<Rightarrow> time \<Rightarrow> authority_context \<Rightarrow> capability_request \<Rightarrow> data_label set \<Rightarrow> grant_lease option \<times> 's) \<Rightarrow>
     plugin_manifest \<Rightarrow> time \<Rightarrow> authority_context \<Rightarrow> ('b, 'w) prepared_effect \<Rightarrow>
     ('b, 's, 'w) broker \<Rightarrow> policy_decision \<times> ('b, 's, 'w) broker" where
  "decide_for consume m now auth p br =
     (case decide consume m now auth (pe_request p) (pe_facts p) (br_engine br) of
        (d, eng') \<Rightarrow> (d, br\<lparr>br_engine := eng'\<rparr>))"

text \<open>The second part; \<open>now\<close> and \<open>later\<close> are the clock readings of the two decisions.\<close>

definition fulfill_conclude ::
    "('s \<Rightarrow> time \<Rightarrow> authority_context \<Rightarrow> capability_request \<Rightarrow> data_label set \<Rightarrow> grant_lease option \<times> 's) \<Rightarrow>
     (time \<Rightarrow> grant_lease \<Rightarrow> 's \<Rightarrow> authority_error + 's) \<Rightarrow> ('b, 'w) approver option \<Rightarrow>
     time \<Rightarrow> time \<Rightarrow> string \<Rightarrow> plugin_manifest \<Rightarrow> authority_context \<Rightarrow> ('b, 'w) prepared_effect \<Rightarrow>
     ('b, 's, 'w) broker \<Rightarrow> outcome \<times> ('b, 's, 'w) broker" where
  "fulfill_conclude consume add approver now later inv_id m auth p br =
     (case decide_for consume m now auth p br of (d, br1) \<Rightarrow>
       (case approver of
          None \<Rightarrow> settle inv_id auth p d br1
        | Some ask \<Rightarrow>
            (if pd_allowed d \<or> pd_reason d \<noteq> no_lease_reason then settle inv_id auth p d br1
             else (case ask m auth (pe_request p) d (br_state br1) of
                (Inl e, rw) \<Rightarrow> (Raised e, put_state rw br1)
              | (Inr None, rw) \<Rightarrow> settle inv_id auth p d (put_state rw br1)
              | (Inr (Some lease), rw) \<Rightarrow>
                  (let br2 = put_state rw br1 in
                   case add later lease (en_leases (br_engine br2)) of
                     Inl e \<Rightarrow> (LeaseRefused e, br2)
                   | Inr leases' \<Rightarrow>
                       (case decide_for consume m later auth p
                               (br2\<lparr>br_engine := (br_engine br2)\<lparr>en_leases := leases'\<rparr>\<rparr>) of
                          (d', br3) \<Rightarrow> settle inv_id auth p d' br3))))))"

definition fulfill ::
    "('s \<Rightarrow> time \<Rightarrow> authority_context \<Rightarrow> capability_request \<Rightarrow> data_label set \<Rightarrow> grant_lease option \<times> 's) \<Rightarrow>
     (time \<Rightarrow> grant_lease \<Rightarrow> 's \<Rightarrow> authority_error + 's) \<Rightarrow> ('b, 'w) approver option \<Rightarrow>
     time \<Rightarrow> time \<Rightarrow> string \<Rightarrow> plugin_manifest \<Rightarrow> authority_context \<Rightarrow> string \<Rightarrow> payload \<Rightarrow>
     ('b, 's, 'w) broker \<Rightarrow> outcome \<times> ('b, 's, 'w) broker" where
  "fulfill consume add approver now later inv_id m auth right payload br =
     (case fulfill_begin inv_id auth right payload br of
        (Inl e, br1) \<Rightarrow> (Raised e, br1)
      | (Inr (auth', p), br1) \<Rightarrow> fulfill_conclude consume add approver now later inv_id m auth' p br1)"

text \<open>\<open>LocalCapabilityTransport\<close> binds the invocation, the manifest and the authority.\<close>

record local_transport =
  lt_invocation :: string
  lt_manifest :: plugin_manifest
  lt_authority :: authority_context

definition transport_request ::
    "('s \<Rightarrow> time \<Rightarrow> authority_context \<Rightarrow> capability_request \<Rightarrow> data_label set \<Rightarrow> grant_lease option \<times> 's) \<Rightarrow>
     (time \<Rightarrow> grant_lease \<Rightarrow> 's \<Rightarrow> authority_error + 's) \<Rightarrow> ('b, 'w) approver option \<Rightarrow>
     time \<Rightarrow> time \<Rightarrow> local_transport \<Rightarrow> string \<Rightarrow> payload \<Rightarrow>
     ('b, 's, 'w) broker \<Rightarrow> outcome \<times> ('b, 's, 'w) broker" where
  "transport_request consume add approver now later lt right payload br =
     fulfill consume add approver now later (lt_invocation lt) (lt_manifest lt) (lt_authority lt)
       right payload br"

section \<open>Sequences of requests\<close>

record call =
  cl_now :: time
  cl_later :: time
  cl_invocation :: string
  cl_manifest :: plugin_manifest
  cl_authority :: authority_context
  cl_right :: string
  cl_payload :: payload

fun run_calls ::
    "('s \<Rightarrow> time \<Rightarrow> authority_context \<Rightarrow> capability_request \<Rightarrow> data_label set \<Rightarrow> grant_lease option \<times> 's) \<Rightarrow>
     (time \<Rightarrow> grant_lease \<Rightarrow> 's \<Rightarrow> authority_error + 's) \<Rightarrow> ('b, 'w) approver option \<Rightarrow>
     call list \<Rightarrow> ('b, 's, 'w) broker \<Rightarrow> ('b, 's, 'w) broker" where
  "run_calls consume add approver [] br = br"
| "run_calls consume add approver (c # cs) br =
     run_calls consume add approver cs
       (snd (fulfill consume add approver (cl_now c) (cl_later c) (cl_invocation c) (cl_manifest c)
               (cl_authority c) (cl_right c) (cl_payload c) br))"

section \<open>Field lemmas\<close>

lemma put_state_fields [simp]:
  "en_leases (br_engine (put_state rw br)) = en_leases (br_engine br)"
  "en_audit (br_engine (put_state rw br)) = en_audit (br_engine br)"
  "en_resources (br_engine (put_state rw br)) = fst rw"
  "br_adapters (put_state rw br) = br_adapters br" "br_taint (put_state rw br) = br_taint br"
  "br_world (put_state rw br) = snd rw"
  by (simp_all add: put_state_def)

lemma br_state_world [simp]: "snd (br_state br) = br_world br"
  by (simp add: br_state_def)

lemma decide_audit:
  "decide consume m now auth req facts eng = (d, eng') \<Longrightarrow>
   en_audit eng' = audit_record now auth req d (en_audit eng)"
  by (auto simp: decide_def split: prod.splits)

lemma audit_record_last [simp]:
  "au_allowed (last (audit_record now auth req d rows)) = pd_allowed d"
  "au_right (last (audit_record now auth req d rows)) = rq_right req"
  "audit_record now auth req d rows \<noteq> []"
  by (simp_all add: audit_record_def)

lemma decide_for_fields:
  "decide_for consume m now auth p br = (d, br') \<Longrightarrow>
   br_adapters br' = br_adapters br \<and> br_taint br' = br_taint br \<and> br_world br' = br_world br"
  by (auto simp: decide_for_def split: prod.splits)

section \<open>Taint only grows\<close>

lemma fulfill_begin_fields:
  assumes "fulfill_begin inv_id auth right payload br = (res, br')"
  shows "br_taint br' = br_taint br" and "br_adapters br' = br_adapters br"
    and "en_leases (br_engine br') = en_leases (br_engine br)"
    and "res = Inr (auth', p) \<Longrightarrow>
      auth' = auth\<lparr>ac_taint := invocation_taint inv_id (ac_taint auth) br\<rparr> \<and>
      rq_right (pe_request p) = right \<and>
      (\<exists>adapter rw. dget (br_adapters br) right = Some adapter \<and> adapter auth' payload (br_state br) = (Inr p, rw))"
  using assms by (auto simp: fulfill_begin_def Let_def split: option.splits prod.splits sum.splits if_splits)

lemma settle_taint:
  assumes "settle inv_id auth p d br = (out, br')"
  shows "dget (br_taint br') inv_id =
           (if pd_allowed d \<and> pd_observes d then Some (ac_taint auth \<union> pd_labels d) else dget (br_taint br) inv_id)"
    and "i \<noteq> inv_id \<Longrightarrow> dget (br_taint br') i = dget (br_taint br) i"
  using assms
  by (auto simp: settle_def run_enact_def run_abort_def Let_def
      split: if_splits prod.splits sum.splits option.splits)

lemma settle_engine:
  assumes "settle inv_id auth p d br = (out, br')"
  shows "en_leases (br_engine br') = en_leases (br_engine br)"
    and "en_audit (br_engine br') = en_audit (br_engine br)"
    and "br_adapters br' = br_adapters br"
    and "out = Value v \<Longrightarrow> pd_allowed d"
  using assms
  by (auto simp: settle_def run_enact_def run_abort_def Let_def
      split: if_splits prod.splits sum.splits option.splits)

text \<open>
  A concluded request either stops before any settlement, with the denial on record, or
  settles the decision taken last.
\<close>

lemma fulfill_conclude_cases:
  assumes "fulfill_conclude consume add approver now later inv_id m auth p br = (out, br')"
  obtains (settled) t d brd brs where "t \<in> {now, later}"
      "decide_for consume m t auth p brd = (d, brs)" "br_taint brd = br_taint br"
      "br_adapters brd = br_adapters br"
      "brd = br \<or>
       (\<exists>ask d1 br1 l rw. approver = Some ask \<and> decide_for consume m now auth p br = (d1, br1) \<and>
          ask m auth (pe_request p) d1 (br_state br1) = (Inr (Some l), rw) \<and> br_world brd = snd rw \<and>
          add later l (en_leases (br_engine br1)) = Inr (en_leases (br_engine brd)))"
      "settle inv_id auth p d brs = (out, br')"
    | (asked) ask d br1 rw where "approver = Some ask" "decide_for consume m now auth p br = (d, br1)"
      "\<not> pd_allowed d" "ask m auth (pe_request p) d (br_state br1) = (Inr None, rw)"
      "settle inv_id auth p d (put_state rw br1) = (out, br')"
    | (stopped) ask d br1 e l rw where "approver = Some ask" "decide_for consume m now auth p br = (d, br1)"
      "\<not> pd_allowed d" "br' = put_state rw br1" "\<And>v. out \<noteq> Value v"
      "ask m auth (pe_request p) d (br_state br1) = (Inl e, rw) \<or>
       ask m auth (pe_request p) d (br_state br1) = (Inr (Some l), rw)"
proof -
  obtain d br1 where d: "decide_for consume m now auth p br = (d, br1)" by force
  note f = decide_for_fields [OF d]
  show thesis
  proof (cases approver)
    case None
    with assms d show thesis by (intro settled [of now br d br1]) (simp_all add: fulfill_conclude_def)
  next
    case (Some ask)
    show thesis
    proof (cases "pd_allowed d \<or> pd_reason d \<noteq> no_lease_reason")
      case True
      with assms d Some show thesis
        by (intro settled [of now br d br1]) (simp_all add: fulfill_conclude_def)
    next
      case False
      obtain res rw where r: "ask m auth (pe_request p) d (br_state br1) = (res, rw)" by (rule prod.exhaust)
      show thesis
      proof (cases res)
        case (Inl e)
        with assms d Some False r show thesis
          by (intro stopped [of ask d br1 rw e]) (auto simp: fulfill_conclude_def)
      next
        case (Inr lo)
        show thesis
        proof (cases lo)
          case None
          with assms d Some False r Inr show thesis
            by (intro asked [of ask d br1 rw]) (simp_all add: fulfill_conclude_def)
        next
          case lease: (Some l)
          let ?br2 = "put_state rw br1"
          show thesis
          proof (cases "add later l (en_leases (br_engine ?br2))")
            case Inl': (Inl e)
            with assms d Some False r Inr lease show thesis
              by (intro stopped [of ask d br1 rw _ l]) (auto simp: fulfill_conclude_def Let_def)
          next
            case Inr': (Inr leases')
            let ?br3 = "?br2\<lparr>br_engine := (br_engine ?br2)\<lparr>en_leases := leases'\<rparr>\<rparr>"
            obtain d' br4 where d': "decide_for consume m later auth p ?br3 = (d', br4)" by force
            have "\<exists>a. rw = (a, snd rw)" by (cases rw) simp
            with d' assms d Some False r Inr lease Inr' f show thesis
              by (intro settled [of later ?br3 d' br4]) (simp_all add: fulfill_conclude_def Let_def)
          qed
        qed
      qed
    qed
  qed
qed

lemma conclude_taint:
  assumes "fulfill_conclude consume add approver now later inv_id m auth p br = (out, br')"
    and "invocation_taint inv_id dflt br \<subseteq> ac_taint auth"
  shows "invocation_taint inv_id dflt br \<subseteq> invocation_taint inv_id dflt br'"
    and "i \<noteq> inv_id \<Longrightarrow> dget (br_taint br') i = dget (br_taint br) i"
  using assms(1)
  by (cases rule: fulfill_conclude_cases;
      use assms(2) in \<open>fastforce simp: invocation_taint_def settle_taint dest!: decide_for_fields split: option.splits\<close>)+

lemma fulfill_taint:
  assumes "fulfill consume add approver now later inv_id m auth right payload br = (out, br')"
  shows "invocation_taint inv_id (ac_taint auth) br \<subseteq> invocation_taint inv_id (ac_taint auth) br'"
    and "invocation_taint i {} br \<subseteq> invocation_taint i {} br'"
    and "i \<noteq> inv_id \<Longrightarrow> dget (br_taint br') i = dget (br_taint br) i"
proof -
  obtain res br1 where b: "fulfill_begin inv_id auth right payload br = (res, br1)" by force
  note f = fulfill_begin_fields [OF b]
  have "invocation_taint inv_id (ac_taint auth) br \<subseteq> invocation_taint inv_id (ac_taint auth) br' \<and>
      invocation_taint inv_id {} br \<subseteq> invocation_taint inv_id {} br' \<and>
      (\<forall>i. i \<noteq> inv_id \<longrightarrow> dget (br_taint br') i = dget (br_taint br) i)"
  proof (cases res)
    case (Inl e)
    with assms b f(1) show ?thesis by (auto simp: fulfill_def invocation_taint_def)
  next
    case (Inr ap)
    obtain auth' p where ap: "ap = (auth', p)" by (cases ap)
    with Inr b assms have c: "fulfill_conclude consume add approver now later inv_id m auth' p br1 = (out, br')"
      by (simp add: fulfill_def)
    from f(4) Inr ap have t: "ac_taint auth' = invocation_taint inv_id (ac_taint auth) br" by simp
    have same: "invocation_taint inv_id x br1 = invocation_taint inv_id x br" for x
      using f(1) by (simp add: invocation_taint_def)
    have "invocation_taint inv_id {} br \<subseteq> invocation_taint inv_id (ac_taint auth) br"
      by (simp add: invocation_taint_def split: option.splits)
    with t same show ?thesis
      using conclude_taint [OF c, of "ac_taint auth"] conclude_taint(1) [OF c, of "{}"] f(1) by simp
  qed
  then show "invocation_taint inv_id (ac_taint auth) br \<subseteq> invocation_taint inv_id (ac_taint auth) br'"
    and other: "i \<noteq> inv_id \<Longrightarrow> dget (br_taint br') i = dget (br_taint br) i"
    and "invocation_taint i {} br \<subseteq> invocation_taint i {} br'"
    by (simp_all) (cases "i = inv_id"; simp add: invocation_taint_def)
qed

lemma run_calls_taint:
  "invocation_taint i {} br \<subseteq> invocation_taint i {} (run_calls consume add approver cs br)"
proof (induction cs arbitrary: br)
  case Nil
  then show ?case by simp
next
  case (Cons c cs)
  obtain out br' where f: "fulfill consume add approver (cl_now c) (cl_later c) (cl_invocation c)
     (cl_manifest c) (cl_authority c) (cl_right c) (cl_payload c) br = (out, br')" by (rule prod.exhaust)
  from fulfill_taint(2) [OF f, of i] Cons.IH [of br'] f show ?case by auto
qed

section \<open>No effect without a decision\<close>

text \<open>
  \<open>obs\<close> is what of the kernel state a request is meant to protect. Preparing and aborting may
  parse, resolve and reserve, and the approver may talk to a user, but none of them changes it.
\<close>

definition quiet_adapter :: "('w \<Rightarrow> 'o) \<Rightarrow> ('b, 'w) adapter \<Rightarrow> bool" where
  "quiet_adapter obs ad \<longleftrightarrow> (\<forall>auth payload rw.
     obs (snd (snd (ad auth payload rw))) = obs (snd rw) \<and>
     (\<forall>p. fst (ad auth payload rw) = Inr p \<longrightarrow>
        (\<forall>ab. pe_abort p = Some ab \<longrightarrow> (\<forall>rw'. obs (snd (snd (ab rw'))) = obs (snd rw')))))"

definition quiet_approver :: "('w \<Rightarrow> 'o) \<Rightarrow> ('b, 'w) approver \<Rightarrow> bool" where
  "quiet_approver obs ask \<longleftrightarrow> (\<forall>m auth req d rw. obs (snd (snd (ask m auth req d rw))) = obs (snd rw))"

lemma settle_quiet:
  assumes "settle inv_id auth p d br = (out, br')" and "\<not> pd_allowed d"
    and "\<forall>ab rw. pe_abort p = Some ab \<longrightarrow> obs (snd (snd (ab rw))) = obs (snd rw)"
  shows "obs (br_world br') = obs (br_world br)"
proof (cases "pe_abort p")
  case None
  with assms show ?thesis by (auto simp: settle_def run_abort_def)
next
  case (Some ab)
  with assms(3) have "obs (snd (snd (ab (br_state br)))) = obs (br_world br)" by (metis br_state_world)
  with Some assms(1,2) show ?thesis
    by (auto simp: settle_def run_abort_def split: prod.splits sum.splits)
qed

lemma fulfill_begin_quiet:
  assumes "fulfill_begin inv_id auth right payload br = (res, br')"
    and "\<forall>r ad. dget (br_adapters br) r = Some ad \<longrightarrow> quiet_adapter obs ad"
  shows "obs (br_world br') = obs (br_world br)"
    and "res = Inr (auth', p) \<Longrightarrow> pe_abort p = Some ab \<Longrightarrow> obs (snd (snd (ab rw))) = obs (snd rw)"
proof -
  have q: "obs (br_world br') = obs (br_world br) \<and>
     (res = Inr (auth', p) \<longrightarrow> pe_abort p = Some ab \<longrightarrow> obs (snd (snd (ab rw))) = obs (snd rw))"
  proof (cases "dget (br_adapters br) right")
    case None
    with assms(1) show ?thesis by (auto simp: fulfill_begin_def)
  next
    case (Some ad)
    obtain r w where a: "ad (auth\<lparr>ac_taint := invocation_taint inv_id (ac_taint auth) br\<rparr>) payload (br_state br) = (r, w)"
      by (rule prod.exhaust)
    from assms(2) Some have "quiet_adapter obs ad" by blast
    with a
    have "obs (snd w) = obs (br_world br)"
      "\<And>p ab rw'. r = Inr p \<Longrightarrow> pe_abort p = Some ab \<Longrightarrow> obs (snd (snd (ab rw'))) = obs (snd rw')"
      by (metis (no_types, lifting) quiet_adapter_def fst_conv snd_conv br_state_world)+
    with assms(1) Some a show ?thesis
      by (cases rw; auto simp: fulfill_begin_def Let_def split: sum.splits if_splits)
  qed
  then show "obs (br_world br') = obs (br_world br)" by simp
  show "obs (snd (snd (ab rw))) = obs (snd rw)" if "res = Inr (auth', p)" "pe_abort p = Some ab"
    using q that by simp
qed

text \<open>
  A request was mediated when it was authorised against a registry and, where its effect or
  its labels call for one, an active lease covered it with all of its labels.
\<close>

definition mediated ::
    "time \<Rightarrow> plugin_manifest \<Rightarrow> authority_context \<Rightarrow> capability_request \<Rightarrow> mediation_facts \<Rightarrow>
     'b registry \<Rightarrow> data_label set \<Rightarrow> bool" where
  "mediated t m auth req facts reg labels \<longleftrightarrow>
     authorised m t auth req reg \<and> labels = joined_labels auth req facts reg \<and>
     (\<exists>cap. descriptor (rq_right req) = Some cap \<and>
        (requires_lease cap auth facts labels \<longrightarrow> (\<exists>l. lease_covers t auth req labels l)))"

definition observing :: "string \<Rightarrow> bool" where
  "observing right = (case descriptor right of None \<Rightarrow> False | Some cap \<Rightarrow> cd_observes cap)"

text \<open>A store the broker can also file leases in.\<close>

locale lease_store_ops = lease_provider consume budget inv
  for consume :: "'s \<Rightarrow> time \<Rightarrow> authority_context \<Rightarrow> capability_request \<Rightarrow> data_label set \<Rightarrow> grant_lease option \<times> 's"
    and budget inv +
  fixes add :: "time \<Rightarrow> grant_lease \<Rightarrow> 's \<Rightarrow> authority_error + 's"
  assumes add_inv: "inv s \<Longrightarrow> add now l s = Inr s' \<Longrightarrow> inv s'"
begin

lemma decide_for_inv:
  assumes "inv (en_leases (br_engine br))" and "decide_for consume m now auth p br = (d, br')"
  shows "inv (en_leases (br_engine br'))"
  using assms by (auto simp: decide_for_def split: prod.splits intro: decide_inv)

text \<open>
  When a request changed what its adapter protects, the engine allowed it: it was authorised
  against the registry at that moment, a lease covered it where one was required, and the
  decision is the last one on record.
\<close>

lemma conclude_guarded:
  fixes br br' :: "('b, 's, 'w) broker"
  assumes inv: "inv (en_leases (br_engine br))"
    and c: "fulfill_conclude consume add approver now later inv_id m auth p br = (out, br')"
    and ask: "\<And>ask. approver = Some ask \<Longrightarrow> quiet_approver obs ask"
    and ab: "\<forall>ab rw. pe_abort p = Some ab \<longrightarrow> obs (snd (snd (ab rw))) = obs (snd rw)"
    and changed: "obs (br_world br') \<noteq> obs (br_world br) \<or> out = Value v"
  shows "\<exists>t \<in> {now, later}. \<exists>(reg :: 'b registry) labels. mediated t m auth (pe_request p) (pe_facts p) reg labels \<and>
     (observing (rq_right (pe_request p)) \<longrightarrow> labels \<subseteq> invocation_taint inv_id {} br') \<and>
     au_allowed (last (en_audit (br_engine br'))) \<and>
     au_right (last (en_audit (br_engine br'))) = rq_right (pe_request p)"
  using c
proof (cases rule: fulfill_conclude_cases)
  case (settled t d brd brs)
  from decide_for_fields [OF settled(2)] have w: "br_world brs = br_world brd" by simp
  have inv': "inv (en_leases (br_engine brd))"
    using settled(5) inv by (auto dest: decide_for_inv add_inv)
  have obs: "obs (br_world brd) = obs (br_world br)"
    using settled(5)
  proof (elim disjE exE conjE)
    fix ask d1 br1 l rw
    assume a: "approver = Some ask" "decide_for consume m now auth p br = (d1, br1)"
      "ask m auth (pe_request p) d1 (br_state br1) = (Inr (Some l), rw)" "br_world brd = snd rw"
    from assms(3) [OF a(1)] a(3) have "obs (snd rw) = obs (br_world br1)"
      by (metis quiet_approver_def snd_conv br_state_world)
    with a decide_for_fields [OF a(2)] show ?thesis by simp
  qed simp
  have al: "pd_allowed d"
  proof (rule ccontr)
    assume n: "\<not> pd_allowed d"
    from settle_quiet [where obs = obs, OF settled(6) n ab] w obs have "obs (br_world br') = obs (br_world br)" by simp
    with changed settle_engine(4) [OF settled(6)] n show False by auto
  qed
  from settled(2) obtain eng' where de: "decide consume m t auth (pe_request p) (pe_facts p) (br_engine brd) = (d, eng')"
    "brs = brd\<lparr>br_engine := eng'\<rparr>" by (auto simp: decide_for_def split: prod.splits)
  from decide_allowed [OF inv' de(1) al] obtain cap where cap: "descriptor (rq_right (pe_request p)) = Some cap"
    "authorised m t auth (pe_request p) (en_resources (br_engine brd))"
    "pd_labels d = joined_labels auth (pe_request p) (pe_facts p) (en_resources (br_engine brd))"
    "pd_observes d = cd_observes cap"
    "requires_lease cap auth (pe_facts p) (pd_labels d) \<Longrightarrow>
       \<exists>l. lease_covers t auth (pe_request p) (pd_labels d) l \<and> pd_lease_id d = gl_id l" by blast
  have au: "en_audit (br_engine br') = audit_record t auth (pe_request p) d (en_audit (br_engine brd))"
    using settle_engine(2) [OF settled(6)] de decide_audit [OF de(1)] by simp
  have "observing (rq_right (pe_request p)) \<Longrightarrow> pd_labels d \<subseteq> invocation_taint inv_id {} br'"
    using settle_taint(1) [OF settled(6)] al cap(1,4) by (simp add: invocation_taint_def observing_def)
  moreover have "mediated t m auth (pe_request p) (pe_facts p) (en_resources (br_engine brd)) (pd_labels d)"
    using cap by (auto simp: mediated_def)
  moreover have "t \<in> {now, later}" "au_allowed (last (en_audit (br_engine br')))"
    "au_right (last (en_audit (br_engine br'))) = rq_right (pe_request p)"
    using au al settled(1) by simp_all
  ultimately show ?thesis by blast
next
  case (asked ask d br1 rw)
  from decide_for_fields [OF asked(2)] have w: "br_world br1 = br_world br" by simp
  have "obs (snd rw) = obs (br_world br1)"
    using assms(3) [OF asked(1)] asked(4) by (metis quiet_approver_def snd_conv br_state_world)
  with settle_quiet [where obs = obs, OF asked(5) asked(3) ab] w have "obs (br_world br') = obs (br_world br)" by simp
  with changed settle_engine(4) [OF asked(5)] asked(3) show ?thesis by auto
next
  case (stopped ask d br1 e l rw)
  from decide_for_fields [OF stopped(2)] have w: "br_world br1 = br_world br" by simp
  have "obs (snd rw) = obs (br_world br1)"
    using assms(3) [OF stopped(1)] stopped(6) by (metis quiet_approver_def snd_conv br_state_world)
  with stopped(4) w have "obs (br_world br') = obs (br_world br)" by simp
  with changed stopped(5) show ?thesis by auto
qed

lemma settle_inv:
  "inv (en_leases (br_engine br)) \<Longrightarrow> settle inv_id auth p d br = (out, br') \<Longrightarrow> inv (en_leases (br_engine br'))"
  by (simp add: settle_engine)

lemma fulfill_inv:
  assumes "inv (en_leases (br_engine br))"
    and "fulfill consume add approver now later inv_id m auth right payload br = (out, br')"
  shows "inv (en_leases (br_engine br'))"
proof -
  obtain res br1 where b: "fulfill_begin inv_id auth right payload br = (res, br1)" by force
  with assms(1) fulfill_begin_fields(3) [OF b] have i1: "inv (en_leases (br_engine br1))" by simp
  show ?thesis
  proof (cases res)
    case (Inl e)
    with assms(2) b i1 show ?thesis by (simp add: fulfill_def)
  next
    case (Inr ap)
    obtain auth' p where "ap = (auth', p)" by (cases ap)
    with Inr b assms(2) have c: "fulfill_conclude consume add approver now later inv_id m auth' p br1 = (out, br')"
      by (simp add: fulfill_def)
    from c show ?thesis
    proof (cases rule: fulfill_conclude_cases)
      case (settled t d brd brs)
      from settled(5) i1 have "inv (en_leases (br_engine brd))" by (auto dest: decide_for_inv add_inv)
      with settled(2,6) show ?thesis by (blast intro: settle_inv decide_for_inv)
    next
      case (asked ask d br2 rw)
      from decide_for_inv [OF i1 asked(2)] have "inv (en_leases (br_engine (put_state rw br2)))" by simp
      from settle_inv [OF this asked(5)] show ?thesis .
    next
      case (stopped ask d br2 e l rw)
      from stopped(4) decide_for_inv [OF i1 stopped(2)] show ?thesis by simp
    qed
  qed
qed

lemma run_calls_inv:
  "inv (en_leases (br_engine br)) \<Longrightarrow> inv (en_leases (br_engine (run_calls consume add approver cs br)))"
proof (induction cs arbitrary: br)
  case (Cons c cs)
  obtain out br' where f: "fulfill consume add approver (cl_now c) (cl_later c) (cl_invocation c)
     (cl_manifest c) (cl_authority c) (cl_right c) (cl_payload c) br = (out, br')" by (rule prod.exhaust)
  with Cons fulfill_inv [OF Cons.prems f] show ?case by simp
qed simp

lemma fulfill_guarded:
  fixes br br' :: "('b, 's, 'w) broker"
  assumes inv: "inv (en_leases (br_engine br))"
    and f: "fulfill consume add approver now later inv_id m auth right payload br = (out, br')"
    and ask: "\<And>ask. approver = Some ask \<Longrightarrow> quiet_approver obs ask"
    and ad: "\<forall>r ad. dget (br_adapters br) r = Some ad \<longrightarrow> quiet_adapter obs ad"
    and changed: "obs (br_world br') \<noteq> obs (br_world br) \<or> out = Value v"
  shows "\<exists>t \<in> {now, later}. \<exists>req facts (reg :: 'b registry) labels.
     mediated t m (auth\<lparr>ac_taint := invocation_taint inv_id (ac_taint auth) br\<rparr>) req facts reg labels \<and>
     rq_right req = right \<and>
     (observing right \<longrightarrow> labels \<subseteq> invocation_taint inv_id {} br') \<and>
     au_allowed (last (en_audit (br_engine br'))) \<and>
     au_right (last (en_audit (br_engine br'))) = right"
proof -
  obtain res br1 where b: "fulfill_begin inv_id auth right payload br = (res, br1)" by force
  note fb = fulfill_begin_fields [OF b]
  have q: "obs (br_world br1) = obs (br_world br)" by (rule fulfill_begin_quiet(1) [OF b ad])
  show ?thesis
  proof (cases res)
    case (Inl e)
    with f b q changed show ?thesis by (auto simp: fulfill_def)
  next
    case (Inr ap)
    obtain auth' p where ap: "ap = (auth', p)" by (cases ap)
    with Inr b f have c: "fulfill_conclude consume add approver now later inv_id m auth' p br1 = (out, br')"
      by (simp add: fulfill_def)
    have ab: "\<forall>ab rw. pe_abort p = Some ab \<longrightarrow> obs (snd (snd (ab rw))) = obs (snd rw)"
      using fulfill_begin_quiet(2) [OF b ad] Inr ap by blast
    have inv1: "inv (en_leases (br_engine br1))" using inv fb(3) by simp
    from fb(4) Inr ap have a: "auth' = auth\<lparr>ac_taint := invocation_taint inv_id (ac_taint auth) br\<rparr>"
      "rq_right (pe_request p) = right" by auto
    from conclude_guarded [OF inv1 c ask ab, of v] changed q a show ?thesis by metis
  qed
qed

text \<open>
  What an invocation reads stays with it: after a request that observed sensitive data, every
  later request of the same invocation that goes through is covered by a lease that accepts
  those labels, whatever was requested in between.
\<close>

lemma read_taints_later_requests:
  fixes br br1 br3 :: "('b, 's, 'w) broker"
  assumes inv: "inv (en_leases (br_engine br))"
    and read: "fulfill consume add approver t1 t2 inv_id m auth right payload br = (Value v, br1)"
    and obsr: "observing right"
    and later: "fulfill consume add approver t3 t4 inv_id m' auth' right' payload' (run_calls consume add approver cs br1)
                  = (Value v', br3)"
  shows "\<exists>t \<in> {t1, t2}. \<exists>req facts (reg :: 'b registry) labels.
     mediated t m (auth\<lparr>ac_taint := invocation_taint inv_id (ac_taint auth) br\<rparr>) req facts reg labels \<and>
     rq_right req = right \<and>
     (sensitive labels \<longrightarrow> (\<exists>t' \<in> {t3, t4}. \<exists>auth'' req' labels' l.
        lease_covers t' auth'' req' labels' l \<and> ac_digest auth'' = ac_digest auth' \<and>
        rq_right req' = right' \<and> labels \<subseteq> gl_labels l))"
proof -
  let ?br2 = "run_calls consume add approver cs br1"
  define trivial :: "'w \<Rightarrow> unit" where "trivial = (\<lambda>_. ())"
  have qa: "quiet_approver trivial ask" for ask :: "('b, 'w) approver" by (simp add: quiet_approver_def)
  have qd: "quiet_adapter trivial ad" for ad :: "('b, 'w) adapter" by (simp add: quiet_adapter_def)
  from fulfill_guarded [OF inv read qa, of v] qd obsr
  obtain t req facts and reg :: "'b registry" and labels
    where 1: "t \<in> {t1, t2}" "rq_right req = right" "labels \<subseteq> invocation_taint inv_id {} br1"
      "mediated t m (auth\<lparr>ac_taint := invocation_taint inv_id (ac_taint auth) br\<rparr>) req facts reg labels"
    by blast
  have inv2: "inv (en_leases (br_engine ?br2))" by (rule run_calls_inv [OF fulfill_inv [OF inv read]])
  from fulfill_guarded [OF inv2 later qa, of v'] qd
  obtain t' req' facts' and reg' :: "'b registry" and labels'
    where 2: "t' \<in> {t3, t4}" "rq_right req' = right'"
      "mediated t' m' (auth'\<lparr>ac_taint := invocation_taint inv_id (ac_taint auth') ?br2\<rparr>) req' facts' reg' labels'"
    by blast
  have "labels \<subseteq> invocation_taint inv_id (ac_taint auth') ?br2" if "sensitive labels"
  proof -
    have "labels \<subseteq> invocation_taint inv_id {} ?br2" using 1(3) run_calls_taint by (rule order_trans)
    with that show ?thesis
      by (cases "dget (br_taint ?br2) inv_id") (auto simp: invocation_taint_def sensitive_iff)
  qed
  then have sub: "labels \<subseteq> labels'" if "sensitive labels"
    using 2(3) that by (auto simp: mediated_def joined_labels_def)
  have "\<exists>l. lease_covers t' (auth'\<lparr>ac_taint := invocation_taint inv_id (ac_taint auth') ?br2\<rparr>) req' labels' l"
    if "sensitive labels"
    using 2(3) sensitive_mono [OF that sub [OF that]] by (auto simp: mediated_def requires_lease_def Let_def)
  then obtain l where l: "sensitive labels \<Longrightarrow>
      lease_covers t' (auth'\<lparr>ac_taint := invocation_taint inv_id (ac_taint auth') ?br2\<rparr>) req' labels' l"
    by blast
  have "labels \<subseteq> gl_labels l" if "sensitive labels"
    using l [OF that] sub [OF that] by (auto simp: lease_covers_def lease_in_scope_def)
  moreover have "ac_digest (auth'\<lparr>ac_taint := invocation_taint inv_id (ac_taint auth') ?br2\<rparr>) = ac_digest auth'"
    by simp
  ultimately show ?thesis using 1 2(1,2) l by blast
qed

end

interpretation memory_broker: lease_store_ops find_and_consume lease_budget lease_store_wf
  "\<lambda>_. lease_add"
  by unfold_locales (rule lease_add_wf)

lemma sql_lease_add_wf:
  "lease_table_wf rows \<Longrightarrow> sql_lease_add now l rows = Inr rows' \<Longrightarrow> lease_table_wf rows'"
  by (fastforce simp: lease_table_wf_def sql_lease_add_def list_ex_iff split: if_splits)

interpretation durable_broker: lease_store_ops sql_find_and_consume sql_lease_budget lease_table_wf
  sql_lease_add
  by unfold_locales (rule sql_lease_add_wf)

end
