(* ===== verification/Scenarios.thy ===== *)
theory Scenarios
  imports Broker
begin

text \<open>
  A small concrete kernel used to exercise the theorems: one plugin that may reach one host, the
  lease that covers it, and a broker whose world is the list of requests sent.
\<close>

definition demo_manifest :: plugin_manifest where
  "demo_manifest = \<lparr>pm_schema_version = 1, pm_plugin_id = ''demo'', pm_version = ''1'', pm_runtime = ''python'',
     pm_description = '''', pm_handlers = [],
     pm_capabilities = [\<lparr>cp_right = ''network.http'', cp_resource = ''*'', cp_destinations = [''example.org''],
       cp_labels = [], cp_constraints = []\<rparr>],
     pm_budgets = \<lparr>rb_memory_mb = 512, rb_cpu_seconds = 30, rb_wall_seconds = 30,
       rb_max_output_bytes = 8388608, rb_max_concurrency = 1\<rparr>, pm_source_path = ''''\<rparr>"

definition demo_authority :: authority_context where
  "demo_authority = \<lparr>ac_digest = ''d1'', ac_principal = ''user'',
     ac_provenance = \<lparr>pc_principal = ''user'', pc_frames = []\<rparr>, ac_user = None, ac_session = None,
     ac_conversation = None, ac_unattended = False, ac_taint = {}\<rparr>"

definition demo_lease :: "int option \<Rightarrow> grant_lease" where
  "demo_lease uses = \<lparr>gl_id = ''l1'', gl_digest = ''d1'', gl_principal = ''user'', gl_right = ''network.http'',
     gl_selector = ''*'', gl_labels = {PUBLIC, USER_PRIVATE}, gl_destination = ''example.org'', gl_user = None,
     gl_session = None, gl_conversation = None, gl_unattended = False, gl_expires = None, gl_uses = uses,
     gl_provenance = [], gl_revoked = False\<rparr>"

definition demo_request :: capability_request where
  "demo_request = \<lparr>rq_right = ''network.http'', rq_token = '''', rq_selector = ''example.org'',
     rq_destination = ''example.org'', rq_labels = {}\<rparr>"

definition demo_facts :: mediation_facts where
  "demo_facts = default_facts\<lparr>mf_observed := {USER_PRIVATE}\<rparr>"

definition demo_adapter :: "(unit, string list) adapter" where
  "demo_adapter auth payload rw =
     (Inr \<lparr>pe_request = demo_request, pe_facts = demo_facts,
           pe_enact = (\<lambda>(reg, sent). (Inr (VStr ''ok''), (reg, sent @ [''GET'']))), pe_abort = None\<rparr>, rw)"

definition demo_broker :: "'s \<Rightarrow> (unit, 's, string list) broker" where
  "demo_broker leases = \<lparr>br_engine = \<lparr>en_resources = empty_registry, en_leases = leases, en_audit = []\<rparr>,
     br_adapters = [(''network.http'', demo_adapter)], br_taint = [], br_world = []\<rparr>"

abbreviation demo_fulfill ::
    "(unit, lease_table, string list) broker \<Rightarrow> outcome \<times> (unit, lease_table, string list) broker" where
  "demo_fulfill \<equiv> fulfill sql_find_and_consume sql_lease_add None 1 2 ''i1'' demo_manifest demo_authority
     ''network.http'' []"

abbreviation demo_rows :: lease_table where
  "demo_rows \<equiv> [(demo_lease (Some 2), 0)]"

lemma demo_quiet: "dget (br_adapters (demo_broker s)) r = Some ad \<Longrightarrow> quiet_adapter obs ad"
  by (auto simp: demo_broker_def quiet_adapter_def demo_adapter_def split: if_splits)

lemma demo_rows_wf: "lease_table_wf demo_rows"
  by (simp add: lease_table_wf_def)

lemma demo_sent:
  "(case demo_fulfill (demo_broker demo_rows) of (Value v, br) \<Rightarrow> v = VStr ''ok'' \<and> br_world br = [''GET''] | _ \<Rightarrow> False)"
  by code_simp

lemma demo_sent_twice:
  "(case demo_fulfill (snd (demo_fulfill (demo_broker demo_rows))) of
      (Value v, br) \<Rightarrow> v = VStr ''ok'' \<and> br_world br = [''GET'', ''GET''] | _ \<Rightarrow> False)"
  by code_simp

lemma demo_refused:
  "(case demo_fulfill (demo_broker []) of (Denied r e, br) \<Rightarrow> r = no_lease_reason \<and> br_world br = [] | _ \<Rightarrow> False)"
  by code_simp

end
