(* ===== verification/Database.thy ===== *)
theory Database
  imports Capabilities "HOL-Library.Product_Lexorder"
begin

text \<open>
  \<open>pipeline/database.py\<close>: the tables of the task pipeline and the statements that change them. A
  table is the list of its rows in rowid order; every method runs one transaction under the
  database lock and is one function here. The clock reading of a method is its argument \<open>now\<close>;
  readings are integers, and only their order matters. Where SQLite leaves the order of a result
  open, the table order is taken.
\<close>

section \<open>Rows\<close>

datatype task_status = PENDING | PROCESSING | DONE | FAILED

record file_row =
  fl_path :: string
  fl_name :: string
  fl_extension :: string
  fl_modality :: string
  fl_mtime :: time
  fl_discovered :: time
  fl_updated :: time
  fl_source :: string

record queue_row =
  tq_path :: string
  tq_task :: string
  tq_status :: task_status
  tq_priority :: int
  tq_created :: time
  tq_started :: "time option"
  tq_completed :: "time option"
  tq_error :: "string option"

record run_row =
  ru_id :: string
  ru_task :: string
  ru_status :: task_status
  ru_triggered :: "string option"
  ru_parent :: "string option"
  ru_payload :: "string option"
  ru_created :: time
  ru_started :: "time option"
  ru_finished :: "time option"
  ru_error :: "string option"

record task_row =
  rt_name :: string
  rt_writes :: string
  rt_reads :: string
  rt_modalities :: string
  rt_trigger :: string
  rt_channels :: string

record database =
  db_files :: "file_row list"
  db_queue :: "queue_row list"
  db_runs :: "run_row list"
  db_registered :: "task_row list"

definition empty_database :: database where
  "empty_database = \<lparr>db_files = [], db_queue = [], db_runs = [], db_registered = []\<rparr>"

text \<open>\<open>UPDATE ... WHERE\<close> and the row count it reports, \<open>LIMIT\<close> with its reading of a negative bound.\<close>

definition update_where :: "('r \<Rightarrow> bool) \<Rightarrow> ('r \<Rightarrow> 'r) \<Rightarrow> 'r list \<Rightarrow> 'r list" where
  "update_where p f rows = map (\<lambda>r. if p r then f r else r) rows"

definition row_count :: "('r \<Rightarrow> bool) \<Rightarrow> 'r list \<Rightarrow> int" where
  "row_count p rows = int (length (filter p rows))"

definition sql_limit :: "int \<Rightarrow> 'r list \<Rightarrow> 'r list" where
  "sql_limit n rows = (if n < 0 then rows else take (nat n) rows)"

text \<open>
  \<open>UPDATE ... WHERE id IN (SELECT ... ORDER BY ... LIMIT ?) RETURNING ...\<close>: the rows returned, as they
  were selected, and the table with them marked.
\<close>

definition sql_selected :: "('r \<Rightarrow> 'o :: linorder) \<Rightarrow> ('r \<Rightarrow> bool) \<Rightarrow> int \<Rightarrow> 'r list \<Rightarrow> 'r list" where
  "sql_selected order eligible n rows = sql_limit n (sort_key order (filter eligible rows))"

definition sql_claim ::
    "('r \<Rightarrow> 'k) \<Rightarrow> ('r \<Rightarrow> 'o :: linorder) \<Rightarrow> ('r \<Rightarrow> bool) \<Rightarrow> int \<Rightarrow> ('r \<Rightarrow> 'r) \<Rightarrow> 'r list \<Rightarrow> 'r list \<times> 'r list" where
  "sql_claim key order eligible n mark rows =
     (let ids = set (map key (sql_selected order eligible n rows)) in
      (filter (\<lambda>r. key r \<in> ids) rows, update_where (\<lambda>r. key r \<in> ids) mark rows))"

section \<open>Priorities\<close>

text \<open>
  The module defines \<open>_HIGH_PRIORITY\<close> twice; the lock's \<open>_HIGH_PRIORITY, _LOW_PRIORITY = 0, 1\<close> comes
  second, and \<open>_priority_for\<close> reads the name when it is called.
\<close>

definition high_priority :: int where "high_priority = 0"
definition low_priority :: int where "low_priority = 1"
definition default_priority :: int where "default_priority = 0"

definition forward_slashes :: "string \<Rightarrow> string" where
  "forward_slashes s = rstrip_slash (map (\<lambda>c. if c = CHR 0x5C then CHR ''/'' else c) s)"

definition priority_for :: "string list \<Rightarrow> string \<Rightarrow> int" where
  "priority_for roots path =
     (let norm = forward_slashes path in
      if list_ex (\<lambda>root. let r = forward_slashes root in norm = r \<or> prefix (r @ ''/'') norm) roots
      then high_priority else default_priority)"

section \<open>Files\<close>

definition upsert_file ::
    "time \<Rightarrow> string \<Rightarrow> string \<Rightarrow> string \<Rightarrow> string \<Rightarrow> time \<Rightarrow> string \<Rightarrow> database \<Rightarrow> database" where
  "upsert_file now path nm ext modality mtime source db =
     (if list_ex (\<lambda>r. fl_path r = path) (db_files db)
      then db\<lparr>db_files := update_where (\<lambda>r. fl_path r = path)
             (\<lambda>r. r\<lparr>fl_mtime := mtime, fl_updated := now\<rparr>) (db_files db)\<rparr>
      else db\<lparr>db_files := db_files db @ [\<lparr>fl_path = path, fl_name = nm, fl_extension = ext, fl_modality = modality,
             fl_mtime = mtime, fl_discovered = now, fl_updated = now, fl_source = source\<rparr>]\<rparr>)"

definition remove_file :: "string \<Rightarrow> database \<Rightarrow> database" where
  "remove_file path db = db\<lparr>db_queue := filter (\<lambda>r. tq_path r \<noteq> path) (db_queue db),
                            db_files := filter (\<lambda>r. fl_path r \<noteq> path) (db_files db)\<rparr>"

definition get_all_files :: "database \<Rightarrow> (string, time) pydict" where
  "get_all_files db = map (\<lambda>r. (fl_path r, fl_mtime r)) (db_files db)"

definition get_watched_files :: "database \<Rightarrow> (string, time) pydict" where
  "get_watched_files db =
     map (\<lambda>r. (fl_path r, fl_mtime r)) (filter (\<lambda>r. fl_source r = ''watched'') (db_files db))"

text \<open>\<open>LIKE\<close> without an escape character: the directory is a pattern, whatever it contains.\<close>

fun sql_like :: "string \<Rightarrow> string \<Rightarrow> bool" where
  "sql_like [] s = (s = [])"
| "sql_like (p # ps) [] = (p = CHR ''%'' \<and> sql_like ps [])"
| "sql_like (p # ps) (c # cs) =
     (if p = CHR ''%'' then sql_like ps (c # cs) \<or> sql_like (p # ps) cs
      else (p = CHR ''_'' \<or> lower_char p = lower_char c) \<and> sql_like ps cs)"

definition get_container_children :: "string \<Rightarrow> database \<Rightarrow> string list" where
  "get_container_children extract_dir db =
     map fl_path (filter (\<lambda>r. fl_source r = ''container'' \<and>
        sql_like (rstrip_when (\<lambda>c. c = CHR ''/'' \<or> c = CHR 0x5C) extract_dir @ ''%'') (fl_path r)) (db_files db))"

definition get_files_by_modality :: "string \<Rightarrow> database \<Rightarrow> string list" where
  "get_files_by_modality modality db = map fl_path (filter (\<lambda>r. fl_modality r = modality) (db_files db))"

definition get_paths_with_any_task_done :: "string list \<Rightarrow> database \<Rightarrow> string list" where
  "get_paths_with_any_task_done names db =
     (if names = [] then []
      else remdups (map tq_path (filter (\<lambda>r. tq_task r \<in> set names \<and> tq_status r = DONE) (db_queue db))))"

section \<open>The task queue\<close>

definition queue_key :: "queue_row \<Rightarrow> string \<times> string" where
  "queue_key r = (tq_path r, tq_task r)"

definition new_row :: "string list \<Rightarrow> time \<Rightarrow> string \<Rightarrow> string \<Rightarrow> queue_row" where
  "new_row roots now path task = \<lparr>tq_path = path, tq_task = task, tq_status = PENDING,
     tq_priority = priority_for roots path, tq_created = now, tq_started = None, tq_completed = None,
     tq_error = None\<rparr>"

definition enqueue_task :: "string list \<Rightarrow> time \<Rightarrow> string \<Rightarrow> string \<Rightarrow> queue_row list \<Rightarrow> queue_row list" where
  "enqueue_task roots now path task q =
     (if (path, task) \<in> set (map queue_key q) then q else q @ [new_row roots now path task])"

definition re_enqueue_task :: "string list \<Rightarrow> time \<Rightarrow> string \<Rightarrow> string \<Rightarrow> queue_row list \<Rightarrow> queue_row list" where
  "re_enqueue_task roots now path task q =
     (if (path, task) \<in> set (map queue_key q)
      then update_where (\<lambda>r. queue_key r = (path, task))
             (\<lambda>r. r\<lparr>tq_status := PENDING, tq_priority := priority_for roots path, tq_started := None,
                    tq_completed := None, tq_error := None\<rparr>) q
      else q @ [new_row roots now path task])"

definition dispatch_order :: "queue_row \<Rightarrow> int \<times> time" where
  "dispatch_order r = (- tq_priority r, tq_created r)"

definition claim_tasks :: "time \<Rightarrow> string \<Rightarrow> int \<Rightarrow> queue_row list \<Rightarrow> string list \<times> queue_row list" where
  "claim_tasks now task batch q =
     (case sql_claim queue_key dispatch_order (\<lambda>r. tq_task r = task \<and> tq_status r = PENDING) batch
             (\<lambda>r. r\<lparr>tq_status := PROCESSING, tq_started := Some now\<rparr>) q of
        (rows, q') \<Rightarrow> (map tq_path rows, q'))"

definition complete_task :: "time \<Rightarrow> string \<Rightarrow> string \<Rightarrow> queue_row list \<Rightarrow> queue_row list" where
  "complete_task now path task q =
     update_where (\<lambda>r. queue_key r = (path, task)) (\<lambda>r. r\<lparr>tq_status := DONE, tq_completed := Some now\<rparr>) q"

definition fail_task :: "time \<Rightarrow> string \<Rightarrow> string \<Rightarrow> string option \<Rightarrow> queue_row list \<Rightarrow> queue_row list" where
  "fail_task now path task err q =
     update_where (\<lambda>r. queue_key r = (path, task))
       (\<lambda>r. r\<lparr>tq_status := FAILED, tq_completed := Some now, tq_error := err\<rparr>) q"

definition get_task_status :: "string \<Rightarrow> string \<Rightarrow> queue_row list \<Rightarrow> task_status option" where
  "get_task_status path task q = map_option tq_status (find (\<lambda>r. queue_key r = (path, task)) q)"

definition is_task_done :: "string \<Rightarrow> string \<Rightarrow> queue_row list \<Rightarrow> bool" where
  "is_task_done path task q = (get_task_status path task q = Some DONE)"

definition get_pending_tasks :: "string option \<Rightarrow> queue_row list \<Rightarrow> (string \<times> string) list" where
  "get_pending_tasks task q =
     map queue_key (filter (\<lambda>r. tq_status r = PENDING \<and> (case task of None \<Rightarrow> True | Some t \<Rightarrow> t = [] \<or> tq_task r = t)) q)"

definition is_stuck :: "time \<Rightarrow> string \<Rightarrow> queue_row \<Rightarrow> bool" where
  "is_stuck cutoff task r \<longleftrightarrow> tq_task r = task \<and> tq_status r = PROCESSING \<and>
     (case tq_started r of None \<Rightarrow> False | Some s \<Rightarrow> s < cutoff)"

definition reset_stuck_tasks_for :: "time \<Rightarrow> string \<Rightarrow> time \<Rightarrow> queue_row list \<Rightarrow> int \<times> queue_row list" where
  "reset_stuck_tasks_for now task timeout q =
     (let p = is_stuck (now - timeout) task in
      (row_count p q, update_where p (\<lambda>r. r\<lparr>tq_status := PENDING, tq_started := None\<rparr>) q))"

definition reset_failed_tasks :: "string option \<Rightarrow> queue_row list \<Rightarrow> queue_row list" where
  "reset_failed_tasks task q =
     update_where (\<lambda>r. tq_status r = FAILED \<and> (case task of None \<Rightarrow> True | Some t \<Rightarrow> t = [] \<or> tq_task r = t))
       (\<lambda>r. r\<lparr>tq_status := PENDING, tq_error := None\<rparr>) q"

definition clear_row :: "queue_row \<Rightarrow> queue_row" where
  "clear_row r = r\<lparr>tq_status := PENDING, tq_started := None, tq_completed := None, tq_error := None\<rparr>"

definition reset_task :: "string \<Rightarrow> queue_row list \<Rightarrow> queue_row list" where
  "reset_task task q = update_where (\<lambda>r. tq_task r = task) clear_row q"

definition invalidate_tasks_for_paths :: "string list \<Rightarrow> string list \<Rightarrow> queue_row list \<Rightarrow> queue_row list" where
  "invalidate_tasks_for_paths names paths q =
     fold (\<lambda>task. fold (\<lambda>p. update_where (\<lambda>r. queue_key r = (p, task) \<and> tq_status r \<noteq> PENDING) clear_row) paths) names q"

definition invalidate_tasks_bulk :: "string list \<Rightarrow> queue_row list \<Rightarrow> queue_row list" where
  "invalidate_tasks_bulk names q =
     fold (\<lambda>task. update_where (\<lambda>r. tq_task r = task \<and> tq_status r \<noteq> PENDING) clear_row) names q"

definition get_paths_for_task_status :: "string \<Rightarrow> task_status \<Rightarrow> queue_row list \<Rightarrow> string list" where
  "get_paths_for_task_status task st q = map tq_path (filter (\<lambda>r. tq_task r = task \<and> tq_status r = st) q)"

definition unclaim_tasks :: "string \<Rightarrow> string list \<Rightarrow> queue_row list \<Rightarrow> queue_row list" where
  "unclaim_tasks task paths q =
     fold (\<lambda>p. update_where (\<lambda>r. queue_key r = (p, task)) (\<lambda>r. r\<lparr>tq_status := PENDING, tq_started := None\<rparr>)) paths q"

section \<open>Runs of event tasks\<close>

definition create_run ::
    "time \<Rightarrow> string \<Rightarrow> string \<Rightarrow> string option \<Rightarrow> string option \<Rightarrow> string option \<Rightarrow> run_row list \<Rightarrow> run_row list pyres" where
  "create_run now run_id task triggered payload parent runs =
     (if run_id \<in> set (map ru_id runs)
      then Inl (PyExn ''IntegrityError'' ''UNIQUE constraint failed: task_runs.run_id'')
      else Inr (runs @ [\<lparr>ru_id = run_id, ru_task = task, ru_status = PENDING, ru_triggered = triggered,
             ru_parent = parent, ru_payload = payload, ru_created = now, ru_started = None,
             ru_finished = None, ru_error = None\<rparr>]))"

definition claim_runs :: "time \<Rightarrow> string \<Rightarrow> int \<Rightarrow> run_row list \<Rightarrow> (string \<times> string option) list \<times> run_row list" where
  "claim_runs now task batch runs =
     (case sql_claim ru_id ru_created (\<lambda>r. ru_task r = task \<and> ru_status r = PENDING) batch
             (\<lambda>r. r\<lparr>ru_status := PROCESSING, ru_started := Some now\<rparr>) runs of
        (rows, runs') \<Rightarrow> (map (\<lambda>r. (ru_id r, ru_payload r)) rows, runs'))"

definition complete_run :: "time \<Rightarrow> string \<Rightarrow> run_row list \<Rightarrow> run_row list" where
  "complete_run now run_id = update_where (\<lambda>r. ru_id r = run_id) (\<lambda>r. r\<lparr>ru_status := DONE, ru_finished := Some now\<rparr>)"

definition fail_run :: "time \<Rightarrow> string \<Rightarrow> string option \<Rightarrow> run_row list \<Rightarrow> run_row list" where
  "fail_run now run_id err =
     update_where (\<lambda>r. ru_id r = run_id) (\<lambda>r. r\<lparr>ru_status := FAILED, ru_finished := Some now, ru_error := err\<rparr>)"

definition unclaim_run :: "string \<Rightarrow> run_row list \<Rightarrow> run_row list" where
  "unclaim_run run_id = update_where (\<lambda>r. ru_id r = run_id) (\<lambda>r. r\<lparr>ru_status := PENDING, ru_started := None\<rparr>)"

definition reset_stuck_runs_for :: "time \<Rightarrow> string \<Rightarrow> time \<Rightarrow> run_row list \<Rightarrow> int \<times> run_row list" where
  "reset_stuck_runs_for now task timeout runs =
     (let p = (\<lambda>r. ru_task r = task \<and> ru_status r = PROCESSING \<and>
            (case ru_started r of None \<Rightarrow> False | Some s \<Rightarrow> s < now - timeout)) in
      (row_count p runs, update_where p (\<lambda>r. r\<lparr>ru_status := PENDING, ru_started := None\<rparr>) runs))"

definition get_runs :: "string option \<Rightarrow> int \<Rightarrow> run_row list \<Rightarrow> run_row list" where
  "get_runs task limit runs =
     sql_limit limit (sort_key (\<lambda>r. - ru_created r)
       (filter (\<lambda>r. case task of None \<Rightarrow> True | Some t \<Rightarrow> t = [] \<or> ru_task r = t) runs))"

section \<open>Task registration\<close>

abbreviation comma_join :: "string list \<Rightarrow> string" where
  "comma_join \<equiv> join_with '',''"

definition db_register_task ::
    "string \<Rightarrow> string list \<Rightarrow> string list \<Rightarrow> string list \<Rightarrow> string \<Rightarrow> string list \<Rightarrow> task_row list \<Rightarrow> task_row list" where
  "db_register_task nm writes reads modalities trigger channels rows =
     filter (\<lambda>r. rt_name r \<noteq> nm) rows @
     [\<lparr>rt_name = nm, rt_writes = comma_join writes, rt_reads = comma_join reads,
       rt_modalities = comma_join modalities, rt_trigger = (if trigger = [] then ''path'' else trigger),
       rt_channels = comma_join channels\<rparr>]"

section \<open>Counts\<close>

definition status_counts :: "(string \<times> task_status) list \<Rightarrow> (string, (task_status, int) pydict) pydict" where
  "status_counts rows =
     map (\<lambda>nm. (nm, map (\<lambda>st. (st, int (count_list rows (nm, st)))) [PENDING, PROCESSING, DONE, FAILED]))
       (remdups (map fst rows))"

definition get_run_stats :: "run_row list \<Rightarrow> (string, (task_status, int) pydict) pydict" where
  "get_run_stats runs = status_counts (map (\<lambda>r. (ru_task r, ru_status r)) runs)"

definition get_system_stats ::
    "database \<Rightarrow> (string, int) pydict \<times> (string, (task_status, int) pydict) pydict" where
  "get_system_stats db =
     (map (\<lambda>m. (m, int (count_list (map fl_modality (db_files db)) m))) (remdups (map fl_modality (db_files db))),
      status_counts (map (\<lambda>r. (tq_task r, tq_status r)) (db_queue db)))"

section \<open>Output schemas\<close>

text \<open>
  The schema a task brings is split at semicolons, the parts of a trigger body are joined again,
  and every statement must start as one of the allowed \<open>CREATE\<close> statements.
\<close>

definition allowed_prefixes :: "string list" where
  "allowed_prefixes = [''create table'', ''create index'', ''create unique index'', ''create virtual table'',
     ''create trigger'']"

definition normalized_sql :: "string \<Rightarrow> string" where
  "normalized_sql part = join_with '' '' (filter (\<lambda>w. w \<noteq> []) (split_when is_space (lower part)))"

definition upper_char :: "char \<Rightarrow> char" where
  "upper_char c = (let n = (of_char c :: nat) in if 97 \<le> n \<and> n \<le> 122 then char_of (n - 32) else c)"

fun group_statements :: "string option \<Rightarrow> string list \<Rightarrow> string list" where
  "group_statements None [] = []"
| "group_statements (Some cur) [] = (if cur = [] then [] else [cur])"
| "group_statements (Some cur) (part # parts) =
     (if map upper_char (strip part) = ''END'' then (cur @ '';'' @ part) # group_statements None parts
      else group_statements (Some (cur @ '';'' @ part)) parts)"
| "group_statements None (part # parts) =
     (if prefix ''create trigger'' (normalized_sql part) then group_statements (Some part) parts
      else part # group_statements None parts)"

definition schema_statements :: "string \<Rightarrow> string list" where
  "schema_statements sql =
     group_statements None (filter (\<lambda>s. s \<noteq> []) (map strip (split_char (CHR '';'') sql)))"

definition statement_allowed :: "string \<Rightarrow> bool" where
  "statement_allowed stmt = list_ex (\<lambda>p. prefix p (normalized_sql stmt)) allowed_prefixes"

definition ensure_output_table :: "string \<Rightarrow> string \<Rightarrow> (string \<Rightarrow> 'o \<Rightarrow> 'o pyres) \<Rightarrow> 'o \<Rightarrow> 'o pyres" where
  "ensure_output_table task sql run tables =
     (case find (\<lambda>s. \<not> statement_allowed s) (schema_statements sql) of
        Some stmt \<Rightarrow> Inl (PyExn ''ValueError''
            (''Task '' @ [CHR 0x27] @ task @ [CHR 0x27] @ '' schema contains disallowed SQL: '' @ take 80 stmt))
      | None \<Rightarrow> run sql tables)"

end
