(* ===== verification/TaskQueue.thy ===== *)
theory TaskQueue
  imports Database
begin

text \<open>
  What the task queue of \<open>pipeline/database.py\<close> promises its workers. Both queues of the pipeline,
  files by task and runs of event tasks, are instances of one contract: a claim hands out pending
  entries, each to one caller, and leaves the others alone.
\<close>

section \<open>The contract of a work queue\<close>

text \<open>Claiming round after round, at the given times.\<close>

fun rounds :: "(time \<Rightarrow> int \<Rightarrow> 's \<Rightarrow> 'k list \<times> 's) \<Rightarrow> time list \<Rightarrow> int \<Rightarrow> 's \<Rightarrow> 'k list \<times> 's" where
  "rounds claim [] n s = ([], s)"
| "rounds claim (t # ts) n s =
     (case claim t n s of (ks, s1) \<Rightarrow> (case rounds claim ts n s1 of (js, s2) \<Rightarrow> (ks @ js, s2)))"

locale work_queue =
  fixes claim :: "time \<Rightarrow> int \<Rightarrow> 's \<Rightarrow> 'k list \<times> 's"
    and status :: "'s \<Rightarrow> 'k \<Rightarrow> task_status option"
    and wf :: "'s \<Rightarrow> bool"
  assumes claim_wf: "wf s \<Longrightarrow> claim now n s = (ks, s') \<Longrightarrow> wf s'"
    and claim_pending: "wf s \<Longrightarrow> claim now n s = (ks, s') \<Longrightarrow> k \<in> set ks \<Longrightarrow> status s k = Some PENDING"
    and claim_effect: "wf s \<Longrightarrow> claim now n s = (ks, s') \<Longrightarrow>
       status s' k = (if k \<in> set ks then Some PROCESSING else status s k)"
    and claim_distinct: "wf s \<Longrightarrow> claim now n s = (ks, s') \<Longrightarrow> distinct ks"
    and claim_bound: "wf s \<Longrightarrow> claim now n s = (ks, s') \<Longrightarrow> 0 \<le> n \<Longrightarrow> int (length ks) \<le> n"
    and claim_progress: "wf s \<Longrightarrow> claim now n s = (ks, s') \<Longrightarrow> n \<noteq> 0 \<Longrightarrow> status s k = Some PENDING \<Longrightarrow> ks \<noteq> []"
    and pending_finite: "wf s \<Longrightarrow> finite {k. status s k = Some PENDING}"
begin

abbreviation pending :: "'s \<Rightarrow> 'k set" where
  "pending s \<equiv> {k. status s k = Some PENDING}"

lemma claimed_leave_pending: "wf s \<Longrightarrow> claim now n s = (ks, s') \<Longrightarrow> pending s' = pending s - set ks"
  by (auto simp: claim_effect)

text \<open>Two workers that claim one after the other never hold the same entry.\<close>

lemma claims_disjoint:
  assumes "wf s" and "claim now n s = (ks, s1)" and "claim later m s1 = (js, s2)"
  shows "set ks \<inter> set js = {}"
proof (rule ccontr)
  assume "set ks \<inter> set js \<noteq> {}"
  then obtain k where k: "k \<in> set ks" "k \<in> set js" by blast
  from assms(1,2) have w: "wf s1" by (rule claim_wf)
  from claim_pending [OF w assms(3) k(2)] claim_effect [OF assms(1,2), of k] k(1) show False by simp
qed

text \<open>Claiming again and again hands out every pending entry exactly once.\<close>

lemma rounds_sound:
  "wf s \<Longrightarrow> rounds claim ts n s = (ks, s') \<Longrightarrow> distinct ks \<and> set ks \<subseteq> pending s \<and> pending s' = pending s - set ks"
proof (induction ts arbitrary: s ks)
  case (Cons t ts)
  obtain ks1 s1 where c: "claim t n s = (ks1, s1)" by force
  obtain js s2 where r: "rounds claim ts n s1 = (js, s2)" by force
  from Cons.prems(2) c r have e: "ks = ks1 @ js" "s' = s2" by simp_all
  from Cons.prems(1) c have w: "wf s1" by (rule claim_wf)
  note p = claimed_leave_pending [OF Cons.prems(1) c]
  have s: "set ks1 \<subseteq> pending s" using claim_pending [OF Cons.prems(1) c] by blast
  from Cons.IH [OF w] r e(2) have "distinct js \<and> set js \<subseteq> pending s1 \<and> pending s2 = pending s1 - set js" by simp
  with p s e claim_distinct [OF Cons.prems(1) c] show ?case by auto
qed simp

lemma rounds_drain:
  assumes "wf s" and "rounds claim ts n s = (ks, s')" and "n \<noteq> 0" and "card (pending s) \<le> length ts"
  shows "set ks = pending s" and "pending s' = {}"
proof -
  have "pending s' = {}"
    using assms
  proof (induction ts arbitrary: s ks)
    case Nil
    then show ?case using pending_finite by simp
  next
    case (Cons t ts)
    obtain ks1 s1 where c: "claim t n s = (ks1, s1)" by force
    obtain js s2 where r: "rounds claim ts n s1 = (js, s2)" by force
    from Cons.prems(1) c have w: "wf s1" by (rule claim_wf)
    note p = claimed_leave_pending [OF Cons.prems(1) c]
    have "card (pending s1) \<le> length ts"
    proof (cases "pending s = {}")
      case True
      with p show ?thesis by simp
    next
      case False
      then obtain k where "status s k = Some PENDING" by blast
      with Cons.prems(1,3) c have "ks1 \<noteq> []" using claim_progress by blast
      moreover have "set ks1 \<subseteq> pending s" using claim_pending [OF Cons.prems(1) c] by blast
      ultimately have "pending s1 \<subset> pending s" using p by (auto simp: neq_Nil_conv)
      then have "card (pending s1) < card (pending s)"
        using pending_finite [OF Cons.prems(1)] by (simp add: psubset_card_mono)
      with Cons.prems(4) show ?thesis by simp
    qed
    moreover from Cons.prems(2) c r have "s' = s2" by simp
    ultimately show ?case using Cons.IH [OF w] r Cons.prems(3) by blast
  qed
  then show "pending s' = {}" and "set ks = pending s"
    using rounds_sound [OF assms(1,2)] by auto
qed

end

section \<open>Updates, lookups and claims\<close>

lemma find_map_same: "(\<And>r. p (g r) = p r) \<Longrightarrow> find p (map g q) = map_option g (find p q)"
  by (induction q) auto

lemma find_distinct:
  "distinct (map key rows) \<Longrightarrow> find (\<lambda>r. key r = k) rows = Some r \<longleftrightarrow> r \<in> set rows \<and> key r = k"
  by (induction rows) auto

lemma key_unique: "distinct (map key rows) \<Longrightarrow> x \<in> set rows \<Longrightarrow> y \<in> set rows \<Longrightarrow> key x = key y \<Longrightarrow> x = y"
  unfolding distinct_map by (blast dest: inj_onD)

lemma update_where_keys: "(\<And>r. key (f r) = key r) \<Longrightarrow> map key (update_where p f rows) = map key rows"
  by (auto simp: update_where_def)

lemma update_where_set: "r \<in> set (update_where p f rows) \<longleftrightarrow> (\<exists>x \<in> set rows. r = (if p x then f x else x))"
  by (auto simp: update_where_def)

lemma find_update_where:
  assumes "\<And>r. key (f r) = key r"
  shows "find (\<lambda>r. key r = k) (update_where p f rows) =
    map_option (\<lambda>r. if p r then f r else r) (find (\<lambda>r. key r = k) rows)"
  unfolding update_where_def by (rule find_map_same) (simp add: assms)

lemma sql_limit_set: "set (sql_limit n rows) \<subseteq> set rows"
  by (auto simp: sql_limit_def dest: in_set_takeD)

lemma selected_set: "r \<in> set (sql_selected order eligible n rows) \<Longrightarrow> r \<in> set rows \<and> eligible r"
  using sql_limit_set [of n "sort_key order (filter eligible rows)"] by (auto simp: sql_selected_def)

lemma selected_nonempty:
  "n \<noteq> 0 \<Longrightarrow> r \<in> set rows \<Longrightarrow> eligible r \<Longrightarrow> sql_selected order eligible n rows \<noteq> []"
proof -
  assume n: "n \<noteq> 0" and r: "r \<in> set rows" "eligible r"
  then have "r \<in> set (sort_key order (filter eligible rows))" by simp
  then have "sort_key order (filter eligible rows) \<noteq> []" by force
  with n show ?thesis by (auto simp: sql_selected_def sql_limit_def)
qed

lemma sql_claimed:
  assumes "distinct (map key rows)" and "\<And>r. key (mark r) = key r"
    and "sql_claim key order eligible n mark rows = (cs, rows')"
  shows "set cs = set (sql_selected order eligible n rows)"
    and "distinct (map key cs)" and "length cs = length (sql_selected order eligible n rows)"
    and "map key rows' = map key rows"
    and "find (\<lambda>r. key r = k) rows' = map_option (\<lambda>r. if r \<in> set cs then mark r else r) (find (\<lambda>r. key r = k) rows)"
proof -
  let ?S = "sql_selected order eligible n rows"
  let ?K = "set (map key ?S)"
  from assms(3) have cs: "cs = filter (\<lambda>r. key r \<in> ?K) rows" and rows': "rows' = update_where (\<lambda>r. key r \<in> ?K) mark rows"
    by (simp_all add: sql_claim_def Let_def)
  have dr: "distinct rows" using assms(1) by (simp_all add: distinct_map)
  have sub: "set ?S \<subseteq> set rows" by (rule subsetI) (rule selected_set [THEN conjunct1])
  have mem: "key r \<in> ?K \<longleftrightarrow> r \<in> set ?S" if r: "r \<in> set rows" for r
  proof
    assume "key r \<in> ?K"
    then have "key r \<in> key ` set ?S" unfolding set_map .
    then obtain x where x: "key r = key x" "x \<in> set ?S" by (rule imageE)
    with sub have "x \<in> set rows" by blast
    with key_unique [OF assms(1) r _ x(1)] x(2) show "r \<in> set ?S" by simp
  qed simp
  have s: "set cs = set ?S"
  proof
    show "set cs \<subseteq> set ?S" unfolding cs using mem by auto
    show "set ?S \<subseteq> set cs" unfolding cs using sub by auto
  qed
  then show "set cs = set ?S" .
  have dc: "distinct cs" unfolding cs using dr by simp
  have "inj_on key (set cs)"
    by (rule inj_onI) (rule key_unique [OF assms(1)], use s sub in blast, use s sub in blast, assumption)
  with dc show "distinct (map key cs)" unfolding distinct_map by simp
  have "distinct ?S" using dr by (simp add: sql_selected_def sql_limit_def)
  with dc s show "length cs = length ?S" by (metis distinct_card)
  show "map key rows' = map key rows" unfolding rows' by (rule update_where_keys) (rule assms(2))
  have f: "find (\<lambda>r. key r = k) rows' = map_option (\<lambda>r. if key r \<in> ?K then mark r else r) (find (\<lambda>r. key r = k) rows)"
    unfolding rows' by (rule find_update_where) (rule assms(2))
  show "find (\<lambda>r. key r = k) rows' = map_option (\<lambda>r. if r \<in> set cs then mark r else r) (find (\<lambda>r. key r = k) rows)"
  proof (cases "find (\<lambda>r. key r = k) rows")
    case (Some r)
    then have "r \<in> set rows" by (auto dest: find_SomeD)
    with mem s have "key r \<in> ?K \<longleftrightarrow> r \<in> set cs" by blast
    with f Some show ?thesis by simp
  qed (simp add: f)
qed

lemma selected_in_order:
  assumes "x \<in> set (sql_selected order eligible n rows)" and "y \<in> set rows" and "eligible y"
    and "y \<notin> set (sql_selected order eligible n rows)"
  shows "order x \<le> order y"
proof -
  let ?s = "sort_key order (filter eligible rows)"
  from assms have n: "\<not> n < 0" by (auto simp: sql_selected_def sql_limit_def)
  then have x: "x \<in> set (take (nat n) ?s)" and y: "y \<in> set (drop (nat n) ?s)"
  proof -
    have "y \<in> set (take (nat n) ?s @ drop (nat n) ?s)" unfolding append_take_drop_id using assms(2,3) by simp
    with n assms(1,4) show "x \<in> set (take (nat n) ?s)" and "y \<in> set (drop (nat n) ?s)"
      unfolding sql_selected_def sql_limit_def set_append by simp_all
  qed
  have "sorted (map order (take (nat n) ?s) @ map order (drop (nat n) ?s))"
    by (simp only: append_take_drop_id sorted_sort_key flip: map_append)
  then have "\<forall>a \<in> set (map order (take (nat n) ?s)). \<forall>b \<in> set (map order (drop (nat n) ?s)). a \<le> b"
    unfolding sorted_append by blast
  moreover have "order x \<in> set (map order (take (nat n) ?s))" "order y \<in> set (map order (drop (nat n) ?s))"
    using x y by (simp_all only: set_map imageI)
  ultimately show ?thesis by blast
qed

section \<open>The file queue\<close>

definition queue_wf :: "queue_row list \<Rightarrow> bool" where
  "queue_wf q \<longleftrightarrow> distinct (map queue_key q)"

lemma queue_key_simps [simp]:
  "queue_key (r\<lparr>tq_status := st\<rparr>) = queue_key r" "queue_key (r\<lparr>tq_started := a\<rparr>) = queue_key r"
  "queue_key (r\<lparr>tq_completed := a\<rparr>) = queue_key r" "queue_key (r\<lparr>tq_error := e\<rparr>) = queue_key r"
  "queue_key (r\<lparr>tq_priority := n\<rparr>) = queue_key r" "queue_key (clear_row r) = queue_key r"
  "queue_key (new_row roots now path task) = (path, task)"
  by (simp_all add: queue_key_def clear_row_def new_row_def)

lemma queue_key_eq: "queue_key r = (p, t) \<longleftrightarrow> tq_path r = p \<and> tq_task r = t"
  by (simp add: queue_key_def)

lemma update_where_wf: "(\<And>r. queue_key (f r) = queue_key r) \<Longrightarrow> queue_wf (update_where p f q) = queue_wf q"
  by (simp add: queue_wf_def update_where_keys)

lemma status_update_where:
  assumes "\<And>r. queue_key (f r) = queue_key r"
  shows "get_task_status path task (update_where p f q) =
    map_option (\<lambda>r. tq_status (if p r then f r else r)) (find (\<lambda>r. queue_key r = (path, task)) q)"
  by (simp add: get_task_status_def find_update_where assms option.map_comp comp_def)

lemma status_iff:
  "queue_wf q \<Longrightarrow> get_task_status p t q = Some st \<longleftrightarrow> (\<exists>r \<in> set q. queue_key r = (p, t) \<and> tq_status r = st)"
  unfolding get_task_status_def map_option_eq_Some by (auto simp: find_distinct queue_wf_def)

lemma claimed_tasks:
  assumes "queue_wf q" and "claim_tasks now task n q = (ps, q')"
  obtains cs where "ps = map tq_path cs"
    "sql_claim queue_key dispatch_order (\<lambda>r. tq_task r = task \<and> tq_status r = PENDING) n
       (\<lambda>r. r\<lparr>tq_status := PROCESSING, tq_started := Some now\<rparr>) q = (cs, q')"
    "\<And>r. r \<in> set cs \<Longrightarrow> r \<in> set q \<and> tq_task r = task \<and> tq_status r = PENDING"
proof -
  from assms(2) obtain cs where c: "ps = map tq_path cs"
    "sql_claim queue_key dispatch_order (\<lambda>r. tq_task r = task \<and> tq_status r = PENDING) n
       (\<lambda>r. r\<lparr>tq_status := PROCESSING, tq_started := Some now\<rparr>) q = (cs, q')"
    by (auto simp: claim_tasks_def split: prod.splits)
  have "r \<in> set cs \<Longrightarrow> r \<in> set q \<and> tq_task r = task \<and> tq_status r = PENDING" for r
    using sql_claimed(1) [OF _ _ c(2)] assms(1) by (auto simp: queue_wf_def dest: selected_set)
  with c show thesis by (rule that)
qed

lemma claimed_status:
  assumes "queue_wf q" and "claim_tasks now task n q = (ps, q')"
  shows "queue_wf q'" and "p \<in> set ps \<Longrightarrow> get_task_status p task q = Some PENDING"
    and "get_task_status p t q' = (if t = task \<and> p \<in> set ps then Some PROCESSING else get_task_status p t q)"
proof -
  from claimed_tasks [OF assms] obtain cs where ps: "ps = map tq_path cs"
    and c: "sql_claim queue_key dispatch_order (\<lambda>r. tq_task r = task \<and> tq_status r = PENDING) n
       (\<lambda>r. r\<lparr>tq_status := PROCESSING, tq_started := Some now\<rparr>) q = (cs, q')"
    and cs: "\<And>r. r \<in> set cs \<Longrightarrow> r \<in> set q \<and> tq_task r = task \<and> tq_status r = PENDING" by blast
  have d: "distinct (map queue_key q)" using assms(1) by (simp add: queue_wf_def)
  note s = sql_claimed [OF d _ c]
  show "queue_wf q'" using s(4) d by (simp add: queue_wf_def)
  show "get_task_status p task q = Some PENDING" if "p \<in> set ps"
    using that cs unfolding ps status_iff [OF assms(1)] queue_key_eq by auto
  show "get_task_status p t q' = (if t = task \<and> p \<in> set ps then Some PROCESSING else get_task_status p t q)"
  proof (cases "find (\<lambda>r. queue_key r = (p, t)) q")
    case None
    have "\<not> (t = task \<and> p \<in> set ps)"
    proof
      assume a: "t = task \<and> p \<in> set ps"
      then obtain r where "r \<in> set cs" "tq_path r = p" by (auto simp: ps)
      with cs a have "r \<in> set q" "queue_key r = (p, t)" by (auto simp: queue_key_eq)
      with find_NoneD [OF None] show False by blast
    qed
    with None s(5) show ?thesis unfolding get_task_status_def by simp
  next
    case (Some r)
    then have r: "r \<in> set q" "queue_key r = (p, t)" by (auto dest: find_SomeD)
    have "r \<in> set cs \<longleftrightarrow> t = task \<and> p \<in> set ps"
    proof
      assume "r \<in> set cs"
      with cs r(2) show "t = task \<and> p \<in> set ps" by (auto simp: ps queue_key_eq)
    next
      assume a: "t = task \<and> p \<in> set ps"
      then obtain x where x: "x \<in> set cs" "tq_path x = p" by (auto simp: ps)
      with cs a have "x \<in> set q" "queue_key x = (p, t)" by (auto simp: queue_key_eq)
      with r have "x = r" by (auto intro: key_unique [OF d])
      with x show "r \<in> set cs" by simp
    qed
    with Some s(5) show ?thesis unfolding get_task_status_def by simp
  qed
qed

lemma queue_finite: "finite {p. get_task_status p task q = Some st}"
proof (rule finite_subset)
  show "{p. get_task_status p task q = Some st} \<subseteq> tq_path ` set q"
    by (auto simp: get_task_status_def queue_key_eq dest!: find_SomeD)
qed simp

interpretation file_queue: work_queue
  "\<lambda>now n q. claim_tasks now task n q" "\<lambda>q p. get_task_status p task q" queue_wf for task
proof unfold_locales
  fix now n k and q q' :: "queue_row list" and ps
  assume w: "queue_wf q" and c: "claim_tasks now task n q = (ps, q')"
  note s = claimed_status [OF w c]
  from claimed_tasks [OF w c] obtain cs where ps: "ps = map tq_path cs"
    and c': "sql_claim queue_key dispatch_order (\<lambda>r. tq_task r = task \<and> tq_status r = PENDING) n
       (\<lambda>r. r\<lparr>tq_status := PROCESSING, tq_started := Some now\<rparr>) q = (cs, q')"
    and cs: "\<And>r. r \<in> set cs \<Longrightarrow> r \<in> set q \<and> tq_task r = task \<and> tq_status r = PENDING" by blast
  have d: "distinct (map queue_key q)" using w by (simp add: queue_wf_def)
  note s' = sql_claimed [OF d _ c']
  show "queue_wf q'" by (rule s)
  show "get_task_status k task q = Some PENDING" if "k \<in> set ps" using that by (rule s)
  show "get_task_status k task q' = (if k \<in> set ps then Some PROCESSING else get_task_status k task q)"
    by (simp add: s(3))
  have "inj_on tq_path (set cs)"
  proof (rule inj_onI)
    fix x y assume x: "x \<in> set cs" and y: "y \<in> set cs" and e: "tq_path x = tq_path y"
    with cs have "queue_key x = queue_key y" by (auto simp: queue_key_def)
    with x y show "x = y" by (auto intro: key_unique [OF s'(2)])
  qed
  with s'(2) show "distinct ps" unfolding ps by (simp add: distinct_map)
  show "int (length ps) \<le> n" if "0 \<le> n"
    using that s'(3) unfolding ps by (simp add: sql_selected_def sql_limit_def)
  show "ps \<noteq> []" if n: "n \<noteq> 0" and p: "get_task_status k task q = Some PENDING"
  proof -
    from p obtain r where "r \<in> set q" "queue_key r = (k, task)" "tq_status r = PENDING"
      unfolding status_iff [OF w] by blast
    then have "sql_selected dispatch_order (\<lambda>r. tq_task r = task \<and> tq_status r = PENDING) n q \<noteq> []"
      using n by (intro selected_nonempty) (auto simp: queue_key_eq)
    with s'(3) show ?thesis unfolding ps by auto
  qed
qed (rule queue_finite)

text \<open>The order of dispatch: nothing left pending comes before anything claimed.\<close>

lemma claim_in_order:
  assumes "queue_wf q" and "claim_tasks now task n q = (ps, q')"
    and "r \<in> set q" and "tq_task r = task" and "tq_path r \<in> set ps"
    and "r' \<in> set q" and "tq_task r' = task" and "tq_status r' = PENDING" and "tq_path r' \<notin> set ps"
  shows "dispatch_order r \<le> dispatch_order r'"
proof -
  from claimed_tasks [OF assms(1,2)] obtain cs where ps: "ps = map tq_path cs"
    and c: "sql_claim queue_key dispatch_order (\<lambda>r. tq_task r = task \<and> tq_status r = PENDING) n
       (\<lambda>r. r\<lparr>tq_status := PROCESSING, tq_started := Some now\<rparr>) q = (cs, q')"
    and cs: "\<And>r. r \<in> set cs \<Longrightarrow> r \<in> set q \<and> tq_task r = task \<and> tq_status r = PENDING" by blast
  have d: "distinct (map queue_key q)" using assms(1) by (simp add: queue_wf_def)
  note s = sql_claimed(1) [OF d _ c]
  from assms(5) obtain x where x: "x \<in> set cs" "tq_path x = tq_path r" by (auto simp: ps)
  with cs assms(4) have "x \<in> set q" "queue_key x = queue_key r" by (auto simp: queue_key_def)
  with assms(3) have "x = r" by (auto intro: key_unique [OF d])
  with x have "r \<in> set cs" by simp
  moreover have "r' \<notin> set cs" using assms(9) by (auto simp: ps)
  ultimately show ?thesis using s assms(6-8) by (intro selected_in_order [where order = dispatch_order]) simp_all
qed

section \<open>The queue of event runs\<close>

definition runs_wf :: "run_row list \<Rightarrow> bool" where
  "runs_wf runs \<longleftrightarrow> distinct (map ru_id runs)"

definition run_status :: "string \<Rightarrow> run_row list \<Rightarrow> string \<Rightarrow> task_status option" where
  "run_status task runs i = (case find (\<lambda>r. ru_id r = i) runs of
      None \<Rightarrow> None | Some r \<Rightarrow> if ru_task r = task then Some (ru_status r) else None)"

lemma run_status_iff:
  "runs_wf runs \<Longrightarrow> run_status task runs i = Some st \<longleftrightarrow>
   (\<exists>r \<in> set runs. ru_id r = i \<and> ru_task r = task \<and> ru_status r = st)"
proof -
  assume "runs_wf runs"
  then have d: "distinct (map ru_id runs)" by (simp add: runs_wf_def)
  show ?thesis
  proof (cases "find (\<lambda>r. ru_id r = i) runs")
    case None
    with find_NoneD [OF None] show ?thesis by (auto simp: run_status_def)
  next
    case (Some x)
    then have "x \<in> set runs" "ru_id x = i" by (auto dest: find_SomeD)
    then have x: "x \<in> set runs" "ru_id x = i" by simp_all
    have u: "r = x" if "r \<in> set runs" "ru_id r = i" for r
      using key_unique [OF d that(1) x(1)] that(2) x(2) by simp
    have "(\<exists>r \<in> set runs. ru_id r = i \<and> ru_task r = task \<and> ru_status r = st) \<longleftrightarrow> ru_task x = task \<and> ru_status x = st"
      using x by (auto dest: u)
    with Some show ?thesis by (simp add: run_status_def)
  qed
qed

interpretation run_queue: work_queue
  "\<lambda>now n runs. (case claim_runs now task n runs of (rs, runs') \<Rightarrow> (map fst rs, runs'))" "run_status task" runs_wf for task
proof unfold_locales
  fix now n k and runs runs' :: "run_row list" and ids
  assume w: "runs_wf runs" and c: "(case claim_runs now task n runs of (rs, runs') \<Rightarrow> (map fst rs, runs')) = (ids, runs')"
  from c obtain cs where ids: "ids = map ru_id cs"
    and c': "sql_claim ru_id ru_created (\<lambda>r. ru_task r = task \<and> ru_status r = PENDING) n
       (\<lambda>r. r\<lparr>ru_status := PROCESSING, ru_started := Some now\<rparr>) runs = (cs, runs')"
    by (auto simp: claim_runs_def comp_def split: prod.splits)
  have d: "distinct (map ru_id runs)" using w by (simp add: runs_wf_def)
  note s = sql_claimed [OF d _ c']
  have cs: "r \<in> set runs \<and> ru_task r = task \<and> ru_status r = PENDING" if "r \<in> set cs" for r
    using that s(1) by (auto dest: selected_set)
  show "runs_wf runs'" using s(4) d by (simp add: runs_wf_def)
  show "run_status task runs k = Some PENDING" if "k \<in> set ids"
    using that cs unfolding ids run_status_iff [OF w] by auto
  show "run_status task runs' k = (if k \<in> set ids then Some PROCESSING else run_status task runs k)"
  proof (cases "find (\<lambda>r. ru_id r = k) runs")
    case None
    have "k \<notin> set ids" using cs find_NoneD [OF None] by (auto simp: ids)
    with None s(5) show ?thesis unfolding run_status_def by simp
  next
    case (Some r)
    then have r: "r \<in> set runs" "ru_id r = k" by (auto dest: find_SomeD)
    have "r \<in> set cs \<longleftrightarrow> k \<in> set ids"
      using cs r key_unique [OF d] unfolding ids by (metis (mono_tags, lifting) imageE image_eqI set_map)
    with Some s(5) cs [of r] show ?thesis unfolding run_status_def by auto
  qed
  show "distinct ids" unfolding ids by (rule s(2)) simp
  show "int (length ids) \<le> n" if "0 \<le> n"
    using that s(3) unfolding ids by (simp add: sql_selected_def sql_limit_def)
  show "ids \<noteq> []" if n: "n \<noteq> 0" and p: "run_status task runs k = Some PENDING"
  proof -
    from p obtain r where "r \<in> set runs" "ru_task r = task" "ru_status r = PENDING"
      unfolding run_status_iff [OF w] by blast
    then have "sql_selected ru_created (\<lambda>r. ru_task r = task \<and> ru_status r = PENDING) n runs \<noteq> []"
      using n by (intro selected_nonempty) auto
    with s(3) show ?thesis unfolding ids by auto
  qed
next
  fix runs assume "runs_wf runs"
  then have "{k. run_status task runs k = Some PENDING} \<subseteq> ru_id ` set runs"
    by (auto simp: run_status_iff)
  then show "finite {k. run_status task runs k = Some PENDING}" by (rule finite_subset) simp
qed

section \<open>All operations of the file queue\<close>

datatype queue_op =
    Enqueue string string
  | ReEnqueue string string
  | Claim string int
  | Complete string string
  | Fail string string "string option"
  | ResetStuck string time
  | ResetFailed "string option"
  | ResetTask string
  | InvalidatePaths "string list" "string list"
  | InvalidateAll "string list"
  | Unclaim string "string list"
  | ForgetPath string

fun run_op :: "string list \<Rightarrow> time \<Rightarrow> queue_op \<Rightarrow> queue_row list \<Rightarrow> (string \<times> string) list \<times> queue_row list" where
  "run_op roots now (Enqueue p t) q = ([], enqueue_task roots now p t q)"
| "run_op roots now (ReEnqueue p t) q = ([], re_enqueue_task roots now p t q)"
| "run_op roots now (Claim t n) q = (case claim_tasks now t n q of (ps, q') \<Rightarrow> (map (\<lambda>p. (p, t)) ps, q'))"
| "run_op roots now (Complete p t) q = ([], complete_task now p t q)"
| "run_op roots now (Fail p t e) q = ([], fail_task now p t e q)"
| "run_op roots now (ResetStuck t d) q = ([], snd (reset_stuck_tasks_for now t d q))"
| "run_op roots now (ResetFailed t) q = ([], reset_failed_tasks t q)"
| "run_op roots now (ResetTask t) q = ([], reset_task t q)"
| "run_op roots now (InvalidatePaths ts ps) q = ([], invalidate_tasks_for_paths ts ps q)"
| "run_op roots now (InvalidateAll ts) q = ([], invalidate_tasks_bulk ts q)"
| "run_op roots now (Unclaim t ps) q = ([], unclaim_tasks t ps q)"
| "run_op roots now (ForgetPath p) q = ([], filter (\<lambda>r. tq_path r \<noteq> p) q)"

fun run_ops :: "string list \<Rightarrow> (time \<times> queue_op) list \<Rightarrow> queue_row list \<Rightarrow> (string \<times> string) list \<times> queue_row list" where
  "run_ops roots [] q = ([], q)"
| "run_ops roots ((now, x) # ops) q = (case run_op roots now x q of (ks, q1) \<Rightarrow>
     (case run_ops roots ops q1 of (js, q2) \<Rightarrow> (ks @ js, q2)))"

text \<open>The queue as a map from (path, task) to a status, and what each operation may do to it.\<close>

type_synonym status_map = "string \<times> string \<Rightarrow> task_status option"

definition queue_abs :: "queue_row list \<Rightarrow> status_map" where
  "queue_abs q = (\<lambda>(p, t). get_task_status p t q)"

definition set_where :: "(string \<times> string \<Rightarrow> task_status \<Rightarrow> bool) \<Rightarrow> task_status \<Rightarrow> status_map \<Rightarrow> status_map" where
  "set_where c st m = (\<lambda>k. case m k of None \<Rightarrow> None | Some s \<Rightarrow> Some (if c k s then st else s))"

fun op_spec :: "queue_op \<Rightarrow> status_map \<Rightarrow> status_map \<Rightarrow> bool" where
  "op_spec (Enqueue p t) m m' = (m' = (if m (p, t) = None then m((p, t) \<mapsto> PENDING) else m))"
| "op_spec (ReEnqueue p t) m m' = (m' = m((p, t) \<mapsto> PENDING))"
| "op_spec (Claim t n) m m' = (\<exists>ps. distinct ps \<and> (0 \<le> n \<longrightarrow> int (length ps) \<le> n) \<and>
     (\<forall>p \<in> set ps. m (p, t) = Some PENDING) \<and> m' = set_where (\<lambda>(p, t') _. t' = t \<and> p \<in> set ps) PROCESSING m)"
| "op_spec (Complete p t) m m' = (m' = set_where (\<lambda>k _. k = (p, t)) DONE m)"
| "op_spec (Fail p t e) m m' = (m' = set_where (\<lambda>k _. k = (p, t)) FAILED m)"
| "op_spec (ResetStuck t d) m m' = (\<exists>S. m' = set_where (\<lambda>k s. k \<in> S \<and> snd k = t \<and> s = PROCESSING) PENDING m)"
| "op_spec (ResetFailed t) m m' = (m' = set_where (\<lambda>k s. s = FAILED \<and> (t = None \<or> t = Some [] \<or> t = Some (snd k))) PENDING m)"
| "op_spec (ResetTask t) m m' = (m' = set_where (\<lambda>k _. snd k = t) PENDING m)"
| "op_spec (InvalidatePaths ts ps) m m' = (m' = set_where (\<lambda>(p, t) _. p \<in> set ps \<and> t \<in> set ts) PENDING m)"
| "op_spec (InvalidateAll ts) m m' = (m' = set_where (\<lambda>(p, t) _. t \<in> set ts) PENDING m)"
| "op_spec (Unclaim t ps) m m' = (m' = set_where (\<lambda>(p, t') _. t' = t \<and> p \<in> set ps) PENDING m)"
| "op_spec (ForgetPath p) m m' = (m' = (\<lambda>k. if fst k = p then None else m k))"

lemma abs_update_where:
  assumes "\<And>r. queue_key (f r) = queue_key r" and "\<And>r. tq_status (f r) = st"
    and "\<And>r. r \<in> set q \<Longrightarrow> p r = c (queue_key r) (tq_status r)"
  shows "queue_abs (update_where p f q) = set_where c st (queue_abs q)"
proof
  fix k :: "string \<times> string"
  obtain a b where k: "k = (a, b)" by (cases k)
  show "queue_abs (update_where p f q) k = set_where c st (queue_abs q) k"
  proof (cases "find (\<lambda>r. queue_key r = (a, b)) q")
    case None
    with k show ?thesis
      using status_update_where [OF assms(1)] by (simp add: queue_abs_def set_where_def get_task_status_def)
  next
    case (Some r)
    then have "r \<in> set q" "queue_key r = (a, b)" by (auto dest: find_SomeD)
    with assms(3) [of r] have "p r = c (a, b) (tq_status r)" by simp
    moreover have "queue_abs (update_where p f q) k = Some (tq_status (if p r then f r else r))"
      unfolding queue_abs_def k prod.case status_update_where [OF assms(1)] Some by simp
    moreover have "queue_abs q k = Some (tq_status r)"
      unfolding queue_abs_def k prod.case get_task_status_def Some by simp
    ultimately show ?thesis using k assms(2) by (simp add: set_where_def)
  qed
qed

lemma set_where_twice:
  "set_where c st (set_where d st m) = set_where (\<lambda>k s. d k s \<or> c k (if d k s then st else s)) st m"
  by (rule ext) (auto simp: set_where_def split: option.splits)

lemma set_where_cong:
  "(\<And>k s. m k = Some s \<Longrightarrow> (if c k s then st else s) = (if d k s then st else s)) \<Longrightarrow> set_where c st m = set_where d st m"
  by (rule ext) (simp add: set_where_def split: option.splits)

lemma abs_fold_paths:
  assumes "\<And>r. queue_key (f r) = queue_key r" and "\<And>r. tq_status (f r) = PENDING"
  shows "queue_abs (fold (\<lambda>p. update_where (\<lambda>r. queue_key r = (p, t) \<and> b (tq_status r)) f) ps q) =
    set_where (\<lambda>(p, t') s. t' = t \<and> p \<in> set ps \<and> b s) PENDING (queue_abs q)"
proof (induction ps arbitrary: q)
  case Nil
  then show ?case by (simp add: set_where_def fun_eq_iff split: option.split)
next
  case (Cons p ps)
  have "queue_abs (update_where (\<lambda>r. queue_key r = (p, t) \<and> b (tq_status r)) f q) =
      set_where (\<lambda>k s. k = (p, t) \<and> b s) PENDING (queue_abs q)"
    by (rule abs_update_where) (simp_all add: assms)
  with Cons.IH show ?case
    by (simp add: set_where_twice) (rule set_where_cong, auto)
qed

lemma invalidate_abs:
  "queue_abs (invalidate_tasks_for_paths ts ps q) =
   set_where (\<lambda>(p, t) _. p \<in> set ps \<and> t \<in> set ts) PENDING (queue_abs q)"
proof -
  have c: "queue_key (clear_row r) = queue_key r" "tq_status (clear_row r) = PENDING" for r
    by (simp_all add: clear_row_def)
  show ?thesis
    unfolding invalidate_tasks_for_paths_def
  proof (induction ts arbitrary: q)
    case Nil
    then show ?case by (simp add: set_where_def fun_eq_iff split: option.split)
  next
    case (Cons t ts)
    show ?case
      unfolding fold_Cons comp_def Cons.IH
        abs_fold_paths [where f = clear_row and b = "\<lambda>s. s \<noteq> PENDING", OF c] set_where_twice
      by (rule set_where_cong) auto
  qed
qed

lemma invalidate_all_abs:
  "queue_abs (invalidate_tasks_bulk ts q) = set_where (\<lambda>(p, t) _. t \<in> set ts) PENDING (queue_abs q)"
  unfolding invalidate_tasks_bulk_def
proof (induction ts arbitrary: q)
  case Nil
  then show ?case by (simp add: set_where_def fun_eq_iff split: option.split)
next
  case (Cons t ts)
  have "queue_abs (update_where (\<lambda>r. tq_task r = t \<and> tq_status r \<noteq> PENDING) clear_row q) =
      set_where (\<lambda>k s. snd k = t \<and> s \<noteq> PENDING) PENDING (queue_abs q)"
    by (rule abs_update_where) (simp_all add: clear_row_def queue_key_def)
  with Cons.IH show ?case
    by (simp add: set_where_twice) (rule set_where_cong, auto)
qed

lemma unclaim_abs:
  "queue_abs (unclaim_tasks t ps q) = set_where (\<lambda>(p, t') _. t' = t \<and> p \<in> set ps) PENDING (queue_abs q)"
proof -
  have k: "queue_key (r\<lparr>tq_status := PENDING, tq_started := None\<rparr>) = queue_key r"
    "tq_status (r\<lparr>tq_status := PENDING, tq_started := None\<rparr>) = PENDING" for r by simp_all
  from abs_fold_paths [where b = "\<lambda>_. True" and f = "\<lambda>r. r\<lparr>tq_status := PENDING, tq_started := None\<rparr>", OF k]
  show ?thesis unfolding unclaim_tasks_def by simp
qed

lemma find_append: "find p (xs @ ys) = (case find p xs of None \<Rightarrow> find p ys | Some r \<Rightarrow> Some r)"
  by (induction xs) auto

lemma abs_find: "queue_abs q k = map_option tq_status (find (\<lambda>r. queue_key r = k) q)"
  by (cases k) (simp add: queue_abs_def get_task_status_def)

lemma abs_present: "queue_abs q k = None \<longleftrightarrow> k \<notin> set (map queue_key q)"
  by (auto simp: abs_find find_None_iff)

lemma abs_append:
  assumes "(p, t) \<notin> set (map queue_key q)"
  shows "queue_abs (q @ [new_row roots now p t]) = (queue_abs q)((p, t) \<mapsto> PENDING)"
proof
  fix k
  have n: "find (\<lambda>r. queue_key r = (p, t)) q = None"
    using assms abs_present [of q "(p, t)"] by (simp add: abs_find)
  show "queue_abs (q @ [new_row roots now p t]) k = ((queue_abs q)((p, t) \<mapsto> PENDING)) k"
  proof (cases "k = (p, t)")
    case True
    then show ?thesis using n by (simp add: abs_find find_append) (simp add: new_row_def)
  next
    case False
    then show ?thesis by (auto simp: abs_find find_append split: option.split)
  qed
qed

lemma set_where_single: "m k \<noteq> None \<Longrightarrow> set_where (\<lambda>k' _. k' = k) st m = m(k \<mapsto> st)"
  by (rule ext) (auto simp: set_where_def split: option.split)

text \<open>Every operation on the rows is the operation on statuses it stands for.\<close>

lemma queue_refines:
  assumes "queue_wf q" and "run_op roots now x q = (ks, q')"
  shows "op_spec x (queue_abs q) (queue_abs q')"
proof (cases x)
  case (Enqueue p t)
  with assms(2) show ?thesis
    by (auto simp: enqueue_task_def abs_append abs_present simp del: fun_upd_apply split: if_splits)
next
  case (ReEnqueue p t)
  show ?thesis
  proof (cases "(p, t) \<in> set (map queue_key q)")
    case True
    have "queue_abs (update_where (\<lambda>r. queue_key r = (p, t))
             (\<lambda>r. r\<lparr>tq_status := PENDING, tq_priority := priority_for roots p, tq_started := None,
                    tq_completed := None, tq_error := None\<rparr>) q) = set_where (\<lambda>k _. k = (p, t)) PENDING (queue_abs q)"
      by (rule abs_update_where) simp_all
    also have "\<dots> = (queue_abs q)((p, t) \<mapsto> PENDING)" using True abs_present by (intro set_where_single) blast
    finally show ?thesis using True ReEnqueue assms(2) by (auto simp: re_enqueue_task_def)
  next
    case False
    with ReEnqueue assms(2) show ?thesis by (auto simp: re_enqueue_task_def abs_append)
  qed
next
  case (Claim t n)
  from Claim assms(2) obtain ps where c: "claim_tasks now t n q = (ps, q')" by (auto split: prod.splits)
  note s = claimed_status [OF assms(1) c]
  have "queue_abs q' = set_where (\<lambda>(p, t') _. t' = t \<and> p \<in> set ps) PROCESSING (queue_abs q)"
  proof
    fix k :: "string \<times> string"
    obtain a b where k: "k = (a, b)" by (cases k)
    show "queue_abs q' k = set_where (\<lambda>(p, t') _. t' = t \<and> p \<in> set ps) PROCESSING (queue_abs q) k"
      unfolding k queue_abs_def set_where_def prod.case s(3) using s(2) [of a] by (auto split: option.split)
  qed
  moreover have "\<forall>p \<in> set ps. queue_abs q (p, t) = Some PENDING" using s(2) by (simp add: queue_abs_def)
  moreover have "distinct ps" by (rule file_queue.claim_distinct [OF assms(1) c])
  moreover have "0 \<le> n \<longrightarrow> int (length ps) \<le> n" using file_queue.claim_bound [OF assms(1) c] by blast
  ultimately show ?thesis using Claim by auto
next
  case (Complete p t)
  with assms(2) show ?thesis by (auto simp: complete_task_def intro!: abs_update_where)
next
  case (Fail p t e)
  with assms(2) show ?thesis by (auto simp: fail_task_def intro!: abs_update_where)
next
  case (ResetStuck t d)
  let ?S = "queue_key ` {r \<in> set q. is_stuck (now - d) t r}"
  have "queue_abs (update_where (is_stuck (now - d) t) (\<lambda>r. r\<lparr>tq_status := PENDING, tq_started := None\<rparr>) q) =
      set_where (\<lambda>k s. k \<in> ?S \<and> snd k = t \<and> s = PROCESSING) PENDING (queue_abs q)"
  proof (rule abs_update_where)
    fix r assume r: "r \<in> set q"
    have "queue_key r \<in> ?S \<longleftrightarrow> is_stuck (now - d) t r"
      using r assms(1) key_unique [of queue_key q r] by (auto simp: queue_wf_def)
    moreover have "is_stuck (now - d) t r \<Longrightarrow> snd (queue_key r) = t \<and> tq_status r = PROCESSING"
      by (simp add: is_stuck_def queue_key_def)
    ultimately show "is_stuck (now - d) t r = (queue_key r \<in> ?S \<and> snd (queue_key r) = t \<and> tq_status r = PROCESSING)"
      by blast
  qed simp_all
  with ResetStuck assms(2) show ?thesis by (auto simp: reset_stuck_tasks_for_def Let_def)
next
  case (ResetFailed t)
  have "queue_abs (reset_failed_tasks t q) =
      set_where (\<lambda>k s. s = FAILED \<and> (t = None \<or> t = Some [] \<or> t = Some (snd k))) PENDING (queue_abs q)"
    unfolding reset_failed_tasks_def
    by (rule abs_update_where) (auto simp: queue_key_def split: option.split)
  with ResetFailed assms(2) show ?thesis by auto
next
  case (ResetTask t)
  have "queue_abs (reset_task t q) = set_where (\<lambda>k _. snd k = t) PENDING (queue_abs q)"
    unfolding reset_task_def by (rule abs_update_where) (auto simp: queue_key_def clear_row_def)
  with ResetTask assms(2) show ?thesis by auto
next
  case (InvalidatePaths ts ps)
  with assms(2) show ?thesis by (auto simp: invalidate_abs)
next
  case (InvalidateAll ts)
  with assms(2) show ?thesis by (auto simp: invalidate_all_abs)
next
  case (Unclaim t ps)
  with assms(2) show ?thesis by (auto simp: unclaim_abs)
next
  case (ForgetPath p)
  have "find (\<lambda>r. queue_key r = k) (filter (\<lambda>r. tq_path r \<noteq> p) q) =
      (if fst k = p then None else find (\<lambda>r. queue_key r = k) q)" for k
    by (induction q) (auto simp: queue_key_def)
  with ForgetPath assms(2) show ?thesis
    by (auto simp: queue_abs_def get_task_status_def fun_eq_iff)
qed

section \<open>The invariant of the queue\<close>

text \<open>A running row has its start, a finished row its end: the sweep for stuck rows relies on it.\<close>

definition row_ok :: "queue_row \<Rightarrow> bool" where
  "row_ok r \<longleftrightarrow> (tq_status r = PROCESSING \<longrightarrow> tq_started r \<noteq> None) \<and>
     (tq_status r \<in> {DONE, FAILED} \<longrightarrow> tq_completed r \<noteq> None)"

definition queue_ok :: "queue_row list \<Rightarrow> bool" where
  "queue_ok q \<longleftrightarrow> queue_wf q \<and> (\<forall>r \<in> set q. row_ok r)"

lemma queue_ok_update:
  assumes "queue_ok q" and "\<And>r. queue_key (f r) = queue_key r" and "\<And>r. row_ok r \<Longrightarrow> row_ok (f r)"
  shows "queue_ok (update_where p f q)"
  using assms by (auto simp: queue_ok_def update_where_wf update_where_set)

lemma queue_ok_fold: "queue_ok q \<Longrightarrow> (\<And>x q. queue_ok q \<Longrightarrow> queue_ok (g x q)) \<Longrightarrow> queue_ok (fold g xs q)"
  by (induction xs arbitrary: q) auto

lemma queue_ok_new: "queue_ok q \<Longrightarrow> (p, t) \<notin> set (map queue_key q) \<Longrightarrow> queue_ok (q @ [new_row roots now p t])"
  by (auto simp: queue_ok_def queue_wf_def row_ok_def new_row_def queue_key_def)

lemma clear_row_ok [simp]: "row_ok (clear_row r)"
  by (simp add: row_ok_def clear_row_def)

lemma invalidate_ok: "queue_ok q \<Longrightarrow> queue_ok (invalidate_tasks_for_paths ts ps q)"
  unfolding invalidate_tasks_for_paths_def
  by (rule queue_ok_fold, assumption, rule queue_ok_fold, assumption, rule queue_ok_update) simp_all

lemma invalidate_all_ok: "queue_ok q \<Longrightarrow> queue_ok (invalidate_tasks_bulk ts q)"
  unfolding invalidate_tasks_bulk_def by (rule queue_ok_fold, assumption, rule queue_ok_update) simp_all

lemma unclaim_ok: "queue_ok q \<Longrightarrow> queue_ok (unclaim_tasks t ps q)"
  unfolding unclaim_tasks_def
  by (rule queue_ok_fold, assumption, rule queue_ok_update) (simp_all add: row_ok_def)

lemma claim_rows:
  assumes "claim_tasks now t n q = (ps, q')"
  obtains p where "q' = update_where p (\<lambda>r. r\<lparr>tq_status := PROCESSING, tq_started := Some now\<rparr>) q"
  using assms by (auto simp: claim_tasks_def sql_claim_def Let_def)

lemma updates_ok:
  assumes "queue_ok q"
  shows "queue_ok (complete_task now p t q)" and "queue_ok (fail_task now p t e q)"
    and "queue_ok (snd (reset_stuck_tasks_for now t d q))" and "queue_ok (reset_failed_tasks ft q)"
    and "queue_ok (reset_task t q)"
  using assms
  unfolding complete_task_def fail_task_def reset_stuck_tasks_for_def reset_failed_tasks_def reset_task_def Let_def snd_conv
  by (rule queue_ok_update; simp add: row_ok_def clear_row_def)+

lemma forget_ok: "queue_ok q \<Longrightarrow> queue_ok (filter (\<lambda>r. tq_path r \<noteq> p) q)"
  by (simp add: queue_ok_def queue_wf_def distinct_map_filter)

lemma run_op_ok:
  assumes o: "queue_ok q" and r: "run_op roots now x q = (ks, q')"
  shows "queue_ok q'"
proof (cases x)
  case (Enqueue p t)
  with o r show ?thesis using queue_ok_new [of q p t] by (auto simp: enqueue_task_def split: if_splits)
next
  case (ReEnqueue p t)
  have "queue_ok (update_where (\<lambda>r. queue_key r = (p, t)) (\<lambda>r. r\<lparr>tq_status := PENDING,
      tq_priority := priority_for roots p, tq_started := None, tq_completed := None, tq_error := None\<rparr>) q)"
    by (rule queue_ok_update [OF o]) (simp_all add: row_ok_def)
  with ReEnqueue r show ?thesis using queue_ok_new [OF o, of p t] by (auto simp: re_enqueue_task_def split: if_splits)
next
  case (Claim t n)
  with r obtain ps where "claim_tasks now t n q = (ps, q')" by (auto split: prod.splits)
  then obtain p where q': "q' = update_where p (\<lambda>r. r\<lparr>tq_status := PROCESSING, tq_started := Some now\<rparr>) q" by (rule claim_rows)
  show ?thesis unfolding q' by (rule queue_ok_update [OF o]) (simp_all add: row_ok_def)
qed (use o r in \<open>auto simp: updates_ok invalidate_ok invalidate_all_ok unclaim_ok forget_ok\<close>)

lemma run_ops_ok: "queue_ok q \<Longrightarrow> queue_ok (snd (run_ops roots ops q))"
proof (induction ops arbitrary: q)
  case (Cons x ops)
  obtain now op where x: "x = (now, op)" by (cases x)
  obtain ks q1 where r: "run_op roots now op q = (ks, q1)" by force
  obtain js q2 where rs: "run_ops roots ops q1 = (js, q2)" by force
  from Cons.prems r have "queue_ok q1" by (rule run_op_ok)
  from Cons.IH [OF this] rs x r show ?case by simp
qed simp

section \<open>No work is handed out twice\<close>

text \<open>The operations that put an entry back, or drop it.\<close>

fun puts_back :: "queue_op \<Rightarrow> string \<Rightarrow> string \<Rightarrow> bool" where
  "puts_back (ReEnqueue p' t') p t = (p' = p \<and> t' = t)"
| "puts_back (ResetStuck t' d) p t = (t' = t)"
| "puts_back (ResetFailed t') p t = (t' = None \<or> t' = Some [] \<or> t' = Some t)"
| "puts_back (ResetTask t') p t = (t' = t)"
| "puts_back (InvalidatePaths ts ps) p t = (t \<in> set ts \<and> p \<in> set ps)"
| "puts_back (InvalidateAll ts) p t = (t \<in> set ts)"
| "puts_back (Unclaim t' ps) p t = (t' = t \<and> p \<in> set ps)"
| "puts_back (ForgetPath p') p t = (p' = p)"
| "puts_back _ p t = False"

lemma taken_stays:
  assumes "op_spec x m m'" and "\<not> puts_back x p t" and "m (p, t) = Some st" and "st \<noteq> PENDING"
  shows "\<exists>st'. m' (p, t) = Some st' \<and> st' \<noteq> PENDING"
  using assms by (cases x) (auto simp: set_where_def)

lemma claim_taken:
  assumes "queue_wf q" and "run_op roots now x q = (ks, q')"
  shows "distinct ks" and "k \<in> set ks \<Longrightarrow> queue_abs q k = Some PENDING \<and> queue_abs q' k = Some PROCESSING"
proof -
  have "distinct ks \<and> (k \<in> set ks \<longrightarrow> queue_abs q k = Some PENDING \<and> queue_abs q' k = Some PROCESSING)"
  proof (cases x)
    case (Claim t n)
    with assms(2) obtain ps where c: "claim_tasks now t n q = (ps, q')" and ks: "ks = map (\<lambda>p. (p, t)) ps"
      by (auto split: prod.splits)
    note s = claimed_status [OF assms(1) c]
    from s(2,3) file_queue.claim_distinct [OF assms(1) c] show ?thesis
      by (cases k) (auto simp: ks queue_abs_def distinct_map inj_on_def)
  qed (use assms(2) in auto)
  then show "distinct ks" and "k \<in> set ks \<Longrightarrow> queue_abs q k = Some PENDING \<and> queue_abs q' k = Some PROCESSING"
    by simp_all
qed

lemma count_once: "x \<in> set xs \<Longrightarrow> distinct xs \<Longrightarrow> count_list xs x = 1"
  by (induction xs) (auto simp: count_list_0_iff)

lemma not_claimed_again:
  assumes "queue_ok q" and "\<forall>(now, x) \<in> set ops. \<not> puts_back x p t"
    and "queue_abs q (p, t) = Some st" and "st \<noteq> PENDING"
  shows "(p, t) \<notin> set (fst (run_ops roots ops q))"
  using assms
proof (induction ops arbitrary: q st)
  case (Cons nx ops)
  have wq: "queue_wf q" using Cons.prems(1) by (simp add: queue_ok_def)
  obtain now x where nx: "nx = (now, x)" by (cases nx)
  obtain ks q1 where r: "run_op roots now x q = (ks, q1)" by force
  have "(p, t) \<notin> set ks" using claim_taken(2) [OF wq r, of "(p, t)"] Cons.prems(3,4) by auto
  moreover from taken_stays [OF queue_refines [OF wq r]] Cons.prems(2-4) nx obtain st' where
    "queue_abs q1 (p, t) = Some st'" "st' \<noteq> PENDING" by fastforce
  moreover have "queue_ok q1" using Cons.prems(1) r by (rule run_op_ok)
  ultimately show ?case using Cons.IH [of q1 st'] Cons.prems(2) nx r by (auto split: prod.splits)
qed simp

lemma handed_out_once:
  assumes "queue_ok q" and "\<forall>(now, x) \<in> set ops. \<not> puts_back x p t"
  shows "count_list (fst (run_ops roots ops q)) (p, t) \<le> 1"
  using assms
proof (induction ops arbitrary: q)
  case (Cons nx ops)
  have wq: "queue_wf q" using Cons.prems(1) by (simp add: queue_ok_def)
  obtain now x where nx: "nx = (now, x)" by (cases nx)
  obtain ks q1 where r: "run_op roots now x q = (ks, q1)" by force
  obtain js q2 where rs: "run_ops roots ops q1 = (js, q2)" by force
  have w: "queue_ok q1" using Cons.prems(1) r by (rule run_op_ok)
  have d: "distinct ks" by (rule claim_taken(1) [OF wq r])
  from Cons.IH [OF w] Cons.prems(2) nx rs have le: "count_list js (p, t) \<le> 1" by auto
  show ?case
  proof (cases "(p, t) \<in> set ks")
    case True
    with claim_taken(2) [OF wq r] have "queue_abs q1 (p, t) = Some PROCESSING" by blast
    with not_claimed_again [OF w] Cons.prems(2) nx rs have "(p, t) \<notin> set js"
      by (metis fst_conv list.set_intros(2) task_status.distinct(1))
    then have "count_list js (p, t) = 0" by (simp add: count_list_0_iff)
    moreover have "count_list ks (p, t) = 1" using True d by (rule count_once)
    ultimately show ?thesis using nx r rs by simp
  next
    case False
    then have "count_list ks (p, t) = 0" by (simp add: count_list_0_iff)
    with le nx r rs show ?thesis by simp
  qed
qed simp

section \<open>Priorities\<close>

text \<open>With both constants at 0 every path gets the default priority, and dispatch is by age alone.\<close>

lemma priority_flat: "priority_for roots path = default_priority"
  by (simp add: priority_for_def Let_def high_priority_def default_priority_def)

end
