(* ===== verification/Orchestrator.thy ===== *)
theory Orchestrator
  imports TaskQueue PyValue
begin

text \<open>
  \<open>pipeline/orchestrator.py\<close>: the graph of tasks, the gates of dispatch, and what happens when a
  task finishes. The output tables and the file system behind them are the type \<open>'o\<close>; what the
  code calls on them are the fields of \<open>out_ops\<close>. Every method is one function on the
  orchestrator's state; the clock reading of the calls it makes is its argument \<open>now\<close>.
\<close>

section \<open>Tasks and state\<close>

record task_spec =
  ts_name :: string
  ts_trigger :: string
  ts_channels :: "string list"
  ts_writes :: "string list"
  ts_reads :: "string list"
  ts_modalities :: "string list"
  ts_require_all :: bool
  ts_services :: "string list"
  ts_batch :: int
  ts_timeout :: time
  ts_workers :: int
  ts_schema :: string

text \<open>
  A submitted call of a worker: the task, its paths or its run, and the semaphore it holds. A
  semaphore is an index into the list of semaphores created so far: registering a task again makes
  a new one, and a call gives back the one it took.
\<close>

datatype job =
    PathJob (job_task: task_spec) "string list" (job_sem: nat)
  | RunJob (job_task: task_spec) string "string option" (job_sem: nat)

type_synonym bus_event = "string \<times> (string, pyval) pydict"

record 'o orchestrator =
  or_db :: database
  or_outputs :: 'o
  or_tasks :: "(string, task_spec) pydict"
  or_paused :: "string set"
  or_services :: "(string, bool) pydict"
  or_skip :: "string set"
  or_sem_of :: "(string, nat) pydict"
  or_sems :: "int list"
  or_max_workers :: int
  or_producers :: "(string, string) pydict"
  or_upstream :: "(string, string list) pydict"
  or_event_upstream :: "(string, string list) pydict"
  or_jobs :: "job list"
  or_bus :: "bus_event list"
  or_draws :: nat

record 'o out_ops =
  oo_write :: "string \<Rightarrow> pyval list \<Rightarrow> 'o \<Rightarrow> string + 'o"
  oo_clean :: "string \<Rightarrow> string list \<Rightarrow> 'o \<Rightarrow> 'o"
  oo_extract_dir :: "string \<Rightarrow> 'o \<Rightarrow> string option"
  oo_rmtree :: "string \<Rightarrow> 'o \<Rightarrow> 'o"
  oo_schema :: "string \<Rightarrow> 'o \<Rightarrow> 'o pyres"

text \<open>What the parser registry and the file system say of a discovered path.\<close>

record file_info =
  fi_exists :: "string \<Rightarrow> bool"
  fi_suffix :: "string \<Rightarrow> string"
  fi_name :: "string \<Rightarrow> string"
  fi_mtime :: "string \<Rightarrow> time"
  fi_supported :: "string list"
  fi_modality :: "string \<Rightarrow> string"

definition is_event :: "task_spec \<Rightarrow> bool" where "is_event t \<longleftrightarrow> ts_trigger t = ''event''"
definition is_path :: "task_spec \<Rightarrow> bool" where "is_path t \<longleftrightarrow> ts_trigger t = ''path''"

definition on_queue :: "(queue_row list \<Rightarrow> queue_row list) \<Rightarrow> 'o orchestrator \<Rightarrow> 'o orchestrator" where
  "on_queue f s = s\<lparr>or_db := (or_db s)\<lparr>db_queue := f (db_queue (or_db s))\<rparr>\<rparr>"

definition on_runs :: "(run_row list \<Rightarrow> run_row list) \<Rightarrow> 'o orchestrator \<Rightarrow> 'o orchestrator" where
  "on_runs f s = s\<lparr>or_db := (or_db s)\<lparr>db_runs := f (db_runs (or_db s))\<rparr>\<rparr>"

definition publish :: "string \<Rightarrow> (string, pyval) pydict \<Rightarrow> 'o orchestrator \<Rightarrow> 'o orchestrator" where
  "publish channel payload s = s\<lparr>or_bus := or_bus s @ [(channel, payload)]\<rparr>"

section \<open>The graph of tasks\<close>

definition table_producers :: "task_spec list \<Rightarrow> (string, string) pydict" where
  "table_producers tasks =
     fold (\<lambda>t. fold (\<lambda>table d. if dget d table = None then dset table (ts_name t) d else d) (ts_writes t)) tasks []"

text \<open>A set of names in the source; its order is left open there.\<close>

definition same_kind_deps :: "(string, task_spec) pydict \<Rightarrow> (string, string) pydict \<Rightarrow> task_spec \<Rightarrow> string list" where
  "same_kind_deps tasks producers t =
     remdups (List.map_filter (\<lambda>table. case dget producers table of
         None \<Rightarrow> None
       | Some nm \<Rightarrow> (if nm = [] then None else (case dget tasks nm of
             None \<Rightarrow> None
           | Some p \<Rightarrow> if ts_trigger p = ts_trigger t then Some nm else None))) (ts_reads t))"

definition build_graph :: "'o orchestrator \<Rightarrow> 'o orchestrator" where
  "build_graph s =
     (let tasks = or_tasks s; ps = table_producers (dvalues tasks);
          entry = (\<lambda>t. (ts_name t, same_kind_deps tasks ps t)) in
      s\<lparr>or_producers := ps,
        or_upstream := fold (\<lambda>t. dset (ts_name t) (snd (entry t))) (filter (\<lambda>t. \<not> is_event t) (dvalues tasks)) [],
        or_event_upstream := fold (\<lambda>t. dset (ts_name t) (snd (entry t))) (filter is_event (dvalues tasks)) []\<rparr>)"

definition deps_of :: "'o orchestrator \<Rightarrow> task_spec \<Rightarrow> string list" where
  "deps_of s t = (case dget (or_upstream s) (ts_name t) of None \<Rightarrow> [] | Some d \<Rightarrow> d)"

definition deps_met :: "string \<Rightarrow> task_spec \<Rightarrow> 'o orchestrator \<Rightarrow> bool" where
  "deps_met path t s =
     (let up = deps_of s t; done' = filter (\<lambda>d. is_task_done path d (db_queue (or_db s))) up in
      if up = [] then True
      else if ts_require_all t then length done' = length up
      else length done' > 0)"

section \<open>The downstream closure\<close>

text \<open>One task's outputs: every reader not yet listed is listed and put on the stack.\<close>

definition add_readers :: "task_spec list \<Rightarrow> string \<Rightarrow> string list \<times> string list \<Rightarrow> string list \<times> string list" where
  "add_readers tasks table = fold (\<lambda>t (down, frontier).
     (if is_path t \<and> table \<in> set (ts_reads t) \<and> ts_name t \<notin> set down
      then (down @ [ts_name t], frontier @ [ts_name t]) else (down, frontier))) tasks"

definition expand_task :: "task_spec list \<Rightarrow> task_spec \<Rightarrow> string list \<times> string list \<Rightarrow> string list \<times> string list" where
  "expand_task tasks cur = fold (add_readers tasks) (ts_writes cur)"

definition reader_names :: "task_spec list \<Rightarrow> string set \<Rightarrow> string set" where
  "reader_names tasks tables = ts_name ` {t \<in> set tasks. is_path t \<and> (\<exists>table \<in> tables. table \<in> set (ts_reads t))}"

lemma add_readers_new:
  "\<exists>new. add_readers tasks table (down, fr) = (down @ new, fr @ new) \<and> distinct new \<and>
     set new = reader_names tasks {table} - set down"
proof (induction tasks arbitrary: down fr)
  case Nil
  then show ?case by (simp add: add_readers_def reader_names_def)
next
  case (Cons t ts)
  show ?case
  proof (cases "is_path t \<and> table \<in> set (ts_reads t) \<and> ts_name t \<notin> set down")
    case True
    from Cons.IH [of "down @ [ts_name t]" "fr @ [ts_name t]"] obtain new where
      n: "add_readers ts table (down @ [ts_name t], fr @ [ts_name t]) = ((down @ [ts_name t]) @ new, (fr @ [ts_name t]) @ new)"
        "distinct new" "set new = reader_names ts {table} - set (down @ [ts_name t])" by blast
    with True show ?thesis
      by (intro exI [of _ "ts_name t # new"]) (auto simp: add_readers_def reader_names_def)
  next
    case False
    from Cons.IH [of down fr] obtain new where
      n: "add_readers ts table (down, fr) = (down @ new, fr @ new)" "distinct new"
        "set new = reader_names ts {table} - set down" by blast
    with False show ?thesis by (intro exI [of _ new]) (auto simp: add_readers_def reader_names_def)
  qed
qed

lemma expand_new:
  "\<exists>new. fold (add_readers tasks) tables (down, fr) = (down @ new, fr @ new) \<and> distinct new \<and>
     set new = reader_names tasks (set tables) - set down"
proof (induction tables arbitrary: down fr)
  case Nil
  then show ?case by (simp add: reader_names_def)
next
  case (Cons w ws)
  from add_readers_new [of tasks w down fr] obtain n1 where
    1: "add_readers tasks w (down, fr) = (down @ n1, fr @ n1)" "distinct n1" "set n1 = reader_names tasks {w} - set down"
    by blast
  from Cons.IH [of "down @ n1" "fr @ n1"] obtain n2 where
    2: "fold (add_readers tasks) ws (down @ n1, fr @ n1) = ((down @ n1) @ n2, (fr @ n1) @ n2)" "distinct n2"
      "set n2 = reader_names tasks (set ws) - set (down @ n1)" by blast
  have "reader_names tasks (set (w # ws)) = reader_names tasks {w} \<union> reader_names tasks (set ws)"
    by (auto simp: reader_names_def)
  with 1 2 show ?case by (intro exI [of _ "n1 @ n2"]) auto
qed

lemma expand_taskE:
  assumes "expand_task tasks cur (down, fr) = (down', fr')"
  obtains new where "down' = down @ new" "fr' = fr @ new" "distinct new"
    "set new = reader_names tasks (set (ts_writes cur)) - set down"
  using expand_new [of tasks "ts_writes cur" down fr] assms by (auto simp: expand_task_def)

function downstream_loop :: "(string, task_spec) pydict \<Rightarrow> string list \<Rightarrow> string list \<Rightarrow> string list" where
  "downstream_loop tasks frontier down =
     (if frontier = [] then down
      else (case dget tasks (last frontier) of
          None \<Rightarrow> downstream_loop tasks (butlast frontier) down
        | Some cur \<Rightarrow> (case expand_task (dvalues tasks) cur (down, butlast frontier) of
            (down', frontier') \<Rightarrow> downstream_loop tasks frontier' down')))"
  by pat_completeness auto

text \<open>Each round lists a task for the first time or shortens the stack.\<close>

termination
  apply (relation "inv_image (less_than <*lex*> less_than)
    (\<lambda>(tasks, frontier, down). (card (ts_name ` set (dvalues tasks) - set down), length frontier))")
  subgoal by (intro wf_inv_image wf_lex_prod) simp_all
  subgoal by simp
  subgoal for tasks frontier down cur down' frontier'
  proof -
    assume f: "frontier \<noteq> []" and "(down', frontier') = expand_task (dvalues tasks) cur (down, butlast frontier)"
    then have "expand_task (dvalues tasks) cur (down, butlast frontier) = (down', frontier')" by simp
    then obtain new where n: "down' = down @ new" "frontier' = butlast frontier @ new"
      "set new = reader_names (dvalues tasks) (set (ts_writes cur)) - set down" by (rule expand_taskE)
    show ?thesis
    proof (cases "new = []")
      case True
      with n f show ?thesis by simp
    next
      case False
      then obtain y where "y \<in> set new" by (cases new) auto
      moreover from this n(3) have "y \<in> ts_name ` set (dvalues tasks)" "y \<notin> set down" by (auto simp: reader_names_def)
      ultimately have "card (ts_name ` set (dvalues tasks) - set down') < card (ts_name ` set (dvalues tasks) - set down)"
        unfolding n(1) by (intro psubset_card_mono) auto
      then show ?thesis by simp
    qed
  qed
  done

declare downstream_loop.simps [simp del]

definition get_all_downstream :: "string \<Rightarrow> 'o orchestrator \<Rightarrow> string list" where
  "get_all_downstream nm s =
     (let kind = (case dget (or_tasks s) nm of None \<Rightarrow> ''path'' | Some t \<Rightarrow> ts_trigger t) in
      if kind \<noteq> ''path'' then [] else downstream_loop (or_tasks s) [nm] [])"

text \<open>The closure is exactly what the graph reaches in one or more steps.\<close>

definition tasks_wf :: "(string, task_spec) pydict \<Rightarrow> bool" where
  "tasks_wf tasks \<longleftrightarrow> distinct (dkeys tasks) \<and> (\<forall>(k, t) \<in> set tasks. ts_name t = k)"

definition feeds :: "(string, task_spec) pydict \<Rightarrow> (string \<times> string) set" where
  "feeds tasks = {(a, b). \<exists>t u. dget tasks a = Some t \<and> dget tasks b = Some u \<and> is_path u \<and>
     set (ts_writes t) \<inter> set (ts_reads u) \<noteq> {}}"

lemma feeds_readers:
  assumes "tasks_wf tasks" and "dget tasks a = Some t"
  shows "feeds tasks `` {a} = reader_names (dvalues tasks) (set (ts_writes t))"
proof -
  have d: "dget tasks (ts_name u) = Some u \<longleftrightarrow> u \<in> set (dvalues tasks)" for u
    using assms(1) by (force simp: tasks_wf_def dest: map_of_SomeD)
  have n: "dget tasks b = Some u \<Longrightarrow> ts_name u = b" for b u
    using assms(1) by (auto simp: tasks_wf_def dest: map_of_SomeD)
  show ?thesis
  proof
    show "feeds tasks `` {a} \<subseteq> reader_names (dvalues tasks) (set (ts_writes t))"
    proof
      fix b assume "b \<in> feeds tasks `` {a}"
      then obtain u where u: "dget tasks b = Some u" "is_path u" "set (ts_writes t) \<inter> set (ts_reads u) \<noteq> {}"
        using assms(2) by (auto simp: feeds_def)
      with n d have "ts_name u = b" "u \<in> set (dvalues tasks)" by metis+
      with u show "b \<in> reader_names (dvalues tasks) (set (ts_writes t))" unfolding reader_names_def by blast
    qed
    show "reader_names (dvalues tasks) (set (ts_writes t)) \<subseteq> feeds tasks `` {a}"
      using assms(2) d by (auto simp: reader_names_def feeds_def)
  qed
qed

lemma set_butlast_last: "xs \<noteq> [] \<Longrightarrow> set xs = insert (last xs) (set (butlast xs))"
  by (induction xs) auto

lemma downstream_loop_reaches:
  "tasks_wf tasks \<Longrightarrow> set frontier \<subseteq> insert start (set down) \<Longrightarrow> set down \<subseteq> (feeds tasks)\<^sup>+ `` {start} \<Longrightarrow>
    distinct down \<Longrightarrow>
    (\<forall>a \<in> insert start (set down) - set frontier. feeds tasks `` {a} \<subseteq> set down) \<Longrightarrow>
    set (downstream_loop tasks frontier down) = (feeds tasks)\<^sup>+ `` {start} \<and>
    distinct (downstream_loop tasks frontier down)"
proof (induction tasks frontier down rule: downstream_loop.induct)
  case (1 tasks frontier down)
  note wf = "1.prems"(1) and fr = "1.prems"(2) and sound = "1.prems"(3) and closed = "1.prems"(5)
  show ?case
  proof (cases "frontier = []")
    case True
    have "b \<in> set down" if "(start, b) \<in> (feeds tasks)\<^sup>+" for b
      using that by (induction rule: trancl_induct) (use closed True in auto)
    with True sound "1.prems"(4) show ?thesis by (auto simp: downstream_loop.simps)
  next
    case False
    let ?a = "last frontier"
    have split: "set frontier = insert ?a (set (butlast frontier))"
      using False by (rule set_butlast_last)
    have at: "?a \<in> insert start (set down)" using fr split by blast
    show ?thesis
    proof (cases "dget tasks ?a")
      case None
      then have "feeds tasks `` {?a} = {}" by (auto simp: feeds_def)
      then have c: "\<forall>a \<in> insert start (set down) - set (butlast frontier). feeds tasks `` {a} \<subseteq> set down"
        using closed split by (metis Diff_iff empty_subsetI insert_iff)
      have b: "set (butlast frontier) \<subseteq> insert start (set down)" using fr split by blast
      have "downstream_loop tasks frontier down = downstream_loop tasks (butlast frontier) down"
        using False None by (simp add: downstream_loop.simps [of tasks frontier])
      with "1.IH"(1) [OF False None wf b sound "1.prems"(4) c] show ?thesis by simp
    next
      case (Some cur)
      obtain down' frontier' where e: "expand_task (dvalues tasks) cur (down, butlast frontier) = (down', frontier')" by force
      then obtain new where n: "down' = down @ new" "frontier' = butlast frontier @ new" "distinct new"
        "set new = reader_names (dvalues tasks) (set (ts_writes cur)) - set down" by (rule expand_taskE)
      note reads = feeds_readers [OF wf Some]
      have new: "set new \<subseteq> (feeds tasks)\<^sup>+ `` {start}"
      proof
        fix b assume "b \<in> set new"
        with n(4) reads have "(?a, b) \<in> feeds tasks" by blast
        moreover from at sound have "?a = start \<or> (start, ?a) \<in> (feeds tasks)\<^sup>+" by blast
        ultimately show "b \<in> (feeds tasks)\<^sup>+ `` {start}" by (auto intro: trancl_into_trancl)
      qed
      have "set frontier' \<subseteq> insert start (set down')" using fr split n(1,2) by auto
      moreover have "set down' \<subseteq> (feeds tasks)\<^sup>+ `` {start}" using sound new n(1) by auto
      moreover have "distinct down'" using "1.prems"(4) n by auto
      moreover have "\<forall>a \<in> insert start (set down') - set frontier'. feeds tasks `` {a} \<subseteq> set down'"
      proof
        fix a assume a: "a \<in> insert start (set down') - set frontier'"
        show "feeds tasks `` {a} \<subseteq> set down'"
        proof (cases "a = ?a")
          case True
          with reads n show ?thesis by auto
        next
          case False
          with a split n(1,2) have "a \<in> insert start (set down) - set frontier" by auto
          with closed n(1) show ?thesis by auto
        qed
      qed
      ultimately show ?thesis
        using "1.IH"(2) [OF False Some e [symmetric] wf] False Some e
        by (simp add: downstream_loop.simps [of tasks frontier])
    qed
  qed
qed

lemma downstream_closure:
  assumes "tasks_wf (or_tasks s)" and "dget (or_tasks s) nm = Some t" and "is_path t"
  shows "set (get_all_downstream nm s) = (feeds (or_tasks s))\<^sup>+ `` {nm}" and "distinct (get_all_downstream nm s)"
  using downstream_loop_reaches [OF assms(1), of "[nm]" nm "[]"] assms(2,3)
  by (auto simp: get_all_downstream_def is_path_def)

end
