(* ===== verification/Dispatch.thy ===== *)
theory Dispatch
  imports Orchestrator
begin

text \<open>
  The rest of \<open>pipeline/orchestrator.py\<close>: registration, file events, the gates of the dispatch
  loop, the workers and what their results trigger. Log lines, thread pools and the scheduler's
  default jobs are left out; a submitted call is an entry of \<open>or_jobs\<close> until a worker runs it.
\<close>

section \<open>Registration\<close>

definition clear_skip_cache :: "string option \<Rightarrow> 'o orchestrator \<Rightarrow> 'o orchestrator" where
  "clear_skip_cache nm s = (case nm of
      None \<Rightarrow> s\<lparr>or_skip := {}\<rparr>
    | Some n \<Rightarrow> if n = [] then s\<lparr>or_skip := {}\<rparr> else s\<lparr>or_skip := or_skip s - {n}\<rparr>)"

definition tasks_changed :: "string \<Rightarrow> string \<Rightarrow> 'o orchestrator \<Rightarrow> 'o orchestrator" where
  "tasks_changed nm action = publish ''tasks_changed'' [(''name'', VStr nm), (''action'', VStr action)]"

definition register_task :: "'o out_ops \<Rightarrow> task_spec \<Rightarrow> 'o orchestrator \<Rightarrow> 'o orchestrator pyres" where
  "register_task ops t s =
     rbind (if ts_schema t = [] then Inr (or_outputs s)
            else ensure_output_table (ts_name t) (ts_schema t) (oo_schema ops) (or_outputs s)) (\<lambda>outputs.
     (let s1 = s\<lparr>or_outputs := outputs,
            or_db := (or_db s)\<lparr>db_registered := db_register_task (ts_name t) (ts_writes t) (ts_reads t)
              (ts_modalities t) (ts_trigger t) (ts_channels t) (db_registered (or_db s))\<rparr>,
            or_tasks := dset (ts_name t) t (or_tasks s),
            or_sem_of := dset (ts_name t) (length (or_sems s)) (or_sem_of s),
            or_sems := or_sems s @ [if ts_workers t > 0 then ts_workers t else or_max_workers s]\<rparr>
      in Inr (tasks_changed (ts_name t) ''registered'' (build_graph s1))))"

definition unregister_task :: "string \<Rightarrow> 'o orchestrator \<Rightarrow> 'o orchestrator" where
  "unregister_task nm s =
     (let s1 = s\<lparr>or_tasks := dpop nm (or_tasks s), or_sem_of := dpop nm (or_sem_of s)\<rparr> in
      if dget (or_tasks s) nm = None then s1
      else tasks_changed nm ''unregistered'' (build_graph s1))"

section \<open>Backfill\<close>

definition enqueue_if_met :: "string list \<Rightarrow> time \<Rightarrow> task_spec \<Rightarrow> string \<Rightarrow> 'o orchestrator \<Rightarrow> 'o orchestrator" where
  "enqueue_if_met roots now t path s =
     (if deps_met path t s then on_queue (enqueue_task roots now path (ts_name t)) s else s)"

definition get_backfill_paths :: "task_spec \<Rightarrow> 'o orchestrator \<Rightarrow> string list" where
  "get_backfill_paths t s = get_paths_with_any_task_done (deps_of s t) (or_db s)"

definition backfill_task :: "string list \<Rightarrow> time \<Rightarrow> task_spec \<Rightarrow> 'o orchestrator \<Rightarrow> 'o orchestrator" where
  "backfill_task roots now t s =
     (if \<not> is_path t then s
      else if ts_modalities t \<noteq> [] then
        fold (\<lambda>m s. fold (enqueue_if_met roots now t) (get_files_by_modality m (or_db s)) s) (ts_modalities t) s
      else if ts_reads t \<noteq> [] then fold (enqueue_if_met roots now t) (get_backfill_paths t s) s
      else s)"

definition backfill_tasks :: "string list \<Rightarrow> time \<Rightarrow> 'o orchestrator \<Rightarrow> 'o orchestrator" where
  "backfill_tasks roots now s = fold (backfill_task roots now) (dvalues (or_tasks s)) s"

section \<open>Services\<close>

definition services_ready :: "task_spec \<Rightarrow> 'o orchestrator \<Rightarrow> bool \<times> 'o orchestrator" where
  "services_ready t s =
     (if ts_services t = [] then (True, s)
      else if list_ex (\<lambda>nm. dget (or_services s) nm \<noteq> Some True) (ts_services t)
        then (False, s\<lparr>or_skip := insert (ts_name t) (or_skip s)\<rparr>)
      else (True, s\<lparr>or_skip := or_skip s - {ts_name t}\<rparr>))"

section \<open>File events\<close>

definition invalidate_downstream :: "string \<Rightarrow> string list \<Rightarrow> 'o orchestrator \<Rightarrow> 'o orchestrator" where
  "invalidate_downstream nm paths s =
     (let down = get_all_downstream nm s in
      if down = [] then s else on_queue (invalidate_tasks_for_paths down paths) s)"

definition discover_for :: "string list \<Rightarrow> time \<Rightarrow> string \<Rightarrow> string \<Rightarrow> task_spec \<Rightarrow> 'o orchestrator \<Rightarrow> 'o orchestrator" where
  "discover_for roots now path modality t s =
     (if is_path t \<and> modality \<in> set (ts_modalities t) \<and> deps_met path t s \<and>
         get_task_status path (ts_name t) (db_queue (or_db s)) \<notin> {Some PENDING, Some PROCESSING}
      then invalidate_downstream (ts_name t) [path] (on_queue (re_enqueue_task roots now path (ts_name t)) s)
      else s)"

definition on_file_discovered :: "string list \<Rightarrow> time \<Rightarrow> string \<Rightarrow> string \<Rightarrow> 'o orchestrator \<Rightarrow> 'o orchestrator" where
  "on_file_discovered roots now path modality s =
     fold (discover_for roots now path modality) (dvalues (or_tasks s)) s"

text \<open>
  Deleting a file deletes what was extracted from it. The recursion is over the file system's
  nesting; \<open>depth\<close> stands for Python's recursion limit, and the exception raised at the limit is
  caught by the caller's \<open>try\<close> like any other, which abandons the remaining children.
\<close>

fun delete_file :: "nat \<Rightarrow> 'o out_ops \<Rightarrow> string \<Rightarrow> 'o orchestrator \<Rightarrow> bool \<times> 'o orchestrator"
and delete_children :: "nat \<Rightarrow> 'o out_ops \<Rightarrow> string list \<Rightarrow> 'o orchestrator \<Rightarrow> bool \<times> 'o orchestrator" where
  "delete_file 0 ops path s = (False, s)"
| "delete_file (Suc n) ops path s =
     (let s1 = s\<lparr>or_outputs := oo_clean ops path (concat (map ts_writes (dvalues (or_tasks s)))) (or_outputs s)\<rparr>;
          s2 = (case oo_extract_dir ops path (or_outputs s1) of
              None \<Rightarrow> s1
            | Some dir \<Rightarrow>
                (if dir = [] then s1
                 else (case delete_children n ops (get_container_children dir (or_db s1)) s1 of
                     (ok, s') \<Rightarrow> if ok then s'\<lparr>or_outputs := oo_rmtree ops dir (or_outputs s')\<rparr> else s')))
      in (True, s2\<lparr>or_db := remove_file path (or_db s2)\<rparr>))"
| "delete_children n ops [] s = (True, s)"
| "delete_children n ops (p # ps) s = (case delete_file n ops p s of
      (ok, s1) \<Rightarrow> if ok then delete_children n ops ps s1 else (False, s1))"

section \<open>Completion\<close>

definition trigger_reader :: "string list \<Rightarrow> time \<Rightarrow> string \<Rightarrow> string \<Rightarrow> task_spec \<Rightarrow> 'o orchestrator \<Rightarrow> 'o orchestrator" where
  "trigger_reader roots now path table t s =
     (if is_path t \<and> table \<in> set (ts_reads t) \<and> deps_met path t s
      then on_queue (re_enqueue_task roots now path (ts_name t)) s else s)"

definition on_task_completed :: "string list \<Rightarrow> time \<Rightarrow> string \<Rightarrow> string \<Rightarrow> 'o orchestrator \<Rightarrow> 'o orchestrator" where
  "on_task_completed roots now path nm s = (case dget (or_tasks s) nm of
      None \<Rightarrow> s
    | Some done' \<Rightarrow> fold (\<lambda>table s. fold (trigger_reader roots now path table) (dvalues (or_tasks s)) s) (ts_writes done') s)"

definition fan_out_modality :: "string list \<Rightarrow> time \<Rightarrow> string \<Rightarrow> string \<Rightarrow> task_spec \<Rightarrow> 'o orchestrator \<Rightarrow> 'o orchestrator" where
  "fan_out_modality roots now path modality t s =
     (if is_path t \<and> modality \<in> set (ts_modalities t) \<and> deps_met path t s
      then on_queue (re_enqueue_task roots now path (ts_name t)) s else s)"

definition on_also_contains :: "string list \<Rightarrow> time \<Rightarrow> string \<Rightarrow> string list \<Rightarrow> 'o orchestrator \<Rightarrow> 'o orchestrator" where
  "on_also_contains roots now path modalities s =
     fold (\<lambda>m s. fold (fan_out_modality roots now path m) (dvalues (or_tasks s)) s) modalities s"

definition discover_child :: "file_info \<Rightarrow> string list \<Rightarrow> time \<Rightarrow> string \<Rightarrow> 'o orchestrator \<Rightarrow> 'o orchestrator" where
  "discover_child fi roots now path s =
     (let ext = lower (fi_suffix fi path) in
      if \<not> fi_exists fi path \<or> ext \<notin> set (fi_supported fi) then s
      else (let modality = fi_modality fi ext in
            on_file_discovered roots now path modality
              (s\<lparr>or_db := upsert_file now path (fi_name fi path) ext modality (fi_mtime fi path) ''container'' (or_db s)\<rparr>)))"

definition on_paths_discovered :: "file_info \<Rightarrow> string list \<Rightarrow> time \<Rightarrow> string list \<Rightarrow> 'o orchestrator \<Rightarrow> 'o orchestrator" where
  "on_paths_discovered fi roots now paths s = fold (discover_child fi roots now) paths s"

section \<open>Dispatch\<close>

definition acquire :: "nat \<Rightarrow> 'o orchestrator \<Rightarrow> 'o orchestrator option" where
  "acquire i s =
     (if i < length (or_sems s) \<and> or_sems s ! i > 0
      then Some (s\<lparr>or_sems := (or_sems s)[i := or_sems s ! i - 1]\<rparr>) else None)"

definition release :: "nat \<Rightarrow> 'o orchestrator \<Rightarrow> 'o orchestrator" where
  "release i s = s\<lparr>or_sems := (or_sems s)[i := or_sems s ! i + 1]\<rparr>"

definition submit :: "job \<Rightarrow> 'o orchestrator \<Rightarrow> 'o orchestrator" where
  "submit j s = s\<lparr>or_jobs := or_jobs s @ [j]\<rparr>"

text \<open>
  The first three gates; when they open, the semaphore taken. Registering keeps a semaphore for
  every task, so the lookup finds one.
\<close>

definition open_gates :: "task_spec \<Rightarrow> 'o orchestrator \<Rightarrow> nat option \<times> 'o orchestrator" where
  "open_gates t s =
     (if ts_name t \<in> or_paused s then (None, s)
      else (case services_ready t s of
          (False, s1) \<Rightarrow> (None, s1)
        | (True, s1) \<Rightarrow>
            (case dget (or_sem_of s1) (ts_name t) of
               None \<Rightarrow> (None, s1)
             | Some i \<Rightarrow> (case acquire i s1 of None \<Rightarrow> (None, s1) | Some s2 \<Rightarrow> (Some i, s2)))))"

definition recheck :: "task_spec \<Rightarrow> string list \<Rightarrow> 'o orchestrator \<Rightarrow> string list \<times> 'o orchestrator" where
  "recheck t paths s =
     (if ts_reads t = [] then (paths, s)
      else (let ready = filter (\<lambda>p. deps_met p t s) paths; not_ready = filter (\<lambda>p. p \<notin> set ready) paths
            in (ready, if not_ready = [] then s else on_queue (unclaim_tasks (ts_name t) not_ready) s)))"

definition dispatch_path_task :: "time \<Rightarrow> task_spec \<Rightarrow> 'o orchestrator \<Rightarrow> bool \<times> 'o orchestrator" where
  "dispatch_path_task now t s =
     (if is_event t then (False, s)
      else (case open_gates t s of
          (None, s1) \<Rightarrow> (False, s1)
        | (Some i, s1) \<Rightarrow>
            (case claim_tasks now (ts_name t) (ts_batch t) (db_queue (or_db s1)) of
               (paths, q) \<Rightarrow>
                 (if paths = [] then (False, release i (on_queue (\<lambda>_. q) s1))
                  else (case recheck t paths (on_queue (\<lambda>_. q) s1) of
                      (ready, s2) \<Rightarrow>
                        (if ready = [] then (False, release i s2)
                         else (True, submit (PathJob t ready i) s2)))))))"

definition dispatch_event_task :: "time \<Rightarrow> task_spec \<Rightarrow> 'o orchestrator \<Rightarrow> bool \<times> 'o orchestrator" where
  "dispatch_event_task now t s =
     (if \<not> is_event t then (False, s)
      else (case open_gates t s of
          (None, s1) \<Rightarrow> (False, s1)
        | (Some i, s1) \<Rightarrow>
            (case claim_runs now (ts_name t) 1 (db_runs (or_db s1)) of
               (runs, rows) \<Rightarrow>
                 (case runs of
                    [] \<Rightarrow> (False, release i (on_runs (\<lambda>_. rows) s1))
                  | (run_id, payload) # _ \<Rightarrow> (True, submit (RunJob t run_id payload i) (on_runs (\<lambda>_. rows) s1))))))"

definition dispatch_each ::
    "(task_spec \<Rightarrow> 'o orchestrator \<Rightarrow> bool \<times> 'o orchestrator) \<Rightarrow> task_spec list \<Rightarrow> 'o orchestrator \<Rightarrow> bool \<times> 'o orchestrator" where
  "dispatch_each step tasks s = fold (\<lambda>t (any, s). case step t s of (d, s') \<Rightarrow> (any \<or> d, s')) tasks (False, s)"

definition sweep_stuck :: "time \<Rightarrow> 'o orchestrator \<Rightarrow> 'o orchestrator" where
  "sweep_stuck now s = fold (\<lambda>t s.
     if is_event t then on_runs (\<lambda>r. snd (reset_stuck_runs_for now (ts_name t) (ts_timeout t) r)) s
     else on_queue (\<lambda>q. snd (reset_stuck_tasks_for now (ts_name t) (ts_timeout t) q)) s) (dvalues (or_tasks s)) s"

text \<open>One iteration of the dispatch loop; \<open>last\<close> is the time of the last sweep.\<close>

definition stuck_check_interval :: time where "stuck_check_interval = 60"

definition run_dispatch :: "time \<Rightarrow> time \<Rightarrow> 'o orchestrator \<Rightarrow> bool \<times> time \<times> 'o orchestrator" where
  "run_dispatch now last_check s =
     (let due = now - last_check \<ge> stuck_check_interval; s1 = (if due then sweep_stuck now s else s) in
      case dispatch_each (dispatch_path_task now) (dvalues (or_tasks s1)) s1 of
        (d1, s2) \<Rightarrow> (case dispatch_each (dispatch_event_task now) (dvalues (or_tasks s2)) s2 of
          (d2, s3) \<Rightarrow> (d1 \<or> d2, if due then now else last_check, s3)))"

definition start_orchestrator :: "string list \<Rightarrow> time \<Rightarrow> 'o orchestrator \<Rightarrow> 'o orchestrator" where
  "start_orchestrator roots now s = sweep_stuck now (backfill_tasks roots now (build_graph s))"

text \<open>
  Stopping pauses every task and shuts the pool down with \<open>cancel_futures\<close>: the calls no worker has
  begun are dropped, with the rows they claimed and the slots they hold.
\<close>

definition stop_orchestrator :: "job list \<Rightarrow> 'o orchestrator \<Rightarrow> 'o orchestrator" where
  "stop_orchestrator cancelled s =
     s\<lparr>or_paused := or_paused s \<union> ts_name ` set (dvalues (or_tasks s)), or_jobs := fold remove1 cancelled (or_jobs s)\<rparr>"

section \<open>Workers\<close>

record task_result =
  tr_success :: bool
  tr_error :: string
  tr_data :: "pyval list"
  tr_also_contains :: "string list"
  tr_discovered :: "string list"

text \<open>
  A worker's call in its two halves, with the task's own code in between: everything else may run
  before the second half. A task that was paused since the dispatch gives its work back.
\<close>

definition execute_begin :: "task_spec \<Rightarrow> string list \<Rightarrow> 'o orchestrator \<Rightarrow> bool \<times> 'o orchestrator" where
  "execute_begin t paths s =
     (if ts_name t \<in> or_paused s then (False, on_queue (unclaim_tasks (ts_name t) paths) s)
      else (True, publish ''task_started''
             [(''task_name'', VStr (ts_name t)), (''paths'', VList (map VStr paths))] s))"

definition task_failed :: "string \<Rightarrow> string \<Rightarrow> string \<Rightarrow> 'o orchestrator \<Rightarrow> 'o orchestrator" where
  "task_failed nm path err = publish ''task_failed''
     [(''task_name'', VStr nm), (''path'', VStr path), (''error'', VStr err)]"

definition fail_path :: "time \<Rightarrow> task_spec \<Rightarrow> string \<Rightarrow> string \<Rightarrow> 'o orchestrator \<Rightarrow> 'o orchestrator" where
  "fail_path now t err path s =
     task_failed (ts_name t) path err (on_queue (fail_task now path (ts_name t) (Some err)) s)"

fun write_tables :: "'o out_ops \<Rightarrow> pyval list \<Rightarrow> string list \<Rightarrow> 'o \<Rightarrow> string option \<times> 'o" where
  "write_tables ops rows [] out = (None, out)"
| "write_tables ops rows (table # tables) out = (case oo_write ops table rows out of
      Inl e \<Rightarrow> (Some e, out) | Inr out' \<Rightarrow> write_tables ops rows tables out')"

definition write_results :: "'o out_ops \<Rightarrow> task_spec \<Rightarrow> pyval list \<Rightarrow> 'o orchestrator \<Rightarrow> string option \<times> 'o orchestrator" where
  "write_results ops t rows s =
     (if rows = [] \<or> ts_writes t = [] then (None, s)
      else (case write_tables ops rows (ts_writes t) (or_outputs s) of (e, out) \<Rightarrow> (e, s\<lparr>or_outputs := out\<rparr>)))"

definition handle_success ::
    "'o out_ops \<Rightarrow> file_info \<Rightarrow> string list \<Rightarrow> time \<Rightarrow> rat \<Rightarrow> task_spec \<Rightarrow> string \<Rightarrow> task_result \<Rightarrow> 'o orchestrator \<Rightarrow>
     bool \<times> 'o orchestrator" where
  "handle_success ops fi roots now dur t path res s =
     (case write_results ops t (tr_data res) s of
        (Some e, s1) \<Rightarrow> (False, fail_path now t (''Write failed: '' @ e) path s1)
      | (None, s1) \<Rightarrow>
          (if ts_reads t \<noteq> [] \<and> \<not> deps_met path t s1
           then (True, on_queue (re_enqueue_task roots now path (ts_name t)) s1)
           else (let s2 = on_task_completed roots now path (ts_name t)
                        (on_queue (complete_task now path (ts_name t)) s1);
                     s3 = publish ''task_completed'' [(''task_name'', VStr (ts_name t)), (''path'', VStr path),
                            (''rows_written'', VInt (int (length (tr_data res)))), (''duration_s'', VFloat dur)] s2;
                     s4 = (if tr_also_contains res = [] then s3 else on_also_contains roots now path (tr_also_contains res) s3);
                     s5 = (if tr_discovered res = [] then s4 else on_paths_discovered fi roots now (tr_discovered res) s4)
                 in (True, s5))))"

definition process_result ::
    "'o out_ops \<Rightarrow> file_info \<Rightarrow> string list \<Rightarrow> time \<Rightarrow> rat \<Rightarrow> task_spec \<Rightarrow> string \<times> task_result \<Rightarrow>
     string list \<times> 'o orchestrator \<Rightarrow> string list \<times> 'o orchestrator" where
  "process_result ops fi roots now dur t pr fs =
     (case pr of (path, res) \<Rightarrow> (case fs of (failed, s) \<Rightarrow>
        (if tr_success res
         then (case handle_success ops fi roots now dur t path res s of
                 (ok, s') \<Rightarrow> (if ok then failed else failed @ [path], s'))
         else (failed @ [path], fail_path now t (tr_error res) path s))))"

text \<open>The second half: the supervised call's error, or one result per path, paired as \<open>zip\<close> pairs them.\<close>

definition execute_end ::
    "'o out_ops \<Rightarrow> file_info \<Rightarrow> string list \<Rightarrow> time \<Rightarrow> rat \<Rightarrow> task_spec \<Rightarrow> string list \<Rightarrow> string + task_result list \<Rightarrow>
     'o orchestrator \<Rightarrow> 'o orchestrator" where
  "execute_end ops fi roots now dur t paths outcome s = (case outcome of
      Inl err \<Rightarrow> invalidate_downstream (ts_name t) paths (fold (fail_path now t err) paths s)
    | Inr results \<Rightarrow>
        (case fold (process_result ops fi roots now dur t) (zip paths results) ([], s) of
           (failed, s1) \<Rightarrow> if failed = [] then s1 else invalidate_downstream (ts_name t) failed s1))"

section \<open>Workers of event tasks\<close>

definition run_failed :: "time \<Rightarrow> task_spec \<Rightarrow> string \<Rightarrow> string \<Rightarrow> 'o orchestrator \<Rightarrow> 'o orchestrator" where
  "run_failed now t run_id err s =
     publish ''task_failed'' [(''task_name'', VStr (ts_name t)), (''run_id'', VStr run_id), (''error'', VStr err)]
       (on_runs (fail_run now run_id (Some err)) s)"

definition event_begin :: "task_spec \<Rightarrow> string \<Rightarrow> 'o orchestrator \<Rightarrow> bool \<times> 'o orchestrator" where
  "event_begin t run_id s =
     (if ts_name t \<in> or_paused s then (False, on_runs (unclaim_run run_id) s)
      else (True, publish ''task_started'' [(''task_name'', VStr (ts_name t)), (''run_id'', VStr run_id)] s))"

text \<open>
  A run for every event task that reads a table of the finished one, once per table. \<open>gen\<close> draws
  the random part of the identifiers; two equal ones raise, as the primary key demands.
  \<open>renormalise\<close> decodes the payload text, an undecodable one to nothing, and encodes it again.
\<close>

definition enqueue_reader_run ::
    "(nat \<Rightarrow> string) \<Rightarrow> time \<Rightarrow> task_spec \<Rightarrow> string \<Rightarrow> string \<Rightarrow> string \<Rightarrow> task_spec \<Rightarrow>
     'o orchestrator \<Rightarrow> pyexn option \<times> 'o orchestrator" where
  "enqueue_reader_run gen now parent parent_run payload table t s =
     (if \<not> is_event t \<or> ts_name t = ts_name parent \<or> table \<notin> set (ts_reads t) then (None, s)
      else (let run_id = ts_name t @ '':'' @ take 12 (gen (or_draws s)); s1 = s\<lparr>or_draws := Suc (or_draws s)\<rparr> in
            case create_run now run_id (ts_name t) (Some (''upstream:'' @ ts_name parent)) (Some payload)
                   (Some parent_run) (db_runs (or_db s1)) of
              Inl e \<Rightarrow> (Some e, s1)
            | Inr rows \<Rightarrow> (None, clear_skip_cache (Some (ts_name t)) (on_runs (\<lambda>_. rows) s1))))"

fun fold_exn :: "('a \<Rightarrow> 's \<Rightarrow> pyexn option \<times> 's) \<Rightarrow> 'a list \<Rightarrow> 's \<Rightarrow> pyexn option \<times> 's" where
  "fold_exn f [] s = (None, s)"
| "fold_exn f (x # xs) s = (case f x s of (Some e, s1) \<Rightarrow> (Some e, s1) | (None, s1) \<Rightarrow> fold_exn f xs s1)"

definition enqueue_event_downstream ::
    "(nat \<Rightarrow> string) \<Rightarrow> time \<Rightarrow> task_spec \<Rightarrow> string \<Rightarrow> string \<Rightarrow> 'o orchestrator \<Rightarrow> pyexn option \<times> 'o orchestrator" where
  "enqueue_event_downstream gen now parent parent_run payload s =
     fold_exn (\<lambda>table s. fold_exn (enqueue_reader_run gen now parent parent_run payload table) (dvalues (or_tasks s)) s)
       (ts_writes parent) s"

definition event_end ::
    "'o out_ops \<Rightarrow> (string option \<Rightarrow> string) \<Rightarrow> (nat \<Rightarrow> string) \<Rightarrow> time \<Rightarrow> rat \<Rightarrow> task_spec \<Rightarrow> string \<Rightarrow> string option \<Rightarrow>
     string + task_result \<Rightarrow> 'o orchestrator \<Rightarrow> pyexn option \<times> 'o orchestrator" where
  "event_end ops renormalise gen now dur t run_id payload outcome s = (case outcome of
      Inl err \<Rightarrow> (None, run_failed now t run_id err s)
    | Inr res \<Rightarrow>
        (if \<not> tr_success res then (None, run_failed now t run_id (tr_error res) s)
         else (case write_results ops t (tr_data res) s of
             (Some e, s1) \<Rightarrow> (None, run_failed now t run_id (''Write failed: '' @ e) s1)
           | (None, s1) \<Rightarrow>
               enqueue_event_downstream gen now t run_id (renormalise payload)
                 (publish ''task_completed'' [(''task_name'', VStr (ts_name t)), (''run_id'', VStr run_id),
                    (''rows_written'', VInt (int (length (tr_data res)))), (''duration_s'', VFloat dur)]
                    (on_runs (complete_run now run_id) s1)))))"

text \<open>The worker returns: its call leaves the list and gives its semaphore back.\<close>

definition finish_job :: "job \<Rightarrow> 'o orchestrator \<Rightarrow> 'o orchestrator" where
  "finish_job j s = release (job_sem j) (s\<lparr>or_jobs := remove1 j (or_jobs s)\<rparr>)"

section \<open>The steps of the pipeline\<close>

text \<open>
  Everything that happens to the orchestrator: tasks come and go, files and services change, the
  dispatch loop runs, and workers begin and finish at any time in between.
\<close>

inductive pipeline_step :: "'o out_ops \<Rightarrow> file_info \<Rightarrow> string list \<Rightarrow> 'o orchestrator \<Rightarrow> 'o orchestrator \<Rightarrow> bool"
  for ops :: "'o out_ops" and fi :: file_info and roots :: "string list" where
  step_register: "register_task ops t s = Inr s' \<Longrightarrow> pipeline_step ops fi roots s s'"
| step_unregister: "pipeline_step ops fi roots s (unregister_task nm s)"
| step_start: "pipeline_step ops fi roots s (start_orchestrator roots now s)"
| step_stop: "pipeline_step ops fi roots s (stop_orchestrator cancelled s)"
| step_pause: "pipeline_step ops fi roots s (s\<lparr>or_paused := P\<rparr>)"
| step_services: "pipeline_step ops fi roots s (clear_skip_cache None (s\<lparr>or_services := sv\<rparr>))"
| step_discovered: "pipeline_step ops fi roots s (on_file_discovered roots now path modality s)"
| step_deleted: "pipeline_step ops fi roots s (snd (delete_file depth ops path s))"
| step_dispatch: "pipeline_step ops fi roots s (snd (snd (run_dispatch now last_check s)))"
| step_returned: "PathJob t paths i \<in> set (or_jobs s) \<Longrightarrow> execute_begin t paths s = (False, s1) \<Longrightarrow>
     pipeline_step ops fi roots s (finish_job (PathJob t paths i) s1)"
| step_begin: "PathJob t paths i \<in> set (or_jobs s) \<Longrightarrow> execute_begin t paths s = (True, s1) \<Longrightarrow>
     pipeline_step ops fi roots s s1"
| step_end: "PathJob t paths i \<in> set (or_jobs s) \<Longrightarrow>
     pipeline_step ops fi roots s (finish_job (PathJob t paths i) (execute_end ops fi roots now dur t paths outcome s))"
| step_run_returned: "RunJob t run_id payload i \<in> set (or_jobs s) \<Longrightarrow> event_begin t run_id s = (False, s1) \<Longrightarrow>
     pipeline_step ops fi roots s (finish_job (RunJob t run_id payload i) s1)"
| step_run_begin: "RunJob t run_id payload i \<in> set (or_jobs s) \<Longrightarrow> event_begin t run_id s = (True, s1) \<Longrightarrow>
     pipeline_step ops fi roots s s1"
| step_run_end: "RunJob t run_id payload i \<in> set (or_jobs s) \<Longrightarrow>
     pipeline_step ops fi roots s (finish_job (RunJob t run_id payload i)
       (snd (event_end ops renormalise gen now dur t run_id payload event_outcome s)))"

end
