(* ===== verification/Pipeline.thy ===== *)
theory Pipeline
  imports Dispatch
begin

text \<open>
  What the dispatch loop and the workers guarantee together with the task queue: the queue's
  invariant under every handler, gates that hold when a call is submitted, bounded concurrency,
  and the invalidation of what was derived from a failed input.
\<close>

section \<open>The queue under the orchestrator\<close>

definition orch_ok :: "'o orchestrator \<Rightarrow> bool" where
  "orch_ok s \<longleftrightarrow> queue_ok (db_queue (or_db s))"

abbreviation queue_of :: "'o orchestrator \<Rightarrow> queue_row list" where
  "queue_of s \<equiv> db_queue (or_db s)"

lemma on_queue_fields [simp]:
  "queue_of (on_queue f s) = f (queue_of s)" "or_tasks (on_queue f s) = or_tasks s"
  "or_upstream (on_queue f s) = or_upstream s" "or_jobs (on_queue f s) = or_jobs s"
  "or_sems (on_queue f s) = or_sems s" "or_sem_of (on_queue f s) = or_sem_of s"
  "or_paused (on_queue f s) = or_paused s" "or_services (on_queue f s) = or_services s"
  "db_runs (or_db (on_queue f s)) = db_runs (or_db s)"
  by (simp_all add: on_queue_def)

lemma on_runs_fields [simp]:
  "queue_of (on_runs f s) = queue_of s" "or_tasks (on_runs f s) = or_tasks s"
  "or_upstream (on_runs f s) = or_upstream s" "or_jobs (on_runs f s) = or_jobs s"
  "or_sems (on_runs f s) = or_sems s" "or_sem_of (on_runs f s) = or_sem_of s"
  "or_paused (on_runs f s) = or_paused s"
  "db_runs (or_db (on_runs f s)) = f (db_runs (or_db s))"
  by (simp_all add: on_runs_def)

lemma publish_fields [simp]:
  "or_db (publish c p s) = or_db s" "or_tasks (publish c p s) = or_tasks s"
  "or_upstream (publish c p s) = or_upstream s" "or_jobs (publish c p s) = or_jobs s"
  "or_sems (publish c p s) = or_sems s" "or_sem_of (publish c p s) = or_sem_of s"
  by (simp_all add: publish_def)

lemma op_ok: "queue_ok q \<Longrightarrow> queue_ok (snd (run_op roots now x q))"
  by (cases "run_op roots now x q") (simp add: run_op_ok)

lemma enqueue_ok: "queue_ok q \<Longrightarrow> queue_ok (enqueue_task roots now p t q)"
  using op_ok [of q roots now "Enqueue p t"] by simp

lemma re_enqueue_ok: "queue_ok q \<Longrightarrow> queue_ok (re_enqueue_task roots now p t q)"
  using op_ok [of q roots now "ReEnqueue p t"] by simp

lemma claim_ok: "queue_ok q \<Longrightarrow> claim_tasks now t n q = (ps, q') \<Longrightarrow> queue_ok q'"
  using op_ok [of q undefined now "Claim t n"] by simp

lemma orch_ok_fold: "orch_ok s \<Longrightarrow> (\<And>x s. x \<in> set xs \<Longrightarrow> orch_ok s \<Longrightarrow> orch_ok (f x s)) \<Longrightarrow> orch_ok (fold f xs s)"
  by (induction xs arbitrary: s) auto

lemma orch_ok_queue [simp]:
  "orch_ok (on_runs f s) = orch_ok s" "orch_ok (publish c p s) = orch_ok s"
  "orch_ok (s\<lparr>or_outputs := o'\<rparr>) = orch_ok s" "orch_ok (s\<lparr>or_skip := k\<rparr>) = orch_ok s"
  "orch_ok (s\<lparr>or_sems := n\<rparr>) = orch_ok s" "orch_ok (s\<lparr>or_jobs := j\<rparr>) = orch_ok s"
  by (simp_all add: orch_ok_def)

lemma invalidate_downstream_ok: "orch_ok s \<Longrightarrow> orch_ok (invalidate_downstream nm ps s)"
  by (simp add: invalidate_downstream_def Let_def orch_ok_def invalidate_ok)

lemma discover_ok: "orch_ok s \<Longrightarrow> orch_ok (on_file_discovered roots now path m s)"
  unfolding on_file_discovered_def
proof (rule orch_ok_fold)
  fix t :: task_spec and s :: "'o orchestrator" assume o: "orch_ok s"
  then have "orch_ok (on_queue (re_enqueue_task roots now path (ts_name t)) s)"
    by (simp add: orch_ok_def re_enqueue_ok)
  from o invalidate_downstream_ok [OF this] show "orch_ok (discover_for roots now path m t s)"
    by (simp add: discover_for_def)
qed

lemma upsert_queue [simp]: "db_queue (upsert_file now path nm ext m mt src db) = db_queue db"
  by (simp add: upsert_file_def)

lemma paths_discovered_ok: "orch_ok s \<Longrightarrow> orch_ok (on_paths_discovered fi roots now ps s)"
  unfolding on_paths_discovered_def
proof (rule orch_ok_fold)
  fix p and s :: "'o orchestrator" assume o: "orch_ok s"
  then have "orch_ok (s\<lparr>or_db := upsert_file now p nm ext m mt src (or_db s)\<rparr>)" for nm ext m mt src
    by (simp add: orch_ok_def)
  with o show "orch_ok (discover_child fi roots now p s)"
    unfolding discover_child_def Let_def by (simp add: discover_ok)
qed

lemma re_enqueue_orch_ok: "orch_ok s \<Longrightarrow> orch_ok (on_queue (re_enqueue_task roots now path nm) s)"
  by (simp add: orch_ok_def re_enqueue_ok)

lemma completed_ok: "orch_ok s \<Longrightarrow> orch_ok (on_task_completed roots now path nm s)"
  unfolding on_task_completed_def
  by (auto intro!: orch_ok_fold re_enqueue_orch_ok simp: trigger_reader_def split: option.split)

lemma also_contains_ok: "orch_ok s \<Longrightarrow> orch_ok (on_also_contains roots now path ms s)"
  unfolding on_also_contains_def
  by (auto intro!: orch_ok_fold re_enqueue_orch_ok simp: fan_out_modality_def)

lemma fail_path_ok: "orch_ok s \<Longrightarrow> orch_ok (fail_path now t e p s)"
  by (simp add: fail_path_def task_failed_def orch_ok_def updates_ok)

lemma write_results_fields:
  "write_results ops t rows s = (e, s') \<Longrightarrow> s' = s\<lparr>or_outputs := or_outputs s'\<rparr>"
  by (auto simp: write_results_def split: if_splits prod.splits)

lemma write_results_ok: "write_results ops t rows s = (e, s') \<Longrightarrow> orch_ok s' = orch_ok s"
  by (metis write_results_fields orch_ok_queue(3))

lemma handle_success_ok:
  assumes "orch_ok s" and "handle_success ops fi roots now dur t path res s = (ok, s')"
  shows "orch_ok s'"
proof -
  obtain e s1 where w: "write_results ops t (tr_data res) s = (e, s1)" by force
  from write_results_ok [OF w] assms(1) have o: "orch_ok s1" by simp
  have c: "orch_ok (on_queue (complete_task now path (ts_name t)) s1)" and r: "orch_ok (on_queue (re_enqueue_task roots now path (ts_name t)) s1)"
    using o by (simp_all add: orch_ok_def updates_ok re_enqueue_ok)
  from assms(2) w o r completed_ok [OF c] show ?thesis
    by (auto simp: handle_success_def Let_def split: option.splits if_splits
        intro!: fail_path_ok also_contains_ok paths_discovered_ok)
qed

lemma process_result_ok:
  "orch_ok (snd fs) \<Longrightarrow> orch_ok (snd (process_result ops fi roots now dur t pr fs))"
  by (auto simp: process_result_def fail_path_ok split: prod.splits dest: handle_success_ok)

lemma execute_end_ok: "orch_ok s \<Longrightarrow> orch_ok (execute_end ops fi roots now dur t paths outcome s)"
proof (cases outcome)
  case (Inl e)
  assume "orch_ok s"
  then have "orch_ok (fold (fail_path now t e) paths s)" by (intro orch_ok_fold) (simp_all add: fail_path_ok)
  with Inl show ?thesis by (simp add: execute_end_def invalidate_downstream_ok)
next
  case (Inr rs)
  assume o: "orch_ok s"
  have "orch_ok (snd fs) \<Longrightarrow> orch_ok (snd (fold (process_result ops fi roots now dur t) prs fs))" for fs prs
    by (induction prs arbitrary: fs) (simp_all add: process_result_ok)
  from this [of "([], s)"] o Inr show ?thesis
    by (auto simp: execute_end_def invalidate_downstream_ok split: prod.split) (metis invalidate_downstream_ok snd_conv)+
qed

section \<open>Concurrency\<close>

text \<open>What a handler that starts and finishes no call leaves alone.\<close>

definition slots :: "'o orchestrator \<Rightarrow> job list \<times> int list \<times> (string, nat) pydict \<times> int" where
  "slots s = (or_jobs s, or_sems s, or_sem_of s, or_max_workers s)"

lemma slots_simps [simp]:
  "slots (on_queue f s) = slots s" "slots (on_runs g s) = slots s" "slots (publish c p s) = slots s"
  "slots (s\<lparr>or_outputs := o'\<rparr>) = slots s" "slots (s\<lparr>or_skip := k\<rparr>) = slots s" "slots (s\<lparr>or_paused := P\<rparr>) = slots s"
  "slots (s\<lparr>or_db := d\<rparr>) = slots s" "slots (s\<lparr>or_services := sv\<rparr>) = slots s" "slots (s\<lparr>or_draws := n\<rparr>) = slots s"
  "slots (clear_skip_cache x s) = slots s" "slots (build_graph s) = slots s"
  by (simp_all add: slots_def on_queue_def on_runs_def publish_def clear_skip_cache_def build_graph_def Let_def
      split: option.split)

lemma slots_fold: "(\<And>x s. slots (f x s) = slots s) \<Longrightarrow> slots (fold f xs s) = slots s"
  by (induction xs arbitrary: s) simp_all

lemma slots_fold_exn: "(\<And>x s. slots (snd (f x s)) = slots s) \<Longrightarrow> slots (snd (fold_exn f xs s)) = slots s"
proof (induction xs arbitrary: s)
  case (Cons x xs)
  obtain e s1 where f: "f x s = (e, s1)" by force
  with Cons.prems [of x s] have "slots s1 = slots s" by simp
  with f Cons.IH [OF Cons.prems, of s1] show ?case by (auto split: option.split)
qed simp

lemma invalidate_slots [simp]: "slots (invalidate_downstream nm ps s) = slots s"
  by (simp add: invalidate_downstream_def Let_def)

lemma discovered_slots [simp]: "slots (on_file_discovered roots now path m s) = slots s"
  unfolding on_file_discovered_def by (rule slots_fold) (simp add: discover_for_def)

lemma paths_discovered_slots [simp]: "slots (on_paths_discovered fi roots now ps s) = slots s"
  unfolding on_paths_discovered_def by (rule slots_fold) (simp add: discover_child_def Let_def)

lemma completed_slots [simp]: "slots (on_task_completed roots now path nm s) = slots s"
  unfolding on_task_completed_def
  by (auto intro!: slots_fold simp: trigger_reader_def split: option.split)

lemma also_contains_slots [simp]: "slots (on_also_contains roots now path ms s) = slots s"
  unfolding on_also_contains_def by (auto intro!: slots_fold simp: fan_out_modality_def)

lemma fail_path_slots [simp]: "slots (fail_path now t e p s) = slots s"
  by (simp add: fail_path_def task_failed_def)

lemma write_results_slots: "write_results ops t rows s = (e, s') \<Longrightarrow> slots s' = slots s"
  by (metis write_results_fields slots_simps(4))

lemma handle_success_slots: "handle_success ops fi roots now dur t path res s = (ok, s') \<Longrightarrow> slots s' = slots s"
  by (auto simp: handle_success_def Let_def split: prod.splits option.splits if_splits dest: write_results_slots)

lemma process_result_slots: "slots (snd (process_result ops fi roots now dur t pr fs)) = slots (snd fs)"
  by (auto simp: process_result_def split: prod.splits dest: handle_success_slots)

lemma execute_end_slots [simp]: "slots (execute_end ops fi roots now dur t paths outcome s) = slots s"
proof (cases outcome)
  case (Inl e)
  have "slots (fold (fail_path now t e) paths s) = slots s" by (rule slots_fold) simp
  with Inl show ?thesis by (simp add: execute_end_def)
next
  case (Inr rs)
  have "slots (snd (fold (process_result ops fi roots now dur t) prs fs)) = slots (snd fs)" for fs prs
    by (induction prs arbitrary: fs) (simp_all add: process_result_slots)
  from this [of "zip paths rs" "([], s)"] Inr show ?thesis by (auto simp: execute_end_def split: prod.split)
qed

lemma event_downstream_slots: "slots (snd (enqueue_event_downstream gen now t run_id p s)) = slots s"
  unfolding enqueue_event_downstream_def
  by (intro slots_fold_exn) (auto simp: enqueue_reader_run_def Let_def split: sum.split)

lemma event_end_slots [simp]:
  "slots (snd (event_end ops renorm gen now dur t run_id payload outcome s)) = slots s"
  by (auto simp: event_end_def run_failed_def event_downstream_slots write_results_slots
      split: sum.split prod.split option.split)

lemma delete_slots:
  "slots (snd (delete_file n ops path s)) = slots s" "slots (snd (delete_children n ops ps s)) = slots s"
proof (induction n arbitrary: path ps s)
  case 0
  have f: "delete_file 0 ops p s = (False, s)" for p and s :: "'a orchestrator" by simp
  case 1
  show ?case by simp
  case 2
  show ?case by (cases ps) simp_all
next
  case (Suc n)
  have f: "slots (snd (delete_file (Suc n) ops p s)) = slots s" for p and s :: "'a orchestrator"
  proof -
    have "slots s' = slots s" if "delete_children n ops qs (s\<lparr>or_outputs := o'\<rparr>) = (ok, s')" for qs o' ok s'
      using Suc.IH(2) [of qs "s\<lparr>or_outputs := o'\<rparr>"] that by simp
    then show ?thesis by (auto simp: Let_def split: option.split prod.split)
  qed
  case 1
  show ?case by (rule f)
  case 2
  show ?case
  proof (induction ps arbitrary: s)
    case (Cons p ps)
    obtain ok s1 where d: "delete_file (Suc n) ops p s = (ok, s1)" by force
    with f [of p s] have "slots s1 = slots s" by simp
    with d Cons show ?case by (simp del: delete_file.simps)
  qed simp
qed

lemma backfill_slots [simp]: "slots (backfill_tasks roots now s) = slots s"
  unfolding backfill_tasks_def
  by (auto intro!: slots_fold simp: backfill_task_def enqueue_if_met_def)

lemma sweep_slots [simp]: "slots (sweep_stuck now s) = slots s"
  unfolding sweep_stuck_def by (rule slots_fold) simp

text \<open>
  The free slots of a semaphore and the calls that hold it add up to the same number, whatever
  happens; semaphores are only ever added.
\<close>

definition sem_ok :: "'o orchestrator \<Rightarrow> bool" where
  "sem_ok s \<longleftrightarrow> (\<forall>j \<in> set (or_jobs s). job_sem j < length (or_sems s)) \<and> (\<forall>n \<in> set (or_sems s). 0 \<le> n) \<and>
     0 \<le> or_max_workers s"

definition outstanding :: "nat \<Rightarrow> 'o orchestrator \<Rightarrow> nat" where
  "outstanding i s = length (filter (\<lambda>j. job_sem j = i) (or_jobs s))"

definition balance :: "nat \<Rightarrow> 'o orchestrator \<Rightarrow> int" where
  "balance i s = or_sems s ! i + int (outstanding i s)"

definition conserves :: "'o orchestrator \<Rightarrow> 'o orchestrator \<Rightarrow> bool" where
  "conserves s s' \<longleftrightarrow> (sem_ok s \<longrightarrow> sem_ok s' \<and> length (or_sems s) \<le> length (or_sems s') \<and>
     (\<forall>i < length (or_sems s). balance i s' = balance i s))"

lemma conserves_trans: "conserves a b \<Longrightarrow> conserves b c \<Longrightarrow> conserves a c"
  unfolding conserves_def by (metis order_trans order_less_le_trans)

lemma conserves_slots: "slots s' = slots s \<Longrightarrow> conserves s s'"
  by (simp add: conserves_def slots_def sem_ok_def balance_def outstanding_def)

lemma conserves_refl: "conserves s s"
  by (rule conserves_slots) simp

lemma finish_conserves:
  assumes "j \<in> set (or_jobs s)" and "slots s1 = slots s"
  shows "conserves s (finish_job j s1)"
proof -
  have e: "or_jobs s1 = or_jobs s" "or_sems s1 = or_sems s" "or_max_workers s1 = or_max_workers s" using assms(2) by (simp_all add: slots_def)
  have "length (filter (\<lambda>k. job_sem k = i) (remove1 j xs)) + (if job_sem j = i then 1 else 0) =
      length (filter (\<lambda>k. job_sem k = i) xs)" if "j \<in> set xs" for i xs
    using that by (induction xs) auto
  from this [OF assms(1)]
  have c: "outstanding i (finish_job j s1) + (if job_sem j = i then 1 else 0) = outstanding i s" for i
    by (simp add: outstanding_def finish_job_def release_def e)
  show ?thesis
    unfolding conserves_def
  proof (intro impI conjI allI)
    assume ok: "sem_ok s"
    then have js: "job_sem j < length (or_sems s)" "0 \<le> or_sems s ! job_sem j"
      using assms(1) by (auto simp: sem_ok_def)
    have "0 \<le> n" if "n \<in> set ((or_sems s)[job_sem j := or_sems s ! job_sem j + 1])" for n
      using that ok js set_update_subset_insert [of "or_sems s" "job_sem j" "or_sems s ! job_sem j + 1"]
      by (auto simp: sem_ok_def)
    then show "sem_ok (finish_job j s1)"
      using ok by (auto simp: sem_ok_def finish_job_def release_def e dest: notin_set_remove1)
    show "length (or_sems s) \<le> length (or_sems (finish_job j s1))" by (simp add: finish_job_def release_def e)
    show "balance i (finish_job j s1) = balance i s" if "i < length (or_sems s)" for i
      using that c [of i] by (auto simp: balance_def finish_job_def release_def e nth_list_update split: if_splits)
  qed
qed

lemma services_slots: "services_ready t s = (b, s') \<Longrightarrow> slots s' = slots s"
  by (auto simp: services_ready_def split: if_splits)

text \<open>Opening the gates takes a slot; the call that is submitted holds it, or it is given back.\<close>

lemma open_gates_slots:
  "open_gates t s = (None, s') \<Longrightarrow> slots s' = slots s"
  "open_gates t s = (Some i, s') \<Longrightarrow> i < length (or_sems s) \<and> 0 < or_sems s ! i \<and>
     slots s' = (or_jobs s, (or_sems s)[i := or_sems s ! i - 1], or_sem_of s, or_max_workers s)"
  by (auto simp: open_gates_def acquire_def slots_def split: if_splits prod.splits bool.splits option.splits
      dest!: services_slots [unfolded slots_def])

lemma release_conserves:
  assumes "open_gates t s = (Some i, s1)" and "slots s2 = slots s1"
  shows "conserves s (release i s2)"
proof (rule conserves_slots)
  from open_gates_slots(2) [OF assms(1)] assms(2)
  show "slots (release i s2) = slots s" by (simp add: slots_def release_def)
qed

lemma submit_conserves:
  assumes "open_gates t s = (Some i, s1)" and "slots s2 = slots s1" and "job_sem j = i"
  shows "conserves s (submit j s2)"
proof -
  note g = open_gates_slots(2) [OF assms(1)]
  with assms(2) have e: "or_jobs s2 = or_jobs s" "or_sems s2 = (or_sems s)[i := or_sems s ! i - 1]"
    "or_max_workers s2 = or_max_workers s" by (simp_all add: slots_def)
  show ?thesis
    unfolding conserves_def
  proof (intro impI conjI allI)
    assume ok: "sem_ok s"
    have "0 \<le> n" if "n \<in> set ((or_sems s)[i := or_sems s ! i - 1])" for n
      using that ok g set_update_subset_insert [of "or_sems s" i "or_sems s ! i - 1"] by (auto simp: sem_ok_def)
    then show "sem_ok (submit j s2)" using ok g assms(3) by (auto simp: sem_ok_def submit_def e)
    show "length (or_sems s) \<le> length (or_sems (submit j s2))" by (simp add: submit_def e)
    show "balance k (submit j s2) = balance k s" if "k < length (or_sems s)" for k
      using that g assms(3) by (auto simp: balance_def outstanding_def submit_def e nth_list_update)
  qed
qed

lemma recheck_slots: "recheck t ps s = (ready, s') \<Longrightarrow> slots s' = slots s"
  by (auto simp: recheck_def Let_def split: if_splits)

lemma dispatch_path_conserves: "dispatch_path_task now t s = (d, s') \<Longrightarrow> conserves s s'"
  by (auto simp: dispatch_path_task_def split: if_splits prod.splits option.splits
      intro: conserves_refl conserves_slots open_gates_slots(1) release_conserves submit_conserves
      dest!: recheck_slots)

lemma dispatch_event_conserves: "dispatch_event_task now t s = (d, s') \<Longrightarrow> conserves s s'"
  by (auto simp: dispatch_event_task_def split: if_splits prod.splits option.splits list.splits
      intro: conserves_refl conserves_slots open_gates_slots(1) release_conserves submit_conserves)

lemma dispatch_each_conserves:
  assumes "\<And>t s d s'. step t s = (d, s') \<Longrightarrow> conserves s s'"
  shows "conserves s (snd (dispatch_each step ts s))"
proof -
  have "conserves s (snd (fold (\<lambda>t (any, s). case step t s of (d, s') \<Rightarrow> (any \<or> d, s')) ts (b, s)))" for b
  proof (induction ts arbitrary: s b)
    case (Cons t ts)
    obtain d s1 where "step t s = (d, s1)" by force
    with Cons.IH [of s1 "b \<or> d"] assms conserves_trans show ?case by fastforce
  qed (simp add: conserves_refl)
  then show ?thesis by (simp add: dispatch_each_def)
qed

lemma run_dispatch_conserves: "conserves s (snd (snd (run_dispatch now last_check s)))"
proof -
  define s1 where "s1 = (if now - last_check \<ge> stuck_check_interval then sweep_stuck now s else s)"
  have 1: "conserves s s1" unfolding s1_def by (intro conserves_slots) simp
  obtain d1 s2 where d1: "dispatch_each (dispatch_path_task now) (dvalues (or_tasks s1)) s1 = (d1, s2)" by force
  obtain d2 s3 where d2: "dispatch_each (dispatch_event_task now) (dvalues (or_tasks s2)) s2 = (d2, s3)" by force
  have 2: "conserves s1 s2"
    using dispatch_each_conserves [of "dispatch_path_task now" s1 "dvalues (or_tasks s1)"] d1
    by (simp add: dispatch_path_conserves)
  have 3: "conserves s2 s3"
    using dispatch_each_conserves [of "dispatch_event_task now" s2 "dvalues (or_tasks s2)"] d2
    by (simp add: dispatch_event_conserves)
  from d1 d2 have "snd (snd (run_dispatch now last_check s)) = s3"
    by (simp add: run_dispatch_def Let_def flip: s1_def)
  with 1 2 3 conserves_trans show ?thesis by metis
qed


lemma register_task_Inr:
  assumes "register_task ops t s = Inr s'"
  shows "or_jobs s' = or_jobs s" and "or_sems s' = or_sems s @ [if ts_workers t > 0 then ts_workers t else or_max_workers s]"
    and "dget (or_sem_of s') (ts_name t) = Some (length (or_sems s))" and "or_max_workers s' = or_max_workers s"
    and "queue_of s' = queue_of s" and "or_tasks s' = dset (ts_name t) t (or_tasks s)"
  using assms
  by (auto simp: register_task_def tasks_changed_def publish_def build_graph_def Let_def rbind_Inr split: if_splits)

lemma register_conserves: "register_task ops t s = Inr s' \<Longrightarrow> conserves s s'"
  unfolding conserves_def
proof (intro impI conjI allI)
  assume r: "register_task ops t s = Inr s'" and ok: "sem_ok s"
  note f = register_task_Inr [OF r]
  show "sem_ok s'" using ok by (fastforce simp: sem_ok_def f)
  show "length (or_sems s) \<le> length (or_sems s')" by (simp add: f)
  show "balance i s' = balance i s" if "i < length (or_sems s)" for i
    using that by (simp add: balance_def outstanding_def f nth_append)
qed

lemma unregister_conserves: "conserves s (unregister_task nm s)"
  by (simp add: conserves_def sem_ok_def balance_def outstanding_def unregister_task_def tasks_changed_def publish_def
      build_graph_def Let_def)

lemma execute_begin_slots: "execute_begin t paths s = (go, s') \<Longrightarrow> slots s' = slots s"
  by (auto simp: execute_begin_def split: if_splits)

lemma event_begin_slots: "event_begin t run_id s = (go, s') \<Longrightarrow> slots s' = slots s"
  by (auto simp: event_begin_def split: if_splits)

lemma start_slots [simp]: "slots (start_orchestrator roots now s) = slots s"
  by (simp add: start_orchestrator_def)

text \<open>Only stopping loses a slot: the one a cancelled call held.\<close>

lemma step_conserves:
  "pipeline_step ops fi roots s s' \<Longrightarrow> conserves s s' \<or> (\<exists>cancelled. s' = stop_orchestrator cancelled s)"
proof (induction rule: pipeline_step.induct)
  case (step_register t s s')
  then show ?case by (simp add: register_conserves)
next
  case (step_unregister s nm)
  show ?case by (simp add: unregister_conserves)
next
  case (step_dispatch s now last_check)
  show ?case by (simp add: run_dispatch_conserves)
next
  case (step_returned t paths i s s1)
  then show ?case by (intro disjI1 finish_conserves execute_begin_slots)
next
  case (step_end t paths i s now dur outcome)
  then show ?case by (intro disjI1 finish_conserves execute_end_slots)
next
  case (step_run_returned t run_id payload i s s1)
  then show ?case by (intro disjI1 finish_conserves event_begin_slots)
next
  case (step_run_end t run_id payload i s renormalise gen now dur event_outcome)
  then show ?case by (intro disjI1 finish_conserves event_end_slots)
next
  case (step_stop s cancelled)
  then show ?case by blast
qed (auto intro!: disjI1 conserves_slots simp: delete_slots dest: execute_begin_slots event_begin_slots)

definition at_most :: "'o orchestrator \<Rightarrow> 'o orchestrator \<Rightarrow> bool" where
  "at_most s s' \<longleftrightarrow> (sem_ok s \<longrightarrow> sem_ok s' \<and> length (or_sems s) \<le> length (or_sems s') \<and>
     (\<forall>i < length (or_sems s). balance i s' \<le> balance i s))"

lemma at_most_trans: "at_most a b \<Longrightarrow> at_most b c \<Longrightarrow> at_most a c"
  unfolding at_most_def by (meson order_trans order_less_le_trans)

lemma stop_at_most: "at_most s (stop_orchestrator cancelled s)"
proof -
  have sub: "set (fold remove1 cs js) \<subseteq> set js" for cs js :: "job list"
  proof (induction cs arbitrary: js)
    case (Cons c cs)
    from Cons [of "remove1 c js"] set_remove1_subset [of c js] show ?case by simp
  qed simp
  have one: "length (filter P (remove1 c js)) \<le> length (filter P js)" for P c and js :: "job list"
    by (induction js) auto
  have "length (filter P (fold remove1 cs js)) \<le> length (filter P js)" for P cs and js :: "job list"
  proof (induction cs arbitrary: js)
    case (Cons c cs)
    from Cons [of "remove1 c js"] one [of P c js] show ?case by simp
  qed simp
  with sub show ?thesis
    by (fastforce simp: at_most_def sem_ok_def balance_def outstanding_def stop_orchestrator_def)
qed

lemma step_at_most: "pipeline_step ops fi roots s s' \<Longrightarrow> at_most s s'"
  using step_conserves stop_at_most by (fastforce simp: at_most_def conserves_def)

lemma steps_at_most: "(pipeline_step ops fi roots)\<^sup>*\<^sup>* s s' \<Longrightarrow> at_most s s'"
  by (induction rule: rtranclp_induct) (auto intro: at_most_trans step_at_most simp: at_most_def [of s s])

text \<open>The calls of a semaphore never outnumber the slots it was created with.\<close>

lemma fresh_semaphore_bound:
  assumes "register_task ops t s = Inr s1" and "sem_ok s" and "(pipeline_step ops fi roots)\<^sup>*\<^sup>* s1 s2"
  shows "int (outstanding (length (or_sems s)) s2) \<le> (if ts_workers t > 0 then ts_workers t else or_max_workers s)"
proof -
  let ?i = "length (or_sems s)"
  note f = register_task_Inr [OF assms(1)]
  from register_conserves [OF assms(1)] assms(2) have ok: "sem_ok s1" by (simp add: conserves_def)
  have "outstanding ?i s1 = 0"
    using assms(2) by (auto simp: outstanding_def f sem_ok_def filter_empty_conv)
  then have b: "balance ?i s1 = (if ts_workers t > 0 then ts_workers t else or_max_workers s)"
    by (simp add: balance_def f)
  from steps_at_most [OF assms(3)] ok have "sem_ok s2" "balance ?i s2 \<le> balance ?i s1" "?i < length (or_sems s2)"
    by (auto simp: at_most_def f Suc_le_eq)
  then have "0 \<le> or_sems s2 ! ?i" "balance ?i s2 \<le> balance ?i s1" by (auto simp: sem_ok_def)
  with b show ?thesis by (simp add: balance_def)
qed

section \<open>The queue under every step\<close>

lemma orch_ok_same: "orch_ok s \<Longrightarrow> queue_of s' = queue_of s \<Longrightarrow> orch_ok s'"
  by (simp add: orch_ok_def)

lemma fields_queue [simp]:
  "orch_ok (clear_skip_cache x s) = orch_ok s" "orch_ok (build_graph s) = orch_ok s"
  "orch_ok (s\<lparr>or_paused := P\<rparr>) = orch_ok s" "orch_ok (s\<lparr>or_services := sv\<rparr>) = orch_ok s"
  "orch_ok (s\<lparr>or_draws := n\<rparr>) = orch_ok s" "orch_ok (release i s) = orch_ok s" "orch_ok (submit j s) = orch_ok s"
  "orch_ok (finish_job j s) = orch_ok s" "orch_ok (stop_orchestrator cs s) = orch_ok s" "orch_ok (unregister_task nm s) = orch_ok s"
  by (simp_all add: orch_ok_def clear_skip_cache_def build_graph_def Let_def release_def submit_def finish_job_def
      stop_orchestrator_def unregister_task_def tasks_changed_def split: option.split)

lemma on_queue_orch_ok: "(queue_ok (queue_of s) \<Longrightarrow> queue_ok (f (queue_of s))) \<Longrightarrow> orch_ok s \<Longrightarrow> orch_ok (on_queue f s)"
  by (simp add: orch_ok_def)

lemma sweep_ok: "orch_ok s \<Longrightarrow> orch_ok (sweep_stuck now s)"
  unfolding sweep_stuck_def by (rule orch_ok_fold) (auto intro!: on_queue_orch_ok updates_ok)

lemma backfill_ok: "orch_ok s \<Longrightarrow> orch_ok (backfill_tasks roots now s)"
proof -
  have e: "orch_ok s \<Longrightarrow> orch_ok (enqueue_if_met roots now t p s)" for t p and s :: "'a orchestrator"
    by (auto simp: enqueue_if_met_def intro!: on_queue_orch_ok enqueue_ok)
  show "orch_ok s \<Longrightarrow> orch_ok (backfill_tasks roots now s)"
    unfolding backfill_tasks_def by (rule orch_ok_fold) (auto simp: backfill_task_def intro!: orch_ok_fold e)
qed

lemma services_queue: "services_ready t s = (b, s') \<Longrightarrow> or_db s' = or_db s"
  by (auto simp: services_ready_def split: if_splits)

lemma open_gates_queue: "open_gates t s = (r, s') \<Longrightarrow> or_db s' = or_db s"
  by (auto simp: open_gates_def acquire_def split: if_splits prod.splits bool.splits option.splits dest!: services_queue)

lemma open_gates_ok: "open_gates t s = (r, s') \<Longrightarrow> orch_ok s' = orch_ok s"
  by (simp add: orch_ok_def open_gates_queue)

lemma recheck_ok: "orch_ok s \<Longrightarrow> recheck t ps s = (ready, s') \<Longrightarrow> orch_ok s'"
  by (auto simp: recheck_def Let_def split: if_splits intro!: on_queue_orch_ok unclaim_ok)

lemma dispatch_path_ok: "orch_ok s \<Longrightarrow> dispatch_path_task now t s = (d, s') \<Longrightarrow> orch_ok s'"
proof -
  assume o: "orch_ok s" and d: "dispatch_path_task now t s = (d, s')"
  obtain r s1 where g: "open_gates t s = (r, s1)" by force
  obtain ps q where c: "claim_tasks now (ts_name t) (ts_batch t) (queue_of s1) = (ps, q)" by force
  from g o have o1: "orch_ok s1" by (simp add: open_gates_ok)
  then have "queue_ok q" using c by (auto simp: orch_ok_def intro: claim_ok)
  then have o2: "orch_ok (on_queue (\<lambda>_. q) s1)" by (simp add: orch_ok_def)
  show ?thesis
  proof (cases "recheck t ps (on_queue (\<lambda>_. q) s1)")
    case (Pair ready s2)
    with o2 have "orch_ok s2" by (rule recheck_ok)
    with d g c Pair o o1 o2 show ?thesis
      by (auto simp: dispatch_path_task_def split: if_splits option.splits)
  qed
qed

lemma dispatch_event_ok: "orch_ok s \<Longrightarrow> dispatch_event_task now t s = (d, s') \<Longrightarrow> orch_ok s'"
  by (auto simp: dispatch_event_task_def open_gates_ok split: if_splits prod.splits option.splits list.splits)

lemma dispatch_each_ok:
  assumes "\<And>t s d s'. orch_ok s \<Longrightarrow> step t s = (d, s') \<Longrightarrow> orch_ok s'" and "orch_ok s"
  shows "orch_ok (snd (dispatch_each step ts s))"
proof -
  have "orch_ok (snd (fold (\<lambda>t (any, s). case step t s of (d, s') \<Rightarrow> (any \<or> d, s')) ts (b, s)))" for b
    using assms(2)
  proof (induction ts arbitrary: s b)
    case (Cons t ts)
    obtain d s1 where "step t s = (d, s1)" by force
    with Cons.IH [of s1 "b \<or> d"] Cons.prems assms(1) show ?case by simp
  qed simp
  then show ?thesis by (simp add: dispatch_each_def)
qed

lemma run_dispatch_ok: "orch_ok s \<Longrightarrow> orch_ok (snd (snd (run_dispatch now last_check s)))"
proof -
  assume o: "orch_ok s"
  define s1 where "s1 = (if now - last_check \<ge> stuck_check_interval then sweep_stuck now s else s)"
  have 1: "orch_ok s1" using o by (simp add: s1_def sweep_ok)
  obtain d1 s2 where d1: "dispatch_each (dispatch_path_task now) (dvalues (or_tasks s1)) s1 = (d1, s2)" by force
  obtain d2 s3 where d2: "dispatch_each (dispatch_event_task now) (dvalues (or_tasks s2)) s2 = (d2, s3)" by force
  have "orch_ok (snd (dispatch_each (dispatch_path_task now) (dvalues (or_tasks s1)) s1))"
    by (rule dispatch_each_ok [OF _ 1]) (rule dispatch_path_ok)
  with d1 have 2: "orch_ok s2" by simp
  have "orch_ok (snd (dispatch_each (dispatch_event_task now) (dvalues (or_tasks s2)) s2))"
    by (rule dispatch_each_ok [OF _ 2]) (rule dispatch_event_ok)
  with d2 have "orch_ok s3" by simp
  with d1 d2 show ?thesis by (simp add: run_dispatch_def Let_def flip: s1_def)
qed

lemma delete_ok:
  "orch_ok s \<Longrightarrow> orch_ok (snd (delete_file n ops path s))" "orch_ok s \<Longrightarrow> orch_ok (snd (delete_children n ops ps s))"
proof (induction n arbitrary: path ps s)
  case 0
  case 1
  then show ?case by simp
  case 2
  then show ?case by (cases ps) simp_all
next
  case (Suc n)
  have f: "orch_ok (snd (delete_file (Suc n) ops p s))" if "orch_ok s" for p and s :: "'a orchestrator"
  proof -
    have "orch_ok s'" if "delete_children n ops qs (s\<lparr>or_outputs := o'\<rparr>) = (ok, s')" for qs o' ok s'
      using Suc.IH(2) [of "s\<lparr>or_outputs := o'\<rparr>" qs] that \<open>orch_ok s\<close> by simp
    then have "queue_ok (queue_of s')" if "delete_children n ops qs (s\<lparr>or_outputs := o'\<rparr>) = (ok, s')" for qs o' ok s'
      using that by (simp add: orch_ok_def)
    with that show ?thesis
      by (auto simp: Let_def orch_ok_def remove_file_def intro!: forget_ok split: option.split prod.split)
  qed
  case 1
  then show ?case by (rule f)
  case 2
  then show ?case
  proof (induction ps arbitrary: s)
    case (Cons p ps)
    obtain ok s1 where d: "delete_file (Suc n) ops p s = (ok, s1)" by force
    with f [of s p] Cons.prems have "orch_ok s1" by simp
    with d Cons show ?case by (simp del: delete_file.simps)
  qed simp
qed

lemma fold_exn_ok: "orch_ok s \<Longrightarrow> (\<And>x s. orch_ok s \<Longrightarrow> orch_ok (snd (f x s))) \<Longrightarrow> orch_ok (snd (fold_exn f xs s))"
proof (induction xs arbitrary: s)
  case (Cons x xs)
  obtain e s1 where f: "f x s = (e, s1)" by force
  with Cons.prems have "orch_ok s1" by (metis snd_conv)
  with f Cons show ?case by (auto split: option.split)
qed simp

lemma event_end_ok: "orch_ok s \<Longrightarrow> orch_ok (snd (event_end ops renorm gen now dur t run_id payload outcome s))"
proof -
  have d: "orch_ok s \<Longrightarrow> orch_ok (snd (enqueue_event_downstream gen now t run_id p s))" for p and s :: "'a orchestrator"
    unfolding enqueue_event_downstream_def
    by (intro fold_exn_ok) (auto simp: enqueue_reader_run_def Let_def split: sum.split)
  show "orch_ok s \<Longrightarrow> orch_ok (snd (event_end ops renorm gen now dur t run_id payload outcome s))"
    by (auto simp: event_end_def run_failed_def d write_results_ok split: sum.split prod.split option.split)
qed

lemma step_ok: "pipeline_step ops fi roots s s' \<Longrightarrow> orch_ok s \<Longrightarrow> orch_ok s'"
proof (induction rule: pipeline_step.induct)
  case (step_register t s s')
  then show ?case by (auto intro: orch_ok_same register_task_Inr(5))
next
  case (step_dispatch s now last_check)
  then show ?case by (rule run_dispatch_ok)
next
  case (step_end t paths i s now dur outcome)
  then show ?case by (simp add: execute_end_ok)
next
  case (step_run_end t run_id payload i s renormalise gen now dur event_outcome)
  then show ?case by (simp add: event_end_ok)
next
  case (step_returned t paths i s s1)
  then show ?case by (auto simp: execute_begin_def split: if_splits intro!: on_queue_orch_ok unclaim_ok)
qed (auto simp: start_orchestrator_def sweep_ok backfill_ok discover_ok delete_ok
    execute_begin_def event_begin_def split: if_splits)

lemma steps_ok: "(pipeline_step ops fi roots)\<^sup>*\<^sup>* s s' \<Longrightarrow> orch_ok s \<Longrightarrow> orch_ok s'"
  by (induction rule: rtranclp_induct) (auto intro: step_ok)


section \<open>The gates of dispatch\<close>

lemma open_gates_Some:
  assumes "open_gates t s = (Some i, s')"
  shows "ts_name t \<notin> or_paused s" and "\<forall>nm \<in> set (ts_services t). dget (or_services s) nm = Some True"
    and "dget (or_sem_of s) (ts_name t) = Some i" and "0 < or_sems s ! i" and "or_upstream s' = or_upstream s"
  using assms
  by (auto simp: open_gates_def services_ready_def acquire_def list_ex_iff split: if_splits option.splits)

lemma deps_met_cong:
  "deps_of s' t = deps_of s t \<Longrightarrow> (\<And>d. is_task_done p d (queue_of s') = is_task_done p d (queue_of s)) \<Longrightarrow>
    deps_met p t s' = deps_met p t s"
  by (simp add: deps_met_def)

lemma unclaim_status:
  "get_task_status p t (unclaim_tasks t' ps q) =
    (if t = t' \<and> p \<in> set ps \<and> get_task_status p t q \<noteq> None then Some PENDING else get_task_status p t q)"
proof -
  have "queue_abs (unclaim_tasks t' ps q) (p, t) = set_where (\<lambda>(p, u) _. u = t' \<and> p \<in> set ps) PENDING (queue_abs q) (p, t)"
    by (simp only: unclaim_abs)
  then show ?thesis by (auto simp: queue_abs_def set_where_def split: option.splits)
qed

text \<open>
  The recheck after the claim: what stays claimed has its dependencies met, the rest is pending
  again, and giving rows back changes no dependency.
\<close>

lemma recheck_result:
  assumes "recheck t ps s = (ready, s')" and "\<forall>p \<in> set ps. get_task_status p (ts_name t) (queue_of s) = Some PROCESSING"
  shows "set ready \<subseteq> set ps" and "\<forall>p \<in> set ready. get_task_status p (ts_name t) (queue_of s') = Some PROCESSING"
    and "\<forall>p \<in> set ps - set ready. get_task_status p (ts_name t) (queue_of s') = Some PENDING"
    and "\<forall>p \<in> set ready. ts_reads t \<noteq> [] \<longrightarrow> deps_met p t s'" and "or_jobs s' = or_jobs s"
proof -
  have "set ready \<subseteq> set ps \<and> (\<forall>p \<in> set ready. get_task_status p (ts_name t) (queue_of s') = Some PROCESSING) \<and>
     (\<forall>p \<in> set ps - set ready. get_task_status p (ts_name t) (queue_of s') = Some PENDING) \<and>
     (\<forall>p \<in> set ready. ts_reads t \<noteq> [] \<longrightarrow> deps_met p t s') \<and> or_jobs s' = or_jobs s"
  proof (cases "ts_reads t = []")
    case True
    with assms show ?thesis by (auto simp: recheck_def)
  next
    case False
    let ?r = "filter (\<lambda>p. deps_met p t s) ps" and ?n = "filter (\<lambda>p. p \<notin> set ready) ps"
    from False assms(1) have r: "ready = ?r" by (auto simp: recheck_def Let_def)
    have q: "get_task_status p u (queue_of s') =
        (if u = ts_name t \<and> p \<in> set ?n then Some PENDING else get_task_status p u (queue_of s))" for p u
    proof (cases "?n = []")
      case True
      with False assms(1) r have "s' = s" by (auto simp: recheck_def Let_def)
      with True show ?thesis by (auto simp: filter_empty_conv)
    next
      case f: False
      with False assms(1) r have "s' = on_queue (unclaim_tasks (ts_name t) ?n) s" by (auto simp: recheck_def Let_def)
      with assms(2) show ?thesis by (auto simp: unclaim_status)
    qed
    have "is_task_done p d (queue_of s') = is_task_done p d (queue_of s)" for p d
      using assms(2) by (auto simp: is_task_done_def q)
    moreover have "deps_of s' t = deps_of s t"
      using False assms(1) by (auto simp: recheck_def Let_def deps_of_def split: if_splits)
    ultimately have d: "deps_met p t s' = deps_met p t s" for p by (rule deps_met_cong [rotated])
    have "or_jobs s' = or_jobs s" using assms(1) by (auto simp: recheck_def Let_def split: if_splits)
    with q d assms(2) r show ?thesis by auto
  qed
  then show "set ready \<subseteq> set ps" "\<forall>p \<in> set ready. get_task_status p (ts_name t) (queue_of s') = Some PROCESSING"
    "\<forall>p \<in> set ps - set ready. get_task_status p (ts_name t) (queue_of s') = Some PENDING"
    "\<forall>p \<in> set ready. ts_reads t \<noteq> [] \<longrightarrow> deps_met p t s'" "or_jobs s' = or_jobs s" by simp_all
qed

lemma submitted_through_gates:
  assumes "orch_ok s" and "dispatch_path_task now t s = (True, s')"
  shows "\<exists>paths i. or_jobs s' = or_jobs s @ [PathJob t paths i] \<and> paths \<noteq> [] \<and> ts_name t \<notin> or_paused s \<and>
     (\<forall>nm \<in> set (ts_services t). dget (or_services s) nm = Some True) \<and>
     dget (or_sem_of s) (ts_name t) = Some i \<and> 0 < or_sems s ! i \<and>
     (\<forall>p \<in> set paths. get_task_status p (ts_name t) (queue_of s) = Some PENDING \<and>
        get_task_status p (ts_name t) (queue_of s') = Some PROCESSING \<and> (ts_reads t \<noteq> [] \<longrightarrow> deps_met p t s'))"
proof -
  from assms(2) obtain i s1 where g: "open_gates t s = (Some i, s1)"
    by (auto simp: dispatch_path_task_def split: if_splits prod.splits option.splits)
  obtain ps q where c: "claim_tasks now (ts_name t) (ts_batch t) (queue_of s1) = (ps, q)" by force
  obtain ready s2 where r: "recheck t ps (on_queue (\<lambda>_. q) s1) = (ready, s2)" by force
  from assms(2) g c r have s': "s' = submit (PathJob t ready i) s2" and ne: "ready \<noteq> []"
    by (auto simp: dispatch_path_task_def split: if_splits)
  have q1: "queue_of s1 = queue_of s" using open_gates_queue [OF g] by simp
  then have w: "queue_wf (queue_of s1)" using assms(1) by (simp add: orch_ok_def queue_ok_def)
  note cs = claimed_status [OF w c]
  have pr: "\<forall>p \<in> set ps. get_task_status p (ts_name t) (queue_of (on_queue (\<lambda>_. q) s1)) = Some PROCESSING"
    by (simp add: cs(3))
  note rr = recheck_result [OF r pr]
  have dm: "deps_met p t (submit j s2) = deps_met p t s2" for p j by (rule deps_met_cong) (simp_all add: submit_def deps_of_def)
  have j1: "or_jobs s1 = or_jobs s" using open_gates_slots(2) [OF g] by (simp add: slots_def)
  show ?thesis
    using open_gates_Some [OF g] rr ne cs(2) q1 j1 dm unfolding s'
    by (intro exI [of _ ready] exI [of _ i]) (auto simp: submit_def)
qed

section \<open>Failure and success\<close>

lemma invalidate_status:
  "get_task_status p t (invalidate_tasks_for_paths ts ps q) =
    (if t \<in> set ts \<and> p \<in> set ps \<and> get_task_status p t q \<noteq> None then Some PENDING else get_task_status p t q)"
proof -
  have "queue_abs (invalidate_tasks_for_paths ts ps q) (p, t) =
      set_where (\<lambda>(p, t) _. p \<in> set ps \<and> t \<in> set ts) PENDING (queue_abs q) (p, t)"
    by (simp only: invalidate_abs)
  then show ?thesis by (auto simp: queue_abs_def set_where_def split: option.splits)
qed

lemma fail_tasks_fields [simp]: "or_tasks (fail_path now t e p s) = or_tasks s"
  by (simp add: fail_path_def task_failed_def)

lemma fail_fold_tasks [simp]: "or_tasks (fold (fail_path now t e) ps s) = or_tasks s"
  by (induction ps arbitrary: s) simp_all

text \<open>A batch that fails as a whole leaves nothing derived from its paths standing.\<close>

lemma failed_batch_invalidates:
  assumes "tasks_wf (or_tasks s)" and "dget (or_tasks s) (ts_name t) = Some t" and "is_path t"
    and "(ts_name t, d) \<in> (feeds (or_tasks s))\<^sup>+" and "p \<in> set paths"
  shows "get_task_status p d (queue_of (execute_end ops fi roots now dur t paths (Inl e) s)) \<in> {None, Some PENDING}"
proof -
  let ?s = "fold (fail_path now t e) paths s"
  from downstream_closure(1) [of ?s "ts_name t" t] assms(1-4) have d: "d \<in> set (get_all_downstream (ts_name t) ?s)" by simp
  then have "get_all_downstream (ts_name t) ?s \<noteq> []" by auto
  with d assms(5) show ?thesis by (simp add: execute_end_def invalidate_downstream_def Let_def invalidate_status)
qed

text \<open>A result computed from inputs that are no longer done is not recorded as done.\<close>

lemma stale_result_requeued:
  assumes "orch_ok s" and "handle_success ops fi roots now dur t path res s = (ok, s')"
    and "write_results ops t (tr_data res) s = (None, s1)" and "ts_reads t \<noteq> []" and "\<not> deps_met path t s1"
  shows "ok" and "get_task_status path (ts_name t) (queue_of s') = Some PENDING" and "or_bus s' = or_bus s1"
proof -
  from assms have s': "ok" "s' = on_queue (re_enqueue_task roots now path (ts_name t)) s1"
    by (auto simp: handle_success_def)
  then show "ok" "or_bus s' = or_bus s1" by (simp_all add: on_queue_def)
  show "get_task_status path (ts_name t) (queue_of s') = Some PENDING"
  proof -
    have "orch_ok s1" using write_results_ok [OF assms(3)] assms(1) by simp
    then have "queue_wf (queue_of s1)" by (simp add: orch_ok_def queue_ok_def)
    from queue_refines [OF this, of roots now "ReEnqueue path (ts_name t)"] s'(2) show ?thesis
      by (simp add: queue_abs_def fun_eq_iff)
  qed
qed

end
