(* ===== verification/Forms.thy ===== *)
theory Forms
  imports PyValue
begin

text \<open>
  Form fields: \<open>FormStep\<close> of \<open>state_machine/conversation.py\<close> with its coercion and validation,
  the schema translation of \<open>state_machine/forms.py\<close> and the display metadata of
  \<open>state_machine/form_display.py\<close>. A validator is a function of the coerced value that may
  raise; the host supplies the file system and the parsers.
\<close>

section \<open>Paths\<close>

definition normalize_path :: "host \<Rightarrow> pyval \<Rightarrow> string" where
  "normalize_path h v =
     (let s = strip_char CHR 0x27 (strip_char CHR 0x22 (strip (py_str h v)))
      in if s = [] then s else host_norm_path h s)"

type_synonym verdict = "bool \<times> string option"

definition validate_existing_dir :: "host \<Rightarrow> string \<Rightarrow> verdict" where
  "validate_existing_dir h path =
     (if host_is_dir h path then (True, None)
      else if host_exists h path then (False, Some (''Not a directory: '' @ path))
      else (False, Some (''Directory does not exist: '' @ path)))"

definition validate_path_or_parent :: "host \<Rightarrow> string \<Rightarrow> verdict" where
  "validate_path_or_parent h path =
     (if host_exists h path \<or> host_is_dir h (host_parent h path) then (True, None)
      else (False, Some (''Parent directory does not exist: '' @ host_parent h path)))"

section \<open>Form steps\<close>

record form_step =
  fs_name :: string
  fs_prompt :: string
  fs_required :: bool
  fs_type :: string
  fs_enum :: "pyval list option"
  fs_enum_labels :: "string list option"
  fs_default :: pyval
  fs_validator :: "(pyval \<Rightarrow> verdict pyres) option"
  fs_prompt_when_missing :: bool
  fs_columns :: "int option"

definition plain_step :: "string \<Rightarrow> string \<Rightarrow> bool \<Rightarrow> string \<Rightarrow> form_step" where
  "plain_step nm prompt required ty =
     \<lparr>fs_name = nm, fs_prompt = prompt, fs_required = required, fs_type = ty, fs_enum = None,
      fs_enum_labels = None, fs_default = VNone, fs_validator = None,
      fs_prompt_when_missing = False, fs_columns = None\<rparr>"

text \<open>\<open>value in (None, "")\<close>\<close>

definition is_blank :: "pyval \<Rightarrow> bool" where
  "is_blank v \<longleftrightarrow> pyeq v VNone \<or> pyeq v (VStr '''')"

definition nonblank_lines :: "string \<Rightarrow> string list" where
  "nonblank_lines s = filter (\<lambda>l. l \<noteq> []) (map strip (split_when is_line_break s))"

definition truthy_words :: "string list" where
  "truthy_words = [''true'', ''yes'', ''1'', ''y'']"

text \<open>The chain of type conversions of \<open>coerce\<close>, one per test of the declared type.\<close>

definition coerce_number :: "host \<Rightarrow> string \<Rightarrow> pyval \<Rightarrow> pyval pyres" where
  "coerce_number h ty v =
     (if ty = ''integer'' \<or> ty = ''int'' then rbind (py_int v) (\<lambda>i. Inr (VInt i))
      else if ty = ''number'' then rbind (py_float h v) (\<lambda>r. Inr (VFloat r))
      else Inr v)"

definition coerce_boolean :: "host \<Rightarrow> string \<Rightarrow> pyval \<Rightarrow> pyval" where
  "coerce_boolean h ty v =
     (if ty = ''boolean'' then
        (case v of VBool b \<Rightarrow> VBool b
         | _ \<Rightarrow> VBool (lower (strip (py_str h v)) \<in> set truthy_words))
      else v)"

definition coerce_list :: "host \<Rightarrow> string \<Rightarrow> pyval \<Rightarrow> pyval" where
  "coerce_list h ty v =
     (if ty = ''array'' \<or> ty = ''path_list'' then
        (case v of
           VStr s \<Rightarrow>
             (case (case host_json h s of Some j \<Rightarrow> j | None \<Rightarrow> VList (map VStr (nonblank_lines s))) of
                VList xs \<Rightarrow> VList xs | w \<Rightarrow> VList [w])
         | _ \<Rightarrow> v)
      else v)"

definition coerce_path :: "host \<Rightarrow> string \<Rightarrow> pyval \<Rightarrow> pyval" where
  "coerce_path h ty v =
     (if ty = ''path'' then (case v of VStr s \<Rightarrow> VStr (normalize_path h v) | _ \<Rightarrow> v)
      else if ty = ''path_list'' then
        (case v of VList xs \<Rightarrow> VList (map (\<lambda>x. VStr (normalize_path h x)) xs) | _ \<Rightarrow> v)
      else v)"

definition coerce_object :: "host \<Rightarrow> string \<Rightarrow> pyval \<Rightarrow> pyval pyres" where
  "coerce_object h ty v =
     (if ty = ''object'' then
        (case v of
           VStr s \<Rightarrow> (case host_json h s of
               Some j \<Rightarrow> Inr j
             | None \<Rightarrow> Inl (PyExn ''JSONDecodeError'' ''Expecting value''))
         | _ \<Rightarrow> Inr v)
      else Inr v)"

text \<open>
  The label map pairs each label with the option at its position; a later label overrides an
  equal earlier one.
\<close>

definition label_map :: "string list \<Rightarrow> pyval list \<Rightarrow> (string, pyval) pydict" where
  "label_map labels options =
     fold (\<lambda>(l, v) d. dset (lower (strip l)) v d) (zip labels options) []"

definition coerce_enum :: "host \<Rightarrow> form_step \<Rightarrow> pyval \<Rightarrow> pyval pyres" where
  "coerce_enum h st v =
     (case fs_enum st of
        None \<Rightarrow> Inr v
      | Some options \<Rightarrow>
          (if options = [] then Inr v
           else (let w = (if \<not> py_in v options \<and> fs_enum_labels st \<noteq> None \<and> fs_enum_labels st \<noteq> Some []
                          then (case dget (label_map (the (fs_enum_labels st)) options)
                                       (lower (strip (py_str h v))) of Some x \<Rightarrow> x | None \<Rightarrow> v)
                          else v)
                 in if py_in w options then Inr w
                    else Inl (PyExn ''ValueError''
                      (fs_name st @ '' must be one of: '' @ join_with '', '' (map (py_str h) options) @ ''.'')))))"

definition coerce :: "host \<Rightarrow> form_step \<Rightarrow> pyval \<Rightarrow> pyval pyres" where
  "coerce h st v =
     (if is_blank v \<and> \<not> fs_required st then Inr (fs_default st)
      else
      rbind (coerce_number h (fs_type st) v) (\<lambda>v1.
      (let v2 = coerce_path h (fs_type st)
                  (coerce_list h (fs_type st) (coerce_boolean h (fs_type st) v1))
       in rbind (coerce_object h (fs_type st) v2) (coerce_enum h st))))"

text \<open>The directory check over \<open>value or []\<close>; what is no sequence of paths raises.\<close>

fun check_dirs_of :: "host \<Rightarrow> pyval list \<Rightarrow> verdict pyres" where
  "check_dirs_of h [] = Inr (True, None)"
| "check_dirs_of h (VStr s # xs) =
     (case validate_existing_dir h s of
        (True, _) \<Rightarrow> check_dirs_of h xs | (False, msg) \<Rightarrow> Inr (False, msg))"
| "check_dirs_of h (_ # xs) = Inl (PyExn ''TypeError'' ''argument should be a str or an os.PathLike object'')"

definition items_of :: "pyval \<Rightarrow> pyval list pyres" where
  "items_of v = (case v of
      VList xs \<Rightarrow> Inr xs
    | VDict d \<Rightarrow> Inr (map (\<lambda>(k, _). VStr k) d)
    | VStr s \<Rightarrow> Inr (map (\<lambda>c. VStr [c]) s)
    | _ \<Rightarrow> Inl (PyExn ''TypeError'' ''object is not iterable''))"

definition path_check :: "host \<Rightarrow> string \<Rightarrow> pyval \<Rightarrow> verdict pyres" where
  "path_check h ty v =
     (if ty = ''path'' \<and> truthy v then
        (case v of VStr s \<Rightarrow> Inr (validate_path_or_parent h s)
         | _ \<Rightarrow> Inl (PyExn ''TypeError'' ''argument should be a str or an os.PathLike object''))
      else if ty = ''path_list'' then
        (if truthy v then rbind (items_of v) (check_dirs_of h) else Inr (True, None))
      else Inr (True, None))"

definition validate :: "host \<Rightarrow> form_step \<Rightarrow> pyval \<Rightarrow> verdict pyres" where
  "validate h st v =
     (if fs_required st \<and> (v = VNone \<or> pyeq v (VStr '''')) then
        Inr (False, Some (fs_name st @ '' is required.''))
      else (case coerce h st v of
          Inl e \<Rightarrow> Inr (False, Some (exn_message e))
        | Inr w \<Rightarrow>
            rbind (path_check h (fs_type st) w) (\<lambda>(ok, msg).
            if \<not> ok then Inr (False, msg)
            else (case fs_validator st of None \<Rightarrow> Inr (True, None) | Some f \<Rightarrow> f w))))"

section \<open>What coercion promises\<close>

text \<open>A value of the declared type, as the handlers of commands and tools may assume.\<close>

definition has_type :: "string \<Rightarrow> pyval \<Rightarrow> bool" where
  "has_type ty v =
     (if ty = ''integer'' \<or> ty = ''int'' then (\<exists>i. v = VInt i)
      else if ty = ''number'' then (\<exists>r. v = VFloat r)
      else if ty = ''boolean'' then (\<exists>b. v = VBool b)
      else True)"

lemma coerce_boolean_type: "ty = ''boolean'' \<Longrightarrow> \<exists>b. coerce_boolean h ty v = VBool b"
  by (auto simp: coerce_boolean_def split: pyval.splits)

lemma coerce_enum_Inr:
  "coerce_enum h st v = Inr w \<Longrightarrow>
   (case fs_enum st of None \<Rightarrow> w = v | Some options \<Rightarrow> if options = [] then w = v else py_in w options)"
  by (auto simp: coerce_enum_def Let_def split: option.splits if_splits)

lemma label_map_values: "dget (label_map labels options) k = Some v \<Longrightarrow> v \<in> set options"
proof -
  have *: "dget (fold (\<lambda>(l, v) d. dset (lower (strip l)) v d) ps d0) k = Some v \<Longrightarrow>
      v \<in> snd ` set ps \<or> dget d0 k = Some v" for ps d0
    by (induction ps arbitrary: d0) (force split: if_splits)+
  assume "dget (label_map labels options) k = Some v"
  with * [of "zip labels options" "[]"] show ?thesis
    by (auto simp: label_map_def dest: set_zip_rightD)
qed

lemma coerce_in_enum:
  assumes "coerce h st v = Inr w" and "fs_enum st = Some options" and "options \<noteq> []"
    and "\<not> (is_blank v \<and> \<not> fs_required st)"
  shows "py_in w options"
proof -
  from assms(1,4) obtain x where "coerce_enum h st x = Inr w"
    by (auto simp: coerce_def rbind_Inr Let_def)
  with coerce_enum_Inr [OF this] assms(2,3) show ?thesis by simp
qed

lemma coerce_type:
  assumes "coerce h st v = Inr w" and "fs_enum st = None" and "\<not> (is_blank v \<and> \<not> fs_required st)"
  shows "has_type (fs_type st) w"
proof -
  from assms(1,3) obtain v1 where v1: "coerce_number h (fs_type st) v = Inr v1"
    and w: "rbind (coerce_object h (fs_type st) (coerce_path h (fs_type st)
        (coerce_list h (fs_type st) (coerce_boolean h (fs_type st) v1)))) (coerce_enum h st) = Inr w"
    by (auto simp: coerce_def rbind_Inr Let_def)
  then obtain v2 where v2: "coerce_object h (fs_type st) (coerce_path h (fs_type st)
        (coerce_list h (fs_type st) (coerce_boolean h (fs_type st) v1))) = Inr v2" "coerce_enum h st v2 = Inr w"
    by (auto simp: rbind_Inr)
  from coerce_enum_Inr [OF v2(2)] assms(2) have w: "w = v2" by simp
  note later = coerce_boolean_def coerce_list_def coerce_path_def coerce_object_def
  consider (int) "fs_type st = ''integer'' \<or> fs_type st = ''int''" | (num) "fs_type st = ''number''"
    | (bool) "fs_type st = ''boolean''"
    | (other) "fs_type st \<notin> {''integer'', ''int'', ''number'', ''boolean''}" by blast
  then show ?thesis
  proof cases
    case int
    with v1 obtain i where "v1 = VInt i" by (auto simp: coerce_number_def rbind_Inr)
    with int v2(1) have "v2 = VInt i" by (elim disjE) (simp_all add: later)
    with int w show ?thesis by (simp add: has_type_def)
  next
    case num
    with v1 obtain r where "v1 = VFloat r" by (auto simp: coerce_number_def rbind_Inr)
    with num v2(1) have "v2 = VFloat r" by (simp add: later)
    then have "has_type ''number'' w" using w by (simp add: has_type_def)
    then show ?thesis by (simp only: num)
  next
    case bool
    with coerce_boolean_type obtain b where b: "coerce_boolean h (fs_type st) v1 = VBool b" by blast
    from v2(1) have "v2 = VBool b" unfolding b by (simp add: bool coerce_list_def coerce_path_def coerce_object_def)
    then have "has_type ''boolean'' w" using w by (simp add: has_type_def)
    then show ?thesis by (simp only: bool)
  next
    case other
    then show ?thesis by (simp only: has_type_def insert_iff empty_iff simp_thms de_Morgan_disj if_False split: if_split)
  qed
qed

text \<open>A value that validates coerces: the second call in \<open>SubmitFormText\<close> cannot fail.\<close>

lemma validate_coerces: "validate h st v = Inr (True, msg) \<Longrightarrow> \<exists>w. coerce h st v = Inr w"
  by (auto simp: validate_def split: if_splits sum.splits)

text \<open>An accepted integer text is the integer it shows.\<close>

lemma coerce_integer_text:
  assumes "fs_type st = ''integer''" and "fs_enum st = None"
  shows "coerce h st (VStr (show_nat n)) = Inr (VInt (int n))"
proof -
  have ne: "show_nat n \<noteq> []" by (subst show_nat.simps) simp
  have digits: "list_all (\<lambda>c. \<not> is_space c \<and> c \<noteq> CHR ''-'' \<and> c \<noteq> CHR ''+'') (show_nat n)" for n
  proof (induction n rule: show_nat.induct)
    case (1 n)
    have code: "(of_char (digit_char (n mod 10)) :: nat) = 48 + n mod 10"
      by (simp add: digit_char_def)
    have "digit_char (n mod 10) \<noteq> c" if "(of_char c :: nat) < 48" for c
      using code that by auto
    from this [of "CHR ''-''"] this [of "CHR ''+''"] code
    have m: "\<not> is_space (digit_char (n mod 10)) \<and> digit_char (n mod 10) \<noteq> CHR ''-'' \<and> digit_char (n mod 10) \<noteq> CHR ''+''"
      by (simp add: is_space_def)
    show ?case
    proof (cases "n < 10")
      case True
      with m show ?thesis by (subst show_nat.simps) simp
    next
      case False
      with 1 m show ?thesis by (subst show_nat.simps) simp
    qed
  qed
  from ne obtain c cs where c: "show_nat n = c # cs" by (cases "show_nat n") auto
  have hd: "\<not> is_space (hd (show_nat n))" and lst: "\<not> is_space (last (show_nat n))"
    using digits [of n] ne by (auto simp: list_all_iff)
  have "strip (show_nat n) = show_nat n"
    unfolding strip_def lstrip_when_def
    using hd lst ne c by (simp add: rstrip_when_id)
  with digits [of n] c have "int_of_string (show_nat n) = Some (int n)"
    using read_nat_show_nat [of n] by (simp add: int_of_string_def)
  with assms ne show ?thesis
    by (auto simp: coerce_def is_blank_def coerce_number_def py_int_def Let_def coerce_path_def
        coerce_list_def coerce_boolean_def coerce_object_def coerce_enum_def)
qed

section \<open>Serialized steps\<close>

text \<open>
  \<open>to_dict\<close> and \<open>from_dict\<close>. A validator is code and is not written out. \<open>from_dict\<close> trusts the
  types of what it reads; a dictionary whose fields have other types than the ones declared has
  no counterpart as a record and is answered with a type error.
\<close>

definition opt_list :: "pyval list option \<Rightarrow> pyval" where
  "opt_list vs = (case vs of None \<Rightarrow> VNone | Some xs \<Rightarrow> VList xs)"

definition step_to_dict :: "form_step \<Rightarrow> (string, pyval) pydict" where
  "step_to_dict s =
     [(''name'', VStr (fs_name s)), (''prompt'', VStr (fs_prompt s)), (''required'', VBool (fs_required s)),
      (''type'', VStr (fs_type s)), (''enum'', opt_list (fs_enum s)),
      (''enum_labels'', opt_list (map_option (map VStr) (fs_enum_labels s))),
      (''default'', fs_default s), (''prompt_when_missing'', VBool (fs_prompt_when_missing s)),
      (''columns'', (case fs_columns s of None \<Rightarrow> VNone | Some n \<Rightarrow> VInt n))]"

definition ill_typed :: "string \<Rightarrow> 'a pyres" where
  "ill_typed field = Inl (PyExn ''TypeError'' field)"

definition as_text :: "string \<Rightarrow> pyval \<Rightarrow> string pyres" where
  "as_text field v = (case v of VStr s \<Rightarrow> Inr s | _ \<Rightarrow> ill_typed field)"

definition as_flag :: "string \<Rightarrow> pyval \<Rightarrow> bool pyres" where
  "as_flag field v = (case v of VBool b \<Rightarrow> Inr b | _ \<Rightarrow> ill_typed field)"

definition as_opt_list :: "string \<Rightarrow> pyval \<Rightarrow> pyval list option pyres" where
  "as_opt_list field v = (case v of VNone \<Rightarrow> Inr None | VList xs \<Rightarrow> Inr (Some xs) | _ \<Rightarrow> ill_typed field)"

definition as_opt_int :: "string \<Rightarrow> pyval \<Rightarrow> int option pyres" where
  "as_opt_int field v = (case v of VNone \<Rightarrow> Inr None | VInt i \<Rightarrow> Inr (Some i) | _ \<Rightarrow> ill_typed field)"

definition as_opt_texts :: "string \<Rightarrow> pyval \<Rightarrow> string list option pyres" where
  "as_opt_texts field v = rbind (as_opt_list field v) (\<lambda>vs.
     case vs of None \<Rightarrow> Inr None | Some xs \<Rightarrow> rbind (rmap (as_text field) xs) (\<lambda>ss. Inr (Some ss)))"

abbreviation get_or :: "(string, pyval) pydict \<Rightarrow> string \<Rightarrow> pyval \<Rightarrow> pyval" where
  "get_or d k dflt \<equiv> (case dget d k of None \<Rightarrow> dflt | Some v \<Rightarrow> v)"

definition require_key :: "(string, pyval) pydict \<Rightarrow> string \<Rightarrow> pyval pyres" where
  "require_key d k = (case dget d k of None \<Rightarrow> Inl (PyExn ''KeyError'' k) | Some v \<Rightarrow> Inr v)"

definition step_from_dict :: "(string, pyval) pydict \<Rightarrow> form_step pyres" where
  "step_from_dict d =
     rbind (rbind (require_key d ''name'') (as_text ''name'')) (\<lambda>nm.
     rbind (as_text ''prompt'' (get_or d ''prompt'' (VStr ''''))) (\<lambda>prompt.
     rbind (as_flag ''required'' (get_or d ''required'' (VBool True))) (\<lambda>required.
     rbind (as_text ''type'' (get_or d ''type'' (VStr ''string''))) (\<lambda>ty.
     rbind (as_opt_list ''enum'' (get_or d ''enum'' VNone)) (\<lambda>enum.
     rbind (as_opt_texts ''enum_labels'' (get_or d ''enum_labels'' VNone)) (\<lambda>labels.
     rbind (as_flag ''prompt_when_missing'' (get_or d ''prompt_when_missing'' (VBool False))) (\<lambda>pwm.
     rbind (as_opt_int ''columns'' (get_or d ''columns'' VNone)) (\<lambda>columns.
     Inr \<lparr>fs_name = nm, fs_prompt = prompt, fs_required = required, fs_type = ty, fs_enum = enum,
          fs_enum_labels = labels, fs_default = get_or d ''default'' VNone, fs_validator = None,
          fs_prompt_when_missing = pwm, fs_columns = columns\<rparr>))))))))"

lemma rmap_as_text: "rmap (as_text field) (map VStr ss) = Inr ss"
  by (induction ss) (simp_all add: as_text_def)

lemma step_roundtrip: "step_from_dict (step_to_dict s) = Inr (s\<lparr>fs_validator := None\<rparr>)"
  by (cases s)
    (auto simp: step_from_dict_def step_to_dict_def require_key_def as_text_def as_flag_def as_opt_list_def
      as_opt_texts_def as_opt_int_def opt_list_def rmap_as_text split: option.splits)

section \<open>Forms from JSON schemas\<close>

definition underscores_to_spaces :: "string \<Rightarrow> string" where
  "underscores_to_spaces s = map (\<lambda>c. if c = CHR ''_'' then CHR '' '' else c) s"

definition article :: "string \<Rightarrow> string" where
  "article label =
     (if prefix ''a '' label \<or> prefix ''an '' label \<or> prefix ''the '' label then label
      else (if sublist (lower (take 1 label)) ''aeiou'' then ''an'' else ''a'') @ '' '' @ label)"

definition schema_prompt :: "host \<Rightarrow> string \<Rightarrow> (string, pyval) pydict \<Rightarrow> string" where
  "schema_prompt h nm info =
     (let label = underscores_to_spaces (if nm = [] then ''value'' else nm);
          desc = strip (py_str h (py_or (get_or info ''description'' VNone) (VStr '''')));
          picks = truthy (get_or info ''enum'' VNone) \<or> pyeq (get_or info ''type'' VNone) (VStr ''boolean'');
          prompt = (if picks then ''Choose '' @ label else ''Enter '' @ article label) @ ''.''
      in if desc = [] then prompt else prompt @ [CHR 0x0A] @ desc)"

definition schema_field :: "host \<Rightarrow> bool \<Rightarrow> pyval list \<Rightarrow> string \<times> pyval \<Rightarrow> form_step pyres" where
  "schema_field h prompt_optional required item = (case item of (nm, v) \<Rightarrow>
     (case v of
        VDict info \<Rightarrow>
          rbind (as_text ''type'' (get_or info ''type'' (VStr ''string''))) (\<lambda>ty.
          rbind (as_opt_list ''enum'' (get_or info ''enum'' VNone)) (\<lambda>enum.
          (let req = py_in (VStr nm) required
           in Inr \<lparr>fs_name = nm, fs_prompt = schema_prompt h nm info, fs_required = req, fs_type = ty,
                fs_enum = enum, fs_enum_labels = None, fs_default = get_or info ''default'' VNone,
                fs_validator = None, fs_prompt_when_missing = prompt_optional \<and> \<not> req,
                fs_columns = None\<rparr>)))
      | _ \<Rightarrow> Inl (PyExn ''AttributeError'' ''get'')))"

definition schema_to_form_steps :: "host \<Rightarrow> pyval \<Rightarrow> bool \<Rightarrow> form_step list pyres" where
  "schema_to_form_steps h schema prompt_optional =
     rbind (py_get schema ''properties'' (VDict [])) (\<lambda>props.
     rbind (py_get schema ''required'' (VList [])) (\<lambda>req.
     (case (props, req) of
        (VDict ps, VList required) \<Rightarrow> rmap (schema_field h prompt_optional required) ps
      | _ \<Rightarrow> ill_typed ''schema'')))"

lemma schema_to_form_steps_names:
  assumes "schema_to_form_steps h (VDict d) opt = Inr steps" and "dget d ''properties'' = Some (VDict ps)"
    and "dget d ''required'' = Some (VList required)"
  shows "map fs_name steps = map fst ps"
    and "\<And>s. s \<in> set steps \<Longrightarrow> fs_required s = py_in (VStr (fs_name s)) required"
    and "\<And>s. s \<in> set steps \<Longrightarrow> fs_prompt_when_missing s \<Longrightarrow> opt \<and> \<not> fs_required s"
proof -
  from assms have r: "rmap (schema_field h opt required) ps = Inr steps"
    by (simp add: schema_to_form_steps_def)
  have f: "schema_field h opt required p = Inr s \<Longrightarrow> fs_name s = fst p \<and>
      fs_required s = py_in (VStr (fs_name s)) required \<and> (fs_prompt_when_missing s \<longrightarrow> opt \<and> \<not> fs_required s)" for p s
    by (cases p; cases "snd p") (auto simp: schema_field_def rbind_Inr Let_def)
  from r show "map fs_name steps = map fst ps"
    by (induction ps arbitrary: steps) (auto simp: rbind_Inr dest: f)
  show "\<And>s. s \<in> set steps \<Longrightarrow> fs_required s = py_in (VStr (fs_name s)) required"
    and "\<And>s. s \<in> set steps \<Longrightarrow> fs_prompt_when_missing s \<Longrightarrow> opt \<and> \<not> fs_required s"
    using rmap_Inr_set [OF r] f by blast+
qed

section \<open>Display metadata\<close>

definition step_prompt :: "form_step \<Rightarrow> string" where
  "step_prompt s = (let p = strip (fs_prompt s) in
     if p = [] then ''Enter '' @ underscores_to_spaces (if fs_name s = [] then ''value'' else fs_name s) @ ''.'' else p)"

definition step_options :: "form_step \<Rightarrow> pyval list" where
  "step_options s = (case fs_enum s of None \<Rightarrow> [] | Some xs \<Rightarrow> xs)"

definition step_choices :: "host \<Rightarrow> form_step \<Rightarrow> pyval list" where
  "step_choices h s =
     (if fs_type s \<in> {''boolean'', ''bool''} \<and> step_options s = [] then
        [VDict [(''value'', VBool True), (''label'', VStr ''True'')],
         VDict [(''value'', VBool False), (''label'', VStr ''False'')]]
      else (let labels = (case fs_enum_labels s of None \<Rightarrow> [] | Some ls \<Rightarrow> ls)
            in map (\<lambda>(i, v). VDict [(''value'', v),
                 (''label'', VStr (if i < length labels then labels ! i else py_str h v))])
               (List.enumerate 0 (step_options s))))"

definition skip_text :: "host \<Rightarrow> form_step \<Rightarrow> string" where
  "skip_text h s =
     (if is_blank (fs_default s) then ''Send /skip to leave this blank.''
      else ''Send /skip to use the default: '' @ py_str h (fs_default s) @ ''.'')"

definition step_assist :: "host \<Rightarrow> form_step \<Rightarrow> bool \<Rightarrow> string" where
  "step_assist h s has_choices =
     (let hint =
        (if has_choices then [''Select an option.'']
         else if fs_type s \<in> {''integer'', ''int''} then [''Reply with a whole number.'']
         else if fs_type s = ''number'' then [''Reply with a number.'']
         else if fs_type s = ''array'' \<and> \<not> sublist ''one on each line'' (fs_prompt s)
           then [''Enter a list of items, one on each line, like so:'' @ [CHR 0x0A, CHR 0x0A] @
                 ''item 1'' @ [CHR 0x0A] @ ''item 2'']
         else if fs_type s = ''object'' then
           [''Send a JSON object, for example: {'' @ [CHR 0x22] @ ''key'' @ [CHR 0x22] @ '': '' @ [CHR 0x22] @
            ''value'' @ [CHR 0x22] @ ''}.'']
         else if sublist ''cron'' (fs_name s) then [''Use five-field cron, for example: 0 20 * * *.'']
         else [])
      in join_with '' '' (hint @ (if fs_required s then [] else [skip_text h s])))"

definition input_mode :: "form_step \<Rightarrow> string" where
  "input_mode s =
     (if step_options s \<noteq> [] then ''choice''
      else if fs_type s \<in> {''integer'', ''int'', ''number''} then ''number''
      else if fs_type s \<in> {''array'', ''object''} then ''json''
      else if fs_type s \<in> {''boolean'', ''bool''} then ''boolean''
      else ''text'')"

definition form_step_display :: "host \<Rightarrow> form_step \<Rightarrow> (string, pyval) pydict" where
  "form_step_display h s =
     (let choices = step_choices h s
      in [(''prompt'', VStr (step_prompt s)), (''assist'', VStr (step_assist h s (choices \<noteq> []))),
          (''choices'', VList choices), (''allow_skip'', VBool (\<not> fs_required s)),
          (''allow_cancel'', VBool True), (''input_mode'', VStr (input_mode s))])"

text \<open>Every choice offered for an enumerated field is a value the field accepts.\<close>

lemma step_choices_accepted:
  assumes "c \<in> set (step_choices h s)" and "step_options s \<noteq> []"
  shows "\<exists>v label. c = VDict [(''value'', v), (''label'', VStr label)] \<and> v \<in> set (step_options s)"
proof -
  from assms have "c \<in> set (map (\<lambda>(i, v). VDict [(''value'', v), (''label'', VStr
      (if i < length (case fs_enum_labels s of None \<Rightarrow> [] | Some ls \<Rightarrow> ls)
       then (case fs_enum_labels s of None \<Rightarrow> [] | Some ls \<Rightarrow> ls) ! i else py_str h v))])
      (List.enumerate 0 (step_options s)))"
    by (simp only: step_choices_def simp_thms if_False Let_def)
  then obtain x where x: "x \<in> set (List.enumerate 0 (step_options s))"
    and c: "\<exists>label. c = VDict [(''value'', snd x), (''label'', VStr label)]"
    unfolding set_map image_iff split_def by (elim bexE) simp
  from x have "(fst x, snd x) \<in> set (List.enumerate 0 (step_options s))" by simp
  then have "snd x \<in> set (step_options s)"
    using nth_mem [of "fst x" "step_options s"] by (simp add: in_set_enumerate_eq)
  with c show ?thesis by blast
qed

end
