(* ===== verification/Conversation.thy ===== *)
theory Conversation
  imports Forms
begin

text \<open>
  \<open>state_machine/conversation.py\<close>, \<open>conversation_phases.py\<close> and \<open>errors.py\<close>: participants,
  the phase stack, and the primitive operations of \<open>ConversationState\<close>. The commands and tools
  of the participants are code and live in an environment beside the state; what the state
  machine emits on the event bus and how many identifiers it has drawn are kept in the state.
\<close>

section \<open>Phases\<close>

definition awaiting_input :: string where "awaiting_input = ''awaiting_input''"
definition filling_command_form :: string where "filling_command_form = ''filling_command_form''"
definition filling_tool_form :: string where "filling_tool_form = ''filling_tool_form''"
definition parsing_attachment :: string where "parsing_attachment = ''parsing_attachment''"
definition approving_request :: string where "approving_request = ''approving_request''"
definition calling_tool :: string where "calling_tool = ''calling_tool''"
definition calling_command :: string where "calling_command = ''calling_command''"

lemmas phase_defs = awaiting_input_def filling_command_form_def filling_tool_form_def
  parsing_attachment_def approving_request_def calling_tool_def calling_command_def

definition base_phase :: string where "base_phase = awaiting_input"

definition form_phases :: "string list" where "form_phases = [filling_command_form, filling_tool_form]"

section \<open>Errors and results\<close>

record action_error =
  er_code :: string
  er_message :: string
  er_details :: "(string, pyval) pydict"
  er_retry_phase :: "string option"

type_synonym event = "(string, pyval) pydict"

text \<open>
  A handler returns a plain value or an \<open>ActionResult\<close>, and a result carries what the handler
  returned.
\<close>

datatype datum = Plain pyval | Nested action_result
  and action_result = Result
    (ar_ok: bool) (ar_action: string) (ar_message: "string option")
    (ar_data: "(string \<times> datum) list") (ar_events: "event list") (ar_error: "action_error option")

datatype fault = ActionFault action_error | PyFault pyexn

definition error_to_dict :: "action_error \<Rightarrow> (string, pyval) pydict" where
  "error_to_dict e = [(''code'', VStr (er_code e)), (''message'', VStr (er_message e)),
     (''details'', VDict (er_details e)),
     (''retry_phase'', (case er_retry_phase e of None \<Rightarrow> VNone | Some p \<Rightarrow> VStr p))]"

definition fail_result :: "string \<Rightarrow> action_error \<Rightarrow> event list \<Rightarrow> action_result" where
  "fail_result action e evs = Result False action (Some (er_message e)) [] evs (Some e)"

definition ok_result :: "string \<Rightarrow> string option \<Rightarrow> event list \<Rightarrow> (string \<times> datum) list \<Rightarrow> action_result" where
  "ok_result action msg evs dat = Result True action msg dat evs None"

section \<open>Participants\<close>

record participant =
  pt_id :: string
  pt_kind :: string
  pt_name :: "string option"
  pt_can_command :: "bool option"
  pt_can_tool :: "bool option"
  pt_can_attach :: "bool option"

definition allows :: "participant \<Rightarrow> string \<Rightarrow> bool" where
  "allows p action =
     (let dflt = (if action = ''call_command'' then pt_kind p = ''user''
                  else if action = ''call_tool'' then pt_kind p = ''agent''
                  else if action = ''send_attachment'' then pt_kind p = ''user'' else True);
          explicit = (if action = ''call_command'' then pt_can_command p
                      else if action = ''call_tool'' then pt_can_tool p
                      else if action = ''send_attachment'' then pt_can_attach p else None)
      in (case explicit of None \<Rightarrow> dflt | Some b \<Rightarrow> b))"

section \<open>Frames\<close>

record phase_frame =
  fr_phase :: string
  fr_action_type :: string
  fr_actor :: string
  fr_name :: "string option"
  fr_data :: "(string, pyval) pydict"
  fr_steps :: "form_step list"
  fr_step_index :: int
  fr_previous_phase :: string

text \<open>\<open>steps[step_index]\<close> if the index is below the length; a negative index counts from the end.\<close>

definition frame_step :: "phase_frame \<Rightarrow> form_step option" where
  "frame_step f =
     (let n = int (length (fr_steps f)); i = fr_step_index f in
      if i < n \<and> - n \<le> i then Some (fr_steps f ! nat (if i < 0 then n + i else i)) else None)"

definition opt_text :: "string option \<Rightarrow> pyval" where
  "opt_text s = (case s of None \<Rightarrow> VNone | Some t \<Rightarrow> VStr t)"

definition frame_to_dict :: "phase_frame \<Rightarrow> (string, pyval) pydict" where
  "frame_to_dict f =
     [(''phase'', VStr (fr_phase f)), (''action_type'', VStr (fr_action_type f)),
      (''actor_id'', VStr (fr_actor f)), (''name'', opt_text (fr_name f)),
      (''data'', VDict (fr_data f)), (''steps'', VList (map (\<lambda>s. VDict (step_to_dict s)) (fr_steps f))),
      (''step_index'', VInt (fr_step_index f)), (''previous_phase'', VStr (fr_previous_phase f))]"

definition as_opt_text :: "string \<Rightarrow> pyval \<Rightarrow> string option pyres" where
  "as_opt_text field v = (case v of VNone \<Rightarrow> Inr None | VStr s \<Rightarrow> Inr (Some s) | _ \<Rightarrow> ill_typed field)"

definition as_dict :: "string \<Rightarrow> pyval \<Rightarrow> (string, pyval) pydict pyres" where
  "as_dict field v = (case v of VDict d \<Rightarrow> Inr d | _ \<Rightarrow> ill_typed field)"

definition as_list :: "string \<Rightarrow> pyval \<Rightarrow> pyval list pyres" where
  "as_list field v = (case v of VList xs \<Rightarrow> Inr xs | _ \<Rightarrow> ill_typed field)"

definition as_int :: "string \<Rightarrow> pyval \<Rightarrow> int pyres" where
  "as_int field v = (case v of VInt i \<Rightarrow> Inr i | _ \<Rightarrow> ill_typed field)"

definition frame_from_dict :: "(string, pyval) pydict \<Rightarrow> phase_frame pyres" where
  "frame_from_dict d =
     rbind (rbind (require_key d ''phase'') (as_text ''phase'')) (\<lambda>phase.
     rbind (rbind (require_key d ''action_type'') (as_text ''action_type'')) (\<lambda>action_type.
     rbind (rbind (require_key d ''actor_id'') (as_text ''actor_id'')) (\<lambda>actor.
     rbind (as_opt_text ''name'' (get_or d ''name'' VNone)) (\<lambda>nm.
     rbind (as_dict ''data'' (py_or (get_or d ''data'' VNone) (VDict []))) (\<lambda>dat.
     rbind (as_list ''steps'' (get_or d ''steps'' (VList []))) (\<lambda>raw.
     rbind (rmap (\<lambda>s. rbind (as_dict ''step'' s) step_from_dict) raw) (\<lambda>steps.
     rbind (as_int ''step_index'' (get_or d ''step_index'' (VInt 0))) (\<lambda>i.
     rbind (as_text ''previous_phase'' (get_or d ''previous_phase'' (VStr base_phase))) (\<lambda>prev.
     Inr \<lparr>fr_phase = phase, fr_action_type = action_type, fr_actor = actor, fr_name = nm,
          fr_data = dat, fr_steps = steps, fr_step_index = i, fr_previous_phase = prev\<rparr>)))))))))"

section \<open>The conversation state\<close>

record conv_state =
  cs_participants :: "(string, participant) pydict"
  cs_turn_order :: "string list"
  cs_turn_priority :: string
  cs_phase :: string
  cs_frames :: "phase_frame list"
  cs_cache :: "(string, pyval) pydict"
  cs_history :: "event list"
  cs_last_error :: "action_error option"
  cs_allowed_extensions :: "string list"
  cs_lifecycle :: string
  cs_attachments :: "pyval list"
  cs_bus :: "(string \<times> (string, pyval) pydict) list"
  cs_draws :: nat

text \<open>
  Commands and tools by participant, and the attachment parser. A handler gets the state and may
  change it; a form factory reads it.
\<close>

record callable_spec =
  sp_name :: string
  sp_handler :: "(conv_state \<Rightarrow> string \<Rightarrow> (string, pyval) pydict \<Rightarrow> (fault + datum) \<times> conv_state) option"
  sp_form :: "form_step list"
  sp_require_approval :: bool
  sp_approval_actor :: "string option"
  sp_validator :: "((string, pyval) pydict \<Rightarrow> verdict pyres) option"
  sp_form_factory :: "((string, pyval) pydict \<Rightarrow> conv_state \<Rightarrow> form_step list pyres) option"

record environment =
  ev_host :: host
  ev_commands :: "string \<Rightarrow> (string, callable_spec) pydict"
  ev_tools :: "string \<Rightarrow> (string, callable_spec) pydict"
  ev_attachment_parser :: "((string, pyval) pydict \<Rightarrow> pyval pyres) option"

definition strip_dots :: "string \<Rightarrow> string" where
  "strip_dots s = lstrip_when (\<lambda>c. c = CHR ''.'') s"

text \<open>The constructor. Frames in the cache given as dictionaries are rebuilt.\<close>

definition make_state ::
    "participant list \<Rightarrow> string option \<Rightarrow> string \<Rightarrow> (string, pyval) pydict \<Rightarrow> string list \<Rightarrow> string \<Rightarrow>
     conv_state pyres" where
  "make_state parts priority phase cache extensions lifecycle =
     (let ps = fold (\<lambda>p d. dset (pt_id p) p d) parts [] in
      if ps = [] then Inl (PyExn ''ValueError'' ''ConversationState needs at least one participant.'')
      else (let first = (case priority of None \<Rightarrow> hd (dkeys ps) | Some s \<Rightarrow> if s = [] then hd (dkeys ps) else s) in
            if dget ps first = None then Inl (PyExn ''KeyError'' (''Unknown turn priority: '' @ first))
            else rbind (as_list ''phases'' (get_or cache ''phases'' (VList []))) (\<lambda>raw.
                 rbind (rmap (\<lambda>f. rbind (as_dict ''frame'' f) frame_from_dict) raw) (\<lambda>frames.
                 Inr \<lparr>cs_participants = ps, cs_turn_order = dkeys ps, cs_turn_priority = first,
                      cs_phase = phase, cs_frames = frames, cs_cache = dpop ''phases'' cache,
                      cs_history = [], cs_last_error = None,
                      cs_allowed_extensions = map (\<lambda>e. strip_dots (lower e)) extensions,
                      cs_lifecycle = (if lifecycle \<in> {''per_turn'', ''persistent''} then lifecycle else ''per_turn''),
                      cs_attachments = [], cs_bus = [], cs_draws = 0\<rparr>))))"

definition top_frame :: "conv_state \<Rightarrow> phase_frame option" where
  "top_frame cs = (if cs_frames cs = [] then None else Some (last (cs_frames cs)))"

definition actor_or_active :: "conv_state \<Rightarrow> string option \<Rightarrow> string" where
  "actor_or_active cs actor = (case actor of None \<Rightarrow> cs_turn_priority cs
     | Some a \<Rightarrow> if a = [] then cs_turn_priority cs else a)"

text \<open>The position of the first occurrence, as \<open>list.index\<close> finds it.\<close>

fun index_of :: "'a \<Rightarrow> 'a list \<Rightarrow> nat option" where
  "index_of x [] = None"
| "index_of x (y # ys) = (if y = x then Some 0 else map_option Suc (index_of x ys))"

definition other_id :: "conv_state \<Rightarrow> string option \<Rightarrow> string pyres" where
  "other_id cs actor =
     (let a = actor_or_active cs actor; n = length (cs_turn_order cs) in
      if n = 1 then Inr a
      else (case index_of a (cs_turn_order cs) of
          None \<Rightarrow> Inl (PyExn ''ValueError'' (a @ '' is not in list''))
        | Some i \<Rightarrow> Inr (cs_turn_order cs ! (Suc i mod n))))"

definition switch_priority :: "string option \<Rightarrow> conv_state \<Rightarrow> conv_state pyres" where
  "switch_priority actor cs = rbind (other_id cs actor) (\<lambda>a. Inr (cs\<lparr>cs_turn_priority := a\<rparr>))"

definition set_priority :: "string \<Rightarrow> conv_state \<Rightarrow> conv_state pyres" where
  "set_priority actor cs =
     (if dget (cs_participants cs) actor = None
      then Inl (PyExn ''KeyError'' (''Unknown participant: '' @ actor))
      else Inr (cs\<lparr>cs_turn_priority := actor\<rparr>))"

definition push_phase :: "phase_frame \<Rightarrow> conv_state \<Rightarrow> conv_state" where
  "push_phase f cs = cs\<lparr>cs_frames := cs_frames cs @ [f\<lparr>fr_previous_phase := cs_phase cs\<rparr>],
                        cs_phase := fr_phase f\<rparr>"

definition pop_phase :: "conv_state \<Rightarrow> conv_state" where
  "pop_phase cs = (let rest = butlast (cs_frames cs) in
     cs\<lparr>cs_frames := rest, cs_phase := (if rest = [] then base_phase else fr_phase (last rest))\<rparr>)"

definition reset_phase :: "conv_state \<Rightarrow> conv_state" where
  "reset_phase cs = cs\<lparr>cs_frames := [], cs_phase := base_phase\<rparr>"

definition set_top :: "phase_frame \<Rightarrow> conv_state \<Rightarrow> conv_state" where
  "set_top f cs = cs\<lparr>cs_frames := butlast (cs_frames cs) @ [f]\<rparr>"

definition make_event :: "string \<Rightarrow> string option \<Rightarrow> (string, pyval) pydict \<Rightarrow> conv_state \<Rightarrow> event" where
  "make_event ty actor extra cs =
     fold (\<lambda>(k, v) d. dset k v d) extra
       [(''type'', VStr ty), (''actor_id'', VStr (actor_or_active cs actor)), (''phase'', VStr (cs_phase cs))]"

definition record_event :: "event \<Rightarrow> conv_state \<Rightarrow> conv_state" where
  "record_event e cs = cs\<lparr>cs_history := cs_history cs @ [e]\<rparr>"

definition find_spec :: "environment \<Rightarrow> conv_state \<Rightarrow> string \<Rightarrow> string \<Rightarrow> pyval \<Rightarrow> callable_spec option pyres" where
  "find_spec env cs actor action_type nm =
     (if dget (cs_participants cs) actor = None then Inl (PyExn ''KeyError'' actor)
      else (let table = (if action_type = ''call_command'' then ev_commands env actor else ev_tools env actor)
            in case nm of
                 VStr s \<Rightarrow> Inr (dget table s)
               | VList _ \<Rightarrow> Inl (PyExn ''TypeError'' ''unhashable type'')
               | VDict _ \<Rightarrow> Inl (PyExn ''TypeError'' ''unhashable type'')
               | _ \<Rightarrow> Inr None))"

definition attachment_extension :: "host \<Rightarrow> (string, pyval) pydict \<Rightarrow> string" where
  "attachment_extension h content =
     (let ext = get_or content ''extension'' VNone in
      strip_dots (lower (if truthy ext then py_str h ext
                         else host_suffix h (py_str h (get_or content ''path'' (VStr ''''))))))"

definition attachments_payload :: "host \<Rightarrow> conv_state \<Rightarrow> pyval list" where
  "attachments_payload h cs =
     (if cs_lifecycle cs = ''persistent'' then
        List.map_filter (\<lambda>a. case a of
            VObj i \<Rightarrow> host_to_dict h i | VDict d \<Rightarrow> Some (VDict d) | _ \<Rightarrow> None) (cs_attachments cs)
      else [])"

definition state_to_dict :: "host \<Rightarrow> conv_state \<Rightarrow> (string, pyval) pydict" where
  "state_to_dict h cs =
     [(''turn_priority'', VStr (cs_turn_priority cs)), (''phase'', VStr (cs_phase cs)),
      (''cache'', VDict (dset ''phases'' (VList (map (\<lambda>f. VDict (frame_to_dict f)) (cs_frames cs))) (cs_cache cs))),
      (''history'', VList (map VDict (drop (length (cs_history cs) - 100) (cs_history cs)))),
      (''participants'', VList (map (\<lambda>p. VDict [(''id'', VStr (pt_id p)), (''kind'', VStr (pt_kind p)),
          (''name'', opt_text (pt_name p))]) (dvalues (cs_participants cs)))),
      (''pending_attachments'', VList (attachments_payload h cs))]"

end
