(* ===== verification/Actions.thy ===== *)
theory Actions
  imports Conversation
begin

text \<open>
  \<open>state_machine/action.py\<close> and \<open>state_machine/action_map.py\<close>: the actions a participant can
  take. Each is a legality test and an execution that may raise; \<open>enact\<close> combines both into a
  result. An execution that replays another action does so through the argument \<open>resume\<close>;
  \<open>enact\<close> closes that recursion with the height of the phase stack as fuel, which is enough
  because a frame is popped before anything is replayed.
\<close>

section \<open>Executions\<close>

type_synonym 'a exec = "conv_state \<Rightarrow> (fault + 'a) \<times> conv_state"

definition xreturn :: "'a \<Rightarrow> 'a exec" where "xreturn a cs = (Inr a, cs)"

definition xbind :: "'a exec \<Rightarrow> ('a \<Rightarrow> 'b exec) \<Rightarrow> 'b exec" where
  "xbind m f cs = (case m cs of (Inl e, cs') \<Rightarrow> (Inl e, cs') | (Inr a, cs') \<Rightarrow> f a cs')"

definition xlift :: "'a pyres \<Rightarrow> 'a exec" where
  "xlift r cs = (case r of Inl e \<Rightarrow> (Inl (PyFault e), cs) | Inr a \<Rightarrow> (Inr a, cs))"

text \<open>A primitive operation that may raise before it changes anything.\<close>

definition xupdate :: "(conv_state \<Rightarrow> conv_state pyres) \<Rightarrow> unit exec" where
  "xupdate f cs = (case f cs of Inl e \<Rightarrow> (Inl (PyFault e), cs) | Inr cs' \<Rightarrow> (Inr (), cs'))"

definition make_error :: "conv_state \<Rightarrow> string \<Rightarrow> string \<Rightarrow> (string, pyval) pydict \<Rightarrow> action_error" where
  "make_error cs code msg details =
     \<lparr>er_code = code, er_message = msg, er_details = details, er_retry_phase = Some (cs_phase cs)\<rparr>"

definition xraise :: "string \<Rightarrow> string \<Rightarrow> (string, pyval) pydict \<Rightarrow> 'a exec" where
  "xraise code msg details cs = (Inl (ActionFault (make_error cs code msg details)), cs)"

section \<open>Event bus and form helpers\<close>

definition emit :: "string \<Rightarrow> (string, pyval) pydict \<Rightarrow> conv_state \<Rightarrow> conv_state" where
  "emit channel payload cs =
     cs\<lparr>cs_bus := cs_bus cs @ [(channel, (''session_key'', get_or (cs_cache cs) ''session_key'' VNone) # payload)]\<rparr>"

definition steps_of :: "callable_spec \<Rightarrow> (string, pyval) pydict \<Rightarrow> conv_state \<Rightarrow> form_step list pyres" where
  "steps_of spec args cs = (case sp_form_factory spec of None \<Rightarrow> Inr (sp_form spec) | Some f \<Rightarrow> f args cs)"

definition missing_steps :: "callable_spec \<Rightarrow> (string, pyval) pydict \<Rightarrow> conv_state \<Rightarrow> form_step list pyres" where
  "missing_steps spec args cs = rbind (steps_of spec args cs) (\<lambda>steps.
     Inr (filter (\<lambda>s. fs_name s \<notin> set (dkeys args) \<and> (fs_required s \<or> fs_prompt_when_missing s)) steps))"

definition missing_of :: "callable_spec option \<Rightarrow> (string, pyval) pydict \<Rightarrow> conv_state \<Rightarrow> form_step list pyres" where
  "missing_of spec args cs = (case spec of None \<Rightarrow> Inr [] | Some s \<Rightarrow> missing_steps s args cs)"

text \<open>\<open>frame.data.setdefault(key, default)\<close> where the entry is a dictionary or a list.\<close>

definition frame_args :: "phase_frame \<Rightarrow> (string, pyval) pydict pyres" where
  "frame_args f = (case dget (fr_data f) ''args'' of
      None \<Rightarrow> Inr [] | Some (VDict d) \<Rightarrow> Inr d | Some _ \<Rightarrow> Inl (PyExn ''TypeError'' ''args''))"

definition form_history :: "phase_frame \<Rightarrow> pyval list pyres" where
  "form_history f = (case dget (fr_data f) ''form_history'' of
      None \<Rightarrow> Inr [] | Some (VList xs) \<Rightarrow> Inr xs | Some _ \<Rightarrow> Inl (PyExn ''AttributeError'' ''append''))"

definition set_data :: "string \<Rightarrow> pyval \<Rightarrow> phase_frame \<Rightarrow> phase_frame" where
  "set_data k v f = f\<lparr>fr_data := dset k v (fr_data f)\<rparr>"

definition frame_call_id :: "phase_frame \<Rightarrow> pyval" where
  "frame_call_id f = get_or (fr_data f) ''call_id'' VNone"

definition emit_progress :: "phase_frame \<Rightarrow> (string, pyval) pydict \<Rightarrow> conv_state \<Rightarrow> conv_state" where
  "emit_progress f args cs =
     (if fr_action_type f = ''call_command'' \<and> truthy (frame_call_id f)
      then emit ''command_call_progressed'' [(''call_id'', frame_call_id f),
             (''command_name'', opt_text (fr_name f)), (''args'', VDict args)] cs
      else cs)"

definition emit_finished :: "string \<Rightarrow> pyval \<Rightarrow> pyval \<Rightarrow> bool \<Rightarrow> pyval \<Rightarrow> conv_state \<Rightarrow> conv_state" where
  "emit_finished action_type call_id nm ok err cs =
     (if \<not> truthy call_id \<or> action_type \<noteq> ''call_command'' then cs
      else emit ''command_call_finished'' [(''call_id'', call_id), (''command_name'', nm),
             (''ok'', VBool ok), (''error'', err)] cs)"

definition emit_started ::
    "environment \<Rightarrow> string \<Rightarrow> callable_spec \<Rightarrow> (string, pyval) pydict \<Rightarrow> conv_state \<Rightarrow> pyval \<times> conv_state" where
  "emit_started env action_type spec args cs =
     (if action_type \<noteq> ''call_command'' then (VNone, cs)
      else (let call_id = VStr (''cmd:'' @ sp_name spec @ '':'' @ take 8 (host_uuid (ev_host env) (cs_draws cs)))
            in (call_id, emit ''command_call_started'' [(''call_id'', call_id),
                  (''command_name'', VStr (sp_name spec)), (''args'', VDict args)]
                  (cs\<lparr>cs_draws := Suc (cs_draws cs)\<rparr>))))"

section \<open>The action classes\<close>

datatype action_class =
    InvalidAction | SendText | EndTurn | Cancel | CallCommand | CallTool | SubmitFormText
  | AnswerApproval | SkipForm | BackForm | SendAttachment

fun class_type :: "action_class \<Rightarrow> string" where
  "class_type InvalidAction = ''invalid''"
| "class_type SendText = ''send_text''"
| "class_type EndTurn = ''end_turn''"
| "class_type Cancel = ''cancel''"
| "class_type CallCommand = ''call_command''"
| "class_type CallTool = ''call_tool''"
| "class_type SubmitFormText = ''submit_form_text''"
| "class_type AnswerApproval = ''answer_approval''"
| "class_type SkipForm = ''skip_form''"
| "class_type BackForm = ''back_form''"
| "class_type SendAttachment = ''send_attachment''"

definition form_actions :: "(string, action_class) pydict" where
  "form_actions = [(''call_command'', CallCommand), (''send_text'', SubmitFormText),
     (''submit_form_text'', SubmitFormText), (''skip_form'', SkipForm), (''back_form'', BackForm),
     (''cancel'', Cancel)]"

definition action_map :: "(string, (string, action_class) pydict) pydict" where
  "action_map =
     [(awaiting_input, [(''send_text'', SendText), (''call_command'', CallCommand),
         (''call_tool'', CallTool), (''send_attachment'', SendAttachment), (''end_turn'', EndTurn)]),
      (filling_command_form, form_actions),
      (filling_tool_form, form_actions),
      (approving_request, [(''send_text'', AnswerApproval), (''answer_approval'', AnswerApproval),
         (''cancel'', Cancel)]),
      (parsing_attachment, [(''cancel'', Cancel)])]"

definition legal_actions_in_phase :: "string \<Rightarrow> string list" where
  "legal_actions_in_phase phase = (case dget action_map phase of None \<Rightarrow> [] | Some d \<Rightarrow> dkeys d)"

definition create_action :: "conv_state \<Rightarrow> string \<Rightarrow> action_class" where
  "create_action cs action_type =
     (case dget action_map (cs_phase cs) of
        None \<Rightarrow> InvalidAction
      | Some d \<Rightarrow> (case dget d action_type of None \<Rightarrow> InvalidAction | Some c \<Rightarrow> c))"

section \<open>Legality\<close>

definition actor_kind :: "conv_state \<Rightarrow> string \<Rightarrow> string" where
  "actor_kind cs actor = (case dget (cs_participants cs) actor of None \<Rightarrow> '''' | Some p \<Rightarrow> pt_kind p)"

text \<open>\<open>None\<close> when legal, else the error code and the reason.\<close>

definition base_legal :: "conv_state \<Rightarrow> string \<Rightarrow> (string \<times> string) option" where
  "base_legal cs actor =
     (if dget (cs_participants cs) actor = None
      then Some (''invalid_action'', ''Unknown participant: '' @ actor @ ''.'')
      else if actor \<noteq> cs_turn_priority cs
      then Some (''wrong_turn'', ''It is not this participant'' @ [CHR 0x27] @ ''s turn.'')
      else None)"

definition is_legal :: "action_class \<Rightarrow> conv_state \<Rightarrow> string \<Rightarrow> (string \<times> string) option" where
  "is_legal c cs actor =
     (if c = InvalidAction then Some (''invalid_action'', ''invalid_action'')
      else (case base_legal cs actor of
          Some e \<Rightarrow> Some e
        | None \<Rightarrow>
            (case dget (cs_participants cs) actor of
               None \<Rightarrow> None
             | Some p \<Rightarrow>
                 (if c \<in> {CallCommand, CallTool} \<and> \<not> allows p (class_type c)
                  then Some (''wrong_actor_type'', pt_kind p @ '' cannot '' @ class_type c @ ''.'')
                  else if c = SendAttachment \<and> \<not> allows p (class_type c)
                  then Some (''wrong_actor_type'', pt_kind p @ '' cannot send attachments.'')
                  else None))))"

section \<open>Text, turns and cancellation\<close>

definition exec_send_text :: "string \<Rightarrow> pyval \<Rightarrow> action_result exec" where
  "exec_send_text actor content =
     xbind (xlift (case content of VStr s \<Rightarrow> Inr content | _ \<Rightarrow> py_get content ''text'' (VStr ''''))) (\<lambda>text cs.
     (let ev = make_event ''message'' (Some actor) [(''text'', text)] cs; cs1 = record_event ev cs in
      xbind (\<lambda>cs. if actor_kind cs actor = ''user'' \<and> cs_phase cs = base_phase
                  then xupdate (switch_priority (Some actor)) cs else xreturn () cs)
        (\<lambda>_. xreturn (ok_result ''send_text'' None [ev] [])) cs1))"

definition exec_end_turn :: "action_result exec" where
  "exec_end_turn cs =
     (let old = cs_turn_priority cs in
      xbind (xupdate (switch_priority (Some old))) (\<lambda>_ cs1.
        (let ev = make_event ''turn_changed'' (Some old)
               [(''from_actor'', VStr old), (''to_actor'', VStr (cs_turn_priority cs1))] cs1
         in (Inr (ok_result ''end_turn'' None [ev] []), record_event ev cs1))) (reset_phase cs))"

definition set_priority_value :: "pyval \<Rightarrow> conv_state \<Rightarrow> conv_state pyres" where
  "set_priority_value v cs = (case v of
      VStr s \<Rightarrow> set_priority s cs | _ \<Rightarrow> Inl (PyExn ''KeyError'' ''Unknown participant''))"

text \<open>\<open>first or second or other_id(actor) or actor\<close>, evaluated from the left.\<close>

definition next_actor :: "pyval \<Rightarrow> pyval \<Rightarrow> string \<Rightarrow> conv_state \<Rightarrow> pyval pyres" where
  "next_actor v w actor cs =
     (if truthy v then Inr v else if truthy w then Inr w
      else rbind (other_id cs (Some actor)) (\<lambda>a. Inr (VStr (if a = [] then actor else a))))"

definition exec_cancel :: "string \<Rightarrow> action_result exec" where
  "exec_cancel actor cs =
     (let frame = top_frame cs in
      xbind (\<lambda>cs. (case frame of
          None \<Rightarrow> (Inr (), cs)
        | Some f \<Rightarrow>
            (if fr_phase f = approving_request then
               xbind (xlift (rbind (py_get (get_or (fr_data f) ''pending'' VNone) ''actor_id'' VNone) (\<lambda>a.
                        next_actor a (get_or (fr_data f) ''previous_priority'' VNone) actor cs)))
                 (\<lambda>who. xupdate (set_priority_value who)) cs
             else (Inr (), cs)))) (\<lambda>_ cs1.
        (let cs2 = (case frame of
               Some f \<Rightarrow> emit_finished (fr_action_type f) (frame_call_id f)
                          (opt_text (fr_name f)) False (VStr ''cancelled'') cs1
             | None \<Rightarrow> cs1);
             ev = make_event ''cancelled'' (Some actor)
               [(''cancelled'', (case frame of None \<Rightarrow> VNone | Some f \<Rightarrow> VStr (fr_action_type f)))] cs2
         in (Inr (ok_result ''cancel'' (Some ''Cancelled.'') [ev] []), record_event ev cs2)))
        (pop_phase cs))"

section \<open>Commands and tools\<close>

definition call_payload :: "pyval \<Rightarrow> (string, pyval) pydict pyres" where
  "call_payload content = (case content of
      VStr s \<Rightarrow> Inr [(''name'', VStr s), (''args'', VDict [])]
    | _ \<Rightarrow> rbind (py_dict content) (\<lambda>d. Inr (if dget d ''args'' = None then dset ''args'' (VDict []) d else d)))"

definition scoped_tool_names :: "conv_state \<Rightarrow> pyval list" where
  "scoped_tool_names cs = (case get_or (cs_cache cs) ''agent_scoped_tool_names'' VNone of
      VList xs \<Rightarrow> xs | _ \<Rightarrow> [])"

definition call_spec :: "environment \<Rightarrow> action_class \<Rightarrow> string \<Rightarrow> (string, pyval) pydict \<Rightarrow> callable_spec exec" where
  "call_spec env c actor payload cs =
     (let nm = get_or payload ''name'' VNone;
          code = (if c = CallCommand then ''unknown_command'' else ''unknown_tool'') in
      xbind (xlift (find_spec env cs actor (class_type c) nm)) (\<lambda>found.
        if truthy nm \<and> found \<noteq> None then xreturn (the found)
        else if c = CallTool \<and> py_in nm (scoped_tool_names cs)
        then xraise code (''Tool not in agent scope: '' @ host_repr (ev_host env) nm @ ''.'') [(''name'', nm)]
        else xraise code (''Unknown '' @ drop 5 (class_type c) @ '': '' @ host_repr (ev_host env) nm @ ''.'')
               [(''name'', nm)]) cs)"

definition supersede_pending_form :: "conv_state \<Rightarrow> conv_state" where
  "supersede_pending_form cs = (case top_frame cs of
      None \<Rightarrow> cs
    | Some f \<Rightarrow>
        (if fr_phase f \<notin> set form_phases then cs
         else pop_phase
           (if truthy (frame_call_id f)
            then emit ''command_call_finished'' [(''call_id'', frame_call_id f),
                   (''command_name'', opt_text (fr_name f)), (''ok'', VBool False),
                   (''error'', VStr ''superseded'')] cs
            else cs)))"

fun validate_steps :: "host \<Rightarrow> (string, pyval) pydict \<Rightarrow> form_step list \<Rightarrow> unit exec" where
  "validate_steps h args [] = xreturn ()"
| "validate_steps h args (s # ss) =
     xbind (xlift (validate h s (get_or args (fs_name s) VNone))) (\<lambda>(ok, reason).
       if ok then validate_steps h args ss
       else xraise ''invalid_input'' (case reason of Some (c # cs') \<Rightarrow> c # cs' | _ \<Rightarrow> ''Invalid input.'')
              [(''field'', VStr (fs_name s))])"

definition validate_args :: "environment \<Rightarrow> callable_spec \<Rightarrow> (string, pyval) pydict \<Rightarrow> unit exec" where
  "validate_args env spec args cs =
     (if dget args ''arg'' \<noteq> None then (Inr (), cs)
      else xbind (xlift (steps_of spec args cs)) (\<lambda>steps.
           xbind (validate_steps (ev_host env) args steps) (\<lambda>_.
           (case sp_validator spec of
              None \<Rightarrow> xreturn ()
            | Some f \<Rightarrow> xbind (xlift (f args)) (\<lambda>(ok, reason).
                if ok then xreturn ()
                else xraise ''invalid_input'' (case reason of Some (c # cs') \<Rightarrow> c # cs' | _ \<Rightarrow> ''Invalid input.'') [])))) cs)"

text \<open>The frame is pushed before the approver is looked up, as in the source.\<close>

definition approval_frame :: "action_class \<Rightarrow> string \<Rightarrow> string \<Rightarrow> callable_spec \<Rightarrow> (string, pyval) pydict \<Rightarrow> phase_frame" where
  "approval_frame c actor approver spec payload =
     \<lparr>fr_phase = approving_request, fr_action_type = ''answer_approval'', fr_actor = approver,
      fr_name = Some (sp_name spec),
      fr_data = [(''type'', VStr ''boolean''), (''title'', VStr (sp_name spec)),
        (''prompt'', VStr (''Approve '' @ sp_name spec @ ''?'')), (''required'', VBool True),
        (''pending'', VDict [(''type'', VStr (class_type c)), (''actor_id'', VStr actor),
          (''content'', VDict payload)])],
      fr_steps = [], fr_step_index = 0, fr_previous_phase = base_phase\<rparr>"

definition request_approval ::
    "action_class \<Rightarrow> string \<Rightarrow> (string, pyval) pydict \<Rightarrow> callable_spec \<Rightarrow> action_result exec" where
  "request_approval c actor payload spec cs =
     xbind (xlift (case sp_approval_actor spec of
              Some (x # xs) \<Rightarrow> Inr (x # xs) | _ \<Rightarrow> other_id cs (Some actor))) (\<lambda>approver cs0.
       xbind (xupdate (set_priority approver)) (\<lambda>_ cs1.
         (let ev = make_event ''approval_requested'' (Some actor)
                [(''name'', VStr (sp_name spec)), (''approver'', VStr approver), (''payload'', VDict payload)] cs1
          in (Inr (ok_result (class_type c) (Some ''Approval required.'') [ev] []), record_event ev cs1)))
         (push_phase (approval_frame c actor approver spec payload) cs0)) cs"

definition fault_text :: "fault \<Rightarrow> string" where
  "fault_text e = (case e of ActionFault a \<Rightarrow> er_message a | PyFault x \<Rightarrow> exn_message x)"

definition calling_phase :: "action_class \<Rightarrow> string" where
  "calling_phase c = (if c = CallCommand then calling_command else calling_tool)"

definition form_phase :: "action_class \<Rightarrow> string" where
  "form_phase c = (if c = CallCommand then filling_command_form else filling_tool_form)"

text \<open>A handler result that reports failure counts as an exception.\<close>

definition handler_outcome :: "conv_state \<Rightarrow> datum \<Rightarrow> fault + datum" where
  "handler_outcome cs v = (case v of
      Nested r \<Rightarrow>
        (if ar_ok r then Inr v
         else Inl (ActionFault (case ar_error r of
             Some e \<Rightarrow> e
           | None \<Rightarrow> make_error cs ''execution_failed''
               (case ar_message r of Some (x # xs) \<Rightarrow> x # xs | _ \<Rightarrow> ''Action failed.'') [])))
    | Plain _ \<Rightarrow> Inr v)"

definition run_handler ::
    "callable_spec \<Rightarrow> string \<Rightarrow> (string, pyval) pydict \<Rightarrow> conv_state \<Rightarrow> (fault + datum) \<times> conv_state" where
  "run_handler spec actor args cs = (case sp_handler spec of
      None \<Rightarrow> (Inr (Plain VNone), cs)
    | Some f \<Rightarrow> (case f cs actor args of
          (Inl e, cs') \<Rightarrow> (Inl e, cs')
        | (Inr v, cs') \<Rightarrow> (handler_outcome cs' v, cs')))"

definition run_callable ::
    "environment \<Rightarrow> action_class \<Rightarrow> string \<Rightarrow> callable_spec \<Rightarrow> (string, pyval) pydict \<Rightarrow> pyval \<Rightarrow> action_result exec" where
  "run_callable env c actor spec args call_id cs =
     (let old_phase = cs_phase cs; cs1 = cs\<lparr>cs_phase := calling_phase c\<rparr> in
      case (if truthy call_id then (call_id, cs1) else emit_started env (class_type c) spec args cs1) of
        (started, cs2) \<Rightarrow>
          (case run_handler spec actor args cs2 of
             (Inl e, cs3) \<Rightarrow>
               (Inl e, reset_phase (emit_finished (class_type c) started (VStr (sp_name spec)) False (VStr (fault_text e)) cs3))
           | (Inr v, cs3) \<Rightarrow>
               (let cs4 = emit_finished (class_type c) started (VStr (sp_name spec)) True VNone (reset_phase cs3);
                    ev = make_event (class_type c) (Some actor) [(''name'', VStr (sp_name spec)),
                           (''args'', VDict args), (''previous_phase'', VStr old_phase)] cs4
                in (Inr (ok_result (class_type c) None [ev] [(''result'', v), (''call_id'', Plain started)]),
                    record_event ev cs4))))"

definition start_form ::
    "environment \<Rightarrow> action_class \<Rightarrow> string \<Rightarrow> callable_spec \<Rightarrow> (string, pyval) pydict \<Rightarrow> pyval \<Rightarrow>
     form_step list \<Rightarrow> action_result exec" where
  "start_form env c actor spec args resumed missing cs =
     (case (if truthy resumed then (resumed, cs) else emit_started env (class_type c) spec args cs) of
        (call_id, cs1) \<Rightarrow>
          (let dat = (''args'', VDict args) # (if truthy call_id then [(''call_id'', call_id)] else []);
               f = \<lparr>fr_phase = form_phase c, fr_action_type = class_type c, fr_actor = actor,
                    fr_name = Some (sp_name spec), fr_data = dat, fr_steps = missing, fr_step_index = 0,
                    fr_previous_phase = base_phase\<rparr>;
               cs2 = push_phase f cs1;
               ev = make_event ''form_started'' (Some actor) [(''name'', VStr (sp_name spec)),
                      (''step'', VStr (fs_name (hd missing))), (''prompt'', VStr (fs_prompt (hd missing)))] cs2
           in (Inr (ok_result (class_type c) None [ev]
                     [(''step'', Plain (VStr (fs_name (hd missing)))), (''call_id'', Plain call_id)]),
               record_event ev cs2)))"

definition exec_call :: "environment \<Rightarrow> action_class \<Rightarrow> string \<Rightarrow> pyval \<Rightarrow> action_result exec" where
  "exec_call env c actor content =
     xbind (xlift (call_payload content)) (\<lambda>payload.
     xbind (call_spec env c actor payload) (\<lambda>spec.
     xbind (xlift (py_dict (get_or payload ''args'' VNone))) (\<lambda>args.
     (let resumed = get_or payload ''_call_id'' VNone in
      xbind (\<lambda>cs. (Inr (), if truthy resumed then cs else supersede_pending_form cs)) (\<lambda>_ cs.
      xbind (xlift (if dget args ''arg'' \<noteq> None then Inr [] else missing_steps spec args cs)) (\<lambda>missing.
        if missing \<noteq> [] \<and> actor_kind cs actor = ''agent'' then
          xraise ''missing_input'' (''Missing required argument(s) for '' @ sp_name spec @ '': '' @
                    join_with '', '' (map fs_name missing) @ ''.'')
            [(''name'', VStr (sp_name spec)), (''fields'', VList (map (\<lambda>s. VStr (fs_name s)) missing))]
        else if missing \<noteq> [] then start_form env c actor spec args resumed missing
        else xbind (validate_args env spec args) (\<lambda>_.
             if sp_require_approval spec \<and> \<not> truthy (get_or payload ''_approved'' VNone)
             then request_approval c actor payload spec
             else run_callable env c actor spec args resumed)) cs)))))"

end
