(* ===== verification/Enact.thy ===== *)
theory Enact
  imports Actions
begin

text \<open>
  The actions that continue a suspended flow (form input, skipping, going back, answering a
  request), attachments, and \<open>enact\<close> itself: legality, execution and the normalisation of
  failures, with the recursion between actions.
\<close>

section \<open>Replaying an action\<close>

text \<open>\<open>create_action(cs, action_type, content, actor).enact()\<close>, as an argument.\<close>

type_synonym resume = "string \<Rightarrow> pyval \<Rightarrow> string option \<Rightarrow> conv_state \<Rightarrow> action_result \<times> conv_state"

fun set_retry :: "string \<Rightarrow> action_result \<Rightarrow> action_result" where
  "set_retry p (Result ok a m d evs err) = Result ok a m d evs (map_option (\<lambda>e. e\<lparr>er_retry_phase := Some p\<rparr>) err)"

fun set_message :: "string \<Rightarrow> action_result \<Rightarrow> action_result" where
  "set_message t (Result ok a m d evs err) =
     Result ok a (case m of Some (c # cs) \<Rightarrow> m | _ \<Rightarrow> Some t) d evs err"

fun prepend_event :: "event \<Rightarrow> action_result \<Rightarrow> action_result" where
  "prepend_event e (Result ok a m d evs err) = Result ok a m d (e # evs) err"

section \<open>Form input\<close>

text \<open>
  The replay of a completed form. When the command fails, its frame goes back on the stack with
  the last field active; the result's error is the object kept in \<open>last_error\<close>, so its retry
  phase changes in both places.
\<close>

definition replay_form :: "resume \<Rightarrow> phase_frame \<Rightarrow> (string, pyval) pydict \<Rightarrow> action_result exec" where
  "replay_form resume f args cs =
     (let pending = [(''name'', opt_text (fr_name f)), (''args'', VDict args)] @
            (if truthy (frame_call_id f) then [(''_call_id'', frame_call_id f)] else [])
      in case resume (fr_action_type f) (VDict pending) (Some (fr_actor f)) (pop_phase cs) of
           (result, cs1) \<Rightarrow>
             (if \<not> ar_ok result \<and> fr_action_type f = ''call_command'' then
                (let f' = f\<lparr>fr_step_index := max 0 (int (length (fr_steps f)) - 1)\<rparr>;
                     cs2 = push_phase f' cs1
                 in (Inr (set_retry (cs_phase cs2) result),
                     cs2\<lparr>cs_last_error := (if ar_error result = None then cs_last_error cs2
                       else map_option (\<lambda>e. e\<lparr>er_retry_phase := Some (cs_phase cs2)\<rparr>) (cs_last_error cs2))\<rparr>))
              else (Inr result, cs1)))"

text \<open>
  Recording a value: it joins the collected arguments, the field joins the history, progress is
  announced and the index moves on. Then either the next missing field becomes active or the
  original action is replayed.
\<close>

definition advance_form ::
    "environment \<Rightarrow> resume \<Rightarrow> string \<Rightarrow> string option \<Rightarrow> string \<Rightarrow> phase_frame \<Rightarrow> form_step \<Rightarrow> pyval \<Rightarrow>
     action_result exec" where
  "advance_form env resume ty msg actor f st value =
     xbind (xlift (frame_args f)) (\<lambda>args0.
     (let args = dset (fs_name st) value args0; f1 = set_data ''args'' (VDict args) f in
      xbind (\<lambda>cs. (Inr (), set_top f1 cs)) (\<lambda>_.
      xbind (xlift (form_history f1)) (\<lambda>hist.
      (let f2 = (set_data ''form_history'' (VList (hist @ [VStr (fs_name st)])) f1)
                  \<lparr>fr_step_index := fr_step_index f + 1\<rparr>
       in
       xbind (\<lambda>cs. (Inr (), emit_progress f2 args (set_top f2 cs))) (\<lambda>_ cs.
       xbind (xlift (find_spec env cs (fr_actor f) (fr_action_type f) (opt_text (fr_name f)))) (\<lambda>spec cs.
       xbind (xlift (missing_of spec args cs)) (\<lambda>missing cs.
         (if missing \<noteq> [] then
            (let cs1 = set_top (f2\<lparr>fr_steps := missing, fr_step_index := 0\<rparr>) cs;
                 ev = make_event ''form_step'' (Some actor) [(''name'', opt_text (fr_name f)),
                        (''step'', VStr (fs_name (hd missing))), (''prompt'', VStr (fs_prompt (hd missing)))] cs1
             in (Inr (ok_result ty msg [ev] [(''step'', Plain (VStr (fs_name (hd missing))))]), record_event ev cs1))
          else replay_form resume f2 args cs)) cs) cs))))))"

definition no_form :: "'a exec" where
  "no_form = xraise ''invalid_action'' ''No form is awaiting input.'' []"

definition exec_submit_form :: "environment \<Rightarrow> resume \<Rightarrow> string \<Rightarrow> pyval \<Rightarrow> action_result exec" where
  "exec_submit_form env resume actor content cs =
     (case top_frame cs of
        None \<Rightarrow> no_form cs
      | Some f \<Rightarrow>
          (case frame_step f of
             None \<Rightarrow> no_form cs
           | Some st \<Rightarrow>
               xbind (xlift (case content of VStr s \<Rightarrow> Inr content | _ \<Rightarrow> py_get content ''text'' VNone)) (\<lambda>text.
               xbind (xlift (validate (ev_host env) st text)) (\<lambda>(ok, reason).
                 if \<not> ok then xraise ''invalid_input''
                     (case reason of Some (c # cs') \<Rightarrow> c # cs' | _ \<Rightarrow> ''Invalid '' @ fs_name st @ ''.'')
                     [(''field'', VStr (fs_name st))]
                 else (case coerce (ev_host env) st text of
                     Inl e \<Rightarrow> xraise ''invalid_input''
                       (fs_name st @ '' must be '' @ fs_type st @ '': '' @ exn_message e) [(''field'', VStr (fs_name st))]
                   | Inr value \<Rightarrow> advance_form env resume ''submit_form_text'' None actor f st value))) cs))"

definition exec_skip_form :: "environment \<Rightarrow> resume \<Rightarrow> string \<Rightarrow> action_result exec" where
  "exec_skip_form env resume actor cs =
     (case top_frame cs of
        None \<Rightarrow> no_form cs
      | Some f \<Rightarrow>
          (case frame_step f of
             None \<Rightarrow> no_form cs
           | Some st \<Rightarrow>
               (if fs_required st then
                  xraise ''invalid_input'' ''Cannot skip a required field.'' [(''field'', VStr (fs_name st))] cs
                else
                  xbind (advance_form env resume ''skip_form'' (Some ''Skipped.'') actor f st (fs_default st)) (\<lambda>r.
                    xreturn (if ar_ok r then set_message ''Skipped.'' r else r)) cs)))"

text \<open>
  Going back forgets the last recorded field and recomputes what is missing. The frame is changed
  in place as the rewind proceeds.
\<close>

definition exec_back_form :: "environment \<Rightarrow> string \<Rightarrow> action_result exec" where
  "exec_back_form env actor cs =
     (let nothing = xraise ''invalid_action'' ''Nothing to go back to.'' [] in
      case top_frame cs of
        None \<Rightarrow> no_form cs
      | Some f \<Rightarrow>
          (case frame_step f of
             None \<Rightarrow> no_form cs
           | Some _ \<Rightarrow>
               xbind (xlift (form_history f)) (\<lambda>hist.
                 if hist = [] then xbind (\<lambda>cs. (Inr (), set_top (set_data ''form_history'' (VList []) f) cs)) (\<lambda>_. nothing)
                 else
                 xbind (xlift (frame_args f)) (\<lambda>args0.
                 (let f1 = set_data ''form_history'' (VList (butlast hist)) f;
                      args = (case last hist of VStr k \<Rightarrow> dpop k args0 | _ \<Rightarrow> args0);
                      f2 = set_data ''args'' (VDict args) f1
                  in
                  xbind (\<lambda>cs. (Inr (), set_top f2 cs)) (\<lambda>_ cs.
                  xbind (xlift (find_spec env cs (fr_actor f) (fr_action_type f) (opt_text (fr_name f)))) (\<lambda>spec cs.
                  xbind (xlift (missing_of spec args cs)) (\<lambda>missing cs.
                    (let f3 = f2\<lparr>fr_steps := missing, fr_step_index := 0\<rparr>;
                         cs1 = emit_progress f3 args (set_top f3 cs)
                     in if missing = [] then nothing cs1
                        else (let ev = make_event ''form_step'' (Some actor) [(''name'', opt_text (fr_name f)),
                                (''step'', VStr (fs_name (hd missing))), (''prompt'', VStr (fs_prompt (hd missing)))] cs1
                              in (Inr (ok_result ''back_form'' (Some ''Back.'') [ev]
                                    [(''step'', Plain (VStr (fs_name (hd missing))))]), record_event ev cs1)))) cs) cs)))) cs))"

section \<open>Answering a request\<close>

definition yes_words :: "string list" where
  "yes_words = [''y'', ''yes'', ''approve'', ''approved'', ''true'', ''1'']"

definition no_words :: "string list" where
  "no_words = [''n'', ''no'', ''deny'', ''denied'', ''false'', ''0'', ''cancel'']"

definition answer_raw :: "pyval \<Rightarrow> pyval" where
  "answer_raw content = (case content of
      VDict d \<Rightarrow> (case dget d ''value'' of Some v \<Rightarrow> v
                 | None \<Rightarrow> (case dget d ''text'' of Some v \<Rightarrow> v | None \<Rightarrow> content))
    | _ \<Rightarrow> content)"

text \<open>\<open>_coerce\<close>: lenient words for a boolean, form semantics for every other type.\<close>

definition answer_step :: "phase_frame \<Rightarrow> form_step pyres" where
  "answer_step f =
     rbind (case get_or (fr_data f) ''enum'' VNone of
         VList xs \<Rightarrow> Inr (Some xs) | v \<Rightarrow> if truthy v then ill_typed ''enum'' else Inr None) (\<lambda>enum.
     Inr ((plain_step (case fr_name f of Some (c # cs) \<Rightarrow> c # cs | _ \<Rightarrow> ''input'') ''''
             (truthy (get_or (fr_data f) ''required'' (VBool True)))
             (case get_or (fr_data f) ''type'' (VStr ''boolean'') of VStr s \<Rightarrow> s | _ \<Rightarrow> ''''))
           \<lparr>fs_enum := enum, fs_default := get_or (fr_data f) ''default'' VNone\<rparr>))"

definition coerce_answer :: "environment \<Rightarrow> phase_frame \<Rightarrow> pyval \<Rightarrow> pyval exec" where
  "coerce_answer env f content =
     (let raw = answer_raw content in
      if pyeq (get_or (fr_data f) ''type'' (VStr ''boolean'')) (VStr ''boolean'') then
        (case raw of
           VBool b \<Rightarrow> xreturn (VBool b)
         | _ \<Rightarrow> (let text = lower (strip (py_str (ev_host env) raw)) in
                if text \<in> set yes_words then xreturn (VBool True)
                else if text \<in> set no_words then xreturn (VBool False)
                else xraise ''invalid_input'' ''Approval needs yes or no.'' []))
      else
        xbind (xlift (answer_step f)) (\<lambda>st.
        xbind (xlift (validate (ev_host env) st raw)) (\<lambda>(ok, reason).
          if \<not> ok then xraise ''invalid_input''
              (case reason of Some (c # cs) \<Rightarrow> c # cs | _ \<Rightarrow> ''Invalid input.'') []
          else xlift (coerce (ev_host env) st raw))))"

definition stale_request :: "phase_frame \<Rightarrow> pyval \<Rightarrow> pyval option" where
  "stale_request f content = (case content of
      VDict d \<Rightarrow>
        (let got = get_or d ''request_id'' VNone; expected = get_or (fr_data f) ''request_id'' VNone
         in if truthy got \<and> truthy expected \<and> \<not> pyeq got expected then Some got else None)
    | _ \<Rightarrow> None)"

definition action_name :: "pyval \<Rightarrow> string pyres" where
  "action_name v = (case v of
      VStr s \<Rightarrow> Inr s
    | VList _ \<Rightarrow> Inl (PyExn ''TypeError'' ''unhashable type'')
    | VDict _ \<Rightarrow> Inl (PyExn ''TypeError'' ''unhashable type'')
    | _ \<Rightarrow> Inr '''')"

text \<open>\<open>dict(v)\<close> without the \<open>or {}\<close>.\<close>

definition strict_dict :: "pyval \<Rightarrow> (string, pyval) pydict pyres" where
  "strict_dict v = (case v of
      VDict d \<Rightarrow> Inr d
    | _ \<Rightarrow> if v = VStr [] \<or> v = VList [] then Inr [] else Inl (PyExn ''TypeError'' ''dict''))"

text \<open>
  The pending actor; \<open>set_priority\<close> has refused anything but the text of a participant or
  nothing at this point.
\<close>

definition actor_of_value :: "pyval \<Rightarrow> string option" where
  "actor_of_value v = (case v of VStr s \<Rightarrow> Some s | _ \<Rightarrow> None)"

definition replay_approved ::
    "resume \<Rightarrow> event \<Rightarrow> (string, pyval) pydict \<Rightarrow> action_result exec" where
  "replay_approved resume ev pending =
     xbind (xlift (rbind (require_key pending ''content'') strict_dict)) (\<lambda>content.
     xbind (xlift (require_key pending ''type'')) (\<lambda>raw_type.
     xbind (xlift (require_key pending ''actor_id'')) (\<lambda>who.
     xbind (xlift (action_name raw_type)) (\<lambda>ty cs.
       (case resume ty (VDict (dset ''_approved'' (VBool True) content)) (actor_of_value who) cs of
          (result, cs1) \<Rightarrow> (Inr (prepend_event ev result), cs1))))))"

text \<open>With the frame popped and priority handed back, the answer is recorded and acted on.\<close>

definition close_request ::
    "resume \<Rightarrow> string \<Rightarrow> phase_frame \<Rightarrow> pyval \<Rightarrow> action_result exec" where
  "close_request resume actor f value cs =
     (let pending = get_or (fr_data f) ''pending'' VNone;
          ev = make_event ''approval_answered'' (Some actor) [(''value'', value),
                 (''approved'', VBool (truthy value)), (''pending'', pending)] cs;
          cs1 = record_event ev cs
      in if truthy pending \<and> pyeq (get_or (fr_data f) ''type'' (VStr ''boolean'')) (VStr ''boolean'') then
           (if \<not> truthy value then
              (Inr (ok_result ''answer_approval'' (Some ''Denied.'') [ev]
                 [(''approved'', Plain (VBool False)), (''value'', Plain (VBool False))]), reset_phase cs1)
            else (case pending of
                VDict p \<Rightarrow> replay_approved resume ev p cs1
              | _ \<Rightarrow> (Inl (PyFault (PyExn ''TypeError'' ''pending'')), cs1)))
         else
           (Inr (ok_result ''answer_approval'' (Some ''Received.'') [ev]
              [(''value'', Plain value), (''approved'', Plain (VBool (truthy value)))]), reset_phase cs1))"

definition answer_with ::
    "resume \<Rightarrow> string \<Rightarrow> phase_frame \<Rightarrow> pyval \<Rightarrow> action_result exec" where
  "answer_with resume actor f value cs =
     xbind (xlift (rbind (py_get (get_or (fr_data f) ''pending'' VNone) ''actor_id'' VNone)
              (\<lambda>a. next_actor a VNone actor cs))) (\<lambda>who.
     xbind (\<lambda>cs. (Inr (), pop_phase cs)) (\<lambda>_.
     xbind (xupdate (set_priority_value who)) (\<lambda>_.
     close_request resume actor f value))) cs"

definition exec_answer :: "environment \<Rightarrow> resume \<Rightarrow> string \<Rightarrow> pyval \<Rightarrow> action_result exec" where
  "exec_answer env resume actor content cs =
     (case top_frame cs of
        None \<Rightarrow> xraise ''invalid_action'' ''No request is pending.'' [] cs
      | Some f \<Rightarrow>
          (if fr_phase f \<noteq> approving_request
           then xraise ''invalid_action'' ''No request is pending.'' [] cs
           else (case stale_request f content of
               Some got \<Rightarrow> xraise ''invalid_input'' ''That request is no longer active.'' [(''request_id'', got)] cs
             | None \<Rightarrow> xbind (coerce_answer env f content) (answer_with resume actor f) cs)))"

section \<open>Attachments\<close>

definition exec_attachment :: "environment \<Rightarrow> string \<Rightarrow> pyval \<Rightarrow> action_result exec" where
  "exec_attachment env actor raw =
     xbind (xlift (py_dict raw)) (\<lambda>content cs.
     (let ext = attachment_extension (ev_host env) content in
      if cs_allowed_extensions cs \<noteq> [] \<and> ext \<notin> set (cs_allowed_extensions cs) then
        xraise ''attachment_not_allowed'' (''.'' @ ext @ '' attachments are not allowed for this model.'')
          [(''extension'', VStr ext)] cs
      else (case (case ev_attachment_parser env of None \<Rightarrow> Inr (VDict content) | Some p \<Rightarrow> p content) of
          Inl e \<Rightarrow> (Inl (PyFault e), reset_phase cs)
        | Inr parsed \<Rightarrow>
            (let att = (case parsed of VDict d \<Rightarrow> get_or d ''attachment'' VNone | _ \<Rightarrow> VNone);
                 cs1 = reset_phase cs;
                 cs2 = (if att = VNone then cs1 else cs1\<lparr>cs_attachments := cs_attachments cs1 @ [att]\<rparr>)
             in xbind (\<lambda>cs. if actor_kind cs actor = ''user'' then xupdate (switch_priority (Some actor)) cs
                            else (Inr (), cs)) (\<lambda>_ cs3.
                (let ev = make_event ''attachment'' (Some actor)
                       [(''attachment'', VDict content), (''parsed'', parsed)] cs3
                 in (Inr (ok_result ''send_attachment'' None [ev] [(''parsed'', Plain parsed)]), record_event ev cs3))) cs2))))"

section \<open>Enacting an action\<close>

definition execute :: "environment \<Rightarrow> resume \<Rightarrow> action_class \<Rightarrow> string \<Rightarrow> pyval \<Rightarrow> action_result exec" where
  "execute env resume c actor content =
     (case c of
        InvalidAction \<Rightarrow> (\<lambda>cs. xraise ''invalid_action'' ''That action is not legal in this phase.''
                            [(''phase'', VStr (cs_phase cs))] cs)
      | SendText \<Rightarrow> exec_send_text actor content
      | EndTurn \<Rightarrow> exec_end_turn
      | Cancel \<Rightarrow> exec_cancel actor
      | CallCommand \<Rightarrow> exec_call env CallCommand actor content
      | CallTool \<Rightarrow> exec_call env CallTool actor content
      | SubmitFormText \<Rightarrow> exec_submit_form env resume actor content
      | AnswerApproval \<Rightarrow> exec_answer env resume actor content
      | SkipForm \<Rightarrow> exec_skip_form env resume actor
      | BackForm \<Rightarrow> exec_back_form env actor
      | SendAttachment \<Rightarrow> exec_attachment env actor content)"

text \<open>The common end of every failure: the error is kept, recorded and returned.\<close>

definition fail_with :: "action_class \<Rightarrow> string \<Rightarrow> action_error \<Rightarrow> conv_state \<Rightarrow> action_result \<times> conv_state" where
  "fail_with c actor e cs =
     (let cs1 = cs\<lparr>cs_last_error := Some e\<rparr>;
          ev = make_event ''error'' (Some actor) [(''error'', VDict (error_to_dict e))] cs1
      in (fail_result (class_type c) e [ev], record_event ev cs1))"

definition fault_error :: "conv_state \<Rightarrow> fault \<Rightarrow> action_error" where
  "fault_error cs e = (case e of
      ActionFault a \<Rightarrow> a
    | PyFault x \<Rightarrow> make_error cs ''execution_failed'' (if exn_message x = [] then exn_type x else exn_message x) [])"

definition enact_once ::
    "environment \<Rightarrow> resume \<Rightarrow> string \<Rightarrow> pyval \<Rightarrow> string option \<Rightarrow> conv_state \<Rightarrow> action_result \<times> conv_state" where
  "enact_once env resume action_type content who cs =
     (let c = create_action cs action_type; actor = actor_or_active cs who in
      case is_legal c cs actor of
        Some (code, reason) \<Rightarrow> fail_with c actor (make_error cs code reason []) cs
      | None \<Rightarrow>
          (case execute env resume c actor content cs of
             (Inr result, cs') \<Rightarrow> (result, cs')
           | (Inl e, cs') \<Rightarrow> fail_with c actor (fault_error cs' e) cs'))"

fun enact_upto ::
    "nat \<Rightarrow> environment \<Rightarrow> string \<Rightarrow> pyval \<Rightarrow> string option \<Rightarrow> conv_state \<Rightarrow> action_result \<times> conv_state" where
  "enact_upto 0 env action_type content who cs =
     fail_with InvalidAction (actor_or_active cs who) (make_error cs ''invalid_action'' ''invalid_action'' []) cs"
| "enact_upto (Suc n) env action_type content who cs =
     enact_once env (enact_upto n env) action_type content who cs"

definition enact ::
    "environment \<Rightarrow> string \<Rightarrow> pyval \<Rightarrow> string option \<Rightarrow> conv_state \<Rightarrow> action_result \<times> conv_state" where
  "enact env action_type content who cs =
     enact_upto (Suc (length (cs_frames cs))) env action_type content who cs"

end
