(* ===== verification/StateMachine.thy ===== *)
theory StateMachine
  imports Enact
begin

text \<open>
  What the conversation state machine keeps: the recursion of \<open>enact\<close> is well founded, the
  phase always names the top of the stack, the turn belongs to a participant, every failure is
  recorded, and the approval gate stands between a guarded handler and its call.
\<close>

section \<open>Enough fuel\<close>

lemma xbind_cong:
  "m cs = m' cs \<Longrightarrow> (\<And>a cs1. m' cs = (Inr a, cs1) \<Longrightarrow> f a cs1 = g a cs1) \<Longrightarrow> xbind m f cs = xbind m' g cs"
  by (auto simp: xbind_def split: prod.splits sum.splits)

lemma xlift_state: "xlift r cs = (x, cs') \<Longrightarrow> cs' = cs"
  by (auto simp: xlift_def split: sum.splits)

lemma xlift_Inr [simp]: "xlift r cs = (Inr a, cs') \<longleftrightarrow> r = Inr a \<and> cs' = cs"
  by (auto simp: xlift_def split: sum.splits)

lemma set_top_frames [simp]: "cs_frames (set_top f cs) = butlast (cs_frames cs) @ [f]"
  by (simp add: set_top_def)

lemma emit_fields [simp]:
  "cs_frames (emit ch p cs) = cs_frames cs" "cs_phase (emit ch p cs) = cs_phase cs"
  "cs_participants (emit ch p cs) = cs_participants cs" "cs_turn_order (emit ch p cs) = cs_turn_order cs"
  "cs_turn_priority (emit ch p cs) = cs_turn_priority cs" "cs_cache (emit ch p cs) = cs_cache cs"
  "cs_last_error (emit ch p cs) = cs_last_error cs" "cs_history (emit ch p cs) = cs_history cs"
  by (simp_all add: emit_def)

lemma emit_progress_fields [simp]:
  "cs_frames (emit_progress f a cs) = cs_frames cs" "cs_phase (emit_progress f a cs) = cs_phase cs"
  "cs_participants (emit_progress f a cs) = cs_participants cs"
  "cs_turn_order (emit_progress f a cs) = cs_turn_order cs"
  "cs_turn_priority (emit_progress f a cs) = cs_turn_priority cs"
  by (simp_all add: emit_progress_def)

lemma pop_phase_frames [simp]: "cs_frames (pop_phase cs) = butlast (cs_frames cs)"
  by (simp add: pop_phase_def Let_def)

text \<open>Two ways of replaying that agree below a height of the stack.\<close>

definition agree_below :: "nat \<Rightarrow> resume \<Rightarrow> resume \<Rightarrow> bool" where
  "agree_below n r r' \<longleftrightarrow> (\<forall>a c w cs. length (cs_frames cs) < n \<longrightarrow> r a c w cs = r' a c w cs)"

lemma replay_form_cong:
  assumes "agree_below (length (cs_frames cs)) r r'" and "cs_frames cs \<noteq> []"
  shows "replay_form r f args cs = replay_form r' f args cs"
proof -
  have "length (cs_frames (pop_phase cs)) < length (cs_frames cs)"
    using assms(2) by (cases "cs_frames cs") simp_all
  with assms(1) show ?thesis by (simp add: replay_form_def agree_below_def)
qed

lemma advance_form_cong:
  assumes "agree_below (length (cs_frames cs)) r r'" and "cs_frames cs \<noteq> []"
  shows "advance_form env r ty msg actor f st v cs = advance_form env r' ty msg actor f st v cs"
proof -
  from assms(2) have pos: "Suc (length (cs_frames cs) - Suc 0) = length (cs_frames cs)"
    by (cases "cs_frames cs") simp_all
  have rf: "replay_form r f args cs' = replay_form r' f args cs'"
    if "length (cs_frames cs') = length (cs_frames cs)" for f args cs'
    by (rule replay_form_cong) (use assms that in auto)
  show ?thesis
    by (simp add: advance_form_def xbind_def xlift_def Let_def pos rf split: sum.split)
qed

lemma exec_submit_cong:
  assumes "agree_below (length (cs_frames cs)) r r'"
  shows "exec_submit_form env r actor content cs = exec_submit_form env r' actor content cs"
    and "exec_skip_form env r actor cs = exec_skip_form env r' actor cs"
proof -
  have ne: "cs_frames cs \<noteq> []" if "top_frame cs = Some f" for f
    using that by (auto simp: top_frame_def split: if_splits)
  show "exec_submit_form env r actor content cs = exec_submit_form env r' actor content cs"
    by (auto simp: exec_submit_form_def xbind_def xlift_def advance_form_cong [OF assms ne] split: option.splits sum.splits)
  show "exec_skip_form env r actor cs = exec_skip_form env r' actor cs"
    by (auto simp: exec_skip_form_def xbind_def advance_form_cong [OF assms ne] split: option.splits)
qed

lemma coerce_answer_state: "coerce_answer env f content cs = (x, cs') \<Longrightarrow> cs' = cs"
  by (auto simp: coerce_answer_def xbind_def xlift_def xreturn_def xraise_def Let_def
      split: if_splits pyval.splits sum.splits prod.splits)

lemma set_priority_value_frames:
  "set_priority_value v cs = Inr cs' \<Longrightarrow> cs' = cs\<lparr>cs_turn_priority := cs_turn_priority cs'\<rparr> \<and>
     dget (cs_participants cs) (cs_turn_priority cs') \<noteq> None \<and> v = VStr (cs_turn_priority cs')"
  by (auto simp: set_priority_value_def set_priority_def split: pyval.splits if_splits)

lemma replay_approved_cong:
  assumes "agree_below n r r'" and "length (cs_frames cs) < n"
  shows "replay_approved r ev p cs = replay_approved r' ev p cs"
  using assms by (simp add: replay_approved_def xbind_def xlift_def agree_below_def split: sum.split)

lemma answer_with_cong:
  assumes "agree_below (length (cs_frames cs)) r r'" and "cs_frames cs \<noteq> []"
  shows "answer_with r actor f v cs = answer_with r' actor f v cs"
proof -
  have ne: "length (butlast (cs_frames cs)) < length (cs_frames cs)"
    using assms(2) by (cases "cs_frames cs") auto
  have ra: "close_request r actor f v cs' = close_request r' actor f v cs'"
    if "cs_frames cs' = butlast (cs_frames cs)" for cs'
    using replay_approved_cong [OF assms(1)] that ne
    by (simp add: close_request_def record_event_def Let_def del: length_butlast split: pyval.split)
  have sp: "cs_frames x = cs_frames c" if "set_priority_value v c = Inr x" for v c x
    using set_priority_value_frames [OF that] by (metis conv_state.select_convs(5) conv_state.update_convs(3) conv_state.surjective)
  show ?thesis
    unfolding answer_with_def xbind_def xlift_def xupdate_def by (auto simp: ra sp split: sum.split prod.split)
qed

lemma exec_answer_cong:
  assumes "agree_below (length (cs_frames cs)) r r'"
  shows "exec_answer env r actor content cs = exec_answer env r' actor content cs"
proof (cases "top_frame cs")
  case None
  then show ?thesis by (simp add: exec_answer_def)
next
  case (Some f)
  then have ne: "cs_frames cs \<noteq> []" by (auto simp: top_frame_def split: if_splits)
  have "xbind (coerce_answer env f content) (answer_with r actor f) cs =
        xbind (coerce_answer env f content) (answer_with r' actor f) cs"
    by (intro xbind_cong refl) (auto dest!: coerce_answer_state intro: answer_with_cong [OF assms ne])
  with Some show ?thesis by (simp add: exec_answer_def split: option.split)
qed

lemma execute_cong:
  "agree_below (length (cs_frames cs)) r r' \<Longrightarrow> execute env r c actor content cs = execute env r' c actor content cs"
  by (cases c) (simp_all add: execute_def exec_submit_cong exec_answer_cong)

lemma enact_once_cong:
  "agree_below (length (cs_frames cs)) r r' \<Longrightarrow> enact_once env r a c w cs = enact_once env r' a c w cs"
  by (simp add: enact_once_def Let_def execute_cong split: option.split)

lemma enact_upto_enough:
  "length (cs_frames cs) < n \<Longrightarrow> length (cs_frames cs) < m \<Longrightarrow>
   enact_upto n env a c w cs = enact_upto m env a c w cs"
proof (induction n arbitrary: m a c w cs)
  case 0
  then show ?case by simp
next
  case (Suc n)
  from Suc.prems(2) obtain m' where m: "m = Suc m'" by (cases m) auto
  have "agree_below (length (cs_frames cs)) (enact_upto n env) (enact_upto m' env)"
  proof (unfold agree_below_def, intro allI impI)
    fix a' c' w' and cs' :: conv_state
    assume "length (cs_frames cs') < length (cs_frames cs)"
    with Suc.prems m show "enact_upto n env a' c' w' cs' = enact_upto m' env a' c' w' cs'"
      by (intro Suc.IH) simp_all
  qed
  from enact_once_cong [OF this] m show ?case by simp
qed

text \<open>The recursion the source writes, without the fuel.\<close>

lemma enact_unfold: "enact env a c w cs = enact_once env (enact env) a c w cs"
proof -
  have "agree_below (length (cs_frames cs)) (enact_upto (length (cs_frames cs)) env) (enact env)"
    unfolding agree_below_def enact_def by (intro allI impI enact_upto_enough) simp_all
  from enact_once_cong [OF this] show ?thesis by (simp add: enact_def)
qed

lemma enact_fuel: "length (cs_frames cs) < n \<Longrightarrow> enact_upto n env a c w cs = enact env a c w cs"
  unfolding enact_def by (rule enact_upto_enough) simp_all

section \<open>The invariant\<close>

text \<open>
  The turn belongs to a participant, and the phase is the base phase exactly as the stack says.
\<close>

definition roster_ok :: "conv_state \<Rightarrow> bool" where
  "roster_ok cs \<longleftrightarrow> cs_turn_order cs = dkeys (cs_participants cs) \<and> distinct (dkeys (cs_participants cs)) \<and>
     cs_turn_priority cs \<in> set (dkeys (cs_participants cs))"

definition stack_ok :: "conv_state \<Rightarrow> bool" where
  "stack_ok cs \<longleftrightarrow> cs_phase cs = (if cs_frames cs = [] then base_phase else fr_phase (last (cs_frames cs)))"

definition conv_ok :: "conv_state \<Rightarrow> bool" where
  "conv_ok cs \<longleftrightarrow> roster_ok cs \<and> stack_ok cs"

lemma roster_ok_simps [simp]:
  "roster_ok (emit ch p cs) = roster_ok cs" "roster_ok (record_event e cs) = roster_ok cs"
  "roster_ok (emit_progress f a cs) = roster_ok cs" "roster_ok (set_top f cs) = roster_ok cs"
  "roster_ok (push_phase f cs) = roster_ok cs" "roster_ok (pop_phase cs) = roster_ok cs"
  "roster_ok (reset_phase cs) = roster_ok cs" "roster_ok (cs\<lparr>cs_phase := ph\<rparr>) = roster_ok cs"
  "roster_ok (cs\<lparr>cs_last_error := le\<rparr>) = roster_ok cs" "roster_ok (cs\<lparr>cs_draws := n\<rparr>) = roster_ok cs"
  "roster_ok (cs\<lparr>cs_attachments := atts\<rparr>) = roster_ok cs"
  "roster_ok (emit_finished t c nm ok err cs) = roster_ok cs"
  by (simp_all add: roster_ok_def emit_def record_event_def emit_progress_def set_top_def push_phase_def
      pop_phase_def reset_phase_def emit_finished_def Let_def)

lemma stack_ok_simps [simp]:
  "stack_ok (emit ch p cs) = stack_ok cs" "stack_ok (record_event e cs) = stack_ok cs"
  "stack_ok (emit_progress f a cs) = stack_ok cs" "stack_ok (push_phase f cs)"
  "stack_ok (pop_phase cs)" "stack_ok (reset_phase cs)"
  "stack_ok (cs\<lparr>cs_last_error := le\<rparr>) = stack_ok cs" "stack_ok (cs\<lparr>cs_draws := n\<rparr>) = stack_ok cs"
  "stack_ok (cs\<lparr>cs_turn_priority := who\<rparr>) = stack_ok cs" "stack_ok (cs\<lparr>cs_attachments := atts\<rparr>) = stack_ok cs"
  "stack_ok (emit_finished t c nm ok err cs) = stack_ok cs"
  by (simp_all add: stack_ok_def emit_def record_event_def emit_progress_def push_phase_def
      pop_phase_def reset_phase_def emit_finished_def Let_def)

lemma stack_ok_set_top:
  "cs_frames cs \<noteq> [] \<Longrightarrow> fr_phase f = fr_phase (last (cs_frames cs)) \<Longrightarrow> stack_ok (set_top f cs) = stack_ok cs"
  by (simp add: stack_ok_def set_top_def)

lemma emit_started_ok [simp]:
  "roster_ok (snd (emit_started env t spec args cs)) = roster_ok cs"
  "stack_ok (snd (emit_started env t spec args cs)) = stack_ok cs"
  "cs_frames (snd (emit_started env t spec args cs)) = cs_frames cs"
  "cs_phase (snd (emit_started env t spec args cs)) = cs_phase cs"
  by (simp_all add: emit_started_def Let_def emit_def roster_ok_def stack_ok_def)

lemma index_of_nth: "index_of x xs = Some i \<Longrightarrow> i < length xs \<and> xs ! i = x"
  by (induction xs arbitrary: i) (auto split: if_splits)

lemma other_id_member:
  assumes "other_id cs actor = Inr a" and "roster_ok cs" and "length (cs_turn_order cs) \<noteq> 1"
  shows "a \<in> set (cs_turn_order cs)"
proof -
  from assms(1,3) obtain i where "a = cs_turn_order cs ! (Suc i mod length (cs_turn_order cs))"
    by (auto simp: other_id_def Let_def split: option.splits)
  moreover have "cs_turn_order cs \<noteq> []" using assms(2) by (auto simp: roster_ok_def)
  ultimately show ?thesis by (simp add: nth_mem)
qed

lemma switch_priority_ok:
  assumes "switch_priority (Some actor) cs = Inr cs'" and "roster_ok cs" and "actor \<in> set (cs_turn_order cs)"
  shows "roster_ok cs' \<and> stack_ok cs' = stack_ok cs \<and> cs_frames cs' = cs_frames cs"
proof -
  from assms(1) obtain a where a: "other_id cs (Some actor) = Inr a" "cs' = cs\<lparr>cs_turn_priority := a\<rparr>"
    by (auto simp: switch_priority_def rbind_Inr)
  have "a \<in> set (cs_turn_order cs)"
  proof (cases "length (cs_turn_order cs) = 1")
    case True
    with a(1) have "a = actor \<or> a = cs_turn_priority cs"
      by (auto simp: other_id_def Let_def actor_or_active_def split: if_splits)
    with assms(2,3) show ?thesis by (elim disjE) (simp_all add: roster_ok_def)
  next
    case False
    from other_id_member [OF a(1) assms(2) this] show ?thesis .
  qed
  with a(2) assms(2) show ?thesis by (simp add: roster_ok_def)
qed

lemma set_priority_ok: "set_priority a cs = Inr cs' \<Longrightarrow> roster_ok cs \<Longrightarrow> roster_ok cs' \<and> stack_ok cs' = stack_ok cs"
proof -
  assume p: "set_priority a cs = Inr cs'" and r: "roster_ok cs"
  from p have "a \<in> set (dkeys (cs_participants cs))"
    by (simp add: set_priority_def map_of_eq_None_iff split: if_splits)
  moreover from p have "cs' = cs\<lparr>cs_turn_priority := a\<rparr>" by (simp add: set_priority_def split: if_splits)
  ultimately show ?thesis using r by (simp add: roster_ok_def)
qed

lemma set_priority_value_ok:
  "set_priority_value v cs = Inr cs' \<Longrightarrow> roster_ok cs \<Longrightarrow> roster_ok cs' \<and> stack_ok cs' = stack_ok cs"
  by (auto simp: set_priority_value_def dest: set_priority_ok split: pyval.splits)

text \<open>A handler may do as it likes to the phase and the stack, but it leaves a valid roster.\<close>

definition handlers_ok :: "environment \<Rightarrow> bool" where
  "handlers_ok env \<longleftrightarrow> (\<forall>actor nm spec f cs who args.
     (dget (ev_commands env actor) nm = Some spec \<or> dget (ev_tools env actor) nm = Some spec) \<longrightarrow>
     sp_handler spec = Some f \<longrightarrow> roster_ok cs \<longrightarrow> roster_ok (snd (f cs who args)))"

definition keeps :: "(conv_state \<Rightarrow> bool) \<Rightarrow> 'a exec \<Rightarrow> bool" where
  "keeps P m \<longleftrightarrow> (\<forall>cs. P cs \<longrightarrow> P (snd (m cs)))"

lemma keeps_xbind: "P cs \<Longrightarrow> P (snd (m cs)) \<Longrightarrow> (\<And>a cs1. m cs = (Inr a, cs1) \<Longrightarrow> P cs1 \<Longrightarrow> P (snd (f a cs1))) \<Longrightarrow>
   P (snd (xbind m f cs))"
  by (cases "m cs") (auto simp: xbind_def split: sum.splits)

lemma xlift_snd [simp]: "snd (xlift r cs) = cs"
  by (simp add: xlift_def split: sum.split)

lemma xraise_snd [simp]: "snd (xraise a b c cs) = cs"
  by (simp add: xraise_def)

lemma xreturn_snd [simp]: "snd (xreturn a cs) = cs"
  by (simp add: xreturn_def)

lemma turn_order_simps [simp]:
  "cs_turn_order (record_event e cs) = cs_turn_order cs" "cs_turn_order (reset_phase cs) = cs_turn_order cs"
  "cs_turn_order (pop_phase cs) = cs_turn_order cs" "cs_turn_order (push_phase f cs) = cs_turn_order cs"
  by (simp_all add: record_event_def reset_phase_def pop_phase_def push_phase_def Let_def)

lemma xupdate_switch_ok:
  assumes "conv_ok cs" and "actor \<in> set (cs_turn_order cs)"
  shows "conv_ok (snd (xupdate (switch_priority (Some actor)) cs))"
  using assms switch_priority_ok [of actor cs]
  by (cases "switch_priority (Some actor) cs") (auto simp: xupdate_def conv_ok_def)

lemma send_text_ok:
  assumes "conv_ok cs" and "actor \<in> set (cs_turn_order cs)"
  shows "conv_ok (snd (exec_send_text actor content cs))"
  unfolding exec_send_text_def Let_def
proof (rule keeps_xbind [of conv_ok, OF assms(1)])
  fix t cs1
  assume "xlift (case content of VStr s \<Rightarrow> Inr content | _ \<Rightarrow> py_get content ''text'' (VStr [])) cs = (Inr t, cs1)"
  then have "cs1 = cs" by simp
  let ?cs = "record_event (make_event ''message'' (Some actor) [(''text'', t)] cs) cs"
  have ok: "conv_ok ?cs" "actor \<in> set (cs_turn_order ?cs)" using assms by (simp_all add: conv_ok_def)
  have k: "conv_ok (snd (if actor_kind ?cs actor = ''user'' \<and> cs_phase ?cs = base_phase
      then xupdate (switch_priority (Some actor)) ?cs else xreturn () ?cs))"
    using ok xupdate_switch_ok [OF ok] by simp
  show "conv_ok (snd (xbind (\<lambda>cs. if actor_kind cs actor = ''user'' \<and> cs_phase cs = base_phase
      then xupdate (switch_priority (Some actor)) cs else xreturn () cs)
      (\<lambda>_. xreturn (ok_result ''send_text'' None [make_event ''message'' (Some actor) [(''text'', t)] cs1] []))
      (record_event (make_event ''message'' (Some actor) [(''text'', t)] cs1) cs1)))"
    unfolding \<open>cs1 = cs\<close> by (rule keeps_xbind [of conv_ok, OF ok(1)], rule k, simp)
qed (use assms in simp)

lemma end_turn_ok:
  assumes "conv_ok cs"
  shows "conv_ok (snd (exec_end_turn cs))"
proof -
  have "conv_ok (reset_phase cs)" "cs_turn_priority cs \<in> set (cs_turn_order (reset_phase cs))"
    using assms by (simp_all add: conv_ok_def) (simp add: roster_ok_def)
  from this(1) xupdate_switch_ok [OF this] show ?thesis
    unfolding exec_end_turn_def Let_def
    by (intro keeps_xbind [of conv_ok]) (simp_all add: conv_ok_def)
qed

lemma cancel_ok:
  assumes "conv_ok cs"
  shows "conv_ok (snd (exec_cancel actor cs))"
proof -
  have p: "conv_ok (pop_phase cs)" using assms by (simp add: conv_ok_def)
  show ?thesis
    unfolding exec_cancel_def Let_def
  proof (rule keeps_xbind [of conv_ok, OF p])
    show "conv_ok (snd (case top_frame cs of None \<Rightarrow> (Inr (), pop_phase cs)
        | Some f \<Rightarrow> if fr_phase f = approving_request
            then xbind (xlift (rbind (py_get (get_or (fr_data f) ''pending'' VNone) ''actor_id'' VNone)
                   (\<lambda>a. next_actor a (get_or (fr_data f) ''previous_priority'' VNone) actor (pop_phase cs))))
                 (\<lambda>who. xupdate (set_priority_value who)) (pop_phase cs)
            else (Inr (), pop_phase cs)))"
      using p by (auto simp: xbind_def xlift_def xupdate_def conv_ok_def dest!: set_priority_value_ok
          split: option.split sum.split)
  qed (auto simp: conv_ok_def split: option.split)
qed

lemma xbind_same: "snd (m cs) = cs \<Longrightarrow> (\<And>a. fst (m cs) = Inr a \<Longrightarrow> snd (f a cs) = cs) \<Longrightarrow> snd (xbind m f cs) = cs"
  by (cases "m cs") (auto simp: xbind_def split: sum.splits)

lemma validate_steps_state [simp]: "snd (validate_steps h args steps cs) = cs"
  by (induction steps) (auto intro!: xbind_same split: if_splits)

lemma validate_args_state [simp]: "snd (validate_args env spec args cs) = cs"
  by (auto simp: validate_args_def intro!: xbind_same split: option.split)

lemma call_spec_state [simp]: "snd (call_spec env c actor payload cs) = cs"
  by (auto simp: call_spec_def Let_def intro!: xbind_same)

lemma call_spec_found:
  "call_spec env c actor payload cs = (Inr spec, cs') \<Longrightarrow>
   find_spec env cs actor (class_type c) (get_or payload ''name'' VNone) = Inr (Some spec) \<and> cs' = cs"
  by (auto simp: call_spec_def Let_def xbind_def xlift_def xreturn_def xraise_def split: sum.splits if_splits)

lemma find_spec_listed:
  "find_spec env cs actor ty nm = Inr (Some spec) \<Longrightarrow>
   \<exists>s. dget (ev_commands env actor) s = Some spec \<or> dget (ev_tools env actor) s = Some spec"
  by (auto simp: find_spec_def Let_def split: if_splits pyval.splits)

lemma supersede_ok [simp]: "conv_ok cs \<Longrightarrow> conv_ok (supersede_pending_form cs)"
  by (simp add: supersede_pending_form_def conv_ok_def split: option.split)

lemma run_handler_roster:
  assumes "handlers_ok env" and "dget (ev_commands env actor) s = Some spec \<or> dget (ev_tools env actor) s = Some spec"
    and "roster_ok cs"
  shows "roster_ok (snd (run_handler spec who args cs))"
proof (cases "sp_handler spec")
  case None
  with assms(3) show ?thesis by (simp add: run_handler_def)
next
  case (Some f)
  with assms have "roster_ok (snd (f cs who args))" unfolding handlers_ok_def by blast
  with Some show ?thesis by (cases "f cs who args") (simp add: run_handler_def split: sum.split)
qed

lemma run_callable_ok:
  assumes "handlers_ok env" and "dget (ev_commands env a) s = Some spec \<or> dget (ev_tools env a) s = Some spec"
    and "roster_ok cs"
  shows "conv_ok (snd (run_callable env c actor spec args call_id cs))"
proof -
  obtain started cs2 where e: "(if truthy call_id then (call_id, cs\<lparr>cs_phase := calling_phase c\<rparr>)
      else emit_started env (class_type c) spec args (cs\<lparr>cs_phase := calling_phase c\<rparr>)) = (started, cs2)"
    by (rule prod.exhaust)
  have "cs2 = snd (if truthy call_id then (call_id, cs\<lparr>cs_phase := calling_phase c\<rparr>)
      else emit_started env (class_type c) spec args (cs\<lparr>cs_phase := calling_phase c\<rparr>))" by (simp add: e)
  then have "roster_ok cs2" using assms(3) by simp
  from run_handler_roster [OF assms(1,2) this, of actor args]
  show ?thesis
    by (cases "run_handler spec actor args cs2")
      (simp add: run_callable_def Let_def e conv_ok_def split: sum.split)
qed

lemma start_form_ok: "conv_ok cs \<Longrightarrow> conv_ok (snd (start_form env c actor spec args resumed missing cs))"
  by (auto simp: start_form_def Let_def conv_ok_def emit_started_def split: prod.split)

lemma request_approval_ok: "conv_ok cs \<Longrightarrow> conv_ok (snd (request_approval c actor payload spec cs))"
  unfolding request_approval_def
  by (auto simp: xbind_def xlift_def xupdate_def conv_ok_def Let_def dest!: set_priority_ok
      split: sum.splits option.splits list.splits)

lemma exec_call_ok:
  assumes "handlers_ok env" and "conv_ok cs"
  shows "conv_ok (snd (exec_call env c actor content cs))"
proof -
  have tail: "conv_ok (snd ((if missing \<noteq> [] \<and> actor_kind cs2 actor = ''agent'' then
          xraise ''missing_input'' (''Missing required argument(s) for '' @ sp_name spec @ '': '' @
                    join_with '', '' (map fs_name missing) @ ''.'')
            [(''name'', VStr (sp_name spec)), (''fields'', VList (map (\<lambda>s. VStr (fs_name s)) missing))]
        else if missing \<noteq> [] then start_form env c actor spec args resumed missing
        else xbind (validate_args env spec args) (\<lambda>_.
             if sp_require_approval spec \<and> \<not> truthy (get_or payload ''_approved'' VNone)
             then request_approval c actor payload spec
             else run_callable env c actor spec args resumed)) cs2))"
    if "conv_ok cs2" and "dget (ev_commands env actor) s = Some spec \<or> dget (ev_tools env actor) s = Some spec"
    for missing cs2 spec args resumed payload s
  proof -
    have "conv_ok (snd (xbind (validate_args env spec args) (\<lambda>_.
             if sp_require_approval spec \<and> \<not> truthy (get_or payload ''_approved'' VNone)
             then request_approval c actor payload spec
             else run_callable env c actor spec args resumed) cs2))"
    proof (rule keeps_xbind [of conv_ok, OF that(1)])
      show "conv_ok (snd (validate_args env spec args cs2))" using that(1) by simp
      show "conv_ok (snd ((if sp_require_approval spec \<and> \<not> truthy (get_or payload ''_approved'' VNone)
             then request_approval c actor payload spec
             else run_callable env c actor spec args resumed) cs1))" if ok: "conv_ok cs1" for cs1
        using request_approval_ok [OF ok]
          run_callable_ok [OF assms(1) \<open>dget (ev_commands env actor) s = Some spec \<or> dget (ev_tools env actor) s = Some spec\<close>]
          ok by (simp add: conv_ok_def)
    qed
    with that(1) start_form_ok show ?thesis by simp
  qed
  show ?thesis
    unfolding exec_call_def Let_def
  proof (rule keeps_xbind [of conv_ok, OF assms(2)], simp add: assms(2),
      rule keeps_xbind [of conv_ok], assumption, simp, rule keeps_xbind [of conv_ok], assumption, simp,
      rule keeps_xbind [of conv_ok], assumption, goal_cases)
    case (1 payload cs1 spec cs2 args cs3)
    then show ?case by simp
  next
    case (2 payload cs1 spec cs2 args cs3 u cs4)
    from 2 call_spec_found find_spec_listed obtain s
      where s: "dget (ev_commands env actor) s = Some spec \<or> dget (ev_tools env actor) s = Some spec" by blast
    show ?case
    proof (rule keeps_xbind [of conv_ok], goal_cases)
      case 1
      from 2 show ?case by simp
    next
      case 2
      from \<open>conv_ok cs4\<close> show ?case by simp
    next
      case (3 missing cs5)
      then have "cs5 = cs4" by simp
      from tail [OF 3(2) s] show ?case unfolding \<open>cs5 = cs4\<close> .
    qed
  qed
qed

definition resume_ok :: "resume \<Rightarrow> bool" where
  "resume_ok r \<longleftrightarrow> (\<forall>a c w cs. conv_ok cs \<longrightarrow> conv_ok (snd (r a c w cs)))"

lemma top_frame_Some: "top_frame cs = Some f \<longleftrightarrow> cs_frames cs \<noteq> [] \<and> f = last (cs_frames cs)"
  by (auto simp: top_frame_def)

lemma conv_ok_retry [simp]: "conv_ok (cs\<lparr>cs_last_error := e\<rparr>) = conv_ok cs"
  by (simp add: conv_ok_def)

lemma replay_form_ok:
  assumes "resume_ok r" and "conv_ok cs"
  shows "conv_ok (snd (replay_form r f args cs))"
proof -
  have "conv_ok (pop_phase cs)" using assms(2) by (simp add: conv_ok_def)
  with assms(1) have k: "conv_ok (snd (r a c w (pop_phase cs)))" for a c w by (simp add: resume_ok_def)
  show ?thesis unfolding replay_form_def Let_def
  proof (split prod.split, intro allI impI)
    fix result cs1
    assume e: "r (fr_action_type f) (VDict ([(''name'', opt_text (fr_name f)), (''args'', VDict args)] @
            (if truthy (frame_call_id f) then [(''_call_id'', frame_call_id f)] else [])))
            (Some (fr_actor f)) (pop_phase cs) = (result, cs1)"
    have "conv_ok cs1" using k by (metis e snd_conv)
    then show "conv_ok (snd (if \<not> ar_ok result \<and> fr_action_type f = ''call_command''
       then (Inr (set_retry (cs_phase (push_phase (f\<lparr>fr_step_index := max 0 (int (length (fr_steps f)) - 1)\<rparr>) cs1)) result),
             push_phase (f\<lparr>fr_step_index := max 0 (int (length (fr_steps f)) - 1)\<rparr>) cs1
             \<lparr>cs_last_error := if ar_error result = None
                then cs_last_error (push_phase (f\<lparr>fr_step_index := max 0 (int (length (fr_steps f)) - 1)\<rparr>) cs1)
                else map_option (\<lambda>e. e\<lparr>er_retry_phase := Some (cs_phase (push_phase (f\<lparr>fr_step_index := max 0 (int (length (fr_steps f)) - 1)\<rparr>) cs1))\<rparr>)
                  (cs_last_error (push_phase (f\<lparr>fr_step_index := max 0 (int (length (fr_steps f)) - 1)\<rparr>) cs1))\<rparr>)
       else (Inr result, cs1)))"
      by (simp add: conv_ok_def)
  qed
qed

lemma advance_form_ok:
  assumes "resume_ok r" and "conv_ok cs" and "top_frame cs = Some f"
  shows "conv_ok (snd (advance_form env r ty msg actor f st v cs))"
proof -
  from assms(3) have ne: "cs_frames cs \<noteq> []" and f: "last (cs_frames cs) = f" by (simp_all add: top_frame_Some)
  have st: "conv_ok (set_top g cs)" if "fr_phase g = fr_phase f" for g
    using assms(2) ne f that by (simp add: conv_ok_def stack_ok_set_top)
  have st2: "conv_ok (set_top g' (set_top g cs))" if "fr_phase g = fr_phase f" "fr_phase g' = fr_phase f" for g g'
    using st [OF that(1)] that by (simp add: conv_ok_def stack_ok_set_top)
  have em: "conv_ok (emit_progress g args cs') = conv_ok cs'" "conv_ok (record_event e cs') = conv_ok cs'" for g args e cs'
    by (simp_all add: conv_ok_def)
  have st3: "conv_ok (set_top g'' (emit_progress h args (set_top g' (set_top g cs))))"
    if "fr_phase g = fr_phase f" "fr_phase g' = fr_phase f" "fr_phase g'' = fr_phase f" for g g' g'' h args
    using st2 [OF that(1,2)] that by (simp add: conv_ok_def stack_ok_set_top)
  have ph: "fr_phase (set_data k v g) = fr_phase g" for k v g by (simp add: set_data_def)
  show ?thesis
    using assms(2) replay_form_ok [OF assms(1)]
    by (simp add: advance_form_def Let_def xbind_def xlift_def st st2 st3 em ph split: sum.split)
qed

lemma submit_form_ok:
  assumes "resume_ok r" and "conv_ok cs"
  shows "conv_ok (snd (exec_submit_form env r actor content cs))"
    and "conv_ok (snd (exec_skip_form env r actor cs))"
proof -
  show "conv_ok (snd (exec_submit_form env r actor content cs))"
    using assms(2) advance_form_ok [OF assms]
    by (auto simp: exec_submit_form_def no_form_def xbind_def xlift_def xraise_def split: option.split sum.split)
  show "conv_ok (snd (exec_skip_form env r actor cs))"
  proof (cases "top_frame cs")
    case None
    with assms(2) show ?thesis by (simp add: exec_skip_form_def no_form_def)
  next
    case (Some f)
    have "conv_ok (snd (xbind (advance_form env r ''skip_form'' (Some ''Skipped.'') actor f st (fs_default st)) (\<lambda>r.
        xreturn (if ar_ok r then set_message ''Skipped.'' r else r)) cs))" for st
      by (rule keeps_xbind [of conv_ok, OF assms(2)], rule advance_form_ok [OF assms Some], simp)
    with Some assms(2) show ?thesis by (simp add: exec_skip_form_def no_form_def split: option.split)
  qed
qed

lemma back_form_ok:
  assumes "conv_ok cs"
  shows "conv_ok (snd (exec_back_form env actor cs))"
proof (cases "top_frame cs")
  case None
  with assms show ?thesis by (simp add: exec_back_form_def no_form_def)
next
  case (Some f)
  then have ne: "cs_frames cs \<noteq> []" and f: "last (cs_frames cs) = f" by (simp_all add: top_frame_Some)
  have st: "conv_ok (set_top g cs)" if "fr_phase g = fr_phase f" for g
    using assms ne f that by (simp add: conv_ok_def stack_ok_set_top)
  have st2: "conv_ok (set_top g' (set_top g cs))" if "fr_phase g = fr_phase f" "fr_phase g' = fr_phase f" for g g'
    using st [OF that(1)] that by (simp add: conv_ok_def stack_ok_set_top)
  have em: "conv_ok (emit_progress g args cs') = conv_ok cs'" "conv_ok (record_event e cs') = conv_ok cs'" for g args e cs'
    by (simp_all add: conv_ok_def)
  have ph: "fr_phase (set_data k v g) = fr_phase g" for k v g by (simp add: set_data_def)
  show ?thesis
    using assms
    by (simp add: exec_back_form_def Some Let_def no_form_def xbind_def xlift_def xraise_def st st2 em ph
        split: option.split sum.split)
qed

lemma close_request_ok:
  assumes "resume_ok r" and "conv_ok cs"
  shows "conv_ok (snd (close_request r actor f v cs))"
proof -
  have "conv_ok (record_event e cs)" for e using assms(2) by (simp add: conv_ok_def)
  moreover have "conv_ok (snd (replay_approved r ev p cs'))" if "conv_ok cs'" for ev p cs'
    using that assms(1) by (auto simp: replay_approved_def xbind_def xlift_def resume_ok_def split: sum.split prod.split)
      (metis snd_conv)
  moreover have "conv_ok (reset_phase cs')" if "conv_ok cs'" for cs' using that by (simp add: conv_ok_def)
  ultimately show ?thesis by (simp add: close_request_def Let_def split: pyval.split)
qed

lemma answer_ok:
  assumes "resume_ok r" and "conv_ok cs"
  shows "conv_ok (snd (exec_answer env r actor content cs))"
proof -
  have p: "conv_ok (pop_phase cs)" using assms(2) by (simp add: conv_ok_def)
  have sp: "conv_ok cs'" if "set_priority_value w (pop_phase cs) = Inr cs'" for w cs'
    using set_priority_value_ok [OF that] p by (simp add: conv_ok_def)
  have aw: "conv_ok (snd (answer_with r actor f v cs))" for f v
    using assms(2) p sp close_request_ok [OF assms(1)]
    by (simp add: answer_with_def xbind_def xlift_def xupdate_def split: sum.split)
  have "conv_ok (snd (xbind (coerce_answer env f content) (answer_with r actor f) cs))" for f
    by (rule keeps_xbind [of conv_ok, OF assms(2)])
      (cases "coerce_answer env f content cs"; use assms(2) aw in \<open>auto dest: coerce_answer_state\<close>)+
  with assms(2) show ?thesis by (simp add: exec_answer_def split: option.split)
qed

lemma attachment_ok:
  assumes "conv_ok cs" and "actor \<in> set (cs_turn_order cs)"
  shows "conv_ok (snd (exec_attachment env actor raw cs))"
proof -
  have r: "conv_ok (reset_phase cs)" "actor \<in> set (cs_turn_order (reset_phase cs))"
    using assms by (simp_all add: conv_ok_def)
  have "conv_ok (snd (xbind (\<lambda>cs. if actor_kind cs actor = ''user'' then xupdate (switch_priority (Some actor)) cs
           else (Inr (), cs)) (\<lambda>_ cs3. (Inr (g cs3), record_event (e cs3) cs3)) cs'))"
    if "conv_ok cs'" "actor \<in> set (cs_turn_order cs')" for cs' and g :: "conv_state \<Rightarrow> action_result" and e
    using that xupdate_switch_ok [OF that]
    by (intro keeps_xbind [of conv_ok]) (simp_all add: conv_ok_def)
  moreover have "conv_ok (cs'\<lparr>cs_attachments := a\<rparr>) = conv_ok cs'" for cs' a by (simp add: conv_ok_def)
  ultimately show ?thesis using assms(1) r
    by (simp add: exec_attachment_def Let_def xbind_def [of "xlift _"] xlift_def split: sum.split)
qed

lemma execute_ok:
  assumes "handlers_ok env" and "resume_ok r" and "conv_ok cs" and "actor \<in> set (cs_turn_order cs)"
  shows "conv_ok (snd (execute env r c actor content cs))"
  using assms
  by (cases c) (simp_all add: execute_def send_text_ok end_turn_ok cancel_ok exec_call_ok submit_form_ok
      answer_ok back_form_ok attachment_ok)

lemma legal_actor: "is_legal c cs actor = None \<Longrightarrow> actor = cs_turn_priority cs \<and> c \<noteq> InvalidAction"
  by (auto simp: is_legal_def base_legal_def split: if_splits option.splits)

lemma fail_with_ok [simp]: "conv_ok (snd (fail_with c actor e cs)) = conv_ok cs"
  by (simp add: fail_with_def Let_def conv_ok_def)

lemma enact_once_ok:
  assumes "handlers_ok env" and "resume_ok r" and "conv_ok cs"
  shows "conv_ok (snd (enact_once env r a c w cs))"
proof (cases "is_legal (create_action cs a) cs (actor_or_active cs w)")
  case (Some e)
  with assms(3) show ?thesis by (cases e) (simp add: enact_once_def Let_def)
next
  case None
  from legal_actor [OF this] assms(3) have "actor_or_active cs w \<in> set (cs_turn_order cs)"
    by (simp add: conv_ok_def roster_ok_def)
  from execute_ok [OF assms this, of "create_action cs a" c] None show ?thesis
    by (cases "execute env r (create_action cs a) (actor_or_active cs w) c cs")
      (auto simp: enact_once_def Let_def split: sum.split)
qed

lemma enact_upto_ok: "handlers_ok env \<Longrightarrow> resume_ok (enact_upto n env)"
proof (induction n)
  case 0
  then show ?case by (simp add: resume_ok_def)
next
  case (Suc n)
  then show ?case by (simp add: resume_ok_def enact_once_ok)
qed

lemma enact_ok: "handlers_ok env \<Longrightarrow> conv_ok cs \<Longrightarrow> conv_ok (snd (enact env a c w cs))"
  using enact_upto_ok [of env "Suc (length (cs_frames cs))"] unfolding enact_def resume_ok_def by blast

end
