(* ===== verification/Flows.thy ===== *)
theory Flows
  imports StateMachine
begin

text \<open>
  What the flows of the conversation state machine guarantee: failures are reported, illegal
  actions are isolated, guarded calls wait for their approver, and a form hands the values the
  user gave to the command it was opened for.
\<close>

section \<open>Failures are reported\<close>

text \<open>An unsuccessful result carries the error the state remembers, and its event closes the log.\<close>

definition reported :: "action_result \<Rightarrow> conv_state \<Rightarrow> bool" where
  "reported r cs \<longleftrightarrow> ar_ok r \<or>
     (\<exists>e. ar_error r = Some e \<and> cs_last_error cs = Some e \<and> ar_message r = Some (er_message e) \<and>
          cs_history cs \<noteq> [] \<and> dget (last (cs_history cs)) ''type'' = Some (VStr ''error''))"

definition reports :: "action_result exec \<Rightarrow> bool" where
  "reports m \<longleftrightarrow> (\<forall>cs r cs'. m cs = (Inr r, cs') \<longrightarrow> reported r cs')"

lemma reported_ok [simp]: "reported (ok_result a m e d) cs"
  by (simp add: reported_def ok_result_def)

lemma reports_xbind: "(\<And>a. reports (f a)) \<Longrightarrow> reports (xbind m f)"
  by (auto simp: reports_def xbind_def split: prod.splits sum.splits)

lemma reports_xraise [simp]: "reports (xraise a b c)"
  by (simp add: reports_def xraise_def)

lemma reports_return [simp]: "reports (xreturn (ok_result a m e d))"
  by (simp add: reports_def xreturn_def)

lemma reports_ok [simp]: "reports (\<lambda>cs. (Inr (ok_result a (m cs) (e cs) (d cs)), g cs))"
  by (simp add: reports_def)

lemma make_event_type:
  "''type'' \<notin> set (map fst extra) \<Longrightarrow> dget (make_event ty actor extra cs) ''type'' = Some (VStr ty)"
proof -
  have "''type'' \<notin> set (map fst extra) \<Longrightarrow>
      dget (fold (\<lambda>(k, v) d. dset k v d) extra d0) ''type'' = dget d0 ''type''" for d0 :: event
    by (induction extra arbitrary: d0) auto
  then show "''type'' \<notin> set (map fst extra) \<Longrightarrow> ?thesis" by (simp add: make_event_def)
qed

lemma fail_with_reported: "fail_with c actor e cs = (r, cs') \<Longrightarrow> reported r cs'"
proof -
  assume f: "fail_with c actor e cs = (r, cs')"
  have "dget (make_event ''error'' (Some actor) [(''error'', VDict (error_to_dict e))] (cs\<lparr>cs_last_error := Some e\<rparr>))
      ''type'' = Some (VStr ''error'')" by (rule make_event_type) simp
  with f show ?thesis by (auto simp: fail_with_def Let_def reported_def fail_result_def record_event_def)
qed

definition resume_reports :: "resume \<Rightarrow> bool" where
  "resume_reports r \<longleftrightarrow> (\<forall>a c w cs res cs'. r a c w cs = (res, cs') \<longrightarrow> reported res cs')"

lemma replay_form_reports: "resume_reports r \<Longrightarrow> reports (replay_form r f args)"
proof -
  assume a: "resume_reports r"
  have "reported (set_retry p res) (cs\<lparr>cs_last_error := if ar_error res = None then cs_last_error cs
      else map_option (\<lambda>e. e\<lparr>er_retry_phase := Some p\<rparr>) (cs_last_error cs)\<rparr>)" if "reported res cs" for p res cs
    using that by (cases res) (auto simp: reported_def)
  moreover have "reported res (push_phase g cs) = reported res cs" for res g cs
    by (simp add: reported_def push_phase_def)
  ultimately show ?thesis using a
    by (auto simp: reports_def replay_form_def Let_def resume_reports_def split: prod.splits if_splits)
qed

lemma advance_form_reports: "resume_reports r \<Longrightarrow> reports (advance_form env r ty msg actor f st v)"
  using replay_form_reports [of r]
  by (auto simp: advance_form_def reports_def xbind_def xlift_def Let_def split: sum.splits if_splits)

lemma exec_call_reports: "reports (exec_call env c actor content)"
proof -
  have s: "reports (start_form env c actor spec args resumed missing)" for spec args resumed missing
    by (auto simp: reports_def start_form_def Let_def split: prod.splits)
  have q: "reports (request_approval c actor payload spec)" for payload spec
    by (auto simp: reports_def request_approval_def xbind_def xlift_def xupdate_def Let_def split: sum.splits)
  have u: "reports (run_callable env c actor spec args call_id)" for spec args call_id
    by (auto simp: reports_def run_callable_def Let_def split: prod.splits sum.splits)
  have h: "reports (\<lambda>cs. f cs cs)" if "\<And>cs0. reports (f cs0)" for f :: "conv_state \<Rightarrow> action_result exec"
    using that by (simp add: reports_def)
  have k: "reports (if missing \<noteq> [] \<and> P then xraise a b d
      else if missing \<noteq> [] then start_form env c actor spec args resumed missing
      else xbind (validate_args env spec args) (\<lambda>_. if Q then request_approval c actor payload spec
             else run_callable env c actor spec args resumed))" for missing P a b d spec args resumed Q payload
    using s q u by (simp add: reports_xbind)
  show ?thesis
    unfolding exec_call_def Let_def
    by (rule reports_xbind, rule reports_xbind, rule reports_xbind, rule reports_xbind, rule h,
        rule reports_xbind, rule k)
qed

lemma execute_reports:
  assumes "resume_reports r"
  shows "reports (execute env r c actor content)"
proof (cases c)
  case SendText
  then show ?thesis
    by (auto simp: execute_def exec_send_text_def reports_def xbind_def xlift_def xupdate_def xreturn_def Let_def
        split: sum.splits if_splits)
next
  case EndTurn
  then show ?thesis
    by (auto simp: execute_def exec_end_turn_def reports_def xbind_def xupdate_def Let_def split: sum.splits)
next
  case Cancel
  then show ?thesis
    by (auto simp: execute_def exec_cancel_def reports_def xbind_def Let_def split: sum.splits prod.splits)
next
  case SubmitFormText
  with advance_form_reports [OF assms] show ?thesis
    by (auto simp: execute_def exec_submit_form_def reports_def no_form_def xraise_def xbind_def xlift_def
        split: sum.splits option.splits if_splits)
next
  case SkipForm
  have "reported (if ar_ok x then set_message ''Skipped.'' x else x) cs" if "reported x cs" for x cs
    using that by (cases x) (auto simp: reported_def)
  with SkipForm advance_form_reports [OF assms] show ?thesis
    by (fastforce simp: execute_def exec_skip_form_def reports_def no_form_def xraise_def xbind_def xreturn_def
        split: sum.splits option.splits if_splits prod.splits)
next
  case AnswerApproval
  have p: "reported (prepend_event e x) cs = reported x cs" for e x cs
    by (cases x) (simp add: reported_def)
  have "reports (replay_approved r ev d)" for ev d
    using assms unfolding replay_approved_def
    by (intro reports_xbind) (auto simp: reports_def p resume_reports_def split: prod.splits)
  then have "reports (close_request r actor f v)" for f v
    by (auto simp: close_request_def reports_def Let_def split: if_splits pyval.splits)
  then have "reports (answer_with r actor f v)" for f v
    by (auto simp: answer_with_def reports_def xbind_def split: prod.splits sum.splits)
  with AnswerApproval show ?thesis
    by (auto simp: execute_def exec_answer_def reports_def xbind_def xraise_def
        split: option.splits if_splits prod.splits sum.splits)
next
  case BackForm
  then show ?thesis
    by (auto simp: execute_def exec_back_form_def reports_def no_form_def xraise_def xbind_def xlift_def Let_def
        split: option.splits sum.splits if_splits)
next
  case SendAttachment
  then show ?thesis
    by (auto simp: execute_def exec_attachment_def reports_def xbind_def xlift_def xraise_def Let_def
        split: sum.splits if_splits prod.splits option.splits)
qed (simp_all add: execute_def exec_call_reports, simp add: reports_def xraise_def)

lemma enact_upto_reports: "resume_reports (enact_upto n env)"
proof (induction n)
  case 0
  then show ?case by (auto simp: resume_reports_def intro: fail_with_reported)
next
  case (Suc n)
  from execute_reports [OF this] show ?case
    by (fastforce simp: resume_reports_def enact_once_def Let_def reports_def
        split: option.splits prod.splits sum.splits dest: fail_with_reported)
qed

lemma enact_reported: "enact env a c w cs = (r, cs') \<Longrightarrow> reported r cs'"
  using enact_upto_reports unfolding enact_def resume_reports_def by blast

section \<open>Illegal actions\<close>

text \<open>An action that is not legal leaves only a trace of the refusal.\<close>

lemma illegal_isolated:
  assumes "is_legal (create_action cs a) cs (actor_or_active cs w) = Some (code, reason)"
    and "enact env a c w cs = (r, cs')"
  shows "\<not> ar_ok r" and "ar_error r = Some (make_error cs code reason [])"
    and "\<exists>ev. cs' = cs\<lparr>cs_last_error := Some (make_error cs code reason []), cs_history := cs_history cs @ [ev]\<rparr>"
proof -
  from assms have f: "fail_with (create_action cs a) (actor_or_active cs w) (make_error cs code reason []) cs = (r, cs')"
    by (simp add: enact_unfold enact_once_def Let_def)
  then show "\<not> ar_ok r" and "ar_error r = Some (make_error cs code reason [])"
    and "\<exists>ev. cs' = cs\<lparr>cs_last_error := Some (make_error cs code reason []), cs_history := cs_history cs @ [ev]\<rparr>"
    by (auto simp: fail_with_def Let_def fail_result_def record_event_def)
qed

lemma wrong_turn_refused:
  assumes "dget (cs_participants cs) actor \<noteq> None" and "actor \<noteq> []" and "actor \<noteq> cs_turn_priority cs"
    and "create_action cs a \<noteq> InvalidAction"
  shows "is_legal (create_action cs a) cs (actor_or_active cs (Some actor)) =
      Some (''wrong_turn'', ''It is not this participant'' @ [CHR 0x27] @ ''s turn.'')"
  using assms by (simp add: is_legal_def base_legal_def actor_or_active_def)

section \<open>The approval gate\<close>

text \<open>
  A guarded call that is not yet approved does the same whatever its handler would do: the handler
  is not reached.
\<close>

lemma steps_of_handler [simp]: "steps_of (spec\<lparr>sp_handler := h\<rparr>) = steps_of spec"
  by (simp add: fun_eq_iff steps_of_def split: option.split)

lemma missing_steps_handler [simp]: "missing_steps (spec\<lparr>sp_handler := h\<rparr>) = missing_steps spec"
  by (simp add: fun_eq_iff missing_steps_def)

lemma validate_args_handler:
  "ev_host env' = ev_host env \<Longrightarrow> validate_args env' (spec\<lparr>sp_handler := h\<rparr>) args = validate_args env spec args"
  by (simp add: fun_eq_iff validate_args_def)

lemma start_form_handler:
  "ev_host env' = ev_host env \<Longrightarrow>
   start_form env' c actor (spec\<lparr>sp_handler := h\<rparr>) args call_id missing = start_form env c actor spec args call_id missing"
  by (simp add: fun_eq_iff start_form_def emit_started_def Let_def cong: if_cong)

lemma request_approval_handler:
  "request_approval c actor payload (spec\<lparr>sp_handler := h\<rparr>) = request_approval c actor payload spec"
  by (simp add: fun_eq_iff request_approval_def approval_frame_def Let_def)

text \<open>The part of a call after its specification and arguments are known.\<close>

definition call_with ::
    "environment \<Rightarrow> action_class \<Rightarrow> string \<Rightarrow> (string, pyval) pydict \<Rightarrow> callable_spec \<Rightarrow> (string, pyval) pydict \<Rightarrow>
     action_result exec" where
  "call_with env c actor payload spec args cs =
     (let resumed = get_or payload ''_call_id'' VNone;
          cs1 = (if truthy resumed then cs else supersede_pending_form cs)
      in xbind (xlift (if dget args ''arg'' \<noteq> None then Inr [] else missing_steps spec args cs1)) (\<lambda>missing.
           if missing \<noteq> [] \<and> actor_kind cs1 actor = ''agent'' then
             xraise ''missing_input'' (''Missing required argument(s) for '' @ sp_name spec @ '': '' @
                       join_with '', '' (map fs_name missing) @ ''.'')
               [(''name'', VStr (sp_name spec)), (''fields'', VList (map (\<lambda>s. VStr (fs_name s)) missing))]
           else if missing \<noteq> [] then start_form env c actor spec args resumed missing
           else xbind (validate_args env spec args) (\<lambda>_.
                if sp_require_approval spec \<and> \<not> truthy (get_or payload ''_approved'' VNone)
                then request_approval c actor payload spec
                else run_callable env c actor spec args resumed)) cs1)"

lemma exec_call_with:
  assumes "call_payload content = Inr payload"
    and "find_spec env cs actor (class_type c) (get_or payload ''name'' VNone) = Inr (Some spec)"
    and "truthy (get_or payload ''name'' VNone)"
    and "py_dict (get_or payload ''args'' VNone) = Inr args"
  shows "exec_call env c actor content cs = call_with env c actor payload spec args cs"
proof -
  have s: "call_spec env c actor payload cs = (Inr spec, cs)"
    using assms(2,3) by (simp add: call_spec_def Let_def xbind_def xlift_def xreturn_def)
  have b: "xbind m f cs = f a cs'" if "m cs = (Inr a, cs')"
    for m :: "'a exec" and f :: "'a \<Rightarrow> action_result exec" and a cs cs'
    using that by (simp add: xbind_def)
  have l: "xlift (Inr a) cs = (Inr a, cs)" for a :: 'z and cs by (simp add: xlift_def)
  have s': "xbind (call_spec env c actor payload) f cs = f spec cs" for f :: "callable_spec \<Rightarrow> action_result exec"
    using s by (simp add: xbind_def)
  have l': "xbind (xlift (Inr a)) f cs = f a cs" for a :: 'z and f :: "'z \<Rightarrow> action_result exec" and cs
    by (simp add: xbind_def xlift_def)
  have u: "xbind (\<lambda>cs. (Inr (), g cs)) f cs = f () (g cs)" for g and f :: "unit \<Rightarrow> action_result exec" and cs
    by (simp add: xbind_def)
  show ?thesis
    unfolding exec_call_def assms(1) l' s' assms(4) call_with_def Let_def u by (rule refl)
qed

lemma guarded_call:
  assumes "sp_require_approval spec" and "\<not> truthy (get_or payload ''_approved'' VNone)"
    and "ev_host env' = ev_host env"
  shows "call_with env' c actor payload (spec\<lparr>sp_handler := h\<rparr>) args cs = call_with env c actor payload spec args cs"
  unfolding call_with_def Let_def
  by (simp add: assms start_form_handler [OF assms(3)] validate_args_handler [OF assms(3)] request_approval_handler
      cong: if_cong)

text \<open>Where a guarded call stops: at its form, or with the approver at turn and the call on hold.\<close>

lemma request_approval_Inr:
  assumes "request_approval c actor payload spec cs = (Inr r, cs')"
  obtains approver where "ar_ok r" "cs_phase cs' = approving_request" "cs_turn_priority cs' = approver"
    "dget (cs_participants cs) approver \<noteq> None"
    "cs_frames cs' = cs_frames cs @ [(approval_frame c actor approver spec payload)\<lparr>fr_previous_phase := cs_phase cs\<rparr>]"
    "sp_approval_actor spec = Some approver \<or> other_id cs (Some actor) = Inr approver"
proof -
  from assms obtain approver cs1 where
    a: "(case sp_approval_actor spec of Some (x # xs) \<Rightarrow> Inr (x # xs) | _ \<Rightarrow> other_id cs (Some actor)) = Inr approver"
    and p: "set_priority approver (push_phase (approval_frame c actor approver spec payload) cs) = Inr cs1"
    and r: "r = ok_result (class_type c) (Some ''Approval required.'')
        [make_event ''approval_requested'' (Some actor) [(''name'', VStr (sp_name spec)),
          (''approver'', VStr approver), (''payload'', VDict payload)] cs1] []"
    and cs': "cs' = record_event (make_event ''approval_requested'' (Some actor) [(''name'', VStr (sp_name spec)),
          (''approver'', VStr approver), (''payload'', VDict payload)] cs1) cs1"
    by (auto simp: request_approval_def xbind_def xlift_def xupdate_def Let_def split: sum.splits)
  from p have c1: "cs1 = (push_phase (approval_frame c actor approver spec payload) cs)\<lparr>cs_turn_priority := approver\<rparr>"
    and d: "dget (cs_participants cs) approver \<noteq> None"
    by (auto simp: set_priority_def push_phase_def split: if_splits)
  show thesis
  proof (rule that)
    show "ar_ok r" by (simp add: r ok_result_def)
    show "dget (cs_participants cs) approver \<noteq> None" by (rule d)
    show "sp_approval_actor spec = Some approver \<or> other_id cs (Some actor) = Inr approver"
      using a by (auto split: option.splits list.splits)
  qed (simp_all add: cs' c1 record_event_def push_phase_def approval_frame_def)
qed

lemma xlift_bind: "xbind (xlift m) f cs = (case m of Inl e \<Rightarrow> (Inl (PyFault e), cs) | Inr a \<Rightarrow> f a cs)"
  by (simp add: xbind_def xlift_def split: sum.split)

lemma guarded_call_stops:
  assumes "sp_require_approval spec" and "\<not> truthy (get_or payload ''_approved'' VNone)"
    and "call_with env c actor payload spec args cs = (Inr r, cs')"
  shows "cs_phase cs' = form_phase c \<or>
    (cs_phase cs' = approving_request \<and>
     (\<exists>f. top_frame cs' = Some f \<and> fr_phase f = approving_request \<and> fr_actor f = cs_turn_priority cs' \<and>
        dget (fr_data f) ''pending'' = Some (VDict [(''type'', VStr (class_type c)), (''actor_id'', VStr actor),
          (''content'', VDict payload)])))"
proof -
  let ?cs1 = "if truthy (get_or payload ''_call_id'' VNone) then cs else supersede_pending_form cs"
  let ?m = "if dget args ''arg'' \<noteq> None then Inr [] else missing_steps spec args ?cs1"
  have form: "cs_phase cs' = form_phase c"
    if "start_form env c actor spec args v missing ?cs1 = (Inr r, cs')" for v missing
    using that by (auto simp: start_form_def Let_def push_phase_def record_event_def split: prod.splits)
  from assms(3) obtain missing where m: "?m = Inr missing"
    unfolding call_with_def Let_def xlift_bind by (cases ?m) auto
  from assms(3) m have c: "(if missing \<noteq> [] \<and> actor_kind ?cs1 actor = ''agent'' then
             xraise ''missing_input'' (''Missing required argument(s) for '' @ sp_name spec @ '': '' @
                       join_with '', '' (map fs_name missing) @ ''.'')
               [(''name'', VStr (sp_name spec)), (''fields'', VList (map (\<lambda>s. VStr (fs_name s)) missing))]
           else if missing \<noteq> [] then start_form env c actor spec args (get_or payload ''_call_id'' VNone) missing
           else xbind (validate_args env spec args) (\<lambda>_. request_approval c actor payload spec)) ?cs1 = (Inr r, cs')"
    unfolding call_with_def Let_def xlift_bind using assms(1,2) by (simp cong: if_cong)
  show ?thesis
  proof (cases "missing = []")
    case False
    with c have "start_form env c actor spec args (get_or payload ''_call_id'' VNone) missing ?cs1 = (Inr r, cs')"
      by (cases "actor_kind ?cs1 actor = ''agent''") (simp_all add: xraise_def)
    then show ?thesis using form by blast
  next
    case True
    with c have x: "xbind (validate_args env spec args) (\<lambda>_. request_approval c actor payload spec) ?cs1 = (Inr r, cs')"
      by simp
    obtain v cs2 where v: "validate_args env spec args ?cs1 = (v, cs2)" by (cases "validate_args env spec args ?cs1")
    from x v have ask: "request_approval c actor payload spec cs2 = (Inr r, cs')"
      by (cases v) (simp_all add: xbind_def)
    then obtain approver where ph: "cs_phase cs' = approving_request" and t: "cs_turn_priority cs' = approver"
      and fr: "cs_frames cs' = cs_frames cs2 @ [(approval_frame c actor approver spec payload)\<lparr>fr_previous_phase := cs_phase cs2\<rparr>]"
      by (rule request_approval_Inr)
    let ?f = "(approval_frame c actor approver spec payload)\<lparr>fr_previous_phase := cs_phase cs2\<rparr>"
    have "top_frame cs' = Some ?f" by (simp add: top_frame_def fr)
    moreover have "fr_phase ?f = approving_request \<and> fr_actor ?f = cs_turn_priority cs' \<and>
        dget (fr_data ?f) ''pending'' = Some (VDict [(''type'', VStr (class_type c)), (''actor_id'', VStr actor),
          (''content'', VDict payload)])"
      by (simp add: approval_frame_def t)
    ultimately show ?thesis using ph by blast
  qed
qed

section \<open>Answering the request\<close>

text \<open>The state a pending approval is answered in: the request on top, its author known.\<close>

definition pending_request :: "conv_state \<Rightarrow> phase_frame \<Rightarrow> (string, pyval) pydict \<Rightarrow> string \<Rightarrow> bool" where
  "pending_request cs f p author \<longleftrightarrow>
     cs_phase cs = approving_request \<and> top_frame cs = Some f \<and> fr_phase f = approving_request \<and>
     get_or (fr_data f) ''type'' (VStr ''boolean'') = VStr ''boolean'' \<and>
     get_or (fr_data f) ''pending'' VNone = VDict p \<and> get_or p ''actor_id'' VNone = VStr author \<and>
     author \<noteq> [] \<and> dget (cs_participants cs) author \<noteq> None \<and>
     dget (cs_participants cs) (cs_turn_priority cs) \<noteq> None"

lemma answer_action: "cs_phase cs = approving_request \<Longrightarrow> create_action cs ''answer_approval'' = AnswerApproval"
  by (simp add: create_action_def action_map_def phase_defs form_actions_def)

lemma answer_legal:
  "dget (cs_participants cs) (cs_turn_priority cs) \<noteq> None \<Longrightarrow>
   is_legal AnswerApproval cs (actor_or_active cs None) = None"
  by (auto simp: is_legal_def base_legal_def actor_or_active_def split: option.split)

text \<open>The state in which the answer takes effect: the request gone, its author at turn.\<close>

definition handed_back :: "string \<Rightarrow> conv_state \<Rightarrow> conv_state" where
  "handed_back author cs = (pop_phase cs)\<lparr>cs_turn_priority := author\<rparr>"

lemma answer_with_pending:
  assumes "pending_request cs f p author"
  shows "answer_with resume actor f v cs = close_request resume actor f v (handed_back author cs)"
proof -
  from assms have a: "get_or (fr_data f) ''pending'' VNone = VDict p" "get_or p ''actor_id'' VNone = VStr author"
    "author \<noteq> []" and d: "dget (cs_participants cs) author \<noteq> None"
    by (simp_all add: pending_request_def)
  have w: "rbind (py_get (VDict p) ''actor_id'' VNone) (\<lambda>x. next_actor x VNone actor cs) = Inr (VStr author)"
    using a by (simp add: next_actor_def)
  have s: "set_priority_value (VStr author) (pop_phase cs) = Inr (handed_back author cs)"
    using d by (simp add: set_priority_value_def set_priority_def handed_back_def pop_phase_def Let_def)
  show ?thesis
    unfolding answer_with_def a(1) w by (simp add: xlift_bind) (simp add: xbind_def xupdate_def s)
qed

lemma enact_answer:
  assumes "pending_request cs f p author" and "stale_request f content = None"
    and "coerce_answer env f content cs = (Inr v, cs)"
  shows "enact env ''answer_approval'' content None cs =
    (case close_request (enact env) (cs_turn_priority cs) f v (handed_back author cs) of
       (Inr r, cs') \<Rightarrow> (r, cs')
     | (Inl e, cs') \<Rightarrow> fail_with AnswerApproval (cs_turn_priority cs) (fault_error cs' e) cs')"
proof -
  from assms(1) have ph: "cs_phase cs = approving_request" and t: "top_frame cs = Some f"
    and fp: "fr_phase f = approving_request" and d: "dget (cs_participants cs) (cs_turn_priority cs) \<noteq> None"
    by (simp_all add: pending_request_def)
  have x: "execute env (enact env) AnswerApproval (cs_turn_priority cs) content cs =
      close_request (enact env) (cs_turn_priority cs) f v (handed_back author cs)"
    using t fp assms by (simp add: execute_def exec_answer_def xbind_def answer_with_pending)
  show ?thesis
    unfolding enact_unfold [of env "''answer_approval''"] enact_once_def Let_def answer_action [OF ph]
      answer_legal [OF d]
    using x by (simp add: actor_or_active_def split: prod.split sum.split)
qed

text \<open>
  A denial discards the request: nothing is replayed, the stack is empty, and its author is at
  turn again.
\<close>

lemma denied_request:
  assumes "pending_request cs f p author" and "p \<noteq> []" and "stale_request f content = None"
    and "coerce_answer env f content cs = (Inr (VBool False), cs)"
    and "enact env ''answer_approval'' content None cs = (r, cs')"
  shows "ar_ok r" and "ar_message r = Some ''Denied.''" and "cs_frames cs' = []" and "cs_phase cs' = base_phase"
    and "cs_turn_priority cs' = author" and "cs_bus cs' = cs_bus cs" and "cs_attachments cs' = cs_attachments cs"
proof -
  from assms(1) have a: "get_or (fr_data f) ''type'' (VStr ''boolean'') = VStr ''boolean''"
    "get_or (fr_data f) ''pending'' VNone = VDict p" by (simp_all add: pending_request_def)
  define ev where "ev = make_event ''approval_answered'' (Some (cs_turn_priority cs)) [(''value'', VBool False),
                 (''approved'', VBool (truthy (VBool False))), (''pending'', VDict p)] (handed_back author cs)"
  have "close_request (enact env) (cs_turn_priority cs) f (VBool False) (handed_back author cs) =
      (Inr (ok_result ''answer_approval'' (Some ''Denied.'') [ev]
                 [(''approved'', Plain (VBool False)), (''value'', Plain (VBool False))]),
       reset_phase (record_event ev (handed_back author cs)))"
    unfolding close_request_def Let_def a ev_def using assms(2) by simp
  with enact_answer [OF assms(1,3,4)] assms(5)
  have "r = ok_result ''answer_approval'' (Some ''Denied.'') [ev]
                 [(''approved'', Plain (VBool False)), (''value'', Plain (VBool False))]"
    and "cs' = reset_phase (record_event ev (handed_back author cs))" by simp_all
  then show "ar_ok r" and "ar_message r = Some ''Denied.''" and "cs_frames cs' = []" and "cs_phase cs' = base_phase"
    and "cs_turn_priority cs' = author" and "cs_bus cs' = cs_bus cs" and "cs_attachments cs' = cs_attachments cs"
    by (simp_all add: ok_result_def reset_phase_def record_event_def handed_back_def pop_phase_def Let_def)
qed

text \<open>
  An approval replays exactly the suspended action, as its author, marked as approved, in the
  state below the request.
\<close>

lemma approved_request:
  assumes "pending_request cs f p author" and "stale_request f content = None"
    and "coerce_answer env f content cs = (Inr (VBool True), cs)"
    and "dget p ''content'' = Some (VDict payload)" and "dget p ''type'' = Some (VStr ty)"
  shows "\<exists>ev. enact env ''answer_approval'' content None cs =
    (case enact env ty (VDict (dset ''_approved'' (VBool True) payload)) (Some author)
            (record_event ev (handed_back author cs)) of (r, cs') \<Rightarrow> (prepend_event ev r, cs'))"
proof -
  from assms(1) have a: "get_or (fr_data f) ''type'' (VStr ''boolean'') = VStr ''boolean''"
    "get_or (fr_data f) ''pending'' VNone = VDict p" and b: "get_or p ''actor_id'' VNone = VStr author"
    by (simp_all add: pending_request_def)
  from b have i: "dget p ''actor_id'' = Some (VStr author)"
    by (simp split: option.splits)
  have p: "p \<noteq> []" using assms(4) by auto
  define ev where "ev = make_event ''approval_answered'' (Some (cs_turn_priority cs)) [(''value'', VBool True),
                 (''approved'', VBool (truthy (VBool True))), (''pending'', VDict p)] (handed_back author cs)"
  have "close_request (enact env) (cs_turn_priority cs) f (VBool True) (handed_back author cs) =
      replay_approved (enact env) ev p (record_event ev (handed_back author cs))"
    unfolding close_request_def Let_def a ev_def using p by simp
  also have "\<dots> = (case enact env ty (VDict (dset ''_approved'' (VBool True) payload)) (Some author)
            (record_event ev (handed_back author cs)) of (r, cs') \<Rightarrow> (Inr (prepend_event ev r), cs'))"
    unfolding replay_approved_def require_key_def assms(4,5) i
    by (simp add: xlift_bind strict_dict_def action_name_def actor_of_value_def)
  finally show ?thesis
    unfolding enact_answer [OF assms(1,2,3)] by (intro exI [of _ ev]) (simp split: prod.split)
qed

section \<open>Forms reach their command\<close>

text \<open>The last missing value completes the arguments, and the command is called with all of them.\<close>

lemma last_value_calls:
  assumes "frame_args f = Inr args" and "form_history f = Inr hist"
    and "find_spec env cs (fr_actor f) (fr_action_type f) (opt_text (fr_name f)) = Inr (Some spec)"
    and "steps_of spec (dset (fs_name st) v args) = (\<lambda>_. Inr [])"
  shows "\<exists>f2 cs2. advance_form env resume ty msg actor f st v cs =
           replay_form resume f2 (dset (fs_name st) v args) cs2 \<and>
         fr_name f2 = fr_name f \<and> fr_action_type f2 = fr_action_type f \<and> fr_actor f2 = fr_actor f \<and>
         frame_call_id f2 = frame_call_id f \<and> cs_frames cs2 = butlast (cs_frames cs) @ [f2] \<and>
         cs_turn_priority cs2 = cs_turn_priority cs"
proof -
  let ?args = "dset (fs_name st) v args"
  let ?f1 = "set_data ''args'' (VDict ?args) f"
  let ?f2 = "(set_data ''form_history'' (VList (hist @ [VStr (fs_name st)])) ?f1)\<lparr>fr_step_index := fr_step_index f + 1\<rparr>"
  let ?cs2 = "emit_progress ?f2 ?args (set_top ?f2 (set_top ?f1 cs))"
  have h: "form_history ?f1 = Inr hist" using assms(2) by (simp add: form_history_def set_data_def)
  have p: "find_spec env ?cs2 (fr_actor f) (fr_action_type f) (opt_text (fr_name f)) = Inr (Some spec)"
    using assms(3) by (simp add: find_spec_def set_top_def split: if_splits)
  have m: "missing_of (Some spec) ?args ?cs2 = Inr []"
    by (simp add: missing_of_def missing_steps_def assms(4))
  have u: "xbind (\<lambda>cs. (Inr (), g cs)) k cs = k () (g cs)" for g and k :: "unit \<Rightarrow> action_result exec" and cs
    by (simp add: xbind_def)
  have "advance_form env resume ty msg actor f st v cs = replay_form resume ?f2 ?args ?cs2"
    unfolding advance_form_def Let_def u xlift_bind assms(1) sum.case h p option.case m by simp
  moreover have "fr_name ?f2 = fr_name f \<and> fr_action_type ?f2 = fr_action_type f \<and> fr_actor ?f2 = fr_actor f \<and>
      frame_call_id ?f2 = frame_call_id f" by (simp add: set_data_def frame_call_id_def)
  moreover have "cs_frames ?cs2 = butlast (cs_frames cs) @ [?f2] \<and> cs_turn_priority ?cs2 = cs_turn_priority cs"
    by (simp add: set_top_def)
  ultimately show ?thesis by blast
qed

section \<open>Calls that run\<close>

text \<open>Whatever the handler does to the phase stack, a call that ran ends in the base phase.\<close>

lemma run_callable_base:
  "run_callable env c actor spec args call_id cs = (r, cs') \<Longrightarrow> cs_frames cs' = [] \<and> cs_phase cs' = base_phase"
  by (auto simp: run_callable_def Let_def reset_phase_def record_event_def emit_finished_def emit_def
      split: prod.splits sum.splits)

text \<open>Once approved, and with its arguments complete and valid, the call runs.\<close>

lemma approved_call_runs:
  assumes "truthy (get_or payload ''_approved'' VNone)" and "missing_steps spec args = (\<lambda>_. Inr [])"
    and "\<And>cs. validate_args env spec args cs = (Inr (), cs)"
  shows "\<exists>cs1. call_with env c actor payload spec args cs =
      run_callable env c actor spec args (get_or payload ''_call_id'' VNone) cs1"
proof -
  have "call_with env c actor payload spec args cs =
      run_callable env c actor spec args (get_or payload ''_call_id'' VNone)
        (if truthy (get_or payload ''_call_id'' VNone) then cs else supersede_pending_form cs)"
    using assms(1,2) unfolding call_with_def Let_def xlift_bind
    by (simp add: xbind_def assms(3) cong: if_cong)
  then show ?thesis by blast
qed

section \<open>Saved conversations\<close>

definition saved_frame :: "phase_frame \<Rightarrow> phase_frame" where
  "saved_frame f = f\<lparr>fr_steps := map (\<lambda>s. s\<lparr>fs_validator := None\<rparr>) (fr_steps f)\<rparr>"

lemma rmap_steps: "rmap (\<lambda>s. rbind (as_dict field s) step_from_dict) (map (\<lambda>s. VDict (step_to_dict s)) ss) =
    Inr (map (\<lambda>s. s\<lparr>fs_validator := None\<rparr>) ss)"
  by (induction ss) (simp_all add: as_dict_def step_roundtrip)

lemma frame_roundtrip: "frame_from_dict (frame_to_dict f) = Inr (saved_frame f)"
proof -
  have d: "py_or (VDict d) (VDict []) = VDict d" for d by (simp add: py_or_def)
  show ?thesis
    by (cases f) (simp add: frame_from_dict_def frame_to_dict_def require_key_def as_text_def as_opt_text_def opt_text_def
        d as_dict_def [of "''data''"] as_list_def rmap_steps as_int_def saved_frame_def split: option.splits)
qed

lemma rmap_frames: "rmap (\<lambda>f. rbind (as_dict field f) frame_from_dict) (map (\<lambda>f. VDict (frame_to_dict f)) fs) =
    Inr (map saved_frame fs)"
  by (induction fs) (simp_all add: as_dict_def frame_roundtrip)

text \<open>The state rebuilt from a saved one: the same phase and turn, the frames up to their validators.\<close>

lemma saved_state_resumes:
  assumes "fold (\<lambda>p d. dset (pt_id p) p d) parts [] = ps" and "dget ps (cs_turn_priority cs) \<noteq> None"
    and "cs_turn_priority cs \<noteq> []"
    and "dget (state_to_dict h cs) ''cache'' = Some (VDict cache)"
  shows "\<exists>cs'. make_state parts (Some (cs_turn_priority cs)) (cs_phase cs) cache exts life = Inr cs' \<and>
     cs_phase cs' = cs_phase cs \<and> cs_turn_priority cs' = cs_turn_priority cs \<and>
     cs_frames cs' = map saved_frame (cs_frames cs) \<and> cs_cache cs' = dpop ''phases'' (cs_cache cs)"
proof -
  have c: "cache = dset ''phases'' (VList (map (\<lambda>f. VDict (frame_to_dict f)) (cs_frames cs))) (cs_cache cs)"
    using assms(4) by (simp add: state_to_dict_def)
  have e: "ps \<noteq> []" using assms(2) by auto
  have p: "dpop k (dset k v d) = dpop k d" for k :: string and v :: pyval and d
    by (induction d) auto
  show ?thesis
    unfolding make_state_def assms(1) Let_def using e assms(2,3)
    by (auto simp: c as_list_def rmap_frames p split: list.split)
qed

section \<open>An approver that does not exist\<close>

text \<open>
  A specification can name an approver that is not a participant. The request then fails, but its
  frame is already on the stack and the requester is still at turn: the requester may answer it.
\<close>

lemma unknown_approver:
  assumes "sp_approval_actor spec = Some approver" and "approver \<noteq> []"
    and "dget (cs_participants cs) approver = None"
  shows "request_approval c actor payload spec cs =
    (Inl (PyFault (PyExn ''KeyError'' (''Unknown participant: '' @ approver))),
     push_phase (approval_frame c actor approver spec payload) cs)"
proof -
  have a: "(case sp_approval_actor spec of Some (x # xs) \<Rightarrow> Inr (x # xs) | _ \<Rightarrow> other_id cs (Some actor)) = Inr approver"
    using assms(1,2) by (simp split: list.split)
  have p: "set_priority approver (push_phase f cs) = Inl (PyExn ''KeyError'' (''Unknown participant: '' @ approver))" for f
    using assms(3) by (simp add: set_priority_def push_phase_def)
  show ?thesis
    unfolding request_approval_def xlift_bind a sum.case
    by (simp add: xbind_def xupdate_def p)
qed

lemma requester_may_answer:
  assumes "sp_approval_actor spec = Some approver" and "approver \<noteq> []"
    and "dget (cs_participants cs) approver = None" and "actor \<noteq> []"
    and "actor = cs_turn_priority cs" and "dget (cs_participants cs) actor \<noteq> None"
    and "request_approval c actor payload spec cs = (r, cs')"
  shows "pending_request cs' (last (cs_frames cs')) [(''type'', VStr (class_type c)), (''actor_id'', VStr actor),
      (''content'', VDict payload)] actor \<and> cs_turn_priority cs' = actor"
proof -
  from assms(7) have cs': "cs' = push_phase (approval_frame c actor approver spec payload) cs"
    unfolding unknown_approver [OF assms(1-3)] by simp
  have f: "fr_phase (approval_frame c actor approver spec payload) = approving_request"
    "get_or (fr_data (approval_frame c actor approver spec payload)) ''type'' (VStr ''boolean'') = VStr ''boolean''"
    "get_or (fr_data (approval_frame c actor approver spec payload)) ''pending'' VNone =
       VDict [(''type'', VStr (class_type c)), (''actor_id'', VStr actor), (''content'', VDict payload)]"
    by (simp_all add: approval_frame_def)
  show ?thesis
    unfolding pending_request_def cs' using assms(4,5,6) f by (simp add: push_phase_def top_frame_def)
qed

end
