(* ===== verification/Artifacts.thy ===== *)
theory Artifacts
  imports Capabilities "HOL-Library.Word"
begin

text \<open>
  \<open>security/artifacts.py\<close>, \<open>security/dependency_lock.py\<close> and \<open>security/signatures.py\<close>: the
  content-derived identity of a plugin, the dependency lock it must satisfy and the detached
  store signature over it. SHA-256, the TOML and JSON readers and Ed25519 are parameters. A
  directory is the tree \<open>os.walk\<close> would see; paths are joined with \<open>/\<close>.
\<close>

type_synonym byte = "8 word"
type_synonym bytes = "byte list"

section \<open>Directory trees\<close>

datatype node =
    Directory "(string \<times> node) list"
  | Regular bytes
  | DirLink
  | FileLink
  | Special

fun is_dirlike :: "node \<Rightarrow> bool" where
  "is_dirlike (Directory _) = True"
| "is_dirlike DirLink = True"
| "is_dirlike _ = False"

fun is_regular :: "node \<Rightarrow> bool" where
  "is_regular (Regular _) = True"
| "is_regular _ = False"

datatype artifact_error =
    NotADirectory
  | ContainsSymlink string
  | SymlinkOrSpecial string
  | TooManyFiles
  | TooManyBytes
  | LengthOverflow
  | ManifestProblem manifest_error
  | LockProblem string

definition join :: "string \<Rightarrow> string \<Rightarrow> string" where
  "join dir leaf = (if dir = [] then leaf else dir @ ''/'' @ leaf)"

text \<open>
  One visited directory: its symlinked subdirectories are refused first, then its files in
  name order, then the subdirectories are walked in name order.
\<close>

definition check_dirs :: "string \<Rightarrow> (string \<times> node) list \<Rightarrow> artifact_error + unit" where
  "check_dirs dir items =
     (case find (\<lambda>(_, n). n = DirLink) (sort_key fst (filter (\<lambda>(_, n). is_dirlike n) items)) of
        None \<Rightarrow> Inr () | Some (leaf, _) \<Rightarrow> Inl (ContainsSymlink (join dir leaf)))"

definition take_file :: "string \<Rightarrow> string \<times> node \<Rightarrow> artifact_error + string \<times> bytes" where
  "take_file dir item = (case item of
      (leaf, Regular raw) \<Rightarrow> Inr (join dir leaf, raw)
    | (leaf, _) \<Rightarrow> Inl (SymlinkOrSpecial (join dir leaf)))"

definition take_files :: "string \<Rightarrow> (string \<times> node) list \<Rightarrow> artifact_error + (string \<times> bytes) list" where
  "take_files dir items = rmap (take_file dir) (sort_key fst (filter (\<lambda>(_, n). \<not> is_dirlike n) items))"

fun walk :: "string \<Rightarrow> node \<Rightarrow> artifact_error + (string \<times> bytes) list" where
  "walk dir (Directory items) =
     rbind (check_dirs dir items) (\<lambda>_.
     rbind (take_files dir items) (\<lambda>here.
     rbind (rmap snd (sort_key fst (map (\<lambda>(leaf, n). (leaf, walk (join dir leaf) n)) items)))
       (\<lambda>below. Inr (here @ concat below))))"
| "walk dir _ = Inr []"

section \<open>The identity of an artifact\<close>

record artifact_id =
  ai_plugin_id :: string
  ai_digest :: string

record artifact_file =
  af_path :: string
  af_size :: nat
  af_digest :: string

definition hex_digit :: "nat \<Rightarrow> char" where
  "hex_digit n = ''0123456789abcdef'' ! n"

definition hex_bytes :: "bytes \<Rightarrow> string" where
  "hex_bytes bs = concat (map (\<lambda>b. [hex_digit (unat b div 16), hex_digit (unat b mod 16)]) bs)"

definition utf8 :: "string \<Rightarrow> bytes" where
  "utf8 s = map (\<lambda>c. of_nat (of_char c)) s"

text \<open>\<open>n.to_bytes(k, "big")\<close>: an overflow when the number needs more than \<open>k\<close> bytes.\<close>

fun big_endian :: "nat \<Rightarrow> nat \<Rightarrow> bytes" where
  "big_endian 0 n = []"
| "big_endian (Suc k) n = big_endian k (n div 256) @ [of_nat (n mod 256)]"

definition to_bytes :: "nat \<Rightarrow> nat \<Rightarrow> artifact_error + bytes" where
  "to_bytes k n = (if n < 256 ^ k then Inr (big_endian k n) else Inl LengthOverflow)"

definition artifact_domain :: bytes where
  "artifact_domain = utf8 ''SECOND-BRAIN-PLUGIN-ARTIFACT-V1'' @ [0]"

text \<open>The loop over the sorted entries: the bytes fed to the aggregate hash and the file list.\<close>

fun hash_entries ::
    "(bytes \<Rightarrow> bytes) \<Rightarrow> nat \<Rightarrow> nat \<Rightarrow> (string \<times> bytes) list \<Rightarrow> artifact_error + bytes \<times> artifact_file list \<times> nat" where
  "hash_entries sha limit sofar [] = Inr ([], [], sofar)"
| "hash_entries sha limit sofar ((path, raw) # rest) =
     (let sofar' = sofar + length raw in
      if sofar' > limit then Inl TooManyBytes
      else rbind (to_bytes 4 (length (utf8 path))) (\<lambda>plen.
           rbind (to_bytes 8 (length raw)) (\<lambda>rlen.
           rbind (hash_entries sha limit sofar' rest) (\<lambda>(stream, files, final).
             Inr (plen @ utf8 path @ rlen @ sha raw @ stream,
                  \<lparr>af_path = path, af_size = length raw, af_digest = hex_bytes (sha raw)\<rparr> # files,
                  final)))))"

section \<open>The dependency lock\<close>

record locked_package =
  lp_name :: string
  lp_version :: string
  lp_artifact :: string
  lp_sha256 :: string
  lp_dependencies :: "string list"

record dependency_lock =
  dl_version :: int
  dl_packages :: "locked_package list"

datatype lock_error =
    LockUnreadable string
  | LockRootNotTable
  | LockUnknownKeys string "string list"
  | LockVersion
  | PackagesNotArray
  | PackageNotTable nat
  | PackageField nat string
  | DuplicatePackage string
  | ArtifactReused string
  | ArtifactAbsent string
  | DigestMismatch string
  | UnlockedWheels "string list"

definition is_name_char :: "char \<Rightarrow> bool" where
  "is_name_char c \<longleftrightarrow> is_lower_alpha c \<or> is_upper_alpha c \<or> is_digit c \<or> c \<in> set ''._-''"

definition matches_package_name :: "string \<Rightarrow> bool" where
  "matches_package_name s = (case s of
      [] \<Rightarrow> False
    | c # cs \<Rightarrow> (is_lower_alpha c \<or> is_upper_alpha c \<or> is_digit c) \<and> list_all is_name_char cs)"

definition matches_sha256 :: "string \<Rightarrow> bool" where
  "matches_sha256 s \<longleftrightarrow> length s = 64 \<and> list_all (\<lambda>c. c \<in> set ''0123456789abcdef'') s"

text \<open>A relative POSIX path without empty, current or parent components.\<close>

definition relative_posix :: "string \<Rightarrow> bool" where
  "relative_posix s \<longleftrightarrow>
     s \<noteq> [] \<and> CHR 0x5C \<notin> set s \<and> hd s \<noteq> CHR ''/'' \<and>
     list_all (\<lambda>part. part \<notin> {'''', ''.'', ''..''}) (split_char CHR ''/'' s)"

definition package_text ::
    "nat \<Rightarrow> (string, pyval) pydict \<Rightarrow> string \<Rightarrow> (string \<Rightarrow> bool) \<Rightarrow> lock_error + string" where
  "package_text i raw k ok = (case raw_get raw k VNone of
      VStr s \<Rightarrow> (if ok s then Inr s else Inl (PackageField i k))
    | _ \<Rightarrow> Inl (PackageField i k))"

definition package_names :: "nat \<Rightarrow> pyval \<Rightarrow> lock_error + string list" where
  "package_names i v = (case v of
      VList deps \<Rightarrow> rmap (\<lambda>item. case item of
          VStr d \<Rightarrow> (if matches_package_name d then Inr d else Inl (PackageField i ''dependencies''))
        | _ \<Rightarrow> Inl (PackageField i ''dependencies'')) deps
    | _ \<Rightarrow> Inl (PackageField i ''dependencies''))"

definition package_keys :: "string list" where
  "package_keys = [''name'', ''version'', ''artifact'', ''sha256'', ''dependencies'']"

definition parse_package :: "nat \<Rightarrow> pyval \<Rightarrow> lock_error + locked_package" where
  "parse_package i v =
     rbind (case v of VDict d \<Rightarrow> Inr d | _ \<Rightarrow> Inl (PackageNotTable i)) (\<lambda>raw.
     (let unknown = sort (remdups (filter (\<lambda>k. k \<notin> set package_keys) (dkeys raw)))
      in if unknown \<noteq> [] then Inl (LockUnknownKeys (indexed ''packages'' i [])  unknown)
         else
         rbind (package_text i raw ''name'' matches_package_name) (\<lambda>nm.
         rbind (package_text i raw ''version'' (\<lambda>s. s \<noteq> [])) (\<lambda>version.
         rbind (package_text i raw ''artifact'' relative_posix) (\<lambda>artifact.
         rbind (package_text i raw ''sha256'' matches_sha256) (\<lambda>sha.
         rbind (package_names i (raw_get raw ''dependencies'' (VList []))) (\<lambda>ds.
         Inr \<lparr>lp_name = nm, lp_version = version, lp_artifact = artifact,
              lp_sha256 = sha, lp_dependencies = ds\<rparr>)))))))"

lemma package_text_Inr: "package_text i raw k ok = Inr s \<Longrightarrow> ok s"
  by (auto simp: package_text_def split: pyval.splits if_splits)

text \<open>
  The file a relative path leads to, and every regular file below a directory. A symbolic link
  is nobody's file here: an artifact that holds one is refused by the walk, whatever its lock
  says.
\<close>

fun node_at :: "node \<Rightarrow> string list \<Rightarrow> node option" where
  "node_at n [] = Some n"
| "node_at (Directory items) (p # ps) =
     (case dget items p of None \<Rightarrow> None | Some n \<Rightarrow> node_at n ps)"
| "node_at _ (p # ps) = None"

definition file_at :: "node \<Rightarrow> string \<Rightarrow> bytes option" where
  "file_at tree path = (case node_at tree (split_char CHR ''/'' path) of
      Some (Regular raw) \<Rightarrow> Some raw | _ \<Rightarrow> None)"

fun all_files :: "string \<Rightarrow> node \<Rightarrow> string list" where
  "all_files dir (Directory items) =
     concat (map (\<lambda>(leaf, n). (if is_regular n then [join dir leaf] else all_files (join dir leaf) n)) items)"
| "all_files dir _ = []"

definition normalized_name :: "string \<Rightarrow> string" where
  "normalized_name s = map (\<lambda>c. if c = CHR ''_'' then CHR ''-'' else c) (lower s)"

fun verify_packages ::
    "(bytes \<Rightarrow> bytes) \<Rightarrow> node \<Rightarrow> string list \<Rightarrow> string list \<Rightarrow> locked_package list \<Rightarrow> lock_error + string list" where
  "verify_packages sha tree names files [] = Inr files"
| "verify_packages sha tree names files (p # ps) =
     (if normalized_name (lp_name p) \<in> set names then Inl (DuplicatePackage (lp_name p))
      else if lp_artifact p \<in> set files then Inl (ArtifactReused (lp_artifact p))
      else (case file_at tree (lp_artifact p) of
          None \<Rightarrow> Inl (ArtifactAbsent (lp_artifact p))
        | Some raw \<Rightarrow>
            (if hex_bytes (sha raw) \<noteq> lp_sha256 p then Inl (DigestMismatch (lp_artifact p))
             else verify_packages sha tree (normalized_name (lp_name p) # names) (lp_artifact p # files) ps)))"

definition lock_verify :: "(bytes \<Rightarrow> bytes) \<Rightarrow> node \<Rightarrow> dependency_lock \<Rightarrow> lock_error + unit" where
  "lock_verify sha tree lock =
     rbind (verify_packages sha tree [] [] (dl_packages lock)) (\<lambda>files.
       (let missing = sort (remdups (filter (\<lambda>path. suffix ''.whl'' path \<and> path \<notin> set files)
                                       (all_files '''' tree)))
        in if missing \<noteq> [] then Inl (UnlockedWheels missing) else Inr ()))"

definition load_dependency_lock ::
    "(bytes \<Rightarrow> bytes) \<Rightarrow> (bytes \<Rightarrow> string + pyval) \<Rightarrow> node \<Rightarrow> lock_error + dependency_lock" where
  "load_dependency_lock sha toml tree =
     rbind (case file_at tree ''plugin.lock'' of
              None \<Rightarrow> Inl (LockUnreadable ''no such file'')
            | Some raw \<Rightarrow> (case toml raw of Inl msg \<Rightarrow> Inl (LockUnreadable msg) | Inr v \<Rightarrow> Inr v)) (\<lambda>v.
     rbind (case v of VDict d \<Rightarrow> Inr d | _ \<Rightarrow> Inl LockRootNotTable) (\<lambda>raw.
     (let unknown = sort (remdups (filter (\<lambda>k. k \<notin> set [''lock_version'', ''packages'']) (dkeys raw)))
      in if unknown \<noteq> [] then Inl (LockUnknownKeys '''' unknown)
         else if \<not> pyeq (raw_get raw ''lock_version'' VNone) (VInt 1) then Inl LockVersion
         else rbind (case raw_get raw ''packages'' (VList []) of
                VList xs \<Rightarrow> rmap (\<lambda>(i, x). parse_package i x) (List.enumerate 0 xs)
              | _ \<Rightarrow> Inl PackagesNotArray) (\<lambda>packages.
              (let lock = \<lparr>dl_version = 1, dl_packages = packages\<rparr>
               in rbind (lock_verify sha tree lock) (\<lambda>_. Inr lock))))))"

section \<open>Building and verifying an artifact\<close>

record plugin_artifact =
  pa_identity :: artifact_id
  pa_root :: string
  pa_manifest :: plugin_manifest
  pa_lock :: dependency_lock
  pa_files :: "artifact_file list"
  pa_total_bytes :: nat

datatype build_error =
    BadManifest manifest_error
  | BadLock lock_error
  | BadArtifact artifact_error

definition lift_error :: "('e \<Rightarrow> 'f) \<Rightarrow> 'e + 'a \<Rightarrow> 'f + 'a" where
  "lift_error f x = (case x of Inl e \<Rightarrow> Inl (f e) | Inr a \<Rightarrow> Inr a)"

definition max_files :: nat where
  "max_files = 4096"

definition max_total_bytes :: nat where
  "max_total_bytes = 512 * 1024 * 1024"

definition manifest_at :: "(bytes \<Rightarrow> string + pyval) \<Rightarrow> node \<Rightarrow> string \<Rightarrow> string + pyval" where
  "manifest_at toml tree location = (case file_at tree ''plugin.toml'' of
      None \<Rightarrow> Inl ''no such file'' | Some raw \<Rightarrow> toml raw)"

definition build_artifact ::
    "(bytes \<Rightarrow> bytes) \<Rightarrow> (bytes \<Rightarrow> string + pyval) \<Rightarrow> nat \<Rightarrow> nat \<Rightarrow> string \<Rightarrow> node \<Rightarrow> build_error + plugin_artifact" where
  "build_artifact sha toml file_limit byte_limit location tree =
     (if \<not> (case tree of Directory _ \<Rightarrow> True | _ \<Rightarrow> False) then Inl (BadArtifact NotADirectory)
      else rbind (lift_error BadManifest (load_manifest (manifest_at toml tree) (location @ ''/plugin.toml''))) (\<lambda>m.
           rbind (lift_error BadLock (load_dependency_lock sha toml tree)) (\<lambda>lock.
           rbind (lift_error BadArtifact (walk '''' tree)) (\<lambda>found.
           (let entries = sort_key fst found in
            if length entries > file_limit then Inl (BadArtifact TooManyFiles)
            else rbind (lift_error BadArtifact (hash_entries sha byte_limit 0 entries))
              (\<lambda>(stream, files, sofar).
                Inr \<lparr>pa_identity = \<lparr>ai_plugin_id = pm_plugin_id m,
                       ai_digest = hex_bytes (sha (artifact_domain @ stream))\<rparr>,
                     pa_root = location, pa_manifest = m, pa_lock = lock, pa_files = files,
                     pa_total_bytes = sofar\<rparr>))))))"

text \<open>
  \<open>verify\<close> rebuilds from the current contents of the root. A manifest that no longer parses
  raises through it, since \<open>ManifestError\<close> is no \<open>ArtifactError\<close>.
\<close>

definition verify_artifact ::
    "(bytes \<Rightarrow> bytes) \<Rightarrow> (bytes \<Rightarrow> string + pyval) \<Rightarrow> node \<Rightarrow> plugin_artifact \<Rightarrow> manifest_error + bool" where
  "verify_artifact sha toml tree a =
     (case build_artifact sha toml max_files max_total_bytes (pa_root a) tree of
        Inr b \<Rightarrow> Inr (pa_identity b = pa_identity a)
      | Inl (BadManifest e) \<Rightarrow> Inl e
      | Inl _ \<Rightarrow> Inr False)"

section \<open>Store signatures\<close>

record store_signature =
  ss_key_id :: string
  ss_plugin_id :: string
  ss_digest :: string
  ss_signature :: bytes

datatype signature_error =
    KeyIdMismatch string
  | BadPublicKey string
  | KeyLength
  | SignatureUnreadable string
  | SignatureRoot
  | SignatureFields "string list"
  | SignatureFormat
  | NotTextField string
  | DigestNotHex
  | NotBase64
  | SignatureLength
  | OtherPlugin
  | OtherDigest
  | KeyNotTrusted
  | InvalidSignature

definition key_identifier :: "(bytes \<Rightarrow> bytes) \<Rightarrow> bytes \<Rightarrow> signature_error + string" where
  "key_identifier sha raw = (if length raw \<noteq> 32 then Inl KeyLength else Inr (hex_bytes (sha raw)))"

text \<open>\<open>base64.b64decode(s, validate=True)\<close>: whole groups of four, padding at the end only.\<close>

definition base64_value :: "char \<Rightarrow> nat option" where
  "base64_value c = (let n = (of_char c :: nat) in
     if 65 \<le> n \<and> n \<le> 90 then Some (n - 65)
     else if 97 \<le> n \<and> n \<le> 122 then Some (n - 71)
     else if 48 \<le> n \<and> n \<le> 57 then Some (n + 4)
     else if n = 43 then Some 62 else if n = 47 then Some 63 else None)"

fun base64_decode :: "string \<Rightarrow> bytes option" where
  "base64_decode [] = Some []"
| "base64_decode [a, b, c, d] =
     (case (base64_value a, base64_value b) of
        (Some x, Some y) \<Rightarrow>
          (if c = CHR ''='' \<and> d = CHR ''='' then Some [of_nat (4 * x + y div 16)]
           else (case base64_value c of
               None \<Rightarrow> None
             | Some z \<Rightarrow>
                 (if d = CHR ''='' then Some [of_nat (4 * x + y div 16), of_nat (16 * (y mod 16) + z div 4)]
                  else (case base64_value d of
                      None \<Rightarrow> None
                    | Some w \<Rightarrow> Some [of_nat (4 * x + y div 16), of_nat (16 * (y mod 16) + z div 4),
                                     of_nat (64 * (z mod 4) + w)]))))
      | _ \<Rightarrow> None)"
| "base64_decode (a # b # c # d # e # rest) =
     (case (base64_value a, base64_value b, base64_value c, base64_value d) of
        (Some x, Some y, Some z, Some w) \<Rightarrow>
          map_option (\<lambda>bs. of_nat (4 * x + y div 16) # of_nat (16 * (y mod 16) + z div 4) #
                           of_nat (64 * (z mod 4) + w) # bs) (base64_decode (e # rest))
      | _ \<Rightarrow> None)"
| "base64_decode _ = None"

definition signature_fields :: "string list" where
  "signature_fields = [''version'', ''algorithm'', ''key_id'', ''plugin_id'', ''artifact_digest'', ''signature'']"

definition text_field :: "(string, pyval) pydict \<Rightarrow> string \<Rightarrow> signature_error + string" where
  "text_field raw k = (case raw_get raw k VNone of VStr s \<Rightarrow> Inr s | _ \<Rightarrow> Inl (NotTextField k))"

definition load_store_signature :: "(string + pyval) \<Rightarrow> signature_error + store_signature" where
  "load_store_signature parsed =
     rbind (case parsed of Inl msg \<Rightarrow> Inl (SignatureUnreadable msg) | Inr v \<Rightarrow> Inr v) (\<lambda>v.
     rbind (case v of VDict d \<Rightarrow> Inr d | _ \<Rightarrow> Inl SignatureRoot) (\<lambda>raw.
     if set (dkeys raw) \<noteq> set signature_fields then
       Inl (SignatureFields (sort (remdups (filter (\<lambda>k. k \<notin> set signature_fields) (dkeys raw) @
                                            filter (\<lambda>k. k \<notin> set (dkeys raw)) signature_fields))))
     else if \<not> pyeq (raw_get raw ''version'' VNone) (VInt 1) \<or>
             \<not> pyeq (raw_get raw ''algorithm'' VNone) (VStr ''ed25519'') then Inl SignatureFormat
     else
     rbind (text_field raw ''key_id'') (\<lambda>key_id.
     rbind (text_field raw ''plugin_id'') (\<lambda>plugin_id.
     rbind (text_field raw ''artifact_digest'') (\<lambda>digest.
     rbind (text_field raw ''signature'') (\<lambda>encoded.
     if \<not> matches_sha256 digest then Inl DigestNotHex else
     (case base64_decode encoded of
        None \<Rightarrow> Inl NotBase64
      | Some signature \<Rightarrow>
          (if length signature \<noteq> 64 then Inl SignatureLength
           else Inr \<lparr>ss_key_id = key_id, ss_plugin_id = plugin_id, ss_digest = digest,
                     ss_signature = signature\<rparr>)))))) ))"

text \<open>\<open>bytes.fromhex\<close> on the hexadecimal text of a digest.\<close>

definition hex_value :: "char \<Rightarrow> nat" where
  "hex_value c = (let n = (of_char c :: nat) in if n < 58 then n - 48 else n - 87)"

fun from_hex :: "string \<Rightarrow> bytes" where
  "from_hex (a # b # cs) = of_nat (16 * hex_value a + hex_value b) # from_hex cs"
| "from_hex _ = []"

definition signature_domain :: bytes where
  "signature_domain = utf8 ''SECOND-BRAIN-STORE-SIGNATURE-V1'' @ [0]"

definition signature_message :: "artifact_id \<Rightarrow> bytes" where
  "signature_message i = signature_domain @ utf8 (ai_plugin_id i) @ [0] @ from_hex (ai_digest i)"

text \<open>The verifier keeps the public keys its constructor accepted, filed by their identifier.\<close>

definition make_verifier ::
    "(bytes \<Rightarrow> bytes) \<Rightarrow> (bytes \<Rightarrow> 'k option) \<Rightarrow> (string \<times> bytes) list \<Rightarrow> signature_error + (string, 'k) pydict" where
  "make_verifier sha public_key trusted =
     rmap (\<lambda>(key_id, raw).
       rbind (key_identifier sha raw) (\<lambda>expected.
       if key_id \<noteq> expected then Inl (KeyIdMismatch expected)
       else (case public_key raw of None \<Rightarrow> Inl (BadPublicKey key_id) | Some k \<Rightarrow> Inr (key_id, k)))) trusted"

definition verify_signature ::
    "('k \<Rightarrow> bytes \<Rightarrow> bytes \<Rightarrow> bool) \<Rightarrow> (string, 'k) pydict \<Rightarrow> plugin_artifact \<Rightarrow> (string + pyval) \<Rightarrow>
     signature_error + store_signature" where
  "verify_signature ed_verify keys a parsed =
     rbind (load_store_signature parsed) (\<lambda>s.
     if ss_plugin_id s \<noteq> ai_plugin_id (pa_identity a) then Inl OtherPlugin
     else if ss_digest s \<noteq> ai_digest (pa_identity a) then Inl OtherDigest
     else (case dget keys (ss_key_id s) of
         None \<Rightarrow> Inl KeyNotTrusted
       | Some k \<Rightarrow>
           (if ed_verify k (ss_signature s) (signature_message (pa_identity a)) then Inr s
            else Inl InvalidSignature)))"

section \<open>Encodings are injective\<close>

lemma byte_of_nat_inj: "(of_nat a :: byte) = of_nat b \<Longrightarrow> a < 256 \<Longrightarrow> b < 256 \<Longrightarrow> a = b"
  by (drule arg_cong [where f = unat]) (simp add: unsigned_of_nat take_bit_nat_eq_self)

lemma length_big_endian [simp]: "length (big_endian k n) = k"
  by (induction k arbitrary: n) simp_all

lemma big_endian_Nil [simp]: "big_endian k n = [] \<longleftrightarrow> k = 0"
  by (cases k) simp_all

lemma big_endian_inj:
  "big_endian k n = big_endian k m \<Longrightarrow> n < 256 ^ k \<Longrightarrow> m < 256 ^ k \<Longrightarrow> n = m"
proof (induction k arbitrary: n m)
  case 0
  then show ?case by simp
next
  case (Suc k)
  from Suc.prems(1) have "big_endian k (n div 256) = big_endian k (m div 256)"
    and b: "(of_nat (n mod 256) :: byte) = of_nat (m mod 256)" by simp_all
  moreover have "n div 256 < 256 ^ k" "m div 256 < 256 ^ k"
    using Suc.prems(2,3) by (simp_all add: less_mult_imp_div_less mult.commute)
  ultimately have "n div 256 = m div 256" using Suc.IH by blast
  moreover have "n mod 256 = m mod 256" using b by (rule byte_of_nat_inj) simp_all
  ultimately show ?case by (metis mult_div_mod_eq)
qed

lemma utf8_inj: "utf8 s = utf8 t \<longleftrightarrow> s = t"
proof -
  have "inj (\<lambda>c :: char. of_nat (of_char c) :: byte)"
  proof (rule injI)
    fix a b :: char
    assume "(of_nat (of_char a) :: byte) = of_nat (of_char b)"
    then have "(of_char a :: nat) = of_char b" by (rule byte_of_nat_inj) simp_all
    then show "a = b" by simp
  qed
  then show ?thesis by (simp add: utf8_def inj_map_eq_map)
qed

lemma hex_value_digit: "n < 16 \<Longrightarrow> hex_value (hex_digit n) = n"
proof -
  have "\<forall>n \<in> {0..<16}. hex_value (hex_digit n) = n"
    by (simp add: hex_value_def hex_digit_def Let_def eval_nat_numeral atLeastLessThan_upt upt_conv_Cons)
  then show "n < 16 \<Longrightarrow> hex_value (hex_digit n) = n" by simp
qed

lemma from_hex_bytes [simp]: "from_hex (hex_bytes bs) = bs"
proof (induction bs)
  case Nil
  then show ?case by (simp add: hex_bytes_def)
next
  case (Cons b bs)
  have "unat b < 2 ^ LENGTH(8)" by (rule unsigned_less)
  then have "unat b < 256" by simp
  then have "unat b div 16 < 16" "unat b mod 16 < 16" by auto
  with Cons show ?case by (simp add: hex_bytes_def hex_value_digit)
qed

lemma hex_bytes_inj: "hex_bytes a = hex_bytes b \<longleftrightarrow> a = b"
  by (metis from_hex_bytes)

lemma hash_entries_Cons:
  "hash_entries sha limit sofar ((path, raw) # rest) = Inr (stream, files, final) \<longleftrightarrow>
   sofar + length raw \<le> limit \<and> length (utf8 path) < 256 ^ 4 \<and> length raw < 256 ^ 8 \<and>
   (\<exists>st fs. hash_entries sha limit (sofar + length raw) rest = Inr (st, fs, final) \<and>
      stream = big_endian 4 (length (utf8 path)) @ utf8 path @ big_endian 8 (length raw) @ sha raw @ st \<and>
      files = \<lparr>af_path = path, af_size = length raw, af_digest = hex_bytes (sha raw)\<rparr> # fs)"
  by (auto simp: to_bytes_def rbind_Inr Let_def split: prod.splits)

declare hash_entries.simps(2) [simp del]

text \<open>The hashed stream can be read back one entry at a time.\<close>

lemma hash_entries_inj:
  assumes "hash_entries sha l n es = Inr (stream, files, final)"
    and "hash_entries sha l' n' es' = Inr (stream, files', final')"
    and "\<And>raw. raw \<in> snd ` (set es \<union> set es') \<Longrightarrow> length (sha raw) = 32"
    and "inj_on sha (snd ` (set es \<union> set es'))"
  shows "es = es'"
  using assms
proof (induction es arbitrary: es' n n' stream files files')
  case Nil
  then show ?case by (cases es') (auto simp: hash_entries_Cons)
next
  case (Cons e es)
  obtain path raw where e: "e = (path, raw)" by (cases e)
  from Cons.prems(1) e obtain st fs where 1:
    "hash_entries sha l (n + length raw) es = Inr (st, fs, final)" "length (utf8 path) < 256 ^ 4"
    "stream = big_endian 4 (length (utf8 path)) @ utf8 path @ big_endian 8 (length raw) @ sha raw @ st"
    by (auto simp: hash_entries_Cons)
  show ?case
  proof (cases es')
    case Nil
    with Cons.prems(2) 1(3) show ?thesis by (auto dest!: arg_cong [where f = length])
  next
    case (Cons e' es2)
    obtain path' raw' where e': "e' = (path', raw')" by (cases e')
    from Cons.prems(2) Cons e' obtain st' fs' where 2:
      "hash_entries sha l' (n' + length raw') es2 = Inr (st', fs', final')" "length (utf8 path') < 256 ^ 4"
      "stream = big_endian 4 (length (utf8 path')) @ utf8 path' @ big_endian 8 (length raw') @ sha raw' @ st'"
      by (auto simp: hash_entries_Cons)
    from 1(3) 2(3) have b: "big_endian 4 (length (utf8 path)) = big_endian 4 (length (utf8 path'))"
      and r: "utf8 path @ big_endian 8 (length raw) @ sha raw @ st =
              utf8 path' @ big_endian 8 (length raw') @ sha raw' @ st'" by auto
    from big_endian_inj [OF b 1(2) 2(2)] r have "utf8 path = utf8 path'"
      and r2: "big_endian 8 (length raw) @ sha raw @ st = big_endian 8 (length raw') @ sha raw' @ st'"
      by auto
    then have p: "path = path'" by (simp add: utf8_inj)
    from r2 have r3: "sha raw @ st = sha raw' @ st'" by auto
    have m: "raw \<in> snd ` (set (e # es) \<union> set es')" "raw' \<in> snd ` (set (e # es) \<union> set es')"
      using e e' Cons by auto
    with Cons.prems(3) have "length (sha raw) = length (sha raw')" by simp
    with r3 have s: "sha raw = sha raw'" "st = st'" by auto
    have "raw = raw'" by (rule inj_onD [OF Cons.prems(4) s(1) m])
    moreover have "es = es2"
    proof (rule Cons.IH [OF 1(1)])
      show "hash_entries sha l' (n' + length raw') es2 = Inr (st, fs', final')" using 2(1) s by simp
      show "\<And>raw. raw \<in> snd ` (set es \<union> set es2) \<Longrightarrow> length (sha raw) = 32"
        using Cons.prems(3) Cons by auto
      show "inj_on sha (snd ` (set es \<union> set es2))"
        by (rule inj_on_subset [OF Cons.prems(4)]) (use Cons in auto)
    qed
    ultimately show ?thesis using p e e' Cons by simp
  qed
qed

text \<open>What \<open>build_artifact\<close> hashes of a tree.\<close>

definition artifact_entries :: "node \<Rightarrow> (string \<times> bytes) list" where
  "artifact_entries tree = (case walk '''' tree of Inl _ \<Rightarrow> [] | Inr found \<Rightarrow> sort_key fst found)"

definition artifact_stream :: "(bytes \<Rightarrow> bytes) \<Rightarrow> node \<Rightarrow> bytes" where
  "artifact_stream sha tree =
     artifact_domain @ (case hash_entries sha max_total_bytes 0 (artifact_entries tree) of
       Inl _ \<Rightarrow> [] | Inr (stream, _) \<Rightarrow> stream)"

lemma lift_error_Inr [simp]: "lift_error f x = Inr a \<longleftrightarrow> x = Inr a"
  by (auto simp: lift_error_def split: sum.splits)

lemma build_artifact_Inr:
  assumes "build_artifact sha toml fl max_total_bytes location tree = Inr a"
  obtains m lock stream where
    "load_manifest (manifest_at toml tree) (location @ ''/plugin.toml'') = Inr m" "pa_manifest a = m"
    "load_dependency_lock sha toml tree = Inr lock" "pa_lock a = lock"
    "hash_entries sha max_total_bytes 0 (artifact_entries tree) = Inr (stream, pa_files a, pa_total_bytes a)"
    "artifact_stream sha tree = artifact_domain @ stream"
    "pa_identity a = \<lparr>ai_plugin_id = pm_plugin_id m, ai_digest = hex_bytes (sha (artifact_stream sha tree))\<rparr>"
    "length (artifact_entries tree) \<le> fl"
proof -
  from assms obtain m lock found stream files sofar where b:
    "load_manifest (manifest_at toml tree) (location @ ''/plugin.toml'') = Inr m"
    "load_dependency_lock sha toml tree = Inr lock" "walk '''' tree = Inr found"
    "length found \<le> fl"
    "hash_entries sha max_total_bytes 0 (sort_key fst found) = Inr (stream, files, sofar)"
    "a = \<lparr>pa_identity = \<lparr>ai_plugin_id = pm_plugin_id m, ai_digest = hex_bytes (sha (artifact_domain @ stream))\<rparr>,
          pa_root = location, pa_manifest = m, pa_lock = lock, pa_files = files, pa_total_bytes = sofar\<rparr>"
    unfolding build_artifact_def by (auto simp: rbind_Inr Let_def split: if_splits)
  then have "artifact_entries tree = sort_key fst found" "artifact_stream sha tree = artifact_domain @ stream"
    by (simp_all add: artifact_entries_def artifact_stream_def)
  with b show thesis by (intro that) simp_all
qed

text \<open>
  The digest binds every path and every byte: two trees with one digest have the same files,
  unless the hash collides on the streams or the contents at hand.
\<close>

lemma artifact_identity_binds:
  assumes "build_artifact sha toml fl max_total_bytes loc tree = Inr a"
    and "build_artifact sha toml fl' max_total_bytes loc' tree' = Inr a'"
    and "ai_digest (pa_identity a) = ai_digest (pa_identity a')"
    and "\<And>raw. raw \<in> snd ` (set (artifact_entries tree) \<union> set (artifact_entries tree')) \<Longrightarrow> length (sha raw) = 32"
    and "inj_on sha (snd ` (set (artifact_entries tree) \<union> set (artifact_entries tree')))"
    and "inj_on sha {artifact_stream sha tree, artifact_stream sha tree'}"
  shows "artifact_entries tree = artifact_entries tree' \<and> pa_files a = pa_files a' \<and>
         pa_total_bytes a = pa_total_bytes a'"
proof -
  from build_artifact_Inr [OF assms(1)] obtain stream where
    1: "hash_entries sha max_total_bytes 0 (artifact_entries tree) = Inr (stream, pa_files a, pa_total_bytes a)"
      "artifact_stream sha tree = artifact_domain @ stream"
      "ai_digest (pa_identity a) = hex_bytes (sha (artifact_stream sha tree))" by (metis artifact_id.select_convs(2))
  from build_artifact_Inr [OF assms(2)] obtain stream' where
    2: "hash_entries sha max_total_bytes 0 (artifact_entries tree') = Inr (stream', pa_files a', pa_total_bytes a')"
      "artifact_stream sha tree' = artifact_domain @ stream'"
      "ai_digest (pa_identity a') = hex_bytes (sha (artifact_stream sha tree'))" by (metis artifact_id.select_convs(2))
  from assms(3) 1(3) 2(3) have "sha (artifact_stream sha tree) = sha (artifact_stream sha tree')"
    by (simp add: hex_bytes_inj)
  with assms(6) have "artifact_stream sha tree = artifact_stream sha tree'" by (auto dest: inj_onD)
  with 1(2) 2(2) have "stream = stream'" by simp
  with hash_entries_inj [OF 1(1) _ assms(4,5)] 2(1) have "artifact_entries tree = artifact_entries tree'" by blast
  with 1(1) 2(1) show ?thesis by simp
qed

section \<open>A signature fixes one artifact\<close>

lemma hex_chars: "c \<in> set ''0123456789abcdef'' \<Longrightarrow> hex_value c < 16 \<and> hex_digit (hex_value c) = c"
  by (auto simp: hex_value_def hex_digit_def Let_def)

lemma hex_bytes_from_hex:
  "list_all (\<lambda>c. c \<in> set ''0123456789abcdef'') s \<Longrightarrow> even (length s) \<Longrightarrow> hex_bytes (from_hex s) = s"
proof (induction s rule: from_hex.induct)
  case (1 a b cs)
  then have a: "hex_value a < 16" "hex_digit (hex_value a) = a"
    and b: "hex_value b < 16" "hex_digit (hex_value b) = b" using hex_chars by auto
  then have "unat (of_nat (16 * hex_value a + hex_value b) :: byte) = 16 * hex_value a + hex_value b"
    by (simp add: unsigned_of_nat take_bit_nat_eq_self del: of_nat_add of_nat_mult)
  moreover have "(16 * hex_value a + hex_value b) div 16 = hex_value a"
    "(16 * hex_value a + hex_value b) mod 16 = hex_value b" using b by auto
  ultimately show ?case using 1 a b by (simp add: hex_bytes_def)
qed (auto simp: hex_bytes_def)

lemma length_from_hex: "even (length s) \<Longrightarrow> length (from_hex s) = length s div 2"
  by (induction s rule: from_hex.induct) auto

lemma signature_message_inj:
  assumes "signature_message i = signature_message j"
    and "matches_sha256 (ai_digest i)" and "matches_sha256 (ai_digest j)"
  shows "i = j"
proof -
  have hex: "hex_bytes (from_hex (ai_digest x)) = ai_digest x" "length (from_hex (ai_digest x)) = 32"
    if "matches_sha256 (ai_digest x)" for x
    using that by (simp_all add: matches_sha256_def hex_bytes_from_hex length_from_hex)
  from assms(1) have e: "utf8 (ai_plugin_id i) @ 0 # from_hex (ai_digest i) = utf8 (ai_plugin_id j) @ 0 # from_hex (ai_digest j)"
    by (simp add: signature_message_def)
  moreover have "length (0 # from_hex (ai_digest i)) = length (0 # from_hex (ai_digest j))"
    using hex(2) [OF assms(2)] hex(2) [OF assms(3)] by simp
  ultimately have "utf8 (ai_plugin_id i) = utf8 (ai_plugin_id j)" "from_hex (ai_digest i) = from_hex (ai_digest j)"
    using append_eq_append_conv [of "utf8 (ai_plugin_id i)" "utf8 (ai_plugin_id j)"] by auto
  then have "ai_plugin_id i = ai_plugin_id j" "ai_digest i = ai_digest j"
    by (simp only: utf8_inj) (metis hex(1) assms(2,3) \<open>from_hex (ai_digest i) = from_hex (ai_digest j)\<close>)
  then show ?thesis by simp
qed

lemma load_store_signature_Inr:
  assumes "load_store_signature parsed = Inr s"
  shows "matches_sha256 (ss_digest s)" and "length (ss_signature s) = 64"
  using assms by (auto simp: load_store_signature_def rbind_Inr split: if_splits option.splits)

lemma make_verifier_keys:
  assumes "make_verifier sha public_key trusted = Inr keys" and "dget keys key_id = Some k"
  shows "\<exists>raw. (key_id, raw) \<in> set trusted \<and> length raw = 32 \<and> hex_bytes (sha raw) = key_id \<and> public_key raw = Some k"
proof -
  from assms(2) have "(key_id, k) \<in> set keys" by (rule map_of_SomeD)
  from rmap_Inr_set [OF assms(1) [unfolded make_verifier_def] this] show ?thesis
    by (force simp: rbind_Inr key_identifier_def split: if_splits option.splits)
qed

text \<open>
  An accepted signature was made with a key the administrator configured, over a message that
  fits no other artifact.
\<close>

lemma verified_signature:
  assumes "make_verifier sha public_key trusted = Inr keys"
    and "verify_signature ed_verify keys a parsed = Inr s"
  shows "\<exists>raw k. (ss_key_id s, raw) \<in> set trusted \<and> hex_bytes (sha raw) = ss_key_id s \<and> public_key raw = Some k \<and>
      ed_verify k (ss_signature s) (signature_message (pa_identity a)) \<and>
      (\<forall>i. matches_sha256 (ai_digest i) \<and> signature_message i = signature_message (pa_identity a) \<longrightarrow> i = pa_identity a)"
proof -
  from assms(2) have l: "load_store_signature parsed = Inr s" and d: "ss_digest s = ai_digest (pa_identity a)"
    by (auto simp: verify_signature_def rbind_Inr split: if_splits option.splits)
  from assms(2) obtain k where k: "dget keys (ss_key_id s) = Some k"
    "ed_verify k (ss_signature s) (signature_message (pa_identity a))"
    by (auto simp: verify_signature_def rbind_Inr split: if_splits option.splits)
  from load_store_signature_Inr(1) [OF l] d have "matches_sha256 (ai_digest (pa_identity a))" by simp
  with k make_verifier_keys [OF assms(1) k(1)] show ?thesis by (meson signature_message_inj)
qed

section \<open>What an accepted lock guarantees\<close>

lemma verify_packages_Inr:
  "verify_packages sha tree names files ps = Inr files' \<Longrightarrow>
   distinct names \<Longrightarrow> distinct files \<Longrightarrow>
   (\<forall>p \<in> set ps. \<exists>raw. file_at tree (lp_artifact p) = Some raw \<and> hex_bytes (sha raw) = lp_sha256 p) \<and>
   distinct (map (normalized_name \<circ> lp_name) ps @ names) \<and> distinct (map lp_artifact ps @ files) \<and>
   set files' = set files \<union> lp_artifact ` set ps"
proof (induction sha tree names files ps rule: verify_packages.induct)
  case (2 sha tree names files p ps)
  then obtain raw where raw: "file_at tree (lp_artifact p) = Some raw" "hex_bytes (sha raw) = lp_sha256 p"
    "normalized_name (lp_name p) \<notin> set names" "lp_artifact p \<notin> set files"
    "verify_packages sha tree (normalized_name (lp_name p) # names) (lp_artifact p # files) ps = Inr files'"
    by (auto split: if_splits option.splits)
  with "2.IH" [OF raw(3,4,1) _ raw(5)] "2.prems"(2,3) show ?case by auto
qed simp

lemma parse_package_Inr:
  "parse_package i v = Inr p \<Longrightarrow>
   matches_package_name (lp_name p) \<and> relative_posix (lp_artifact p) \<and> matches_sha256 (lp_sha256 p) \<and> lp_version p \<noteq> []"
  by (auto simp: parse_package_def rbind_Inr Let_def dest: package_text_Inr split: if_splits)

text \<open>
  Every locked package is present with its digest under a relative path, no name or file is
  locked twice, and no wheel is outside the lock.
\<close>

definition lock_ok :: "(bytes \<Rightarrow> bytes) \<Rightarrow> node \<Rightarrow> dependency_lock \<Rightarrow> bool" where
  "lock_ok sha tree lock \<longleftrightarrow>
     (\<forall>p \<in> set (dl_packages lock). relative_posix (lp_artifact p) \<and> matches_sha256 (lp_sha256 p) \<and>
        (\<exists>raw. file_at tree (lp_artifact p) = Some raw \<and> hex_bytes (sha raw) = lp_sha256 p)) \<and>
     distinct (map (normalized_name \<circ> lp_name) (dl_packages lock)) \<and>
     distinct (map lp_artifact (dl_packages lock)) \<and>
     (\<forall>path \<in> set (all_files '''' tree). suffix ''.whl'' path \<longrightarrow> path \<in> lp_artifact ` set (dl_packages lock))"

lemma load_dependency_lock_ok:
  assumes "load_dependency_lock sha toml tree = Inr lock"
  shows "lock_ok sha tree lock"
proof -
  from assms obtain xs where xs: "rmap (\<lambda>(i, x). parse_package i x) (List.enumerate 0 xs) = Inr (dl_packages lock)"
    and v: "lock_verify sha tree lock = Inr ()"
    by (auto simp: load_dependency_lock_def rbind_Inr Let_def split: if_splits pyval.splits)
  from v obtain files where f: "verify_packages sha tree [] [] (dl_packages lock) = Inr files"
    and s: "sort (remdups (filter (\<lambda>path. suffix ''.whl'' path \<and> path \<notin> set files) (all_files '''' tree))) = []"
    by (auto simp: lock_verify_def rbind_Inr Let_def split: if_splits)
  from arg_cong [OF s, of set] have w: "filter (\<lambda>path. suffix ''.whl'' path \<and> path \<notin> set files) (all_files '''' tree) = []"
    by simp
  from verify_packages_Inr [OF f] have "\<forall>p \<in> set (dl_packages lock). \<exists>raw. file_at tree (lp_artifact p) = Some raw \<and>
      hex_bytes (sha raw) = lp_sha256 p" "distinct (map (normalized_name \<circ> lp_name) (dl_packages lock))"
    "distinct (map lp_artifact (dl_packages lock))" "set files = lp_artifact ` set (dl_packages lock)" by auto
  moreover have "relative_posix (lp_artifact p) \<and> matches_sha256 (lp_sha256 p)" if "p \<in> set (dl_packages lock)" for p
    using rmap_Inr_set [OF xs that] by (auto dest: parse_package_Inr)
  moreover have "\<forall>path \<in> set (all_files '''' tree). suffix ''.whl'' path \<longrightarrow> path \<in> set files"
    using w by (auto simp: filter_empty_conv)
  ultimately show ?thesis by (auto simp: lock_ok_def)
qed

end
