(* ===== verification/Delegation.thy ===== *)
theory Delegation
  imports Registry Artifacts
begin

text \<open>
  \<open>security/delegation.py\<close>: a parent invocation hands attenuated references to a child handler.
  The checks of the planning pass read the clock at \<open>now\<close>, the creating pass at \<open>later\<close>.
\<close>

record delegated_resource =
  dr_parent_token :: string
  dr_rights :: "string list"
  dr_selector :: "string option"
  dr_expires :: "time option"

record delegated_invocation =
  di_authority :: authority_context
  di_resources :: "resource_ref list"

datatype delegation_error =
    PermissionError string
  | AttenuationFailed authority_error
  | ProvenanceFailed authority_error

text \<open>\<open>_verify_parent_owns\<close>: the empty text is no refusal.\<close>

definition verify_parent_owns :: "resource_ref \<Rightarrow> authority_context \<Rightarrow> string" where
  "verify_parent_owns r parent =
     (if ref_digest r \<noteq> ac_digest parent then ''resource is not held by the parent artifact''
      else if ref_principal r \<noteq> ac_principal parent then ''resource principal differs from parent''
      else if ref_user r \<noteq> None \<and> ref_user r \<noteq> ac_user parent then ''resource user differs from parent''
      else if ref_session r \<noteq> None \<and> ref_session r \<noteq> ac_session parent
        then ''resource session differs from parent''
      else if ref_conversation r \<noteq> None \<and> ref_conversation r \<noteq> ac_conversation parent
        then ''resource conversation differs from parent''
      else '''')"

definition chosen_selector :: "delegated_resource \<Rightarrow> resource_ref \<Rightarrow> string" where
  "chosen_selector d source = (case dr_selector d of
      None \<Rightarrow> ref_selector source | Some s \<Rightarrow> if s = [] then ref_selector source else s)"

fun plan_all ::
    "time \<Rightarrow> authority_context \<Rightarrow> plugin_manifest \<Rightarrow> delegated_resource list \<Rightarrow> 'b registry \<Rightarrow>
     (delegation_error + (delegated_resource \<times> string) list) \<times> 'b registry" where
  "plan_all now parent m [] reg = (Inr [], reg)"
| "plan_all now parent m (d # ds) reg =
     (case resolve now (dr_parent_token d) reg of
        (None, reg') \<Rightarrow> (Inl (PermissionError ''delegated resource is absent or expired''), reg')
      | (Some source, reg') \<Rightarrow>
          (let refusal = verify_parent_owns source parent; selector = chosen_selector d source in
           if refusal \<noteq> [] then (Inl (PermissionError refusal), reg')
           else (case find (\<lambda>right. \<not> manifest_declares m right selector []) (dr_rights d) of
               Some right \<Rightarrow>
                 (Inl (PermissionError (''child manifest does not declare '' @ right @ '' on '' @ selector)), reg')
             | None \<Rightarrow>
                 (case plan_all now parent m ds reg' of
                    (Inl e, reg'') \<Rightarrow> (Inl e, reg'')
                  | (Inr plans, reg'') \<Rightarrow> (Inr ((d, selector) # plans), reg'')))))"

text \<open>The creating loop; on the first failure every reference created so far is revoked.\<close>

fun create_all ::
    "(nat \<Rightarrow> string) \<Rightarrow> time \<Rightarrow> string \<Rightarrow> (delegated_resource \<times> string) list \<Rightarrow> resource_ref list \<Rightarrow>
     'b registry \<Rightarrow> (delegation_error + resource_ref list) \<times> 'b registry" where
  "create_all gen later digest [] created reg = (Inr created, reg)"
| "create_all gen later digest ((d, selector) # plans) created reg =
     (case attenuate gen later (dr_parent_token d) digest (dr_rights d) (Some selector) (dr_expires d) reg of
        (Inl e, reg') \<Rightarrow>
          (Inl (AttenuationFailed e), fold (\<lambda>ref r. snd (revoke (ref_token ref) r)) created reg')
      | (Inr ref, reg') \<Rightarrow> create_all gen later digest plans (created @ [ref]) reg')"

definition handler_id :: "handler_manifest \<Rightarrow> string" where
  "handler_id hm = hm_kind hm @ '':'' @ hm_name hm"

definition delegate ::
    "(nat \<Rightarrow> string) \<Rightarrow> time \<Rightarrow> time \<Rightarrow> authority_context \<Rightarrow> plugin_artifact \<Rightarrow> handler_manifest \<Rightarrow>
     delegated_resource list \<Rightarrow> bool \<Rightarrow> 'b registry \<Rightarrow>
     (delegation_error + delegated_invocation) \<times> 'b registry" where
  "delegate gen now later parent child handler requested unattended reg =
     (if current_digest (ac_provenance parent) \<noteq> ac_digest parent
      then (Inl (PermissionError ''parent provenance is not current''), reg)
      else if handler \<notin> set (pm_handlers (pa_manifest child))
      then (Inl (PermissionError ''handler does not belong to child artifact''), reg)
      else (case plan_all now parent (pa_manifest child) requested reg of
          (Inl e, reg1) \<Rightarrow> (Inl e, reg1)
        | (Inr plans, reg1) \<Rightarrow>
            (let digest = ai_digest (pa_identity child) in
             case create_all gen later digest plans [] reg1 of
               (Inl e, reg2) \<Rightarrow> (Inl e, reg2)
             | (Inr created, reg2) \<Rightarrow>
                 (case provenance_enter (ac_provenance parent) digest (handler_id handler) of
                    Inl e \<Rightarrow> (Inl (ProvenanceFailed e), reg2)
                  | Inr chain \<Rightarrow>
                      (Inr \<lparr>di_authority =
                              \<lparr>ac_digest = digest, ac_principal = ac_principal parent,
                               ac_provenance = chain, ac_user = ac_user parent,
                               ac_session = ac_session parent, ac_conversation = ac_conversation parent,
                               ac_unattended = ac_unattended parent \<or> unattended,
                               ac_taint = ac_taint parent\<rparr>,
                            di_resources = created\<rparr>, reg2)))))"

section \<open>All or nothing\<close>

lemma verify_parent_owns_ok: "verify_parent_owns r parent = [] \<longleftrightarrow> held_by parent r"
  by (auto simp: verify_parent_owns_def held_by_def scope_ok_def)

lemma resolve_shrinks: "ref_of (snd (resolve now t reg)) \<subseteq>\<^sub>m ref_of reg"
  by (auto simp: resolve_def map_le_def split: option.splits)

lemma plan_all_shrinks: "plan_all now parent m ds reg = (res, reg') \<Longrightarrow> ref_of reg' \<subseteq>\<^sub>m ref_of reg"
proof (induction ds arbitrary: reg res reg')
  case (Cons d ds)
  obtain src reg1 where r: "resolve now (dr_parent_token d) reg = (src, reg1)" by force
  with resolve_shrinks [of now "dr_parent_token d" reg] have sub: "ref_of reg1 \<subseteq>\<^sub>m ref_of reg" by simp
  obtain res2 reg2 where p: "plan_all now parent m ds reg1 = (res2, reg2)" by force
  from Cons.IH [OF p] sub have "ref_of reg2 \<subseteq>\<^sub>m ref_of reg" by (rule map_le_trans)
  with Cons.prems r p sub show ?case
    by (auto simp: Let_def split: option.splits if_splits sum.splits)
qed simp

lemma plan_all_Inr:
  "plan_all now parent m ds reg = (Inr plans, reg') \<Longrightarrow>
   reg' = reg \<and> map fst plans = ds \<and>
   (\<forall>(d, sel) \<in> set plans. \<exists>src. ref_of reg (dr_parent_token d) = Some src \<and> held_by parent src \<and>
      sel = chosen_selector d src \<and> (\<forall>right \<in> set (dr_rights d). manifest_declares m right sel []))"
proof (induction ds arbitrary: reg plans)
  case (Cons d ds)
  from Cons.prems obtain src plans' where r: "resolve now (dr_parent_token d) reg = (Some src, reg)"
    and o: "held_by parent src"
    and f: "find (\<lambda>right. \<not> manifest_declares m right (chosen_selector d src) []) (dr_rights d) = None"
    and p: "plan_all now parent m ds reg = (Inr plans', reg')" "plans = (d, chosen_selector d src) # plans'"
    by (auto simp: Let_def resolve_Some verify_parent_owns_ok split: prod.splits option.splits if_splits sum.splits)
  from f have "\<forall>right \<in> set (dr_rights d). manifest_declares m right (chosen_selector d src) []"
    by (simp add: find_None_iff)
  with Cons.IH [OF p(1)] r o p(2) show ?case by (auto simp: resolve_Some)
qed simp

lemma revoke_all_items:
  "ref_of (fold (\<lambda>ref r. snd (revoke (ref_token ref) r)) created reg) =
   (\<lambda>t. if t \<in> ref_token ` set created then None else ref_of reg t)"
  by (induction created arbitrary: reg) (auto simp: revoke_def fun_eq_iff)

lemma create_all_Inl:
  assumes "create_all gen later digest plans created reg = (Inl e, reg')"
    and "(\<lambda>t. if t \<in> ref_token ` set created then None else ref_of reg t) \<subseteq>\<^sub>m R"
  shows "ref_of reg' \<subseteq>\<^sub>m R"
  using assms
proof (induction plans arbitrary: created reg)
  case Nil
  then show ?case by simp
next
  case (Cons p plans)
  obtain d sel where p: "p = (d, sel)" by (cases p)
  obtain res reg1 where a: "attenuate gen later (dr_parent_token d) digest (dr_rights d) (Some sel) (dr_expires d) reg = (res, reg1)"
    by force
  show ?case
  proof (cases res)
    case (Inl err)
    with a have "attenuate gen later (dr_parent_token d) digest (dr_rights d) (Some sel) (dr_expires d) reg = (Inl err, reg1)"
      by simp
    from attenuate_Inl_items [OF this] have "ref_of reg1 \<subseteq>\<^sub>m ref_of reg"
      by (auto simp: map_le_def split: if_splits)
    moreover from Cons.prems(1) p a Inl have "reg' = fold (\<lambda>ref r. snd (revoke (ref_token ref) r)) created reg1" by simp
    ultimately show ?thesis using Cons.prems(2)
      by (auto simp: revoke_all_items map_le_def dom_def split: if_splits)
  next
    case (Inr ref)
    with a have a': "attenuate gen later (dr_parent_token d) digest (dr_rights d) (Some sel) (dr_expires d) reg = (Inr ref, reg1)"
      by simp
    from attenuate_Inr [OF a'] have "ref_of reg1 = (ref_of reg)(ref_token ref := Some ref)" by metis
    then have "(\<lambda>t. if t \<in> ref_token ` set (created @ [ref]) then None else ref_of reg1 t) \<subseteq>\<^sub>m R"
      using Cons.prems(2) by (auto simp: map_le_def dom_def split: if_splits)
    with Cons.IH [of "created @ [ref]" reg1] Cons.prems(1) p a Inr show ?thesis by simp
  qed
qed

text \<open>
  A refused delegation leaves no new reference behind, unless the refusal is the provenance
  cycle found after the references were made.
\<close>

lemma delegate_all_or_nothing:
  assumes "delegate gen now later parent child handler requested unattended reg = (Inl e, reg')"
    and "\<And>c. e \<noteq> ProvenanceFailed c"
  shows "ref_of reg' \<subseteq>\<^sub>m ref_of reg"
proof -
  consider (early) "reg' = reg"
    | (plan) "plan_all now parent (pa_manifest child) requested reg = (Inl e, reg')"
    | (create) plans reg1 where "plan_all now parent (pa_manifest child) requested reg = (Inr plans, reg1)"
      "create_all gen later (ai_digest (pa_identity child)) plans [] reg1 = (Inl e, reg')"
    using assms by (auto simp: delegate_def Let_def split: if_splits prod.splits sum.splits)
  then show ?thesis
  proof cases
    case early
    then show ?thesis by (simp add: map_le_def)
  next
    case plan
    then show ?thesis by (rule plan_all_shrinks)
  next
    case create
    from create_all_Inl [OF create(2), of "ref_of reg"] plan_all_shrinks [OF create(1)] show ?thesis by simp
  qed
qed

section \<open>A child never holds more than its parent\<close>

lemma create_all_Inr:
  assumes "create_all gen later digest plans created reg = (Inr refs, reg')"
  shows "\<exists>new. refs = created @ new \<and>
    list_all2 (\<lambda>(d, sel) ref. ref_digest ref = digest \<and> ref_rights ref = set (dr_rights d)) plans new"
  using assms
proof (induction plans arbitrary: created reg)
  case Nil
  then show ?case by simp
next
  case (Cons p plans)
  obtain d sel where p: "p = (d, sel)" by (cases p)
  from Cons.prems p obtain ref reg1 where
    a: "attenuate gen later (dr_parent_token d) digest (dr_rights d) (Some sel) (dr_expires d) reg = (Inr ref, reg1)"
    and c: "create_all gen later digest plans (created @ [ref]) reg1 = (Inr refs, reg')"
    by (auto split: prod.splits sum.splits)
  from attenuate_Inr [OF a] have "ref_digest ref = digest" "ref_rights ref = set (dr_rights d)" by metis+
  with Cons.IH [OF c] p show ?case by auto
qed

text \<open>
  While the creating pass runs, the references the parent named stay in place, because fresh
  tokens are new.
\<close>

lemma create_all_attenuates:
  assumes "create_all gen later digest plans created reg = (Inr refs, reg')"
    and "inj gen" and "registry_wf gen reg"
    and "\<forall>(d, sel) \<in> set plans. ref_of reg (dr_parent_token d) = Some (src d)"
  shows "\<exists>new. refs = created @ new \<and>
    list_all2 (\<lambda>(d, sel) ref. attenuates (src d) ref \<and> ref_digest ref = digest \<and>
      ref_rights ref = set (dr_rights d)) plans new"
  using assms
proof (induction plans arbitrary: created reg)
  case Nil
  then show ?case by simp
next
  case (Cons p plans)
  obtain d sel where p: "p = (d, sel)" by (cases p)
  from Cons.prems(1) p obtain ref reg1 where
    a: "attenuate gen later (dr_parent_token d) digest (dr_rights d) (Some sel) (dr_expires d) reg = (Inr ref, reg1)"
    and c: "create_all gen later digest plans (created @ [ref]) reg1 = (Inr refs, reg')"
    by (auto split: prod.splits sum.splits)
  from attenuate_Inr [OF a] obtain parent where at: "ref_of reg (dr_parent_token d) = Some parent"
    "attenuates parent ref" "ref_digest ref = digest" "ref_rights ref = set (dr_rights d)"
    "ref_token ref = gen (rr_draws reg)" "rr_draws reg1 = Suc (rr_draws reg)"
    "ref_of reg1 = (ref_of reg)(gen (rr_draws reg) := Some ref)" by metis
  from Cons.prems(4) p at(1) have "parent = src d" by auto
  note fresh = issue_fresh [OF Cons.prems(2,3)]
  have wf1: "registry_wf gen reg1"
    using Cons.prems(3) at(5-7) by (auto simp: registry_wf_def less_Suc_eq split: if_splits)
  have "\<forall>(d, sel) \<in> set plans. ref_of reg1 (dr_parent_token d) = Some (src d)"
  proof (clarify)
    fix d' s
    assume "(d', s) \<in> set plans"
    with Cons.prems(4) have x: "ref_of reg (dr_parent_token d') = Some (src d')" by auto
    with fresh have "dr_parent_token d' \<noteq> gen (rr_draws reg)" by auto
    with x at(7) show "ref_of reg1 (dr_parent_token d') = Some (src d')" by simp
  qed
  from Cons.IH [OF c Cons.prems(2) wf1 this] at \<open>parent = src d\<close> p show ?case by auto
qed

lemma delegate_attenuates:
  assumes "delegate gen now later parent child handler requested unattended reg = (Inr granted, reg')"
    and "inj gen" and "registry_wf gen reg"
  shows "list_all2 (\<lambda>d ref. \<exists>src. ref_of reg (dr_parent_token d) = Some src \<and> held_by parent src \<and>
           attenuates src ref \<and> ref_digest ref = ai_digest (pa_identity child) \<and>
           (\<forall>right \<in> ref_rights ref. manifest_declares (pa_manifest child) right (chosen_selector d src) []))
         requested (di_resources granted)"
    and "ac_taint (di_authority granted) = ac_taint parent"
    and "ac_principal (di_authority granted) = ac_principal parent"
    and "ac_unattended parent \<longrightarrow> ac_unattended (di_authority granted)"
    and "provenance_enter (ac_provenance parent) (ai_digest (pa_identity child)) (handler_id handler)
           = Inr (ac_provenance (di_authority granted))"
proof -
  from assms(1) obtain plans where
    p: "plan_all now parent (pa_manifest child) requested reg = (Inr plans, reg)"
    and c: "create_all gen later (ai_digest (pa_identity child)) plans [] reg = (Inr (di_resources granted), reg')"
    and a: "provenance_enter (ac_provenance parent) (ai_digest (pa_identity child)) (handler_id handler)
              = Inr (ac_provenance (di_authority granted))"
      "ac_taint (di_authority granted) = ac_taint parent" "ac_principal (di_authority granted) = ac_principal parent"
      "ac_unattended (di_authority granted) = (ac_unattended parent \<or> unattended)"
    by (auto simp: delegate_def Let_def dest: plan_all_Inr split: if_splits prod.splits sum.splits)
  note pl = plan_all_Inr [OF p]
  define src where "src = (\<lambda>d :: delegated_resource. the (ref_of reg (dr_parent_token d)))"
  have s: "\<forall>(d, sel) \<in> set plans. ref_of reg (dr_parent_token d) = Some (src d)"
    using pl by (fastforce simp: src_def)
  from create_all_attenuates [OF c assms(2,3) s]
  have l: "list_all2 (\<lambda>(d, sel) ref. attenuates (src d) ref \<and> ref_digest ref = ai_digest (pa_identity child) \<and>
      ref_rights ref = set (dr_rights d)) plans (di_resources granted)" by simp
  have "list_all2 (\<lambda>p ref. \<exists>src. ref_of reg (dr_parent_token (fst p)) = Some src \<and> held_by parent src \<and>
           attenuates src ref \<and> ref_digest ref = ai_digest (pa_identity child) \<and>
           (\<forall>right \<in> ref_rights ref. manifest_declares (pa_manifest child) right (chosen_selector (fst p) src) []))
         plans (di_resources granted)"
    using l pl s by (fastforce intro: list.rel_mono_strong [OF l])
  then have "list_all2 (\<lambda>d ref. \<exists>src. ref_of reg (dr_parent_token d) = Some src \<and> held_by parent src \<and>
           attenuates src ref \<and> ref_digest ref = ai_digest (pa_identity child) \<and>
           (\<forall>right \<in> ref_rights ref. manifest_declares (pa_manifest child) right (chosen_selector d src) []))
         (map fst plans) (di_resources granted)"
    by (simp add: list_all2_map1)
  with pl show "list_all2 (\<lambda>d ref. \<exists>src. ref_of reg (dr_parent_token d) = Some src \<and> held_by parent src \<and>
           attenuates src ref \<and> ref_digest ref = ai_digest (pa_identity child) \<and>
           (\<forall>right \<in> ref_rights ref. manifest_declares (pa_manifest child) right (chosen_selector d src) []))
         requested (di_resources granted)" by simp
qed (use assms(1) in \<open>auto simp: delegate_def Let_def split: if_splits prod.splits sum.splits\<close>)

end
