(* ===== verification/Secrets.thy ===== *)
theory Secrets
  imports Registry
begin

text \<open>
  \<open>security/secrets.py\<close>: kernel-owned credentials behind opaque references, each bound to one
  artifact and one destination. Tokens come from the generator \<open>gen\<close> as in the resource
  registry.
\<close>

record secret_ref =
  sr_token :: string
  sr_digest :: string
  sr_destination :: string
  sr_expires :: "time option"

record secret_registry =
  sc_items :: "(string, secret_ref \<times> string) pydict"
  sc_draws :: nat

datatype secret_error =
    SecretFields
  | SecretAbsent
  | SecretExpired
  | SecretOtherArtifact
  | SecretDestination

definition empty_secrets :: secret_registry where
  "empty_secrets = \<lparr>sc_items = [], sc_draws = 0\<rparr>"

definition secret_expired :: "secret_ref \<times> string \<Rightarrow> time \<Rightarrow> bool" where
  "secret_expired item now = (case sr_expires (fst item) of None \<Rightarrow> False | Some e \<Rightarrow> now \<ge> e)"

definition secret_issue ::
    "(nat \<Rightarrow> string) \<Rightarrow> string \<Rightarrow> string \<Rightarrow> string \<Rightarrow> time option \<Rightarrow> secret_registry \<Rightarrow>
     (secret_error + secret_ref) \<times> secret_registry" where
  "secret_issue gen digest destination value expires reg =
     (if digest = [] \<or> destination = [] \<or> value = [] then (Inl SecretFields, reg)
      else (let ref = \<lparr>sr_token = gen (sc_draws reg), sr_digest = digest,
                       sr_destination = destination, sr_expires = expires\<rparr>
            in (Inr ref, reg\<lparr>sc_items := dset (sr_token ref) (ref, value) (sc_items reg),
                             sc_draws := Suc (sc_draws reg)\<rparr>)))"

definition secret_resolve ::
    "time \<Rightarrow> string \<Rightarrow> string \<Rightarrow> string \<Rightarrow> secret_registry \<Rightarrow> (secret_error + string) \<times> secret_registry" where
  "secret_resolve now token digest destination reg = (case dget (sc_items reg) token of
      None \<Rightarrow> (Inl SecretAbsent, reg)
    | Some item \<Rightarrow>
        (if secret_expired item now
         then (Inl SecretExpired, reg\<lparr>sc_items := dpop token (sc_items reg)\<rparr>)
         else if sr_digest (fst item) \<noteq> digest then (Inl SecretOtherArtifact, reg)
         else if \<not> selector_contains (sr_destination (fst item)) destination then (Inl SecretDestination, reg)
         else (Inr (snd item), reg)))"

definition secret_revoke :: "string \<Rightarrow> secret_registry \<Rightarrow> bool \<times> secret_registry" where
  "secret_revoke token reg =
     (dget (sc_items reg) token \<noteq> None, reg\<lparr>sc_items := dpop token (sc_items reg)\<rparr>)"

section \<open>The registry keeps the token contract\<close>

abbreviation secret_of :: "secret_registry \<Rightarrow> string \<Rightarrow> (secret_ref \<times> string) option" where
  "secret_of reg \<equiv> dget (sc_items reg)"

definition secret_permits :: "string \<times> string \<Rightarrow> secret_ref \<times> string \<Rightarrow> bool" where
  "secret_permits caller item \<longleftrightarrow>
     sr_digest (fst item) = fst caller \<and> selector_contains (sr_destination (fst item)) (snd caller)"

definition secret_lookup ::
    "time \<Rightarrow> string \<times> string \<Rightarrow> string \<Rightarrow> secret_registry \<Rightarrow> (secret_ref \<times> string) option \<times> secret_registry" where
  "secret_lookup now caller token reg = (case secret_resolve now token (fst caller) (snd caller) reg of
      (Inl _, reg') \<Rightarrow> (None, reg')
    | (Inr _, reg') \<Rightarrow> (secret_of reg token, reg'))"

lemma secret_resolve_Inr:
  "fst (secret_resolve now token digest destination reg) = Inr value \<longleftrightarrow>
   (\<exists>ref. secret_of reg token = Some (ref, value) \<and> \<not> secret_expired (ref, value) now \<and>
      sr_digest ref = digest \<and> selector_contains (sr_destination ref) destination)"
  by (auto simp: secret_resolve_def split: option.splits)

interpretation secrets: token_registry secret_of secret_lookup "\<lambda>t reg. snd (secret_revoke t reg)"
  secret_expired secret_permits
proof unfold_locales
  fix now c t s and r :: "secret_ref \<times> string"
  show "fst (secret_lookup now c t s) = Some r \<longleftrightarrow>
      secret_of s t = Some r \<and> \<not> secret_expired r now \<and> secret_permits c r"
    by (auto simp: secret_lookup_def secret_resolve_def secret_permits_def split: option.splits)
next
  fix now c t s and r :: "secret_ref \<times> string"
  assume "secret_of s t = Some r" "\<not> secret_expired r now"
  then show "secret_of (snd (secret_lookup now c t s)) = secret_of s"
    by (auto simp: secret_lookup_def secret_resolve_def)
next
  fix now c t s and r :: "secret_ref \<times> string"
  assume "secret_of s t = Some r" "secret_expired r now"
  then show "secret_of (snd (secret_lookup now c t s)) = (secret_of s)(t := None)"
    by (auto simp: secret_lookup_def secret_resolve_def)
next
  fix now c t s
  assume "secret_of s t = None"
  then show "secret_of (snd (secret_lookup now c t s)) = secret_of s"
    by (auto simp: secret_lookup_def secret_resolve_def)
next
  fix t s
  show "secret_of (snd (secret_revoke t s)) = (secret_of s)(t := None)"
    by (auto simp: secret_revoke_def)
next
  fix r :: "secret_ref \<times> string" and now later
  assume "secret_expired r now" "now \<le> later"
  then show "secret_expired r later" by (auto simp: secret_expired_def split: option.splits)
qed

text \<open>An issued secret opens for its artifact and destinations only, until it expires.\<close>

lemma secret_issued:
  assumes "secret_issue gen digest destination value expires reg = (Inr ref, reg')"
  shows "fst (secret_resolve now (sr_token ref) caller dest reg') = Inr v \<longleftrightarrow>
     v = value \<and> caller = digest \<and> selector_contains destination dest \<and>
     (\<forall>e. expires = Some e \<longrightarrow> now < e)"
  using assms
  by (auto simp: secret_resolve_Inr secret_issue_def Let_def secret_expired_def split: if_splits option.splits)

end
