(* ===== verification/Trust.thy ===== *)
theory Trust
  imports Artifacts
begin

text \<open>
  \<open>security/trust.py\<close>: the file of digest-pinned promotions into the trusted computing base.
  The file is \<open>None\<close> when absent, else the value its JSON text denotes; unreadable text is
  \<open>Inl\<close> of the parser's message. The write is atomic (a temporary file and a rename), so an
  operation leaves either the old file or the complete new one.
\<close>

record trust_record =
  tr_plugin_id :: string
  tr_digest :: string
  tr_approved_at :: string
  tr_approved_by :: string
  tr_restart :: bool

type_synonym trust_file = "(string + pyval) option"

datatype trust_error =
    TrustUnreadable string
  | TrustRoot
  | TrustMalformed
  | TrustDigest
  | TrustAcknowledgement
  | TrustApprover

definition tcb_acknowledgement :: string where
  "tcb_acknowledgement = ''I ACCEPT THAT THIS PLUGIN CAN FULLY COMPROMISE SECOND BRAIN''"

text \<open>
  \<open>TrustRecord(**item)\<close>: a table with the four required fields and no other than the optional
  one. The dataclass checks no types; the fields the model reads are text in every file this
  class wrote, and any other type is taken as malformed.
\<close>

definition trust_keys :: "string list" where
  "trust_keys = [''plugin_id'', ''digest'', ''approved_at'', ''approved_by'']"

definition trust_text :: "(string, pyval) pydict \<Rightarrow> string \<Rightarrow> trust_error + string" where
  "trust_text d k = (case dget d k of Some (VStr s) \<Rightarrow> Inr s | _ \<Rightarrow> Inl TrustMalformed)"

definition record_of_value :: "pyval \<Rightarrow> trust_error + trust_record" where
  "record_of_value v = (case v of
      VDict d \<Rightarrow>
        (if \<not> set trust_keys \<subseteq> set (dkeys d) \<or>
            \<not> set (dkeys d) \<subseteq> insert ''takes_effect_after_restart'' (set trust_keys)
         then Inl TrustMalformed
         else
         rbind (trust_text d ''plugin_id'') (\<lambda>p.
         rbind (trust_text d ''digest'') (\<lambda>g.
         rbind (trust_text d ''approved_at'') (\<lambda>stamp.
         rbind (trust_text d ''approved_by'') (\<lambda>who.
         rbind (case raw_get d ''takes_effect_after_restart'' (VBool True) of
                  VBool b \<Rightarrow> Inr b | _ \<Rightarrow> Inl TrustMalformed) (\<lambda>b.
         if length g \<noteq> 64 then Inl TrustDigest
         else Inr \<lparr>tr_plugin_id = p, tr_digest = g, tr_approved_at = stamp,
                   tr_approved_by = who, tr_restart = b\<rparr>))))))
    | _ \<Rightarrow> Inl TrustMalformed)"

definition trust_records :: "trust_file \<Rightarrow> trust_error + trust_record list" where
  "trust_records f = (case f of
      None \<Rightarrow> Inr []
    | Some (Inl msg) \<Rightarrow> Inl (TrustUnreadable msg)
    | Some (Inr (VList xs)) \<Rightarrow> rmap record_of_value xs
    | Some (Inr _) \<Rightarrow> Inl TrustRoot)"

text \<open>\<open>asdict\<close> and the sorted keys \<open>json.dump\<close> writes.\<close>

definition value_of_record :: "trust_record \<Rightarrow> pyval" where
  "value_of_record r = VDict
     [(''approved_at'', VStr (tr_approved_at r)), (''approved_by'', VStr (tr_approved_by r)),
      (''digest'', VStr (tr_digest r)), (''plugin_id'', VStr (tr_plugin_id r)),
      (''takes_effect_after_restart'', VBool (tr_restart r))]"

definition atomic_write :: "trust_record list \<Rightarrow> trust_file" where
  "atomic_write rs = Some (Inr (VList (map value_of_record rs)))"

definition is_promoted :: "trust_file \<Rightarrow> artifact_id \<Rightarrow> trust_error + bool" where
  "is_promoted f i = rbind (trust_records f) (\<lambda>rs.
     Inr (list_ex (\<lambda>r. tr_plugin_id r = ai_plugin_id i \<and> tr_digest r = ai_digest i) rs))"

definition promote ::
    "string \<Rightarrow> artifact_id \<Rightarrow> string \<Rightarrow> string \<Rightarrow> trust_file \<Rightarrow> (trust_error + trust_record) \<times> trust_file" where
  "promote stamp i approved_by acknowledgement f =
     (if acknowledgement \<noteq> tcb_acknowledgement then (Inl TrustAcknowledgement, f)
      else if strip approved_by = [] then (Inl TrustApprover, f)
      else (let r = \<lparr>tr_plugin_id = ai_plugin_id i, tr_digest = ai_digest i, tr_approved_at = stamp,
                     tr_approved_by = strip approved_by, tr_restart = True\<rparr>
            in case trust_records f of
                 Inl e \<Rightarrow> (Inl e, f)
               | Inr rs \<Rightarrow>
                   (Inr r, atomic_write (filter (\<lambda>x. tr_plugin_id x \<noteq> ai_plugin_id i) rs @ [r]))))"

definition trust_revoke :: "string \<Rightarrow> trust_file \<Rightarrow> (trust_error + bool) \<times> trust_file" where
  "trust_revoke plugin_id f = (case trust_records f of
      Inl e \<Rightarrow> (Inl e, f)
    | Inr rs \<Rightarrow>
        (let kept = filter (\<lambda>x. tr_plugin_id x \<noteq> plugin_id) rs in
         if length kept = length rs then (Inr False, f) else (Inr True, atomic_write kept)))"

section \<open>Reading back what was written\<close>

lemma record_roundtrip:
  "length (tr_digest r) = 64 \<Longrightarrow> record_of_value (value_of_record r) = Inr r"
  by (simp add: record_of_value_def value_of_record_def trust_keys_def trust_text_def)

lemma record_of_value_digest: "record_of_value v = Inr r \<Longrightarrow> length (tr_digest r) = 64"
  by (cases v) (auto simp: record_of_value_def rbind_Inr split: if_splits)

lemma rmap_map: "(\<And>x. x \<in> set xs \<Longrightarrow> f (g x) = Inr x) \<Longrightarrow> rmap f (map g xs) = Inr xs"
  by (induction xs) auto

lemma trust_roundtrip:
  "(\<And>r. r \<in> set rs \<Longrightarrow> length (tr_digest r) = 64) \<Longrightarrow> trust_records (atomic_write rs) = Inr rs"
  by (simp add: trust_records_def atomic_write_def rmap_map record_roundtrip)

lemma trust_records_digest: "trust_records f = Inr rs \<Longrightarrow> r \<in> set rs \<Longrightarrow> length (tr_digest r) = 64"
  by (auto simp: trust_records_def dest!: rmap_Inr_set record_of_value_digest
      split: option.splits sum.splits pyval.splits)

text \<open>
  A promotion pins exactly one digest of its plugin and touches no other plugin; it needs the
  acknowledgement verbatim.
\<close>

lemma promote_pins:
  assumes "promote stamp i who ack f = (Inr r, f')" and "length (ai_digest i) = 64"
  shows "ack = tcb_acknowledgement"
    and "is_promoted f' j = Inr b \<longleftrightarrow>
      (if ai_plugin_id j = ai_plugin_id i then b = (ai_digest j = ai_digest i) else is_promoted f j = Inr b)"
proof -
  from assms(1) obtain rs where ack: "ack = tcb_acknowledgement" and rs: "trust_records f = Inr rs"
    and f': "f' = atomic_write (filter (\<lambda>x. tr_plugin_id x \<noteq> ai_plugin_id i) rs @ [r])"
    and r: "tr_plugin_id r = ai_plugin_id i" "tr_digest r = ai_digest i"
    by (auto simp: promote_def Let_def split: if_splits sum.splits)
  show "ack = tcb_acknowledgement" by (rule ack)
  have "trust_records f' = Inr (filter (\<lambda>x. tr_plugin_id x \<noteq> ai_plugin_id i) rs @ [r])"
    unfolding f' by (rule trust_roundtrip) (use trust_records_digest [OF rs] r assms(2) in auto)
  with rs r show "is_promoted f' j = Inr b \<longleftrightarrow>
      (if ai_plugin_id j = ai_plugin_id i then b = (ai_digest j = ai_digest i) else is_promoted f j = Inr b)"
    by (auto simp: is_promoted_def list_ex_iff)
qed

lemma revoke_demotes:
  assumes "trust_revoke plugin_id f = (Inr found, f')"
  shows "is_promoted f' j = Inr b \<longleftrightarrow>
      (if ai_plugin_id j = plugin_id then b = False else is_promoted f j = Inr b)"
proof -
  from assms obtain rs where rs: "trust_records f = Inr rs"
    by (auto simp: trust_revoke_def split: sum.splits)
  let ?kept = "filter (\<lambda>x. tr_plugin_id x \<noteq> plugin_id) rs"
  have "trust_records f' = Inr ?kept"
  proof (cases "length ?kept = length rs")
    case True
    then have "?kept = rs" by (metis filter_id_conv length_filter_less nat_less_le)
    with assms rs True show ?thesis by (simp add: trust_revoke_def Let_def)
  next
    case False
    with assms rs have "f' = atomic_write ?kept" by (simp add: trust_revoke_def Let_def)
    then show ?thesis using trust_roundtrip [of ?kept] trust_records_digest [OF rs] by auto
  qed
  with rs show ?thesis by (auto simp: is_promoted_def list_ex_iff)
qed

end
