(* ===== verification/PluginData.thy ===== *)
theory PluginData
  imports Registry
begin

text \<open>
  \<open>security/data.py\<close>: namespaced plugin data with versioned writes and a journal of inverses,
  the kernel's typed views, and the adapter that turns a payload into a prepared operation.
  A JSON text is the value it denotes; \<open>sort_keys\<close> makes that value independent of the order
  of dictionary keys. Each write runs inside one immediate transaction under the database lock,
  so it is one step here, and an exception leaves the tables as they were.
\<close>

section \<open>Strict JSON\<close>

fun json_ok :: "pyval \<Rightarrow> bool" where
  "json_ok (VObj _) = False"
| "json_ok (VList xs) = list_all json_ok xs"
| "json_ok (VDict d) = list_all (\<lambda>(_, v). json_ok v) d"
| "json_ok _ = True"

fun json_norm :: "pyval \<Rightarrow> pyval" where
  "json_norm (VList xs) = VList (map json_norm xs)"
| "json_norm (VDict d) = VDict (sort_key fst (map (\<lambda>(k, v). (k, json_norm v)) d))"
| "json_norm v = v"

section \<open>The tables\<close>

type_synonym kv_key = "string \<times> string \<times> string"

record kv_row =
  kv_value :: pyval
  kv_labels :: "data_label set"
  kv_version :: int
  kv_updated :: time

record inverse_row =
  ir_ts :: time
  ir_key :: kv_key
  ir_prior :: "kv_row option"
  ir_rolled_back :: bool

record data_store =
  ds_rows :: "(kv_key, kv_row) pydict"
  ds_journal :: "(string, inverse_row) pydict"
  ds_draws :: nat

definition empty_store :: data_store where
  "empty_store = \<lparr>ds_rows = [], ds_journal = [], ds_draws = 0\<rparr>"

datatype data_error =
    NotStrictJson
  | VersionConflict int int
  | DuplicateTransaction
  | UnknownView string
  | ViewExists string
  | ViewNotGranted
  | BadParams
  | BadOperation
  | BadKey
  | BadPrefix
  | BadExpectedVersion
  | BadLimit pyexn
  | BadReference
  | NoDataBinding
  | ViewFailed pyexn

definition store_metadata :: "data_store \<Rightarrow> kv_key \<Rightarrow> (int \<times> data_label set) option" where
  "store_metadata st k = map_option (\<lambda>r. (kv_version r, kv_labels r)) (dget (ds_rows st) k)"

definition store_get :: "data_store \<Rightarrow> kv_key \<Rightarrow> kv_row option" where
  "store_get st k = dget (ds_rows st) k"

section \<open>Listing by prefix\<close>

text \<open>
  SQLite's \<open>LIKE\<close> with an escape character, which folds the case of ASCII letters, and the
  escaping of the wildcards in a prefix.
\<close>

fun like_match :: "string \<Rightarrow> string \<Rightarrow> bool" where
  "like_match [] s = (s = [])"
| "like_match (p # ps) s =
     (if p = CHR 0x5C then
        (case ps of [] \<Rightarrow> False
         | q # qs \<Rightarrow> (case s of [] \<Rightarrow> False | c # cs \<Rightarrow> lower_char c = lower_char q \<and> like_match qs cs))
      else if p = CHR ''%'' then
        (like_match ps s \<or> (case s of [] \<Rightarrow> False | c # cs \<Rightarrow> like_match (p # ps) cs))
      else if p = CHR ''_'' then (case s of [] \<Rightarrow> False | c # cs \<Rightarrow> like_match ps cs)
      else (case s of [] \<Rightarrow> False | c # cs \<Rightarrow> lower_char c = lower_char p \<and> like_match ps cs))"

definition like_escape :: "string \<Rightarrow> string" where
  "like_escape s = concat (map (\<lambda>c. if c \<in> {CHR 0x5C, CHR ''%'', CHR ''_''} then [CHR 0x5C, c] else [c]) s)"

definition store_list :: "data_store \<Rightarrow> string \<Rightarrow> string \<Rightarrow> string \<Rightarrow> int \<Rightarrow> (string \<times> kv_row) list" where
  "store_list st digest namespace key_prefix limit =
     take (nat (max 1 (min limit 1000)))
       (sort_key fst
         (map (\<lambda>((_, _, k), r). (k, r))
           (filter (\<lambda>((d, n, k), _). d = digest \<and> n = namespace \<and> like_match (like_escape key_prefix @ ''%'') k)
             (ds_rows st))))"

section \<open>Writes and their inverses\<close>

definition record_inverse ::
    "string \<Rightarrow> time \<Rightarrow> kv_key \<Rightarrow> data_store \<Rightarrow> data_error + data_store" where
  "record_inverse tid now k st =
     (if dget (ds_journal st) tid \<noteq> None then Inl DuplicateTransaction
      else Inr (st\<lparr>ds_journal := dset tid
        \<lparr>ir_ts = now, ir_key = k, ir_prior = dget (ds_rows st) k, ir_rolled_back = False\<rparr> (ds_journal st)\<rparr>))"

definition current_version :: "data_store \<Rightarrow> kv_key \<Rightarrow> int" where
  "current_version st k = (case dget (ds_rows st) k of None \<Rightarrow> 0 | Some r \<Rightarrow> kv_version r)"

definition store_put ::
    "(nat \<Rightarrow> string) \<Rightarrow> time \<Rightarrow> kv_key \<Rightarrow> pyval \<Rightarrow> data_label set \<Rightarrow> int option \<Rightarrow> data_store \<Rightarrow>
     (data_error + string \<times> int) \<times> data_store" where
  "store_put gen now k value labels expected st =
     (if \<not> json_ok value then (Inl NotStrictJson, st)
      else (let tid = gen (ds_draws st); st0 = st\<lparr>ds_draws := Suc (ds_draws st)\<rparr>;
                current = current_version st0 k
            in if expected \<noteq> None \<and> expected \<noteq> Some current
               then (Inl (VersionConflict (the expected) current), st0)
               else (case record_inverse tid now k st0 of
                   Inl e \<Rightarrow> (Inl e, st0)
                 | Inr st1 \<Rightarrow>
                     (Inr (tid, current + 1),
                      st1\<lparr>ds_rows := dset k \<lparr>kv_value = json_norm value, kv_labels = labels,
                            kv_version = current + 1, kv_updated = now\<rparr> (ds_rows st1)\<rparr>))))"

definition store_delete ::
    "(nat \<Rightarrow> string) \<Rightarrow> time \<Rightarrow> kv_key \<Rightarrow> int option \<Rightarrow> data_store \<Rightarrow>
     (data_error + string \<times> bool) \<times> data_store" where
  "store_delete gen now k expected st =
     (let tid = gen (ds_draws st); st0 = st\<lparr>ds_draws := Suc (ds_draws st)\<rparr>;
          current = current_version st0 k
      in if expected \<noteq> None \<and> expected \<noteq> Some current
         then (Inl (VersionConflict (the expected) current), st0)
         else (case record_inverse tid now k st0 of
             Inl e \<Rightarrow> (Inl e, st0)
           | Inr st1 \<Rightarrow>
               (Inr (tid, dget (ds_rows st0) k \<noteq> None), st1\<lparr>ds_rows := dpop k (ds_rows st1)\<rparr>)))"

definition store_rollback :: "string \<Rightarrow> data_store \<Rightarrow> bool \<times> data_store" where
  "store_rollback tid st = (case dget (ds_journal st) tid of
      None \<Rightarrow> (False, st)
    | Some j \<Rightarrow>
        (if ir_rolled_back j then (False, st)
         else (True, st\<lparr>ds_rows := (case ir_prior j of
                            Some r \<Rightarrow> dset (ir_key j) r (ds_rows st)
                          | None \<Rightarrow> dpop (ir_key j) (ds_rows st)),
                        ds_journal := dset tid (j\<lparr>ir_rolled_back := True\<rparr>) (ds_journal st)\<rparr>)))"

section \<open>Typed views\<close>

type_synonym view_reader = "authority_context \<Rightarrow> (string, pyval) pydict \<Rightarrow> pyval pyres"

type_synonym view_registry = "(string, view_reader \<times> data_label set) pydict"

definition view_register :: "string \<Rightarrow> view_reader \<Rightarrow> data_label list \<Rightarrow> view_registry \<Rightarrow> data_error + view_registry" where
  "view_register nm reader labels vs =
     (if dget vs nm \<noteq> None then Inl (ViewExists nm) else Inr (dset nm (reader, set labels) vs))"

definition view_labels :: "string \<Rightarrow> view_registry \<Rightarrow> data_error + data_label set" where
  "view_labels nm vs = (case dget vs nm of None \<Rightarrow> Inl (UnknownView nm) | Some (_, ls) \<Rightarrow> Inr ls)"

definition view_read :: "string \<Rightarrow> authority_context \<Rightarrow> (string, pyval) pydict \<Rightarrow> view_registry \<Rightarrow> data_error + pyval" where
  "view_read nm auth params vs = (case dget vs nm of
      None \<Rightarrow> Inl (UnknownView nm)
    | Some (reader, _) \<Rightarrow> (case reader auth params of Inl e \<Rightarrow> Inl (ViewFailed e) | Inr v \<Rightarrow> Inr v))"

section \<open>The adapter\<close>

datatype kernel_binding = DataBinding string "string list" | PathBinding "string list"

text \<open>The operation a prepared effect will enact, with everything its closure captured.\<close>

datatype data_op =
    OpGet kv_key
  | OpList "(string \<times> kv_row) list"
  | OpView string authority_context "(string, pyval) pydict"
  | OpPut kv_key pyval "data_label set" "int option"
  | OpDelete kv_key "int option"

record 'op prepared_op =
  po_request :: capability_request
  po_facts :: mediation_facts
  po_op :: 'op

definition data_key :: "pyval \<Rightarrow> data_error + string" where
  "data_key v = (case v of
      VStr s \<Rightarrow> (if s = [] \<or> length s > 512 \<or> CHR 0x00 \<in> set s then Inl BadKey else Inr s)
    | _ \<Rightarrow> Inl BadKey)"

definition data_prefix :: "pyval \<Rightarrow> data_error + string" where
  "data_prefix v = (case v of
      VStr s \<Rightarrow> (if length s > 512 \<or> CHR 0x00 \<in> set s then Inl BadPrefix else Inr s)
    | _ \<Rightarrow> Inl BadPrefix)"

definition data_request ::
    "time \<Rightarrow> string \<Rightarrow> (string, pyval) pydict \<Rightarrow> kernel_binding registry \<Rightarrow>
     (data_error + capability_request \<times> string \<times> string list) \<times> kernel_binding registry" where
  "data_request now right payload reg =
     (case (raw_get payload ''resource'' VNone, raw_get payload ''selector'' VNone) of
        (VStr token, VStr selector) \<Rightarrow>
          (case binding now token reg of (b, reg') \<Rightarrow>
            (case b of
               Some (DataBinding ns views) \<Rightarrow>
                 (Inr (\<lparr>rq_right = right, rq_token = token, rq_selector = selector,
                        rq_destination = [], rq_labels = {}\<rparr>, ns, views), reg')
             | _ \<Rightarrow> (Inl NoDataBinding, reg')))
      | _ \<Rightarrow> (Inl BadReference, reg))"

definition with_labels :: "capability_request \<Rightarrow> data_label set \<Rightarrow> capability_request" where
  "with_labels r ls = r\<lparr>rq_labels := ls\<rparr>"

definition listed_labels :: "(string \<times> kv_row) list \<Rightarrow> data_label set" where
  "listed_labels rows =
     (let ls = \<Union> (set (map (\<lambda>(_, r). kv_labels r) rows)) in if ls = {} then {PUBLIC} else ls)"

definition prepare_data_op ::
    "host \<Rightarrow> data_store \<Rightarrow> view_registry \<Rightarrow> authority_context \<Rightarrow> (string, pyval) pydict \<Rightarrow>
     capability_request \<Rightarrow> string \<Rightarrow> string list \<Rightarrow> data_error + data_op prepared_op" where
  "prepare_data_op h st vs auth payload req ns views =
     (let operation = raw_get payload ''operation'' VNone in
      if pyeq operation (VStr ''get'') then
        rbind (data_key (raw_get payload ''key'' VNone)) (\<lambda>key.
        (let k = (ac_digest auth, ns, key);
             labels = (case store_metadata st k of None \<Rightarrow> {PUBLIC} | Some (_, ls) \<Rightarrow> ls)
         in Inr \<lparr>po_request = with_labels req labels, po_facts = default_facts, po_op = OpGet k\<rparr>))
      else if pyeq operation (VStr ''list'') then
        rbind (data_prefix (raw_get payload ''prefix'' (VStr ''''))) (\<lambda>p.
        rbind (case py_int (raw_get payload ''limit'' (VInt 100)) of Inl e \<Rightarrow> Inl (BadLimit e) | Inr n \<Rightarrow> Inr n) (\<lambda>n.
        (let rows = store_list st (ac_digest auth) ns p (max 1 (min n 1000))
         in Inr \<lparr>po_request = with_labels req (listed_labels rows), po_facts = default_facts,
                 po_op = OpList rows\<rparr>)))
      else if pyeq operation (VStr ''view'') then
        (let nm = py_str h (py_or (raw_get payload ''view'' VNone) (VStr '''')) in
         if nm \<notin> set views then Inl ViewNotGranted
         else (case py_or (raw_get payload ''params'' VNone) (VDict []) of
             VDict params \<Rightarrow>
               rbind (view_labels nm vs) (\<lambda>ls.
                 Inr \<lparr>po_request = with_labels req ls, po_facts = default_facts,
                      po_op = OpView nm auth params\<rparr>)
           | _ \<Rightarrow> Inl BadParams))
      else Inl BadOperation)"

definition prepare_data_read ::
    "host \<Rightarrow> time \<Rightarrow> data_store \<Rightarrow> view_registry \<Rightarrow> authority_context \<Rightarrow> (string, pyval) pydict \<Rightarrow>
     kernel_binding registry \<Rightarrow> (data_error + data_op prepared_op) \<times> kernel_binding registry" where
  "prepare_data_read h now st vs auth payload reg =
     (case data_request now ''data.read'' payload reg of
        (Inl e, reg') \<Rightarrow> (Inl e, reg')
      | (Inr (req, ns, views), reg') \<Rightarrow> (prepare_data_op h st vs auth payload req ns views, reg'))"

definition expected_version :: "pyval \<Rightarrow> data_error + int option" where
  "expected_version v = (case v of
      VNone \<Rightarrow> Inr None
    | VInt i \<Rightarrow> (if i < 0 then Inl BadExpectedVersion else Inr (Some i))
    | _ \<Rightarrow> Inl BadExpectedVersion)"

definition prepare_write_op ::
    "authority_context \<Rightarrow> (string, pyval) pydict \<Rightarrow> capability_request \<Rightarrow> string \<Rightarrow>
     data_error + data_op prepared_op" where
  "prepare_write_op auth payload req ns =
     rbind (data_key (raw_get payload ''key'' VNone)) (\<lambda>key.
     rbind (expected_version (raw_get payload ''expected_version'' VNone)) (\<lambda>expected.
     (let operation = raw_get payload ''operation'' VNone; k = (ac_digest auth, ns, key);
          facts = default_facts\<lparr>mf_undo_ready := True\<rparr>
      in if pyeq operation (VStr ''put'') then
           (let value = raw_get payload ''value'' VNone in
            if \<not> json_ok value then Inl NotStrictJson
            else Inr \<lparr>po_request = req, po_facts = facts, po_op = OpPut k value (ac_taint auth) expected\<rparr>)
         else if pyeq operation (VStr ''delete'') then
           Inr \<lparr>po_request = req, po_facts = facts, po_op = OpDelete k expected\<rparr>
         else Inl BadOperation)))"

definition prepare_data_write ::
    "time \<Rightarrow> authority_context \<Rightarrow> (string, pyval) pydict \<Rightarrow> kernel_binding registry \<Rightarrow>
     (data_error + data_op prepared_op) \<times> kernel_binding registry" where
  "prepare_data_write now auth payload reg =
     (case data_request now ''data.write'' payload reg of
        (Inl e, reg') \<Rightarrow> (Inl e, reg')
      | (Inr (req, ns, _), reg') \<Rightarrow> (prepare_write_op auth payload req ns, reg'))"

definition label_name :: "data_label \<Rightarrow> string" where
  "label_name l = (case l of PUBLIC \<Rightarrow> ''public'' | USER_PRIVATE \<Rightarrow> ''user_private''
     | SYSTEM_SENSITIVE \<Rightarrow> ''system_sensitive'' | SECRET \<Rightarrow> ''secret'')"

definition wire_stored :: "(string \<times> kv_row) option \<Rightarrow> pyval" where
  "wire_stored row = (case row of
      None \<Rightarrow> VNone
    | Some (k, r) \<Rightarrow> VDict
        [(''key'', VStr k), (''value'', kv_value r), (''version'', VInt (kv_version r)),
         (''labels'', VList (map (\<lambda>l. VStr (label_name l)) (sorted_list_of_set (kv_labels r)))),
         (''updated_at'', VInt (kv_updated r))])"

definition enact_data_op ::
    "(nat \<Rightarrow> string) \<Rightarrow> time \<Rightarrow> view_registry \<Rightarrow> data_op \<Rightarrow> data_store \<Rightarrow> (data_error + pyval) \<times> data_store" where
  "enact_data_op gen now vs op st = (case op of
      OpGet k \<Rightarrow> (Inr (wire_stored (map_option (\<lambda>r. (snd (snd k), r)) (store_get st k))), st)
    | OpList rows \<Rightarrow> (Inr (VList (map (\<lambda>row. wire_stored (Some row)) rows)), st)
    | OpView nm auth params \<Rightarrow> (view_read nm auth params vs, st)
    | OpPut k value labels expected \<Rightarrow>
        (case store_put gen now k value labels expected st of
           (Inl e, st') \<Rightarrow> (Inl e, st')
         | (Inr (tid, version), st') \<Rightarrow>
             (Inr (VDict [(''transaction_id'', VStr tid), (''version'', VInt version)]), st'))
    | OpDelete k expected \<Rightarrow>
        (case store_delete gen now k expected st of
           (Inl e, st') \<Rightarrow> (Inl e, st')
         | (Inr (tid, existed), st') \<Rightarrow>
             (Inr (VDict [(''transaction_id'', VStr tid), (''existed'', VBool existed)]), st')))"

section \<open>Prefix listing\<close>

lemma like_percent [simp]: "like_match ''%'' s"
proof (induction s)
  case Nil
  show ?case by simp
next
  case (Cons c s)
  have "like_match ''%'' (c # s) \<longleftrightarrow> like_match [] (c # s) \<or> like_match ''%'' s"
    by (subst like_match.simps(2)) (simp del: like_match.simps(2))
  with Cons show ?case by (simp only: simp_thms)
qed

lemma like_escape_prefix:
  "like_match (like_escape p @ ''%'') s \<longleftrightarrow> prefix (map lower_char p) (map lower_char s)"
proof (induction p arbitrary: s)
  case Nil
  then show ?case by (simp add: like_escape_def del: like_match.simps)
next
  case (Cons c p)
  have "like_escape (c # p) = (if c \<in> {CHR 0x5C, CHR ''%'', CHR ''_''} then [CHR 0x5C, c] else [c]) @ like_escape p"
    by (simp add: like_escape_def)
  with Cons show ?case by (cases s) auto
qed

section \<open>Reversible stores\<close>

text \<open>Applying a list of operations, the transactions of those that succeed; and rolling a list back.\<close>

fun apply_all :: "('op \<Rightarrow> 's \<Rightarrow> ('e + string) \<times> 's) \<Rightarrow> 'op list \<Rightarrow> 's \<Rightarrow> string list \<times> 's" where
  "apply_all apply_op [] s = ([], s)"
| "apply_all apply_op (op # ops) s =
     (case apply_op op s of
        (Inl _, s') \<Rightarrow> apply_all apply_op ops s'
      | (Inr tid, s') \<Rightarrow> (case apply_all apply_op ops s' of (tids, s'') \<Rightarrow> (tid # tids, s'')))"

fun undo_all :: "(string \<Rightarrow> 's \<Rightarrow> bool \<times> 's) \<Rightarrow> string list \<Rightarrow> 's \<Rightarrow> 's" where
  "undo_all undo [] s = s"
| "undo_all undo (tid # tids) s = undo_all undo tids (snd (undo tid s))"

lemma undo_all_append: "undo_all undo (xs @ ys) s = undo_all undo ys (undo_all undo xs s)"
  by (induction xs arbitrary: s) simp_all

text \<open>
  The contract of a journalled store: applying an operation files an inverse under a new
  transaction, and rolling a pending transaction back runs its inverse once.
\<close>

locale reversible_store =
  fixes apply_op :: "'op \<Rightarrow> 's \<Rightarrow> ('e + string) \<times> 's"
    and undo :: "string \<Rightarrow> 's \<Rightarrow> bool \<times> 's"
    and view :: "'s \<Rightarrow> 'v"
    and pending :: "'s \<Rightarrow> string \<Rightarrow> ('v \<Rightarrow> 'v) option"
  assumes apply_ok: "apply_op op s = (Inr tid, s') \<Longrightarrow>
      \<exists>f. pending s' = (pending s)(tid := Some f) \<and> f (view s') = view s"
    and apply_new: "apply_op op s = (Inr tid, s') \<Longrightarrow> pending s tid = None"
    and apply_failed: "apply_op op s = (Inl e, s') \<Longrightarrow> view s' = view s \<and> pending s' = pending s"
    and undo_pending: "pending s tid = Some f \<Longrightarrow>
      \<exists>s'. undo tid s = (True, s') \<and> view s' = f (view s) \<and> pending s' = (pending s)(tid := None)"
    and undo_absent: "pending s tid = None \<Longrightarrow> undo tid s = (False, s)"
begin

text \<open>Undoing a turn's transactions, last first, restores the contents it started from.\<close>

lemma undo_restores:
  "apply_all apply_op ops s = (tids, s') \<Longrightarrow>
   view (undo_all undo (rev tids) s') = view s \<and> pending (undo_all undo (rev tids) s') = pending s"
proof (induction ops arbitrary: s tids s')
  case Nil
  then show ?case by simp
next
  case (Cons op ops)
  obtain r s1 where a: "apply_op op s = (r, s1)" by force
  show ?case
  proof (cases r)
    case (Inl e)
    with a Cons apply_failed show ?thesis by fastforce
  next
    case (Inr tid)
    with a have a': "apply_op op s = (Inr tid, s1)" by simp
    obtain tids1 s2 where r: "apply_all apply_op ops s1 = (tids1, s2)" by force
    with Cons.prems a' have t: "tids = tid # tids1" "s' = s2" by simp_all
    let ?s3 = "undo_all undo (rev tids1) s2"
    from Cons.IH [OF r] have ih: "view ?s3 = view s1" "pending ?s3 = pending s1" by auto
    from apply_ok [OF a'] obtain f where f: "pending s1 = (pending s)(tid := Some f)" "f (view s1) = view s" by blast
    with ih have "pending ?s3 tid = Some f" by simp
    from undo_pending [OF this] obtain s4 where s4: "undo tid ?s3 = (True, s4)"
      "view s4 = f (view ?s3)" "pending s4 = (pending ?s3)(tid := None)" by blast
    have "pending s4 = pending s"
      using s4(3) ih(2) f(1) apply_new [OF a'] by (auto simp: fun_eq_iff)
    with s4 ih f t show ?thesis by (simp add: undo_all_append)
  qed
qed

lemma undo_once:
  assumes "pending s tid = Some f"
  shows "undo tid (snd (undo tid s)) = (False, snd (undo tid s))"
  using undo_pending [OF assms] undo_absent by fastforce

end

text \<open>Plugin data is such a store: puts and deletes, by key.\<close>

datatype kv_op = Put time kv_key pyval "data_label set" "int option" | Delete time kv_key "int option"

fun apply_kv :: "(nat \<Rightarrow> string) \<Rightarrow> kv_op \<Rightarrow> data_store \<Rightarrow> (data_error + string) \<times> data_store" where
  "apply_kv gen (Put now k value labels expected) st =
     (case store_put gen now k value labels expected st of
        (Inl e, st') \<Rightarrow> (Inl e, st') | (Inr (tid, _), st') \<Rightarrow> (Inr tid, st'))"
| "apply_kv gen (Delete now k expected) st =
     (case store_delete gen now k expected st of
        (Inl e, st') \<Rightarrow> (Inl e, st') | (Inr (tid, _), st') \<Rightarrow> (Inr tid, st'))"

definition kv_view :: "data_store \<Rightarrow> kv_key \<Rightarrow> kv_row option" where
  "kv_view st = dget (ds_rows st)"

definition kv_pending :: "data_store \<Rightarrow> string \<Rightarrow> ((kv_key \<Rightarrow> kv_row option) \<Rightarrow> kv_key \<Rightarrow> kv_row option) option" where
  "kv_pending st tid = (case dget (ds_journal st) tid of
      None \<Rightarrow> None
    | Some j \<Rightarrow> if ir_rolled_back j then None else Some (\<lambda>v. v(ir_key j := ir_prior j)))"

lemma record_inverse_Inr:
  "record_inverse tid now k st = Inr st' \<longleftrightarrow>
   dget (ds_journal st) tid = None \<and>
   st' = st\<lparr>ds_journal := dset tid \<lparr>ir_ts = now, ir_key = k, ir_prior = dget (ds_rows st) k,
             ir_rolled_back = False\<rparr> (ds_journal st)\<rparr>"
  by (auto simp: record_inverse_def)

lemma store_put_Inr:
  assumes "store_put gen now k value labels expected st = (Inr (tid, version), st')"
  shows "dget (ds_journal st) tid = None" "tid = gen (ds_draws st)" "ds_draws st' = Suc (ds_draws st)"
    "version = current_version st k + 1" "expected = None \<or> expected = Some (current_version st k)"
    "ds_rows st' = dset k \<lparr>kv_value = json_norm value, kv_labels = labels, kv_version = version, kv_updated = now\<rparr> (ds_rows st)"
    "ds_journal st' = dset tid \<lparr>ir_ts = now, ir_key = k, ir_prior = dget (ds_rows st) k, ir_rolled_back = False\<rparr> (ds_journal st)"
  using assms
  by (auto simp: store_put_def Let_def record_inverse_Inr current_version_def split: if_splits sum.splits)

lemma store_delete_Inr:
  assumes "store_delete gen now k expected st = (Inr (tid, existed), st')"
  shows "dget (ds_journal st) tid = None" "ds_draws st' = Suc (ds_draws st)"
    "expected = None \<or> expected = Some (current_version st k)"
    "ds_rows st' = dpop k (ds_rows st)"
    "ds_journal st' = dset tid \<lparr>ir_ts = now, ir_key = k, ir_prior = dget (ds_rows st) k, ir_rolled_back = False\<rparr> (ds_journal st)"
  using assms
  by (auto simp: store_delete_def Let_def record_inverse_Inr current_version_def split: if_splits sum.splits)

lemma store_failed:
  "store_put gen now k value labels expected st = (Inl e, st') \<Longrightarrow> ds_rows st' = ds_rows st \<and> ds_journal st' = ds_journal st"
  "store_delete gen now k expected st = (Inl e, st') \<Longrightarrow> ds_rows st' = ds_rows st \<and> ds_journal st' = ds_journal st"
  by (auto simp: store_put_def store_delete_def Let_def split: if_splits sum.splits)

lemma apply_kv_Inr:
  assumes "apply_kv gen op st = (Inr tid, st')"
  shows "dget (ds_journal st) tid = None"
    and "\<exists>k now. ds_journal st' = dset tid \<lparr>ir_ts = now, ir_key = k, ir_prior = dget (ds_rows st) k,
           ir_rolled_back = False\<rparr> (ds_journal st) \<and> (kv_view st')(k := kv_view st k) = kv_view st"
proof -
  have "dget (ds_journal st) tid = None \<and> (\<exists>k now. ds_journal st' = dset tid \<lparr>ir_ts = now, ir_key = k, ir_prior = dget (ds_rows st) k,
           ir_rolled_back = False\<rparr> (ds_journal st) \<and> (kv_view st')(k := kv_view st k) = kv_view st)"
  proof (cases "op")
    case (Put now k v labels expected)
    with assms obtain version where p: "store_put gen now k v labels expected st = (Inr (tid, version), st')"
      by (auto split: prod.splits sum.splits)
    note f = store_put_Inr [OF p]
    show ?thesis
      by (intro conjI f(1) exI [of _ k] exI [of _ now] f(7)) (simp add: kv_view_def f(6) fun_eq_iff)
  next
    case (Delete now k expected)
    with assms obtain existed where p: "store_delete gen now k expected st = (Inr (tid, existed), st')"
      by (auto split: prod.splits sum.splits)
    note f = store_delete_Inr [OF p]
    show ?thesis
      by (intro conjI f(1) exI [of _ k] exI [of _ now] f(5)) (simp add: kv_view_def f(4) fun_eq_iff)
  qed
  then show "dget (ds_journal st) tid = None"
    and "\<exists>k now. ds_journal st' = dset tid \<lparr>ir_ts = now, ir_key = k, ir_prior = dget (ds_rows st) k,
           ir_rolled_back = False\<rparr> (ds_journal st) \<and> (kv_view st')(k := kv_view st k) = kv_view st" by blast+
qed

lemma apply_kv_Inl:
  "apply_kv gen op st = (Inl e, st') \<Longrightarrow> ds_rows st' = ds_rows st \<and> ds_journal st' = ds_journal st"
  by (cases "op") (auto dest: store_failed split: prod.splits sum.splits)

interpretation plugin_data: reversible_store "apply_kv gen" store_rollback kv_view kv_pending
  for gen :: "nat \<Rightarrow> string"
proof unfold_locales
  fix op s tid s'
  assume a: "apply_kv gen op s = (Inr tid, s')"
  from apply_kv_Inr(2) [OF a] obtain k now where
    j: "ds_journal s' = dset tid \<lparr>ir_ts = now, ir_key = k, ir_prior = dget (ds_rows s) k,
          ir_rolled_back = False\<rparr> (ds_journal s)" "(kv_view s')(k := kv_view s k) = kv_view s" by blast
  show "\<exists>f. kv_pending s' = (kv_pending s)(tid := Some f) \<and> f (kv_view s') = kv_view s"
    by (intro exI [of _ "\<lambda>v. v(k := kv_view s k)"] conjI)
      (use j in \<open>auto simp: kv_pending_def kv_view_def fun_eq_iff\<close>)
  show "kv_pending s tid = None" using apply_kv_Inr(1) [OF a] by (simp add: kv_pending_def)
next
  fix op s e s'
  assume "apply_kv gen op s = (Inl e, s')"
  from apply_kv_Inl [OF this] show "kv_view s' = kv_view s \<and> kv_pending s' = kv_pending s"
    by (simp add: kv_view_def kv_pending_def fun_eq_iff)
next
  fix s tid f
  assume "kv_pending s tid = Some f"
  then obtain j where j: "dget (ds_journal s) tid = Some j" "\<not> ir_rolled_back j" "f = (\<lambda>v. v(ir_key j := ir_prior j))"
    by (auto simp: kv_pending_def split: option.splits if_splits)
  then show "\<exists>s'. store_rollback tid s = (True, s') \<and> kv_view s' = f (kv_view s) \<and>
      kv_pending s' = (kv_pending s)(tid := None)"
    by (auto simp: store_rollback_def kv_view_def kv_pending_def fun_eq_iff split: option.splits)
next
  fix s tid
  assume "kv_pending s tid = None"
  then show "store_rollback tid s = (False, s)"
    by (auto simp: store_rollback_def kv_pending_def split: option.splits if_splits)
qed

end
