(* ===== verification/Samples.thy ===== *)
theory Samples
  imports Scenarios Pipeline Flows Delegation Secrets Trust PluginData
begin

text \<open>
  Small concrete states used to exercise the theorems: a pipeline of two tasks, one reading what the
  other writes, and a conversation of a user and an administrator in which one command needs approval.
\<close>

section \<open>A pipeline of two tasks\<close>

definition demo_task :: "string \<Rightarrow> string list \<Rightarrow> string list \<Rightarrow> string list \<Rightarrow> task_spec" where
  "demo_task nm modalities reads writes =
     \<lparr>ts_name = nm, ts_trigger = ''path'', ts_channels = [], ts_writes = writes, ts_reads = reads,
      ts_modalities = modalities, ts_require_all = True, ts_services = [], ts_batch = 1, ts_timeout = 300,
      ts_workers = 1, ts_schema = []\<rparr>"

definition parse_task :: task_spec where "parse_task = demo_task ''parse'' [''text''] [] [''docs'']"
definition embed_task :: task_spec where "embed_task = demo_task ''embed'' [] [''docs''] [''vecs'']"

definition demo_ops :: "unit out_ops" where
  "demo_ops = \<lparr>oo_write = (\<lambda>_ _ _. Inr ()), oo_clean = (\<lambda>_ _ _. ()), oo_extract_dir = (\<lambda>_ _. None),
     oo_rmtree = (\<lambda>_ _. ()), oo_schema = (\<lambda>_ _. Inr ())\<rparr>"

definition demo_files :: file_info where
  "demo_files = \<lparr>fi_exists = (\<lambda>_. False), fi_suffix = (\<lambda>_. ''''), fi_name = id, fi_mtime = (\<lambda>_. 0),
     fi_supported = [], fi_modality = (\<lambda>_. '''')\<rparr>"

definition demo_orch :: "unit orchestrator" where
  "demo_orch = \<lparr>or_db = empty_database, or_outputs = (), or_tasks = [], or_paused = {}, or_services = [],
     or_skip = {}, or_sem_of = [], or_sems = [], or_max_workers = 4, or_producers = [], or_upstream = [],
     or_event_upstream = [], or_jobs = [], or_bus = [], or_draws = 0\<rparr>"

definition after :: "'a + 'b \<Rightarrow> 'b" where "after r = (case r of Inr s \<Rightarrow> s)"

definition demo_running :: "unit orchestrator" where
  "demo_running = on_file_discovered [] 1 ''a.txt'' ''text''
     (after (register_task demo_ops embed_task (after (register_task demo_ops parse_task demo_orch))))"

lemma demo_running_ok: "orch_ok demo_running" "sem_ok demo_running" "tasks_wf (or_tasks demo_running)"
  "dget (or_tasks demo_running) ''parse'' = Some parse_task" "dget (or_tasks demo_running) ''embed'' = Some embed_task"
  by code_simp+

lemma demo_dispatched: "fst (dispatch_path_task 2 parse_task demo_running)"
  by code_simp


section \<open>A conversation with an approver\<close>

definition demo_host :: host where
  "demo_host = \<lparr>host_json = (\<lambda>_. None), host_float = (\<lambda>_. None), host_repr = (\<lambda>_. ''''), host_norm_path = id,
     host_suffix = (\<lambda>_. ''''), host_is_dir = (\<lambda>_. False), host_exists = (\<lambda>_. False), host_parent = id,
     host_uuid = (\<lambda>n. ''id''), host_to_dict = (\<lambda>_. None)\<rparr>"

definition demo_person :: "string \<Rightarrow> participant" where
  "demo_person i = \<lparr>pt_id = i, pt_kind = ''user'', pt_name = None, pt_can_command = None, pt_can_tool = None,
     pt_can_attach = None\<rparr>"

text \<open>The command appends to the attachments, so that whether it ran can be seen.\<close>

definition wipe_handler :: "conv_state \<Rightarrow> string \<Rightarrow> (string, pyval) pydict \<Rightarrow> (fault + datum) \<times> conv_state" where
  "wipe_handler cs who args = (Inr (Plain (VStr ''wiped'')), cs\<lparr>cs_attachments := [VStr who]\<rparr>)"

definition wipe_spec :: callable_spec where
  "wipe_spec = \<lparr>sp_name = ''wipe'', sp_handler = Some wipe_handler, sp_form = [], sp_require_approval = True,
     sp_approval_actor = Some ''admin'', sp_validator = None, sp_form_factory = None\<rparr>"

definition demo_env :: environment where
  "demo_env = \<lparr>ev_host = demo_host, ev_commands = (\<lambda>_. [(''wipe'', wipe_spec)]), ev_tools = (\<lambda>_. []),
     ev_attachment_parser = None\<rparr>"

definition demo_conv :: conv_state where
  "demo_conv = after (make_state [demo_person ''user'', demo_person ''admin''] None base_phase [] [] ''per_turn'')"

definition wipe_call :: pyval where
  "wipe_call = VDict [(''name'', VStr ''wipe''), (''args'', VDict [])]"

definition demo_pending :: conv_state where
  "demo_pending = snd (enact demo_env ''call_command'' wipe_call None demo_conv)"


lemma demo_conv_ok: "conv_ok demo_conv" "conv_ok demo_pending" by code_simp+

lemma demo_handlers_ok: "handlers_ok demo_env"
  by (auto simp: handlers_ok_def demo_env_def wipe_spec_def wipe_handler_def roster_ok_def split: if_splits)

abbreviation wipe_payload :: "(string, pyval) pydict" where
  "wipe_payload \<equiv> [(''name'', VStr ''wipe''), (''args'', VDict [])]"

abbreviation wipe_pending :: "(string, pyval) pydict" where
  "wipe_pending \<equiv> [(''type'', VStr ''call_command''), (''actor_id'', VStr ''user''), (''content'', VDict wipe_payload)]"

definition demo_frame :: phase_frame where "demo_frame = last (cs_frames demo_pending)"

lemma demo_pending_facts:
  "cs_frames demo_pending = [demo_frame]" "cs_phase demo_pending = approving_request"
  "fr_phase demo_frame = approving_request" "get_or (fr_data demo_frame) ''type'' (VStr ''boolean'') = VStr ''boolean''"
  "get_or (fr_data demo_frame) ''pending'' VNone = VDict wipe_pending" "dkeys (cs_participants demo_pending) = [''user'', ''admin'']"
  "cs_turn_priority demo_pending = ''admin''" "stale_request demo_frame (VBool b) = None" "cs_attachments demo_pending = []"
proof -
  have "length (cs_frames demo_pending) = 1" by code_simp
  then show "cs_frames demo_pending = [demo_frame]" by (auto simp: demo_frame_def length_Suc_conv)
  show "stale_request demo_frame (VBool b) = None" by (simp add: stale_request_def)
qed code_simp+

lemma demo_is_pending: "pending_request demo_pending demo_frame wipe_pending ''user''"
proof -
  have "dget (cs_participants demo_pending) ''user'' \<noteq> None" "dget (cs_participants demo_pending) ''admin'' \<noteq> None"
    by code_simp+
  then show ?thesis by (simp add: pending_request_def demo_pending_facts top_frame_def)
qed

lemma demo_answer: "coerce_answer demo_env demo_frame (VBool b) demo_pending = (Inr (VBool b), demo_pending)"
proof -
  have "pyeq (get_or (fr_data demo_frame) ''type'' (VStr ''boolean'')) (VStr ''boolean'')" by (simp only: demo_pending_facts) code_simp
  moreover have "answer_raw (VBool b) = VBool b" by (simp add: answer_raw_def)
  ultimately show ?thesis by (simp add: coerce_answer_def xreturn_def)
qed


section \<open>A plugin on disk and a delegation to it\<close>

definition demo_sha :: "bytes \<Rightarrow> bytes" where
  "demo_sha bs = take 32 (bs @ replicate 32 0)"

definition demo_toml :: "bytes \<Rightarrow> string + pyval" where
  "demo_toml raw = (if raw = [2] then Inr (VDict [(''lock_version'', VInt 1)])
     else Inr (VDict [(''schema_version'', VInt 1), (''id'', VStr ''demo''), (''version'', VStr ''1''),
       (''handlers'', VList [VDict [(''kind'', VStr ''tool''), (''name'', VStr ''go''), (''entrypoint'', VStr ''main:go'')]]),
       (''capabilities'', VList [VDict [(''right'', VStr ''file.read''), (''resource'', VStr ''docs/*'')]])]))"

definition demo_tree :: node where
  "demo_tree = Directory [(''plugin.toml'', Regular [1]), (''plugin.lock'', Regular [2])]"

definition demo_plugin :: plugin_manifest where
  "demo_plugin = after (load_manifest (manifest_at demo_toml demo_tree) ''/plugins/demo/plugin.toml'')"

definition demo_artifact :: plugin_artifact where
  "demo_artifact = \<lparr>pa_identity = \<lparr>ai_plugin_id = ''demo'', ai_digest = replicate 64 (CHR ''c'')\<rparr>,
     pa_root = ''/plugins/demo'', pa_manifest = demo_plugin, pa_lock = \<lparr>dl_version = 1, dl_packages = []\<rparr>,
     pa_files = [], pa_total_bytes = 2\<rparr>"

definition demo_gen :: "nat \<Rightarrow> string" where
  "demo_gen n = replicate n (CHR ''x'')"

lemma demo_gen_inj: "inj demo_gen"
  by (rule injI) (simp add: demo_gen_def)

definition demo_parent :: authority_context where
  "demo_parent = \<lparr>ac_digest = ''p1'', ac_principal = ''user'',
     ac_provenance = \<lparr>pc_principal = ''user'', pc_frames = [\<lparr>pf_digest = ''p1'', pf_handler = ''tool:run''\<rparr>]\<rparr>,
     ac_user = None, ac_session = None, ac_conversation = None, ac_unattended = True, ac_taint = {USER_PRIVATE}\<rparr>"

definition demo_registry :: "unit registry" where
  "demo_registry = snd (issue demo_gen ''p1'' ''user'' [''file.read'', ''file.write''] ''docs/*'' ''docs'' {USER_PRIVATE}
     None None None None 2 None empty_registry)"

definition demo_delegated :: "string list \<Rightarrow> delegated_resource list" where
  "demo_delegated selectors = map (\<lambda>s. \<lparr>dr_parent_token = '''', dr_rights = [''file.read''], dr_selector = Some s,
     dr_expires = None\<rparr>) selectors"

definition demo_handler :: handler_manifest where
  "demo_handler = hd (pm_handlers (pa_manifest demo_artifact))"

lemma demo_loaded: "load_manifest (manifest_at demo_toml demo_tree) ''/plugins/demo/plugin.toml'' = Inr demo_plugin"
proof -
  have "\<not> isl (load_manifest (manifest_at demo_toml demo_tree) ''/plugins/demo/plugin.toml'')" by code_simp
  then show ?thesis by (cases "load_manifest (manifest_at demo_toml demo_tree) ''/plugins/demo/plugin.toml''")
      (simp_all add: demo_plugin_def after_def)
qed

lemma demo_locked: "load_dependency_lock demo_sha demo_toml demo_tree = Inr \<lparr>dl_version = 1, dl_packages = []\<rparr>"
  by code_simp

lemma demo_walk: "walk '''' demo_tree = Inr [(''plugin.lock'', [2]), (''plugin.toml'', [1])]"
  by code_simp

lemma demo_entries: "artifact_entries demo_tree = [(''plugin.lock'', [2]), (''plugin.toml'', [1])]"
  unfolding artifact_entries_def demo_walk by code_simp

lemma demo_hashed: "\<exists>stream files. hash_entries demo_sha max_total_bytes 0 (artifact_entries demo_tree) = Inr (stream, files, 2)"
  unfolding demo_entries
  by (simp add: hash_entries.simps max_total_bytes_def to_bytes_def utf8_def Let_def)

lemma demo_built: "\<exists>a. build_artifact demo_sha demo_toml 4096 max_total_bytes ''/plugins/demo'' demo_tree = Inr a \<and>
   ai_plugin_id (pa_identity a) = ''demo''"
proof -
  have "pm_plugin_id demo_plugin = ''demo''" by code_simp
  moreover have "sort_key fst [(''plugin.lock'', [2 :: byte]), (''plugin.toml'', [1])] = artifact_entries demo_tree"
    unfolding artifact_entries_def demo_walk by simp
  ultimately show ?thesis
    using demo_loaded demo_locked demo_walk demo_hashed
    by (auto simp: build_artifact_def lift_error_def demo_entries) (simp add: demo_tree_def)
qed

lemma demo_registry_wf: "registry_wf demo_gen demo_registry"
proof -
  have "\<exists>ref. issue demo_gen ''p1'' ''user'' [''file.read'', ''file.write''] ''docs/*'' ''docs'' {USER_PRIVATE}
     None None None None 2 None empty_registry = (Inr ref, demo_registry)"
    unfolding demo_registry_def by (simp add: issue_def Let_def)
  then show ?thesis by (auto intro: registry_wf_issue [OF registry_wf_empty])
qed

lemma demo_delegation_ok:
  "\<not> isl (fst (delegate demo_gen 1 2 demo_parent demo_artifact demo_handler (demo_delegated [''docs/a'']) False demo_registry))"
  by code_simp


definition demo_key :: "string \<times> bytes" where
  "demo_key = (hex_bytes (demo_sha (replicate 32 7)), replicate 32 7)"

definition demo_signature :: pyval where
  "demo_signature = VDict [(''version'', VInt 1), (''algorithm'', VStr ''ed25519''), (''key_id'', VStr (fst demo_key)),
     (''plugin_id'', VStr ''demo''), (''artifact_digest'', VStr (replicate 64 (CHR ''c''))),
     (''signature'', VStr (replicate 86 (CHR ''A'') @ ''==''))]"

lemma demo_keys: "\<exists>keys. make_verifier demo_sha Some [demo_key] = Inr keys"
  by (simp add: make_verifier_def key_identifier_def demo_key_def)

lemma demo_signed:
  assumes "make_verifier demo_sha Some [demo_key] = Inr keys"
  shows "\<exists>s. verify_signature (\<lambda>k sig msg. k = snd demo_key) keys demo_artifact (Inr demo_signature) = Inr s"
proof -
  have k: "keys = [demo_key]" using assms by (simp add: make_verifier_def key_identifier_def demo_key_def)
  have "\<not> isl (verify_signature (\<lambda>k sig msg. k = snd demo_key) [demo_key] demo_artifact (Inr demo_signature))" by code_simp
  then show ?thesis unfolding k
    by (cases "verify_signature (\<lambda>k sig msg. k = snd demo_key) [demo_key] demo_artifact (Inr demo_signature)") simp_all
qed

section \<open>A form about to be completed\<close>

definition demo_form :: phase_frame where
  "demo_form = \<lparr>fr_phase = form_phase CallCommand, fr_action_type = ''call_command'', fr_actor = ''user'', fr_name = Some ''wipe'',
     fr_data = [(''args'', VDict [])], fr_steps = [], fr_step_index = 0, fr_previous_phase = base_phase\<rparr>"

lemma demo_form_spec:
  "find_spec demo_env demo_conv (fr_actor demo_form) (fr_action_type demo_form) (opt_text (fr_name demo_form)) = Inr (Some wipe_spec)"
proof -
  have "dget (cs_participants demo_conv) ''user'' \<noteq> None" by code_simp
  then show ?thesis by (auto simp: find_spec_def demo_form_def demo_env_def opt_text_def)
qed

end
