(* ===== verification/Vocabulary.thy ===== *)
theory Vocabulary
  imports PyValue
begin

text \<open>
  \<open>effects/vocabulary.py\<close> and \<open>effects/declarations.py\<close>: the closed set of requests a plugin can
  issue, their wire format, and the grading of what a plugin declares. A request carries the
  fields of its class as they came over the wire, so a field holds any value.
\<close>

section \<open>Tiers\<close>

datatype tier = TIER_READ | TIER_WRITE | TIER_EGRESS

fun tier_rank :: "tier \<Rightarrow> nat" where
  "tier_rank TIER_READ = 0"
| "tier_rank TIER_WRITE = 1"
| "tier_rank TIER_EGRESS = 2"

instantiation tier :: linorder
begin

definition less_eq_tier :: "tier \<Rightarrow> tier \<Rightarrow> bool" where
  "a \<le> b \<longleftrightarrow> tier_rank a \<le> tier_rank b"

definition less_tier :: "tier \<Rightarrow> tier \<Rightarrow> bool" where
  "a < b \<longleftrightarrow> tier_rank a < tier_rank b"

instance
proof
  fix x y :: tier
  show "x \<le> y \<Longrightarrow> y \<le> x \<Longrightarrow> x = y" by (cases x; cases y) (simp_all add: less_eq_tier_def)
qed (auto simp: less_eq_tier_def less_tier_def)

end

lemma tier_bounds [simp]: "TIER_READ \<le> t" "t \<le> TIER_EGRESS"
  by (cases t; simp add: less_eq_tier_def)+


section \<open>The request classes\<close>

datatype request_type =
    ReadFile | ReadFiles | ListDir | Stat | QueryDb | ReadContext | AskUser
  | ReadConversations | WriteFile | WriteDb | DeleteFile | ScheduleOp | Respond
  | HttpRequest | Complete | Embed | ExecSql | RunProcess | ReloadPlugin
  | WriteConfig | ReadConfig | ServiceControl | PackageOp | ConversationOp | SessionAction | CallTool | TaskControl

record request_class =
  rc_type :: request_type
  rc_tag :: string
  rc_tier :: tier
  rc_borrows :: bool
  rc_fields :: "(string \<times> pyval option) list"

text \<open>Each class with its wire tag, its tier, and its fields with their defaults.\<close>

definition read_classes :: "request_class list" where
  "read_classes =
     [\<lparr>rc_type = ReadFile, rc_tag = ''read_file'', rc_tier = TIER_READ, rc_borrows = False,
        rc_fields = [(''path'', None), (''encoding'', Some (VStr ''utf-8''))]\<rparr>,
      \<lparr>rc_type = QueryDb, rc_tag = ''query_db'', rc_tier = TIER_READ, rc_borrows = False,
        rc_fields = [(''sql'', None), (''max_rows'', Some (VInt 100))]\<rparr>,
      \<lparr>rc_type = ListDir, rc_tag = ''list_dir'', rc_tier = TIER_READ, rc_borrows = False,
        rc_fields = [(''root'', Some (VStr '''')), (''recursive'', Some (VBool True))]\<rparr>,
      \<lparr>rc_type = ReadFiles, rc_tag = ''read_files'', rc_tier = TIER_READ, rc_borrows = False,
        rc_fields = [(''paths'', None), (''max_bytes_per_file'', Some (VInt 2000000))]\<rparr>,
      \<lparr>rc_type = Stat, rc_tag = ''stat'', rc_tier = TIER_READ, rc_borrows = False,
        rc_fields = [(''path'', None)]\<rparr>,
      \<lparr>rc_type = ReadContext, rc_tag = ''read_context'', rc_tier = TIER_READ, rc_borrows = False,
        rc_fields = [(''view'', Some (VStr ''full'')), (''k'', Some VNone)]\<rparr>,
      \<lparr>rc_type = ReadConversations, rc_tag = ''read_conversations'', rc_tier = TIER_READ, rc_borrows = False,
        rc_fields = [(''mode'', Some (VStr ''list'')), (''conversation_id'', Some VNone), (''category'', Some VNone), (''limit'', Some (VInt 15))]\<rparr>,
      \<lparr>rc_type = AskUser, rc_tag = ''ask_user'', rc_tier = TIER_READ, rc_borrows = False,
        rc_fields = [(''prompt'', None), (''title'', Some (VStr '''')), (''choices'', Some VNone)]\<rparr>]"

definition write_classes :: "request_class list" where
  "write_classes =
     [\<lparr>rc_type = WriteFile, rc_tag = ''write_file'', rc_tier = TIER_WRITE, rc_borrows = False,
        rc_fields = [(''path'', None), (''content'', None), (''encoding'', Some (VStr ''utf-8''))]\<rparr>,
      \<lparr>rc_type = WriteDb, rc_tag = ''write_db'', rc_tier = TIER_WRITE, rc_borrows = False,
        rc_fields = [(''table'', None), (''schema_sql'', None), (''rows'', None)]\<rparr>,
      \<lparr>rc_type = DeleteFile, rc_tag = ''delete_file'', rc_tier = TIER_WRITE, rc_borrows = False,
        rc_fields = [(''path'', None)]\<rparr>,
      \<lparr>rc_type = ScheduleOp, rc_tag = ''schedule_op'', rc_tier = TIER_WRITE, rc_borrows = False,
        rc_fields = [(''action'', None), (''name'', Some (VStr '''')), (''job'', Some VNone), (''names'', Some VNone), (''fired_at'', Some VNone), (''enabled'', Some (VBool True))]\<rparr>,
      \<lparr>rc_type = Respond, rc_tag = ''respond'', rc_tier = TIER_READ, rc_borrows = False,
        rc_fields = [(''summary'', Some (VStr '''')), (''data'', Some VNone), (''attachment_paths'', Some VNone), (''success'', Some (VBool True)), (''error'', Some (VStr ''''))]\<rparr>]"

definition egress_classes :: "request_class list" where
  "egress_classes =
     [\<lparr>rc_type = ReloadPlugin, rc_tag = ''reload_plugin'', rc_tier = TIER_EGRESS, rc_borrows = True,
        rc_fields = [(''path'', None), (''action'', Some (VStr ''reload''))]\<rparr>,
      \<lparr>rc_type = HttpRequest, rc_tag = ''http_request'', rc_tier = TIER_EGRESS, rc_borrows = False,
        rc_fields = [(''method'', None), (''url'', None), (''headers'', Some VNone), (''body'', Some VNone), (''timeout'', Some (VFloat 30))]\<rparr>,
      \<lparr>rc_type = Complete, rc_tag = ''complete'', rc_tier = TIER_EGRESS, rc_borrows = False,
        rc_fields = [(''prompt'', None), (''schema'', Some VNone), (''system'', Some (VStr ''''))]\<rparr>,
      \<lparr>rc_type = Embed, rc_tag = ''embed'', rc_tier = TIER_EGRESS, rc_borrows = False,
        rc_fields = [(''inputs'', None), (''model'', Some (VStr ''''))]\<rparr>,
      \<lparr>rc_type = ExecSql, rc_tag = ''exec_sql'', rc_tier = TIER_EGRESS, rc_borrows = False,
        rc_fields = [(''sql'', None)]\<rparr>,
      \<lparr>rc_type = RunProcess, rc_tag = ''run_process'', rc_tier = TIER_EGRESS, rc_borrows = False,
        rc_fields = [(''argv'', None), (''cwd'', Some (VStr '''')), (''timeout'', Some (VFloat 60))]\<rparr>]"

definition admin_classes :: "request_class list" where
  "admin_classes =
     [\<lparr>rc_type = WriteConfig, rc_tag = ''write_config'', rc_tier = TIER_EGRESS, rc_borrows = False,
        rc_fields = [(''key'', None), (''value'', Some VNone), (''scope'', Some (VStr ''global''))]\<rparr>,
      \<lparr>rc_type = ServiceControl, rc_tag = ''service_control'', rc_tier = TIER_EGRESS, rc_borrows = False,
        rc_fields = [(''name'', None), (''action'', Some (VStr ''start''))]\<rparr>,
      \<lparr>rc_type = PackageOp, rc_tag = ''package_op'', rc_tier = TIER_EGRESS, rc_borrows = False,
        rc_fields = [(''name'', None), (''action'', Some (VStr ''install''))]\<rparr>,
      \<lparr>rc_type = TaskControl, rc_tag = ''task_control'', rc_tier = TIER_EGRESS, rc_borrows = False,
        rc_fields = [(''name'', None), (''action'', Some (VStr ''pause'')), (''payload'', Some VNone)]\<rparr>,
      \<lparr>rc_type = ReadConfig, rc_tag = ''read_config'', rc_tier = TIER_EGRESS, rc_borrows = False,
        rc_fields = [(''key'', Some (VStr '''')), (''keys'', Some VNone), (''scope'', Some (VStr ''global''))]\<rparr>,
      \<lparr>rc_type = SessionAction, rc_tag = ''session_action'', rc_tier = TIER_EGRESS, rc_borrows = False,
        rc_fields = [(''action'', None), (''payload'', Some VNone)]\<rparr>,
      \<lparr>rc_type = CallTool, rc_tag = ''call_tool'', rc_tier = TIER_EGRESS, rc_borrows = True,
        rc_fields = [(''name'', None), (''params'', Some VNone)]\<rparr>,
      \<lparr>rc_type = ConversationOp, rc_tag = ''conversation_op'', rc_tier = TIER_EGRESS, rc_borrows = False,
        rc_fields = [(''action'', None), (''conversation_id'', Some VNone), (''fields'', Some VNone)]\<rparr>]"

definition request_types :: "request_class list" where
  "request_types = read_classes @ write_classes @ egress_classes @ admin_classes"

lemmas vocabulary_defs = request_types_def read_classes_def write_classes_def egress_classes_def admin_classes_def

definition class_of :: "request_type \<Rightarrow> request_class" where
  "class_of t = the (find (\<lambda>k. rc_type k = t) request_types)"

definition class_of_tag :: "string \<Rightarrow> request_class option" where
  "class_of_tag tag = find (\<lambda>k. rc_tag k = tag) request_types"


section \<open>The wire\<close>

record request =
  rq_type :: request_type
  rq_fields :: "(string \<times> pyval) list"

definition rq_tag :: "request \<Rightarrow> string" where "rq_tag r = rc_tag (class_of (rq_type r))"
definition rq_tier :: "request \<Rightarrow> tier" where "rq_tier r = rc_tier (class_of (rq_type r))"

text \<open>\<open>request.name\<close>, and \<open>getattr(request, name, None)\<close>.\<close>

definition rq_field :: "request \<Rightarrow> string \<Rightarrow> pyval" where
  "rq_field r k = opt_val (dget (rq_fields r) k)"

definition to_wire :: "request \<Rightarrow> (string \<times> pyval) list" where
  "to_wire r = (''type'', VStr (rq_tag r)) # rq_fields r"

text \<open>The constructor call: each field from the keyword arguments, or its default.\<close>

definition bind_field :: "(string \<times> pyval) list \<Rightarrow> string \<times> pyval option \<Rightarrow> (string \<times> pyval) pyres" where
  "bind_field kwargs fd = (case fd of (k, dflt) \<Rightarrow>
     (case dget kwargs k of
        Some v \<Rightarrow> Inr (k, v)
      | None \<Rightarrow> (case dflt of
          Some v \<Rightarrow> Inr (k, v)
        | None \<Rightarrow> Inl (PyExn ''TypeError'' (''missing a required argument: '' @ k)))))"

definition from_wire :: "(string \<times> pyval) list \<Rightarrow> request pyres" where
  "from_wire payload =
     (case opt_val (dget payload ''type'') of
        VStr tag \<Rightarrow>
          (case class_of_tag tag of
             None \<Rightarrow> Inl (PyExn ''KeyError'' (''unknown request type: '' @ tag))
           | Some k \<Rightarrow>
               (let kwargs = dpop ''type'' payload in
                if list_ex (\<lambda>(f, _). f \<notin> set (List.map fst (rc_fields k))) kwargs
                then Inl (PyExn ''TypeError'' (tag @ '': unexpected fields''))
                else rbind (rmap (bind_field kwargs) (rc_fields k)) (\<lambda>fs.
                  Inr \<lparr>rq_type = rc_type k, rq_fields = fs\<rparr>)))
      | VList _ \<Rightarrow> Inl (PyExn ''TypeError'' ''unhashable type'')
      | VDict _ \<Rightarrow> Inl (PyExn ''TypeError'' ''unhashable type'')
      | _ \<Rightarrow> Inl (PyExn ''KeyError'' ''unknown request type''))"

text \<open>A request holds exactly the fields of its class, in their order.\<close>

definition wf_request :: "request \<Rightarrow> bool" where
  "wf_request r \<longleftrightarrow> dkeys (rq_fields r) = List.map fst (rc_fields (class_of (rq_type r)))"


lemma class_types: "distinct (List.map rc_type request_types)" "distinct (List.map rc_tag request_types)"
  by (simp_all add: vocabulary_defs)

lemma all_classes: "t \<in> set (List.map rc_type request_types)"
  by (cases t) (simp_all add: vocabulary_defs)

lemma find_unique: "distinct (List.map f xs) \<Longrightarrow> x \<in> set xs \<Longrightarrow> find (\<lambda>k. f k = f x) xs = Some x"
  by (induction xs) (auto simp: image_iff)

lemma class_of_mem: "class_of t \<in> set request_types \<and> rc_type (class_of t) = t"
proof -
  from all_classes [of t] obtain k where k: "k \<in> set request_types" "rc_type k = t" by auto
  then have "find (\<lambda>x. rc_type x = t) request_types = Some k" using find_unique [OF class_types(1) k(1)] by simp
  with k show ?thesis by (simp add: class_of_def)
qed

lemma class_of_own_tag: "class_of_tag (rc_tag (class_of t)) = Some (class_of t)"
  using find_unique [OF class_types(2)] class_of_mem by (simp add: class_of_tag_def)

lemma class_of_tag_Some: "class_of_tag tag = Some k \<Longrightarrow> k = class_of (rc_type k) \<and> rc_tag k = tag"
proof -
  assume "class_of_tag tag = Some k"
  then have k: "k \<in> set request_types" "rc_tag k = tag" by (auto simp: class_of_tag_def dest: find_SomeD)
  with find_unique [OF class_types(1) k(1)] show ?thesis by (simp add: class_of_def)
qed

lemma field_names: "k \<in> set request_types \<Longrightarrow> distinct (List.map fst (rc_fields k)) \<and> ''type'' \<notin> set (List.map fst (rc_fields k))"
proof -
  have "list_all (\<lambda>k. distinct (List.map fst (rc_fields k)) \<and> ''type'' \<notin> set (List.map fst (rc_fields k))) request_types"
    by (simp add: vocabulary_defs)
  then show "k \<in> set request_types \<Longrightarrow> ?thesis" by (auto simp: list_all_iff)
qed

lemma bind_fields_self:
  "dkeys fs = List.map fst fds \<Longrightarrow> distinct (dkeys fs) \<Longrightarrow> rmap (bind_field fs) fds = Inr fs"
proof -
  have "dkeys gs = List.map fst fds \<Longrightarrow> (\<And>k v. (k, v) \<in> set gs \<Longrightarrow> dget fs k = Some v) \<Longrightarrow> rmap (bind_field fs) fds = Inr gs" for gs
  proof (induction fds arbitrary: gs)
    case (Cons fd fds)
    then obtain v gs' where gs: "gs = (fst fd, v) # gs'" "dkeys gs' = List.map fst fds" by (cases gs) auto
    moreover have "rmap (bind_field fs) fds = Inr gs'" using Cons.IH [of gs'] Cons.prems gs by auto
    moreover have "dget fs (fst fd) = Some v" using Cons.prems(2) gs by simp
    then have "bind_field fs fd = Inr (fst fd, v)" by (cases fd) (simp add: bind_field_def)
    ultimately show ?case by simp
  qed simp
  then show "dkeys fs = List.map fst fds \<Longrightarrow> distinct (dkeys fs) \<Longrightarrow> ?thesis" by (simp add: map_of_eq_Some_iff)
qed

lemma dpop_absent: "k \<notin> set (dkeys d) \<Longrightarrow> dpop k d = d"
  by (induction d) auto

text \<open>A request survives the wire, and what comes off the wire is well formed.\<close>

lemma wire_roundtrip: "wf_request r \<Longrightarrow> from_wire (to_wire r) = Inr r"
proof -
  assume wf: "wf_request r"
  let ?k = "class_of (rq_type r)"
  have names: "distinct (dkeys (rq_fields r))" "''type'' \<notin> set (dkeys (rq_fields r))"
    using wf field_names [of ?k] class_of_mem by (auto simp: wf_request_def)
  have "dpop ''type'' (to_wire r) = rq_fields r" using names(2) by (simp add: to_wire_def dpop_absent)
  moreover have "\<not> list_ex (\<lambda>(f, _). f \<notin> set (List.map fst (rc_fields ?k))) (rq_fields r)"
    using wf [unfolded wf_request_def, symmetric] by (force simp: list_ex_iff)
  moreover have "rmap (bind_field (rq_fields r)) (rc_fields ?k) = Inr (rq_fields r)"
    using wf names by (intro bind_fields_self) (simp_all add: wf_request_def)
  ultimately show ?thesis
    by (simp add: from_wire_def to_wire_def rq_tag_def class_of_own_tag class_of_mem Let_def)
qed

lemma rmap_bind_keys: "rmap (bind_field kw) fds = Inr fs \<Longrightarrow> dkeys fs = List.map fst fds"
  by (induction fds arbitrary: fs) (auto simp: rbind_Inr bind_field_def split: option.splits)

lemma from_wire_wf: "from_wire payload = Inr r \<Longrightarrow> wf_request r"
  by (auto simp: from_wire_def wf_request_def rbind_Inr Let_def dest!: rmap_bind_keys class_of_tag_Some
      split: pyval.splits option.splits if_splits)


section \<open>Declarations and their tier\<close>

definition tag_known :: "string \<Rightarrow> bool" where
  "tag_known tag \<longleftrightarrow> class_of_tag tag \<noteq> None"

definition tag_tier :: "string \<Rightarrow> tier" where
  "tag_tier tag = (case class_of_tag tag of Some k \<Rightarrow> rc_tier k | None \<Rightarrow> TIER_READ)"

definition derive_tier :: "string list \<Rightarrow> tier pyres" where
  "derive_tier declared =
     (if list_ex (\<lambda>t. \<not> tag_known t) declared then Inl (PyExn ''ValueError'' ''unknown declared request type(s)'')
      else Inr (fold (\<lambda>tag tier. if tag_tier tag > tier then tag_tier tag else tier) declared TIER_READ))"

definition implicit_requests :: "string list" where
  "implicit_requests = [''respond'', ''read_context'']"

definition validate_declared :: "request \<Rightarrow> string list \<Rightarrow> unit pyres" where
  "validate_declared r declared =
     (if rq_tag r \<in> set implicit_requests \<or> rq_tag r \<in> set declared then Inr ()
      else Inl (PyExn ''UndeclaredRequestError'' (''issued undeclared request '' @ rq_tag r)))"

text \<open>\<open>EffectsContract.validate_effects_declaration\<close>, when the class is defined.\<close>

definition validate_effects_declaration :: "string \<Rightarrow> string list \<Rightarrow> string \<Rightarrow> unit pyres" where
  "validate_effects_declaration contract declared view =
     (if contract = ''effects'' then
        (if list_ex (\<lambda>t. \<not> tag_known t) declared then Inl (PyExn ''TypeError'' ''unknown declared_requests'')
         else if view \<notin> {''full'', ''last_k'', ''params_only''} then Inl (PyExn ''TypeError'' ''view must be full|last_k|params_only'')
         else Inr ())
      else if declared \<noteq> [] then Inl (PyExn ''TypeError'' ''declared_requests is only meaningful with the effects contract'')
      else Inr ())"

text \<open>A registered tool: its derived tier and its declarations.\<close>

record tool_ref =
  tl_tier :: tier
  tl_declared :: "string list"

definition define_tool :: "string \<Rightarrow> string list \<Rightarrow> string \<Rightarrow> tool_ref pyres" where
  "define_tool contract declared view =
     rbind (validate_effects_declaration contract declared view) (\<lambda>_.
     rbind (derive_tier declared) (\<lambda>t. Inr \<lparr>tl_tier = t, tl_declared = declared\<rparr>))"

function tool_danger_tier :: "string \<Rightarrow> (string \<times> tool_ref) list \<Rightarrow> string list \<Rightarrow> tier" where
  "tool_danger_tier nm tools seen =
     (if nm \<in> set seen then TIER_READ
      else (case dget tools nm of
          None \<Rightarrow> TIER_EGRESS
        | Some tool \<Rightarrow>
            if ''call_tool'' \<in> set (tl_declared tool) then
              fold (\<lambda>onward tier.
                  if onward \<in> set (nm # seen) then tier
                  else (let downstream = tool_danger_tier onward tools (nm # seen) in
                        if downstream > tier then downstream else tier))
                (dkeys tools) (tl_tier tool)
            else tl_tier tool))"
  by pat_completeness auto

termination
proof (relation "measure (\<lambda>(nm, tools, seen). card (set (dkeys tools) - set seen))")
  fix nm tools seen tool onward
  assume "nm \<notin> set seen" and "dget tools nm = Some tool"
  then have "nm \<in> set (dkeys tools) - set seen" by (auto dest: map_of_SomeD intro: rev_image_eqI)
  moreover have "set (dkeys tools) - set (nm # seen) \<subseteq> set (dkeys tools) - set seen" by auto
  ultimately have "set (dkeys tools) - set (nm # seen) \<subset> set (dkeys tools) - set seen" by auto
  then show "((onward, tools, nm # seen), nm, tools, seen) \<in> measure (\<lambda>(nm, tools, seen). card (set (dkeys tools) - set seen))"
    by (simp add: psubset_card_mono)
qed simp

declare tool_danger_tier.simps [simp del]

text \<open>
  What \<open>plugin_danger_tier\<close> sees of a file: the single-name assignments in the order \<open>ast.walk\<close>
  meets them, or \<open>None\<close> for a file that cannot be read or parsed.
\<close>

datatype literal = Constant pyval | ListLiteral "pyval option list" | Computed

fun string_constants :: "pyval option list \<Rightarrow> string list option" where
  "string_constants [] = Some []"
| "string_constants (Some (VStr s) # es) = map_option ((#) s) (string_constants es)"
| "string_constants (_ # es) = None"

fun scan_assigns :: "pyval option \<Rightarrow> string list option \<Rightarrow> (string \<times> literal) list \<Rightarrow> pyval option \<times> string list option" where
  "scan_assigns contract declared [] = (contract, declared)"
| "scan_assigns contract declared ((target, v) # rest) =
     (case (target = ''contract'', v, target = ''declared_requests'') of
        (True, Constant c, _) \<Rightarrow> scan_assigns (Some c) declared rest
      | (_, ListLiteral es, True) \<Rightarrow>
          (case string_constants es of
             None \<Rightarrow> (contract, None)
           | Some ts \<Rightarrow> scan_assigns contract (Some ts) rest)
      | _ \<Rightarrow> scan_assigns contract declared rest)"

definition plugin_danger_tier :: "(string \<times> literal) list option \<Rightarrow> bool \<Rightarrow> tier" where
  "plugin_danger_tier parsed trusted =
     (let undeclared = (if trusted then TIER_READ else TIER_EGRESS) in
      case parsed of
        None \<Rightarrow> undeclared
      | Some assigns \<Rightarrow>
          (case scan_assigns None None assigns of
             (Some (VStr c), Some declared) \<Rightarrow>
               if c \<noteq> ''effects'' then undeclared
               else (case derive_tier declared of Inr t \<Rightarrow> t | Inl _ \<Rightarrow> TIER_EGRESS)
           | _ \<Rightarrow> undeclared))"

definition principal_user :: string where "principal_user = ''user''"

definition admin_requests :: "string list" where
  "admin_requests = [''write_config'', ''read_config'', ''service_control'', ''package_op'', ''conversation_op'',
     ''task_control'', ''session_action'']"

datatype disposition = ALLOW | APPROVE | REFUSE

definition admin_disposition :: "string \<Rightarrow> bool \<Rightarrow> disposition" where
  "admin_disposition who trusted =
     (if who = principal_user then (if trusted then ALLOW else APPROVE)
      else if trusted then APPROVE else REFUSE)"


lemma rises_is_max: "(if (a :: tier) > b then a else b) = max b a"
  by (auto simp: max_def)

lemma fold_max_tier: "fold (\<lambda>x t. if f x > t then f x else (t :: tier)) xs t = foldr (\<lambda>x. max (f x)) xs t"
proof (induction xs arbitrary: t)
  case (Cons x xs)
  have "foldr (\<lambda>x. max (f x)) xs (max t (f x)) = max (f x) (foldr (\<lambda>x. max (f x)) xs t)"
    by (induction xs) (simp_all add: max.commute max.left_commute)
  with Cons show ?case by (simp add: rises_is_max)
qed simp

lemma foldr_max_bounds:
  "(t :: tier) \<le> foldr (\<lambda>x. max (f x)) xs t" "x \<in> set xs \<Longrightarrow> f x \<le> foldr (\<lambda>x. max (f x)) xs t"
  "foldr (\<lambda>x. max (f x)) xs t \<in> insert t (f ` set xs)"
proof -
  show "t \<le> foldr (\<lambda>x. max (f x)) xs t" by (induction xs) (auto simp: le_max_iff_disj)
  show "x \<in> set xs \<Longrightarrow> f x \<le> foldr (\<lambda>x. max (f x)) xs t" by (induction xs) (auto simp: le_max_iff_disj)
  show "foldr (\<lambda>x. max (f x)) xs t \<in> insert t (f ` set xs)" by (induction xs) (auto simp: max_def)
qed

text \<open>The derived tier is the least one above every declared request.\<close>

lemma derive_tier_max:
  "derive_tier ds = Inr t \<longleftrightarrow>
     (\<forall>d \<in> set ds. tag_known d) \<and> (\<forall>d \<in> set ds. tag_tier d \<le> t) \<and> t \<in> insert TIER_READ (tag_tier ` set ds)"
proof -
  have u: "x = y" if "\<forall>d \<in> set ds. tag_tier d \<le> x" "x \<in> insert TIER_READ (tag_tier ` set ds)"
    "\<forall>d \<in> set ds. tag_tier d \<le> y" "y \<in> insert TIER_READ (tag_tier ` set ds)" for x y
  proof (rule antisym)
    show "x \<le> y" using that(2,3) by auto
    show "y \<le> x" using that(1,4) by auto
  qed
  let ?m = "foldr (\<lambda>x. max (tag_tier x)) ds TIER_READ"
  have m: "\<forall>d \<in> set ds. tag_tier d \<le> ?m" "?m \<in> insert TIER_READ (tag_tier ` set ds)"
    using foldr_max_bounds(2) [of _ ds tag_tier TIER_READ] by blast (rule foldr_max_bounds(3))
  have d: "derive_tier ds = Inr t \<longleftrightarrow> (\<forall>d \<in> set ds. tag_known d) \<and> ?m = t"
    by (auto simp: derive_tier_def fold_max_tier list_ex_iff)
  show ?thesis unfolding d
  proof (intro iffI conjI; elim conjE)
    assume "\<forall>d \<in> set ds. tag_tier d \<le> t" "t \<in> insert TIER_READ (tag_tier ` set ds)"
    then show "?m = t" using m by (intro u)
  qed (use m in simp_all)
qed

lemma tag_tier_rq: "tag_tier (rq_tag r) = rq_tier r"
  by (simp add: tag_tier_def rq_tag_def rq_tier_def class_of_own_tag)

lemma implicit_read: "rq_tag r \<in> set implicit_requests \<Longrightarrow> rq_tier r = TIER_READ"
proof -
  have "list_all (\<lambda>x. tag_tier x = TIER_READ) implicit_requests"
    by (simp add: implicit_requests_def tag_tier_def class_of_tag_def vocabulary_defs)
  then show "rq_tag r \<in> set implicit_requests \<Longrightarrow> ?thesis" by (auto simp: list_all_iff tag_tier_rq [symmetric])
qed

lemma declared_within_tier:
  "derive_tier declared = Inr t \<Longrightarrow> validate_declared r declared = Inr () \<Longrightarrow> rq_tier r \<le> t"
proof -
  assume d: "derive_tier declared = Inr t" and v: "validate_declared r declared = Inr ()"
  from v have "rq_tag r \<in> set declared \<or> rq_tag r \<in> set implicit_requests" by (auto simp: validate_declared_def split: if_splits)
  then show ?thesis
  proof
    assume "rq_tag r \<in> set declared"
    then have "tag_tier (rq_tag r) \<le> t" using d unfolding derive_tier_max by blast
    then show ?thesis by (simp only: tag_tier_rq)
  qed (simp add: implicit_read)
qed

text \<open>The danger of a tool covers its own tier and that of every tool it can call.\<close>

lemma tool_danger_own:
  "nm \<notin> set seen \<Longrightarrow> dget tools nm = Some tool \<Longrightarrow> tl_tier tool \<le> tool_danger_tier nm tools seen"
proof -
  assume a: "nm \<notin> set seen" "dget tools nm = Some tool"
  have f: "(t :: tier) \<le> fold (\<lambda>x t. if p x then t else (let d = g x in if d > t then d else t)) xs t" for t g p and xs :: "string list"
  proof (induction xs arbitrary: t)
    case (Cons x xs)
    let ?t = "if p x then t else (let d = g x in if d > t then d else t)"
    have "t \<le> ?t" by (auto simp: Let_def)
    also have "?t \<le> fold (\<lambda>x t. if p x then t else (let d = g x in if d > t then d else t)) xs ?t" by (rule Cons.IH)
    finally show ?case by simp
  qed simp
  show ?thesis
    using a by (subst tool_danger_tier.simps) (auto intro: f)
qed

lemma tool_danger_onward:
  assumes "nm \<notin> set seen" and "dget tools nm = Some tool" and "''call_tool'' \<in> set (tl_declared tool)"
    and "dget tools onward = Some other" and "onward \<notin> set (nm # seen)"
  shows "tl_tier other \<le> tool_danger_tier nm tools seen"
proof -
  let ?g = "\<lambda>x. tool_danger_tier x tools (nm # seen)"
  let ?step = "\<lambda>x t. if x \<in> set (nm # seen) then t else (let d = ?g x in if d > t then d else t)"
  have up: "t \<le> fold ?step xs t" for t and xs :: "string list"
  proof (induction xs arbitrary: t)
    case (Cons x xs)
    have "t \<le> ?step x t" by (auto simp: Let_def)
    also have "\<dots> \<le> fold ?step xs (?step x t)" by (rule Cons.IH)
    finally show ?case by simp
  qed simp
  have mem: "?g x \<le> fold ?step xs t" if "x \<in> set xs" "x \<notin> set (nm # seen)" for x t xs
    using that
  proof (induction xs arbitrary: t)
    case (Cons y xs)
    show ?case
    proof (cases "x = y")
      case True
      have "?g x \<le> ?step y t" using True Cons.prems(2) by (auto simp: Let_def)
      also have "\<dots> \<le> fold ?step xs (?step y t)" by (rule up)
      finally show ?thesis by simp
    qed (use Cons in simp)
  qed simp
  have "tl_tier other \<le> ?g onward" using assms(4,5) by (intro tool_danger_own)
  also have "\<dots> \<le> fold ?step (dkeys tools) (tl_tier tool)"
    using assms(4,5) by (intro mem) (auto dest: map_of_SomeD intro: rev_image_eqI)
  also have "\<dots> = tool_danger_tier nm tools seen" using assms(1-3) by (subst (2) tool_danger_tier.simps) simp
  finally show ?thesis .
qed

text \<open>A tool that has not been converted declares nothing, so it grades as a read.\<close>

lemma legacy_tool_grades_read:
  "define_tool ''legacy'' [] view = Inr tool \<Longrightarrow> dget tools nm = Some tool \<Longrightarrow> tool_danger_tier nm tools [] = TIER_READ"
  by (subst tool_danger_tier.simps)
    (auto simp: define_tool_def validate_effects_declaration_def derive_tier_def)

text \<open>A tool that may call tools is of the egress tier by its own declaration, whatever it calls.\<close>

lemma caller_is_egress: "''call_tool'' \<in> set ds \<Longrightarrow> derive_tier ds = Inr t \<Longrightarrow> t = TIER_EGRESS"
proof -
  assume "''call_tool'' \<in> set ds" "derive_tier ds = Inr t"
  moreover have "tag_tier ''call_tool'' = TIER_EGRESS" by (simp add: tag_tier_def class_of_tag_def vocabulary_defs)
  ultimately show ?thesis unfolding derive_tier_max by (metis antisym tier_bounds(2))
qed

text \<open>The last assignment the walk meets decides, wherever in the file it stands.\<close>

lemma decoy_declaration:
  "plugin_danger_tier (Some [(''contract'', Constant (VStr ''effects'')),
     (''declared_requests'', ListLiteral [Some (VStr ''run_process'')]), (''declared_requests'', ListLiteral [])]) False = TIER_READ"
  by (simp add: plugin_danger_tier_def derive_tier_def)

end
