(* ===== verification/FileEffects.thy ===== *)
theory FileEffects
  imports PyValue "HOL-Library.Sublist"
begin

text \<open>
  The file side of \<open>effects/interpreter.py\<close> and \<open>effects/fs_search.py\<close>: how a path named by a
  plugin is resolved and confined, the directory walk and the batched read, the file writes with
  their undo entries, and the turn journal's rollback.
\<close>

section \<open>Paths and the file system\<close>

type_synonym path = "string list"

datatype fs_node = RegularFile string | Directory | Link

text \<open>A file system: resolved paths with what is there, in the order a walk meets them.\<close>

type_synonym filesystem = "(path \<times> fs_node) list"

text \<open>
  What comes from the operating system: \<open>expanduser\<close> and \<open>is_absolute\<close>, \<open>resolve\<close> of a path and of
  a path below a root (following links), the text of a path, its modification time, and the codecs.
\<close>

record path_env =
  pe_absolute :: "string \<Rightarrow> bool"
  pe_resolve :: "string \<Rightarrow> path"
  pe_join :: "path \<Rightarrow> string \<Rightarrow> path"
  pe_cwd :: path
  pe_text :: "path \<Rightarrow> string"
  pe_mtime :: "path \<Rightarrow> rat"
  pe_encode :: "string \<Rightarrow> string \<Rightarrow> string option"
  pe_decode :: "string \<Rightarrow> string \<Rightarrow> string option"
  pe_decode_lossy :: "string \<Rightarrow> string"

definition under_roots :: "path list \<Rightarrow> path \<Rightarrow> bool" where
  "under_roots roots p \<longleftrightarrow> list_ex (\<lambda>r. prefix r p) roots"

definition permission_error :: "string \<Rightarrow> 'a pyres" where
  "permission_error msg = Inl (PyExn ''PermissionError'' msg)"

text \<open>\<open>Interpreter._check_path\<close>; the roots are resolved already, \<open>None\<close> allows every path.\<close>

definition check_path :: "path_env \<Rightarrow> path list option \<Rightarrow> string \<Rightarrow> path pyres" where
  "check_path env roots raw =
     (case roots of
        None \<Rightarrow> Inr (pe_resolve env raw)
      | Some rs \<Rightarrow>
          (let p = (if \<not> pe_absolute env raw \<and> rs \<noteq> [] then pe_join env (hd rs) raw else pe_resolve env raw) in
           if under_roots rs p then Inr p
           else permission_error (''path '' @ pe_text env p @ '' is outside the allowed roots'')))"

text \<open>\<open>fs_search.resolve_root\<close>, with the raw text already taken from the request.\<close>

definition default_root :: "path_env \<Rightarrow> path list option \<Rightarrow> path" where
  "default_root env roots = (case roots of Some (r # _) \<Rightarrow> r | _ \<Rightarrow> pe_cwd env)"

definition resolve_root :: "path_env \<Rightarrow> path list option \<Rightarrow> string \<Rightarrow> string + path" where
  "resolve_root env roots raw0 =
     (let raw = strip raw0;
          base = default_root env roots;
          p = (if raw = [] then base else if pe_absolute env raw then pe_resolve env raw else pe_join env base raw) in
      case roots of
        Some (r # rs) \<Rightarrow>
          if under_roots (r # rs) p then Inr p else Inl (''path is outside the allowed read roots: '' @ pe_text env p)
      | _ \<Rightarrow> Inr p)"


section \<open>Reading: the walk, the batch, the metadata\<close>

definition ignored_dirs :: "string list" where
  "ignored_dirs = [''.git'', ''.hg'', ''.svn'', ''node_modules'', ''__pycache__'', ''.venv'', ''venv'', ''.tox'', ''.eggs'',
     ''.mypy_cache'', ''.pytest_cache'', ''.ruff_cache'', ''.cache'', ''dist'', ''build'', ''.idea'']"

definition max_file_bytes :: int where "max_file_bytes = 2000000"
definition max_scan_files :: nat where "max_scan_files = 20000"
definition max_batch_files :: nat where "max_batch_files = 500"
definition max_batch_bytes :: nat where "max_batch_bytes = 8000000"

definition below :: "path \<Rightarrow> path \<Rightarrow> path" where
  "below base p = drop (length base) p"

definition regular :: "fs_node \<Rightarrow> bool" where
  "regular nd \<longleftrightarrow> (case nd of RegularFile _ \<Rightarrow> True | _ \<Rightarrow> False)"

text \<open>A file the walk reports: below the base, no directory on the way is ignored or a link.\<close>

definition walked :: "filesystem \<Rightarrow> path \<Rightarrow> bool \<Rightarrow> path \<times> fs_node \<Rightarrow> bool" where
  "walked fs base recursive entry = (case entry of (p, nd) \<Rightarrow>
     regular nd \<and> strict_prefix base p \<and>
     (if recursive
      then list_all (\<lambda>d. d \<notin> set ignored_dirs) (butlast (below base p)) \<and>
        list_all (\<lambda>q. \<not> (strict_prefix base q \<and> strict_prefix q p \<and> dget fs q = Some Link)) (dkeys fs)
      else length p = Suc (length base)))"

definition entry_value :: "path_env \<Rightarrow> path \<Rightarrow> path \<times> fs_node \<Rightarrow> pyval" where
  "entry_value env base entry = (case entry of (p, nd) \<Rightarrow>
     VDict [(''path'', VStr (join_with ''/'' (below base p))),
            (''size'', VInt (case nd of RegularFile b \<Rightarrow> int (length b) | _ \<Rightarrow> 0)),
            (''mtime'', VFloat (pe_mtime env p))])"

definition error_value :: "string \<Rightarrow> pyval" where
  "error_value msg = VDict [(''error'', VStr msg)]"

definition list_dir :: "path_env \<Rightarrow> path list option \<Rightarrow> filesystem \<Rightarrow> string \<Rightarrow> bool \<Rightarrow> pyval" where
  "list_dir env roots fs base recursive =
     (case resolve_root env roots base of
        Inl e \<Rightarrow> error_value e
      | Inr p \<Rightarrow>
          if dget fs p \<noteq> Some Directory then error_value (''not a directory: '' @ pe_text env p)
          else (let found = filter (walked fs p recursive) fs in
                VDict [(''root'', VStr (pe_text env p)),
                       (''entries'', VList (List.map (entry_value env p) (take max_scan_files found))),
                       (''truncated'', VBool (length found \<ge> max_scan_files))]))"

definition is_binary :: "string \<Rightarrow> bool" where
  "is_binary b \<longleftrightarrow> CHR 0x00 \<in> set (take 1024 b)"

definition file_error :: "pyval \<Rightarrow> string \<Rightarrow> pyval" where
  "file_error raw msg = VDict [(''path'', raw), (''error'', VStr msg)]"

definition read_one :: "path_env \<Rightarrow> path list option \<Rightarrow> filesystem \<Rightarrow> int \<Rightarrow> pyval \<Rightarrow> (pyval \<times> nat) pyres" where
  "read_one env roots fs cap raw =
     rbind (case py_or raw (VStr []) of VStr s \<Rightarrow> Inr s | _ \<Rightarrow> Inl (PyExn ''AttributeError'' ''object has no attribute strip'')) (\<lambda>s.
       case resolve_root env roots s of
         Inl e \<Rightarrow> Inr (file_error raw e, 0)
       | Inr p \<Rightarrow>
           (case dget fs p of
              Some (RegularFile b) \<Rightarrow>
                Inr (if int (length b) > cap then (file_error raw (''file exceeds '' @ show_int cap @ '' bytes''), 0)
                     else if is_binary b then (file_error raw ''binary file'', 0)
                     else (VDict [(''path'', raw), (''text'', VStr (pe_decode_lossy env b))], length (pe_decode_lossy env b)))
            | Some _ \<Rightarrow> Inr (file_error raw ''binary file'', 0)
            | None \<Rightarrow> Inr (file_error raw ''No such file or directory'', 0)))"

fun read_batch :: "path_env \<Rightarrow> path list option \<Rightarrow> filesystem \<Rightarrow> int \<Rightarrow> nat \<Rightarrow> pyval list \<Rightarrow> (pyval list \<times> bool) pyres" where
  "read_batch env roots fs cap sofar [] = Inr ([], False)"
| "read_batch env roots fs cap sofar (raw # raws) =
     (if sofar \<ge> max_batch_bytes then Inr ([], True)
      else rbind (read_one env roots fs cap raw) (\<lambda>(v, n).
        rbind (read_batch env roots fs cap (sofar + n) raws) (\<lambda>(vs, cut). Inr (v # vs, cut))))"

definition py_seq :: "pyval \<Rightarrow> pyval list pyres" where
  "py_seq v = (case v of
     VList xs \<Rightarrow> Inr xs
   | VStr s \<Rightarrow> Inr (List.map (\<lambda>c. VStr [c]) s)
   | _ \<Rightarrow> Inl (PyExn ''TypeError'' ''object has no len()''))"

definition read_files :: "path_env \<Rightarrow> path list option \<Rightarrow> filesystem \<Rightarrow> pyval \<Rightarrow> pyval \<Rightarrow> pyval pyres" where
  "read_files env roots fs paths max_bytes =
     rbind (py_int (py_or max_bytes (VInt max_file_bytes))) (\<lambda>cap.
     rbind (py_seq paths) (\<lambda>raws.
     rbind (read_batch env roots fs (min cap max_file_bytes) 0 (take max_batch_files raws)) (\<lambda>(vs, cut).
       Inr (VDict [(''files'', VList vs), (''truncated'', VBool (cut \<or> length raws > max_batch_files))]))))"

definition stat_path :: "path_env \<Rightarrow> path list option \<Rightarrow> filesystem \<Rightarrow> string \<Rightarrow> pyval" where
  "stat_path env roots fs raw =
     (case resolve_root env roots raw of
        Inl e \<Rightarrow> error_value e
      | Inr p \<Rightarrow>
          (case dget fs p of
             None \<Rightarrow> VDict [(''path'', VStr (pe_text env p)), (''exists'', VBool False)]
           | Some nd \<Rightarrow> VDict [(''path'', VStr (pe_text env p)), (''exists'', VBool True), (''is_dir'', VBool (nd = Directory)),
               (''size'', VInt (case nd of RegularFile b \<Rightarrow> int (length b) | _ \<Rightarrow> 0)), (''mtime'', VFloat (pe_mtime env p))]))"

definition read_text :: "path_env \<Rightarrow> filesystem \<Rightarrow> path \<Rightarrow> string \<Rightarrow> string pyres" where
  "read_text env fs p enc =
     (case dget fs p of
        Some (RegularFile b) \<Rightarrow>
          (case pe_decode env b enc of Some t \<Rightarrow> Inr t | None \<Rightarrow> Inl (PyExn ''UnicodeDecodeError'' ''invalid bytes''))
      | Some _ \<Rightarrow> Inl (PyExn ''IsADirectoryError'' ''Is a directory'')
      | None \<Rightarrow> Inl (PyExn ''FileNotFoundError'' ''No such file or directory''))"


section \<open>Writing: the operations and what they undo\<close>

definition read_bytes :: "filesystem \<Rightarrow> path \<Rightarrow> string pyres" where
  "read_bytes fs p = (case dget fs p of
     Some (RegularFile b) \<Rightarrow> Inr b
   | Some _ \<Rightarrow> Inl (PyExn ''IsADirectoryError'' ''Is a directory'')
   | None \<Rightarrow> Inl (PyExn ''FileNotFoundError'' ''No such file or directory''))"

text \<open>\<open>path.parent.mkdir(parents=True, exist_ok=True)\<close>: the ancestors, outermost first.\<close>

fun make_dirs :: "path list \<Rightarrow> filesystem \<Rightarrow> filesystem pyres" where
  "make_dirs [] fs = Inr fs"
| "make_dirs (q # qs) fs = (case dget fs q of
     None \<Rightarrow> make_dirs qs (dset q Directory fs)
   | Some Directory \<Rightarrow> make_dirs qs fs
   | Some _ \<Rightarrow> Inl (PyExn ''FileExistsError'' ''File exists''))"

definition ancestors :: "path \<Rightarrow> path list" where
  "ancestors p = List.map (\<lambda>n. take n p) [1..<length p]"

text \<open>
  Opening a file for writing truncates it, before the codec has seen the text: an encoding that
  fails leaves an empty file behind.
\<close>

definition open_for_writing :: "filesystem \<Rightarrow> path \<Rightarrow> filesystem pyres" where
  "open_for_writing fs p =
     (if p = [] \<or> dget fs p = Some Directory then Inl (PyExn ''IsADirectoryError'' ''Is a directory'')
      else if length p > 1 \<and> dget fs (butlast p) \<noteq> Some Directory
      then Inl (PyExn ''FileNotFoundError'' ''No such file or directory'')
      else Inr (dset p (RegularFile []) fs))"

definition write_text :: "path_env \<Rightarrow> filesystem \<Rightarrow> path \<Rightarrow> string \<Rightarrow> string \<Rightarrow> filesystem \<times> unit pyres" where
  "write_text env fs p content enc =
     (case open_for_writing fs p of
        Inl e \<Rightarrow> (fs, Inl e)
      | Inr fs1 \<Rightarrow> (case pe_encode env content enc of
          None \<Rightarrow> (fs1, Inl (PyExn ''UnicodeEncodeError'' ''cannot encode''))
        | Some b \<Rightarrow> (dset p (RegularFile b) fs1, Inr ())))"

definition write_bytes :: "filesystem \<Rightarrow> path \<Rightarrow> string \<Rightarrow> filesystem pyres" where
  "write_bytes fs p b = rbind (open_for_writing fs p) (\<lambda>fs1. Inr (dset p (RegularFile b) fs1))"

definition unlink :: "filesystem \<Rightarrow> path \<Rightarrow> filesystem pyres" where
  "unlink fs p = (if dget fs p = Some Directory then Inl (PyExn ''IsADirectoryError'' ''Is a directory'') else Inr (dpop p fs))"

text \<open>What a file request's closure remembers.\<close>

datatype file_undo = UndoWrite path "string option" | UndoDelete path "string option"

fun undo_file :: "file_undo \<Rightarrow> filesystem \<Rightarrow> filesystem \<times> unit pyres" where
  "undo_file (UndoWrite p None) fs =
     (if dget fs p \<noteq> None then (case unlink fs p of Inl e \<Rightarrow> (fs, Inl e) | Inr fs1 \<Rightarrow> (fs1, Inr ())) else (fs, Inr ()))"
| "undo_file (UndoWrite p (Some b)) fs =
     (case write_bytes fs p b of Inl e \<Rightarrow> (fs, Inl e) | Inr fs1 \<Rightarrow> (fs1, Inr ()))"
| "undo_file (UndoDelete p None) fs = (fs, Inr ())"
| "undo_file (UndoDelete p (Some b)) fs =
     (case make_dirs (ancestors p) fs of
        Inl e \<Rightarrow> (fs, Inl e)
      | Inr fs1 \<Rightarrow> (case write_bytes fs1 p b of Inl e \<Rightarrow> (fs1, Inl e) | Inr fs2 \<Rightarrow> (fs2, Inr ())))"

text \<open>The file system part of the two write requests, once the path is confined and approved.\<close>

definition write_file :: "path_env \<Rightarrow> path \<Rightarrow> string \<Rightarrow> string \<Rightarrow> filesystem \<Rightarrow> filesystem \<times> file_undo pyres" where
  "write_file env p content enc fs =
     (let existed = dget fs p \<noteq> None in
      case (if existed then (case read_bytes fs p of Inl e \<Rightarrow> Inl e | Inr b \<Rightarrow> Inr (Some b)) else Inr None) of
        Inl e \<Rightarrow> (fs, Inl e)
      | Inr prior \<Rightarrow>
          (case make_dirs (ancestors p) fs of
             Inl e \<Rightarrow> (fs, Inl e)
           | Inr fs1 \<Rightarrow> (case write_text env fs1 p content enc of
               (fs2, Inl e) \<Rightarrow> (fs2, Inl e)
             | (fs2, Inr _) \<Rightarrow> (fs2, Inr (UndoWrite p prior)))))"

definition unlink_file :: "path \<Rightarrow> filesystem \<Rightarrow> filesystem \<times> (file_undo \<times> bool)" where
  "unlink_file p fs =
     (case dget fs p of
        Some (RegularFile b) \<Rightarrow> (dpop p fs, UndoDelete p (Some b), True)
      | _ \<Rightarrow> (fs, UndoDelete p None, False))"


section \<open>The turn journal\<close>

text \<open>Entries in the order they were pushed; a rollback pops them from the end.\<close>

fun roll :: "('u \<Rightarrow> 'w \<Rightarrow> 'w \<times> unit pyres) \<Rightarrow> 'u list \<Rightarrow> 'w \<Rightarrow> 'w \<times> pyexn list" where
  "roll undo [] w = (w, [])"
| "roll undo (u # us) w = (case undo u w of
     (w1, Inl e) \<Rightarrow> (case roll undo us w1 of (w2, es) \<Rightarrow> (w2, e # es))
   | (w1, Inr _) \<Rightarrow> roll undo us w1)"

definition rollback :: "('u \<Rightarrow> 'w \<Rightarrow> 'w \<times> unit pyres) \<Rightarrow> 'u list \<Rightarrow> 'w \<Rightarrow> 'w \<times> pyexn list" where
  "rollback undo journal w = roll undo (rev journal) w"

lemma roll_append:
  "roll undo (us @ vs) w = (case roll undo us w of (w1, es) \<Rightarrow> (case roll undo vs w1 of (w2, es') \<Rightarrow> (w2, es @ es')))"
proof (induction us arbitrary: w)
  case Nil
  show ?case by (simp split: prod.split)
next
  case (Cons u us)
  obtain w1 r where "undo u w = (w1, r)" by (cases "undo u w")
  with Cons show ?case by (cases r) (simp_all split: prod.split)
qed

lemma rollback_Cons:
  "rollback undo (u # us) w = (case rollback undo us w of (w1, es) \<Rightarrow> (case undo u w1 of
     (w2, Inl e) \<Rightarrow> (w2, es @ [e]) | (w2, Inr _) \<Rightarrow> (w2, es)))"
  by (simp add: rollback_def roll_append split: prod.split sum.split)

lemma rollback_Nil [simp]: "rollback undo [] w = (w, [])"
  by (simp add: rollback_def)


section \<open>What the operations change\<close>

lemma check_path_confined: "check_path env (Some rs) raw = Inr p \<Longrightarrow> under_roots rs p"
  by (auto simp: check_path_def permission_error_def Let_def split: if_splits)

lemma make_dirs_get:
  "make_dirs qs fs = Inr fs1 \<Longrightarrow>
   dget fs1 p = (if p \<in> set qs \<and> dget fs p = None then Some Directory else dget fs p)"
proof (induction qs arbitrary: fs)
  case (Cons q qs)
  show ?case
  proof (cases "dget fs q")
    case None
    with Cons.prems Cons.IH [of "dset q Directory fs"] show ?thesis by auto
  next
    case (Some nd)
    with Cons.prems Cons.IH [of fs] show ?thesis by (cases nd) auto
  qed
qed simp

lemma ancestors_prefix: "q \<in> set (ancestors p) \<Longrightarrow> strict_prefix q p"
  by (auto simp: ancestors_def strict_prefix_def take_is_prefix)

lemma open_get: "open_for_writing fs p = Inr fs1 \<Longrightarrow> dget fs1 q = (if q = p then Some (RegularFile []) else dget fs q)"
  by (auto simp: open_for_writing_def split: if_splits)

lemma write_file_changes:
  "write_file env p content enc fs = (fs', r) \<Longrightarrow> dget fs' q \<noteq> dget fs q \<Longrightarrow>
   q = p \<or> strict_prefix q p \<and> dget fs q = None \<and> dget fs' q = Some Directory"
  by (auto simp: write_file_def write_text_def Let_def make_dirs_get open_get ancestors_prefix
      split: sum.splits option.splits if_splits prod.splits)

lemma delete_file_changes: "unlink_file p fs = (fs', r) \<Longrightarrow> dget fs' q \<noteq> dget fs q \<Longrightarrow> q = p"
  by (auto simp: unlink_file_def split: option.splits fs_node.splits if_splits)



section \<open>A rolled back turn restores every file\<close>

datatype file_op = WriteOp path string string | DeleteOp path

fun op_path :: "file_op \<Rightarrow> path" where
  "op_path (WriteOp p _ _) = p"
| "op_path (DeleteOp p) = p"

fun run_file_op :: "path_env \<Rightarrow> file_op \<Rightarrow> filesystem \<Rightarrow> filesystem \<times> file_undo list" where
  "run_file_op env (WriteOp p content enc) fs = (case write_file env p content enc fs of
     (fs1, Inl _) \<Rightarrow> (fs1, []) | (fs1, Inr u) \<Rightarrow> (fs1, [u]))"
| "run_file_op env (DeleteOp p) fs = (case unlink_file p fs of (fs1, u, _) \<Rightarrow> (fs1, [u]))"

fun run_file_ops :: "path_env \<Rightarrow> file_op list \<Rightarrow> filesystem \<Rightarrow> filesystem \<times> file_undo list" where
  "run_file_ops env [] fs = (fs, [])"
| "run_file_ops env (x # xs) fs = (case run_file_op env x fs of (fs1, us) \<Rightarrow>
     (case run_file_ops env xs fs1 of (fs2, us') \<Rightarrow> (fs2, us @ us')))"

text \<open>Everything stands in directories.\<close>

definition rooted :: "filesystem \<Rightarrow> bool" where
  "rooted fs \<longleftrightarrow> (\<forall>p \<in> set (dkeys fs). \<forall>q \<in> set (ancestors p). dget fs q = Some Directory)"

text \<open>The same files, with directories on the way to the given paths that were not there.\<close>

definition more_dirs :: "path set \<Rightarrow> filesystem \<Rightarrow> filesystem \<Rightarrow> bool" where
  "more_dirs ps fs fs' \<longleftrightarrow> (\<forall>p. dget fs' p = dget fs p \<or>
     dget fs p = None \<and> dget fs' p = Some Directory \<and> (\<exists>q \<in> ps. strict_prefix p q))"

definition prefix_free :: "path set \<Rightarrow> bool" where
  "prefix_free ps \<longleftrightarrow> (\<forall>p \<in> ps. \<forall>q \<in> ps. \<not> strict_prefix p q)"

fun op_encodes :: "path_env \<Rightarrow> file_op \<Rightarrow> bool" where
  "op_encodes env (WriteOp _ content enc) = (pe_encode env content enc \<noteq> None)"
| "op_encodes env (DeleteOp _) = True"

lemma more_dirs_refl: "more_dirs ps fs fs"
  by (simp add: more_dirs_def)

lemma more_dirs_trans: "more_dirs ps a b \<Longrightarrow> more_dirs ps b c \<Longrightarrow> more_dirs ps a c"
  unfolding more_dirs_def by (metis option.distinct(1))

lemma more_dirs_target: "more_dirs ps fs fs' \<Longrightarrow> prefix_free ps \<Longrightarrow> p \<in> ps \<Longrightarrow> dget fs' p = dget fs p"
  unfolding more_dirs_def prefix_free_def by metis

lemma more_dirs_dir: "more_dirs ps fs fs' \<Longrightarrow> dget fs p = Some Directory \<Longrightarrow> dget fs' p = Some Directory"
  unfolding more_dirs_def by (metis option.distinct(1))

lemma make_dirs_more: "make_dirs (ancestors p) fs = Inr fs1 \<Longrightarrow> p \<in> ps \<Longrightarrow> more_dirs ps fs fs1"
  using ancestors_prefix [of _ p] by (auto simp: more_dirs_def make_dirs_get intro!: bexI [of _ p])

lemma make_dirs_all: "make_dirs qs fs = Inr fs1 \<Longrightarrow> q \<in> set qs \<Longrightarrow> dget fs1 q = Some Directory"
proof (induction qs arbitrary: fs)
  case (Cons q' qs)
  show ?case
  proof (cases "dget fs q'")
    case None
    with Cons make_dirs_get [of qs "dset q' Directory fs" fs1 q'] show ?thesis by auto
  next
    case (Some nd)
    with Cons make_dirs_get [of qs fs fs1 q'] show ?thesis by (cases nd) auto
  qed
qed simp

lemma make_dirs_id: "(\<And>q. q \<in> set qs \<Longrightarrow> dget fs q = Some Directory) \<Longrightarrow> make_dirs qs fs = Inr fs"
  by (induction qs) auto

lemma parent_ancestor: "length p > 1 \<Longrightarrow> butlast p \<in> set (ancestors p)"
  by (auto simp: ancestors_def butlast_conv_take intro!: image_eqI [of _ _ "length p - 1"])

lemma open_ok:
  "p \<noteq> [] \<Longrightarrow> dget fs p \<noteq> Some Directory \<Longrightarrow> (\<And>q. q \<in> set (ancestors p) \<Longrightarrow> dget fs q = Some Directory) \<Longrightarrow>
   \<exists>fs1. open_for_writing fs p = Inr fs1"
  using parent_ancestor [of p] by (auto simp: open_for_writing_def)

lemma rooted_get: "rooted fs \<longleftrightarrow> (\<forall>p. dget fs p \<noteq> None \<longrightarrow> (\<forall>q \<in> set (ancestors p). dget fs q = Some Directory))"
  by (auto simp: rooted_def map_of_eq_None_iff)

lemma ancestors_trans: "q \<in> set (ancestors p) \<Longrightarrow> r \<in> set (ancestors q) \<Longrightarrow> r \<in> set (ancestors p)"
  by (auto simp: ancestors_def)

lemma more_dirs_restore:
  assumes "more_dirs ps fs fsd" and "more_dirs ps fs1 fs1'" and "\<And>q. q \<noteq> p \<Longrightarrow> dget fs1 q = dget fsd q"
    and "\<And>q. q \<noteq> p \<Longrightarrow> dget fs' q = dget fs1' q" and "dget fs' p = dget fs p"
  shows "more_dirs ps fs fs'"
proof -
  have "dget fs' q = dget fs q \<or> dget fs q = None \<and> dget fs' q = Some Directory \<and> (\<exists>r \<in> ps. strict_prefix q r)" for q
  proof (cases "q = p")
    case False
    with assms(1-4) show ?thesis unfolding more_dirs_def by (metis option.distinct(1))
  qed (use assms(5) in simp)
  then show ?thesis by (simp add: more_dirs_def)
qed

lemma undo_write:
  assumes w: "write_file env p content enc fs = (fs1, Inr u)" and p: "p \<in> ps" "prefix_free ps"
    and more: "more_dirs ps fs1 fs1'"
  shows "\<exists>fs'. undo_file u fs1' = (fs', Inr ()) \<and> more_dirs ps fs fs'"
proof -
  from w obtain prior fsd fso b where
    u: "u = UndoWrite p prior" and mk: "make_dirs (ancestors p) fs = Inr fsd"
    and op: "open_for_writing fsd p = Inr fso" and fs1: "fs1 = dset p (RegularFile b) fso"
    and prior: "dget fs p = map_option RegularFile prior"
    by (auto simp: write_file_def write_text_def read_bytes_def Let_def
        split: sum.splits option.splits if_splits prod.splits fs_node.splits)
  have target: "dget fs1' p = Some (RegularFile b)" using more_dirs_target [OF more p(2,1)] fs1 by simp
  have ne: "p \<noteq> []" using op by (auto simp: open_for_writing_def split: if_splits)
  have get: "dget fs1 q = (if q = p then Some (RegularFile b) else dget fsd q)" for q by (simp add: fs1 open_get [OF op])
  have dirs: "dget fs1' q = Some Directory" if "q \<in> set (ancestors p)" for q
    using make_dirs_all [OF mk that] ancestors_prefix [OF that] get more by (auto intro: more_dirs_dir)
  have base: "more_dirs ps fs fsd" using make_dirs_more [OF mk p(1)] .
  note keep = more_dirs_restore [OF base more, of p]
  show ?thesis
  proof (cases prior)
    case None
    have "undo_file u fs1' = (dpop p fs1', Inr ())" using target by (simp add: u None unlink_def)
    moreover have "more_dirs ps fs (dpop p fs1')" using prior None get by (intro keep) auto
    ultimately show ?thesis by blast
  next
    case (Some b0)
    obtain f2 where f2: "open_for_writing fs1' p = Inr f2" using open_ok [OF ne _ dirs] target by auto
    have "undo_file u fs1' = (dset p (RegularFile b0) f2, Inr ())" by (simp add: u Some write_bytes_def f2)
    moreover have "more_dirs ps fs (dset p (RegularFile b0) f2)" using prior Some open_get [OF f2] get by (intro keep) auto
    ultimately show ?thesis by blast
  qed
qed

lemma undo_delete:
  assumes d: "unlink_file p fs = (fs1, u, flag)" and p: "p \<in> ps" "prefix_free ps" and r: "rooted fs" and ne: "p \<noteq> []"
    and more: "more_dirs ps fs1 fs1'"
  shows "\<exists>fs'. undo_file u fs1' = (fs', Inr ()) \<and> more_dirs ps fs fs'"
proof (cases "\<exists>b. dget fs p = Some (RegularFile b)")
  case False
  then have "fs1 = fs" "u = UndoDelete p None" using d by (auto simp: unlink_file_def split: option.splits fs_node.splits)
  with more show ?thesis by simp
next
  case True
  then obtain b where b: "dget fs p = Some (RegularFile b)" by blast
  with d have fs1: "fs1 = dpop p fs" and u: "u = UndoDelete p (Some b)" by (auto simp: unlink_file_def)
  have gone: "dget fs1' p = None" using more_dirs_target [OF more p(2,1)] fs1 by simp
  have dirs: "dget fs1' q = Some Directory" if "q \<in> set (ancestors p)" for q
  proof -
    have "dget fs q = Some Directory" using r b that unfolding rooted_get by blast
    then have "dget fs1 q = Some Directory" using ancestors_prefix [OF that] by (auto simp: fs1)
    with more show ?thesis by (rule more_dirs_dir)
  qed
  obtain f2 where f2: "open_for_writing fs1' p = Inr f2" using open_ok [OF ne _ dirs] gone by auto
  have "undo_file u fs1' = (dset p (RegularFile b) f2, Inr ())"
    by (simp add: u make_dirs_id [OF dirs] write_bytes_def f2)
  moreover have "more_dirs ps fs (dset p (RegularFile b) f2)"
    using b open_get [OF f2] by (intro more_dirs_restore [OF more_dirs_refl more, of p]) (auto simp: fs1)
  ultimately show ?thesis by blast
qed


lemma rooted_make_dirs: "rooted fs \<Longrightarrow> make_dirs (ancestors p) fs = Inr fs1 \<Longrightarrow> rooted fs1"
  unfolding rooted_get
proof (intro allI impI ballI)
  fix x q
  assume r: "\<forall>p. dget fs p \<noteq> None \<longrightarrow> (\<forall>q \<in> set (ancestors p). dget fs q = Some Directory)"
    and mk: "make_dirs (ancestors p) fs = Inr fs1" and x: "dget fs1 x \<noteq> None" and q: "q \<in> set (ancestors x)"
  show "dget fs1 q = Some Directory"
  proof (cases "dget fs x")
    case None
    with x make_dirs_get [OF mk, of x] have "x \<in> set (ancestors p)" by (auto split: if_splits)
    with q show ?thesis using make_dirs_all [OF mk] ancestors_trans by blast
  next
    case Some
    with r q have "dget fs q = Some Directory" by blast
    with make_dirs_get [OF mk, of q] show ?thesis by simp
  qed
qed

lemma rooted_put:
  assumes "rooted fs" and "\<And>q. q \<in> set (ancestors p) \<Longrightarrow> dget fs q = Some Directory" and "dget fs p \<noteq> Some Directory"
  shows "rooted (dset p (RegularFile b) fs)"
  unfolding rooted_get
proof (intro allI impI ballI)
  fix x q
  assume x: "dget (dset p (RegularFile b) fs) x \<noteq> None" and q: "q \<in> set (ancestors x)"
  have "dget fs q = Some Directory"
  proof (cases "x = p")
    case False
    with x have "dget fs x \<noteq> None" by simp
    with assms(1) q show ?thesis unfolding rooted_get by blast
  qed (use assms(2) q in simp)
  moreover from this have "q \<noteq> p" using assms(3) by auto
  ultimately show "dget (dset p (RegularFile b) fs) q = Some Directory" by simp
qed

lemma rooted_pop: "rooted fs \<Longrightarrow> dget fs p \<noteq> Some Directory \<Longrightarrow> rooted (dpop p fs)"
  unfolding rooted_get
proof (intro allI impI ballI)
  fix x q
  assume r: "\<forall>p. dget fs p \<noteq> None \<longrightarrow> (\<forall>q \<in> set (ancestors p). dget fs q = Some Directory)"
    and np: "dget fs p \<noteq> Some Directory" and x: "dget (dpop p fs) x \<noteq> None" and q: "q \<in> set (ancestors x)"
  from x have "dget fs x \<noteq> None" by (auto split: if_splits)
  with r q have "dget fs q = Some Directory" by blast
  with np show "dget (dpop p fs) q = Some Directory" by auto
qed

lemma file_op_step:
  assumes "run_file_op env x fs = (fs1, us)" and "op_encodes env x" and "rooted fs" and "op_path x \<noteq> []"
    and p: "op_path x \<in> ps" "prefix_free ps"
  shows "rooted fs1 \<and> (us = [] \<and> more_dirs ps fs fs1 \<or>
    (\<exists>u. us = [u] \<and> (\<forall>fs1'. more_dirs ps fs1 fs1' \<longrightarrow> (\<exists>fs'. undo_file u fs1' = (fs', Inr ()) \<and> more_dirs ps fs fs'))))"
proof (cases x)
  case (DeleteOp p)
  then obtain u flag where d: "unlink_file p fs = (fs1, u, flag)" and us: "us = [u]"
    using assms(1) by (auto split: prod.splits)
  have "rooted fs1" using d assms(3) by (auto simp: unlink_file_def rooted_pop split: option.splits fs_node.splits)
  with undo_delete [OF d] p assms(3,4) DeleteOp us show ?thesis by simp
next
  case (WriteOp p content enc)
  obtain r where w: "write_file env p content enc fs = (fs1, r)" 
    using assms(1) WriteOp by (auto split: prod.splits sum.splits)
  obtain b where enc: "pe_encode env content enc = Some b" using assms(2) WriteOp by auto
  show ?thesis
  proof (cases "make_dirs (ancestors p) fs")
    case (Inl e)
    with w have "fs1 = fs" "\<exists>e. r = Inl e" by (auto simp: write_file_def Let_def split: sum.splits if_splits)
    with assms(1,3) WriteOp w show ?thesis by (auto simp: more_dirs_refl)
  next
    case (Inr fsd)
    have rd: "rooted fsd" using rooted_make_dirs [OF assms(3) Inr] .
    have dirs: "dget fsd q = Some Directory" if "q \<in> set (ancestors p)" for q using make_dirs_all [OF Inr that] .
    show ?thesis
    proof (cases r)
      case (Inl e)
      have "fs1 = fs \<or> fs1 = fsd"
        using w Inl Inr enc by (auto simp: write_file_def write_text_def Let_def split: sum.splits if_splits option.splits)
      then have "rooted fs1" "more_dirs ps fs fs1"
        using rd assms(3) make_dirs_more [OF Inr] p WriteOp by (auto simp: more_dirs_refl)
      with assms(1) WriteOp w Inl show ?thesis by auto
    next
      case (Inr u)
      obtain fso where o: "open_for_writing fsd p = Inr fso" and fs1: "fs1 = dset p (RegularFile b) fso"
        using w Inr \<open>make_dirs (ancestors p) fs = Inr fsd\<close> enc
        by (auto simp: write_file_def write_text_def Let_def split: sum.splits if_splits option.splits)
      have "dget fsd p \<noteq> Some Directory" "fso = dset p (RegularFile []) fsd" using o by (auto simp: open_for_writing_def split: if_splits)
      then have "rooted fso" using rooted_put [OF rd dirs] by simp
      moreover have "dget fso q = Some Directory" if "q \<in> set (ancestors p)" for q
        using dirs [OF that] ancestors_prefix [OF that] by (auto simp: open_get [OF o])
      ultimately have "rooted fs1" unfolding fs1 using open_get [OF o, of p] by (intro rooted_put) auto
      moreover have "us = [u]" using assms(1) WriteOp w Inr by simp
      moreover have "\<exists>fs'. undo_file u fs1' = (fs', Inr ()) \<and> more_dirs ps fs fs'" if "more_dirs ps fs1 fs1'" for fs1'
        using undo_write [OF _ _ _ that] w Inr p WriteOp by simp
      ultimately show ?thesis by blast
    qed
  qed
qed

lemma rollback_files:
  assumes "run_file_ops env xs fs = (fs1, us)" and "list_all (op_encodes env) xs" and "rooted fs"
    and "[] \<notin> op_path ` set xs" and "op_path ` set xs \<subseteq> ps" and "prefix_free ps" and "more_dirs ps fs1 fs1'"
  shows "\<exists>fs'. rollback undo_file us fs1' = (fs', []) \<and> more_dirs ps fs fs'"
  using assms
proof (induction xs arbitrary: fs us)
  case Nil
  then show ?case by simp
next
  case (Cons x xs)
  obtain f1 u1 u2 where x: "run_file_op env x fs = (f1, u1)" and xs: "run_file_ops env xs f1 = (fs1, u2)" and us: "us = u1 @ u2"
    using Cons.prems(1) by (auto split: prod.splits)
  from file_op_step [OF x, of ps] Cons.prems have st: "rooted f1"
    "u1 = [] \<and> more_dirs ps fs f1 \<or>
     (\<exists>u. u1 = [u] \<and> (\<forall>fs1'. more_dirs ps f1 fs1' \<longrightarrow> (\<exists>fs'. undo_file u fs1' = (fs', Inr ()) \<and> more_dirs ps fs fs')))"
    by auto
  from Cons.IH [OF xs _ st(1)] Cons.prems obtain f1' where f1': "rollback undo_file u2 fs1' = (f1', [])" "more_dirs ps f1 f1'" by auto
  from st(2) show ?case
  proof
    assume "u1 = [] \<and> more_dirs ps fs f1"
    with f1' us show ?thesis by (auto intro: more_dirs_trans)
  next
    assume "\<exists>u. u1 = [u] \<and> (\<forall>fs1'. more_dirs ps f1 fs1' \<longrightarrow> (\<exists>fs'. undo_file u fs1' = (fs', Inr ()) \<and> more_dirs ps fs fs'))"
    with f1' us show ?thesis by (auto simp: rollback_Cons)
  qed
qed

text \<open>Two turns no rollback undoes: a text its encoding refuses, and a write below a deleted file.\<close>

definition ascii_env :: path_env where
  "ascii_env = \<lparr>pe_absolute = (\<lambda>_. False), pe_resolve = (\<lambda>s. [s]), pe_join = (\<lambda>r s. r @ [s]), pe_cwd = [], pe_text = join_with ''/'',
     pe_mtime = (\<lambda>_. 0), pe_encode = (\<lambda>s e. if list_all (\<lambda>c. (of_char c :: nat) < 128) s then Some s else None),
     pe_decode = (\<lambda>b e. Some b), pe_decode_lossy = id\<rparr>"

lemma failed_write_truncates:
  "run_file_ops ascii_env [WriteOp [''notes''] [CHR 0xE9] ''ascii''] [([''notes''], RegularFile ''text'')] =
     ([([''notes''], RegularFile [])], [])"
  by code_simp

lemma directory_in_the_way:
  "case run_file_ops ascii_env [DeleteOp [''a''], WriteOp [''a'', ''b''] ''x'' ''ascii''] [([''a''], RegularFile ''text'')] of
     (fs, us) \<Rightarrow> (case rollback undo_file us fs of (fs', es) \<Rightarrow> length es = 1 \<and> dget fs' [''a''] = Some Directory)"
  by code_simp

end
