(* ===== verification/Serialization.thy ===== *)
theory Serialization
  imports PyValue "HOL-Library.Sublist"
begin

text \<open>
  \<open>state_machine/serialization.py\<close>: how a conversation's messages and its state markers are stored
  as rows, how a provider history is read back from them, and how an interrupted sequence of tool
  calls is repaired. \<open>json.dumps\<close> (with \<open>default=str\<close>) and \<open>json.loads\<close> are the two fields of
  \<open>codec\<close>.
\<close>

section \<open>Rows and messages\<close>

record codec =
  dumps :: "pyval \<Rightarrow> string"
  loads :: "string \<Rightarrow> pyval option"

record db_row =
  rw_role :: string
  rw_content :: string
  rw_call_id :: pyval
  rw_tool_name :: pyval

text \<open>A message of the provider history; a key it lacks reads as \<open>None\<close>.\<close>

record hist_msg =
  hm_role :: string
  hm_content :: pyval
  hm_calls :: pyval
  hm_call_id :: pyval
  hm_tool_name :: pyval

definition state_marker :: string where "state_marker = ''__second_brain_state_machine__''"
definition compaction_marker :: string where "compaction_marker = ''__second_brain_compaction__''"

definition pack_state :: "codec \<Rightarrow> pyval \<Rightarrow> string" where
  "pack_state c st = dumps c (VDict [(state_marker, VBool True), (''state'', st)])"

definition pack_compaction :: "codec \<Rightarrow> string \<Rightarrow> int \<Rightarrow> rat \<Rightarrow> string" where
  "pack_compaction c summary tail_count now =
     dumps c (VDict [(compaction_marker, VBool True), (''summary'', VStr summary), (''tail_count'', VInt tail_count),
       (''created_at'', VFloat now)])"

definition unpack_dict :: "codec \<Rightarrow> string \<Rightarrow> string \<Rightarrow> (string \<times> pyval) list option" where
  "unpack_dict c marker content =
     (if \<not> sublist marker content then None
      else (case loads c content of
          Some (VDict d) \<Rightarrow> if truthy (opt_val (dget d marker)) then Some d else None
        | _ \<Rightarrow> None))"

definition unpack_state :: "codec \<Rightarrow> string \<Rightarrow> pyval" where
  "unpack_state c content = (case unpack_dict c state_marker content of
     None \<Rightarrow> VNone | Some d \<Rightarrow> opt_val (dget d ''state''))"

definition unpack_compaction :: "codec \<Rightarrow> string \<Rightarrow> (string \<times> pyval) list option" where
  "unpack_compaction c content = unpack_dict c compaction_marker content"

definition is_state_marker :: "codec \<Rightarrow> db_row \<Rightarrow> bool" where
  "is_state_marker c row \<longleftrightarrow> rw_role row = ''system'' \<and> unpack_state c (rw_content row) \<noteq> VNone"

definition is_compaction_marker :: "codec \<Rightarrow> db_row \<Rightarrow> bool" where
  "is_compaction_marker c row \<longleftrightarrow> rw_role row = ''system'' \<and> unpack_compaction c (rw_content row) \<noteq> None"

definition latest_state :: "codec \<Rightarrow> db_row list \<Rightarrow> pyval" where
  "latest_state c rows =
     (case find (\<lambda>row. unpack_state c (rw_content row) \<noteq> VNone) (rev rows) of
        None \<Rightarrow> VNone | Some row \<Rightarrow> unpack_state c (rw_content row))"

text \<open>The rows after the latest compaction, and its marker.\<close>

fun latest_compaction :: "codec \<Rightarrow> db_row list \<Rightarrow> (nat \<times> (string \<times> pyval) list) option" where
  "latest_compaction c [] = None"
| "latest_compaction c (row # rows) =
     (case latest_compaction c rows of
        Some (i, d) \<Rightarrow> Some (Suc i, d)
      | None \<Rightarrow> map_option (Pair 0) (unpack_compaction c (rw_content row)))"

text \<open>\<open>forms.history_tool_calls_from_content\<close>.\<close>

definition history_tool_calls :: "codec \<Rightarrow> string \<Rightarrow> (string \<times> pyval) list option" where
  "history_tool_calls c content = (case loads c content of
     Some (VDict d) \<Rightarrow> if dget d ''tool_calls'' \<noteq> None then Some d else None | _ \<Rightarrow> None)"


section \<open>Repairing a history\<close>

definition key_get :: "string \<Rightarrow> pyval \<Rightarrow> pyval pyres" where
  "key_get k v = (case v of VDict d \<Rightarrow> Inr (opt_val (dget d k)) | _ \<Rightarrow> attribute_error)"

definition hash_val :: "pyval \<Rightarrow> pyval pyres" where
  "hash_val v = (case v of
     VList _ \<Rightarrow> Inl (PyExn ''TypeError'' ''unhashable type'')
   | VDict _ \<Rightarrow> Inl (PyExn ''TypeError'' ''unhashable type'')
   | _ \<Rightarrow> Inr v)"

text \<open>\<open>for x in (v or [])\<close>.\<close>

definition py_iter :: "pyval \<Rightarrow> pyval list pyres" where
  "py_iter v =
     (if \<not> truthy v then Inr []
      else (case v of
          VList xs \<Rightarrow> Inr xs
        | VStr s \<Rightarrow> Inr (List.map (\<lambda>ch. VStr [ch]) s)
        | VDict d \<Rightarrow> Inr (List.map (\<lambda>(k, _). VStr k) d)
        | _ \<Rightarrow> Inl (PyExn ''TypeError'' ''object is not iterable'')))"

definition call_id :: "pyval \<Rightarrow> pyval pyres" where
  "call_id tc = rbind (key_get ''id'' tc) hash_val"

definition msg_call_ids :: "hist_msg \<Rightarrow> pyval list pyres" where
  "msg_call_ids m =
     (if hm_role m = ''assistant'' then rbind (py_iter (hm_calls m)) (rmap call_id) else Inr [])"

definition interrupted_text :: "codec \<Rightarrow> string" where
  "interrupted_text c = dumps c (VDict [(''error'', VStr ''Tool execution was interrupted before completion.'')])"

text \<open>The answer made up for a call that has none; the function's name is looked up in two places.\<close>

definition stub :: "codec \<Rightarrow> pyval \<Rightarrow> hist_msg pyres" where
  "stub c tc =
     rbind (key_get ''id'' tc) (\<lambda>i.
     rbind (case tc of VDict d \<Rightarrow> (case dget d ''function'' of None \<Rightarrow> Inr VNone | Some f \<Rightarrow> key_get ''name'' f)
              | _ \<Rightarrow> attribute_error) (\<lambda>fname.
     rbind (key_get ''name'' tc) (\<lambda>name.
       Inr \<lparr>hm_role = ''tool'', hm_content = VStr (interrupted_text c), hm_calls = VNone, hm_call_id = i,
            hm_tool_name = py_or fname name\<rparr>)))"

definition is_tool :: "hist_msg \<Rightarrow> bool" where
  "is_tool m \<longleftrightarrow> hm_role m = ''tool''"

text \<open>The stubs of the calls of a message that the ids in \<open>got\<close> leave unanswered.\<close>

fun stubs :: "codec \<Rightarrow> pyval list \<Rightarrow> pyval list \<Rightarrow> hist_msg list pyres" where
  "stubs c got [] = Inr []"
| "stubs c got (tc # tcs) =
     rbind (call_id tc) (\<lambda>i.
       if py_in i got then stubs c got tcs
       else rbind (stub c tc) (\<lambda>m. rbind (stubs c got tcs) (\<lambda>ms. Inr (m # ms))))"

lemma dropWhile_shorter [termination_simp]: "length (dropWhile p xs) < Suc (length xs)"
  by (simp add: length_dropWhile_le le_imp_less_Suc)

fun heal_loop :: "codec \<Rightarrow> hist_msg list \<Rightarrow> hist_msg list pyres" where
  "heal_loop c [] = Inr []"
| "heal_loop c (m # ms) =
     (if hm_role m \<noteq> ''assistant'' \<or> \<not> truthy (hm_calls m) then rbind (heal_loop c ms) (\<lambda>out. Inr (m # out))
      else
        (let tools = takeWhile is_tool ms in
         rbind (py_iter (hm_calls m)) (\<lambda>calls.
         rbind (stubs c (List.map hm_call_id tools) calls) (\<lambda>fill.
         rbind (heal_loop c (dropWhile is_tool ms)) (\<lambda>out.
           Inr (m # tools @ fill @ out))))))"

definition heal_orphans :: "codec \<Rightarrow> hist_msg list \<Rightarrow> hist_msg list pyres" where
  "heal_orphans c history =
     rbind (rmap msg_call_ids history) (\<lambda>ids.
       heal_loop c (filter (\<lambda>m. \<not> is_tool m \<or> py_in (hm_call_id m) (concat ids)) history))"


section \<open>Reading a history, saving a message\<close>

definition plain_msg :: "string \<Rightarrow> pyval \<Rightarrow> hist_msg" where
  "plain_msg role content = \<lparr>hm_role = role, hm_content = content, hm_calls = VNone, hm_call_id = VNone, hm_tool_name = VNone\<rparr>"

definition row_history :: "codec \<Rightarrow> db_row \<Rightarrow> hist_msg list" where
  "row_history c row =
     (let content = VStr (rw_content row) in
      if rw_role row = ''assistant'' then
        (case history_tool_calls c (rw_content row) of
           Some packed \<Rightarrow> [(plain_msg ''assistant'' (opt_val (dget packed ''content'')))\<lparr>hm_calls := opt_val (dget packed ''tool_calls'')\<rparr>]
         | None \<Rightarrow> [plain_msg ''assistant'' content])
      else if rw_role row = ''tool'' then
        [(plain_msg ''tool'' content)\<lparr>hm_call_id := rw_call_id row, hm_tool_name := rw_tool_name row\<rparr>]
      else if rw_role row = ''user'' then [plain_msg ''user'' content]
      else [])"

definition summary_history :: "(string \<times> pyval) list \<Rightarrow> hist_msg list pyres" where
  "summary_history marker =
     (case py_or (opt_val (dget marker ''summary'')) (VStr []) of
        VStr s \<Rightarrow>
          (let summary = strip s in
           Inr (if summary = [] then []
                else [plain_msg ''user'' (VStr (''[Conversation summary from earlier]'' @ [CHR 0x0A] @ summary)),
                      plain_msg ''assistant'' (VStr ''Understood - I have the earlier context.'')]))
      | _ \<Rightarrow> attribute_error)"

definition messages_to_history :: "codec \<Rightarrow> db_row list \<Rightarrow> hist_msg list pyres" where
  "messages_to_history c rows =
     (case latest_compaction c rows of
        Some (i, marker) \<Rightarrow>
          rbind (summary_history marker) (\<lambda>h. heal_orphans c (h @ concat (List.map (row_history c) (drop (i + 1) rows))))
      | None \<Rightarrow> heal_orphans c (concat (List.map (row_history c) rows)))"

text \<open>What \<open>save_history_message\<close>, \<open>save_state_marker\<close> and \<open>save_compaction_marker\<close> append.\<close>

datatype saved = SaveMessage hist_msg | SaveState pyval | SaveCompaction string int rat

text \<open>The content column takes a text; SQLite refuses a list or an object.\<close>

definition content_text :: "codec \<Rightarrow> hist_msg \<Rightarrow> string pyres" where
  "content_text c m =
     (if hm_role m = ''assistant'' \<and> truthy (hm_calls m)
      then Inr (dumps c (VDict [(''content'', hm_content m), (''tool_calls'', hm_calls m)]))
      else (case py_or (hm_content m) (VStr []) of
          VStr s \<Rightarrow> Inr s
        | _ \<Rightarrow> Inl (PyExn ''InterfaceError'' ''type is not supported'')))"

fun saved_row :: "codec \<Rightarrow> saved \<Rightarrow> db_row pyres" where
  "saved_row c (SaveMessage m) =
     rbind (content_text c m) (\<lambda>content.
       Inr \<lparr>rw_role = hm_role m, rw_content = content, rw_call_id = hm_call_id m, rw_tool_name = hm_tool_name m\<rparr>)"
| "saved_row c (SaveState st) =
     Inr \<lparr>rw_role = ''system'', rw_content = pack_state c st, rw_call_id = VNone, rw_tool_name = VNone\<rparr>"
| "saved_row c (SaveCompaction summary tail_count now) =
     Inr \<lparr>rw_role = ''system'', rw_content = pack_compaction c summary tail_count now, rw_call_id = VNone, rw_tool_name = VNone\<rparr>"


section \<open>A repaired history can be replayed\<close>

text \<open>The ids an assistant message asks answers for; those of a malformed message are none.\<close>

definition asked_ids :: "hist_msg \<Rightarrow> pyval list" where
  "asked_ids m = (case msg_call_ids m of Inr ids \<Rightarrow> ids | Inl _ \<Rightarrow> [])"

text \<open>Every message that calls tools is followed at once by answers to all its calls.\<close>

fun answered :: "hist_msg list \<Rightarrow> bool" where
  "answered [] = True"
| "answered (m # ms) \<longleftrightarrow>
     (\<forall>i \<in> set (asked_ids m). py_in i (List.map hm_call_id (takeWhile is_tool ms))) \<and> answered ms"

definition replayable :: "hist_msg list \<Rightarrow> bool" where
  "replayable h \<longleftrightarrow> answered h \<and>
     (\<forall>m \<in> set h. is_tool m \<longrightarrow> py_in (hm_call_id m) (concat (List.map asked_ids h)))"

lemma hash_val_refl: "hash_val v = Inr i \<Longrightarrow> i = v \<and> pyeq v v"
  by (cases v) (auto simp: hash_val_def)

lemma py_in_mono: "py_in x xs \<Longrightarrow> set xs \<subseteq> set ys \<Longrightarrow> py_in x ys"
  by (auto simp: py_in_def list_ex_iff)

lemma py_in_self: "x \<in> set xs \<Longrightarrow> pyeq x x \<Longrightarrow> py_in x xs"
  by (auto simp: py_in_def list_ex_iff)

lemma asked_not_assistant [simp]: "hm_role m \<noteq> ''assistant'' \<Longrightarrow> asked_ids m = []"
  by (simp add: asked_ids_def msg_call_ids_def)

lemma asked_tool [simp]: "is_tool m \<Longrightarrow> asked_ids m = []"
  by (simp add: is_tool_def)

lemma asked_no_calls [simp]: "\<not> truthy (hm_calls m) \<Longrightarrow> asked_ids m = []"
  by (simp add: asked_ids_def msg_call_ids_def py_iter_def)

lemma answered_tools: "list_all is_tool ts \<Longrightarrow> answered (ts @ h) = answered h"
  by (induction ts) auto

lemma rmap_append: "rmap f (xs @ ys) = rbind (rmap f xs) (\<lambda>a. rbind (rmap f ys) (\<lambda>b. Inr (a @ b)))"
proof (induction xs)
  case Nil
  then show ?case by (cases "rmap f ys") auto
next
  case (Cons x xs)
  then show ?case by (cases "f x"; cases "rmap f xs"; cases "rmap f ys") auto
qed

lemma rmap_ids: "rmap msg_call_ids h = Inr ids \<Longrightarrow> ids = List.map asked_ids h"
  by (induction h arbitrary: ids) (auto simp: rbind_Inr asked_ids_def)

text \<open>The stubs answer the calls that were left, each by its id.\<close>

lemma stub_id: "stub c tc = Inr m \<Longrightarrow> call_id tc = Inr i \<Longrightarrow> is_tool m \<and> hm_call_id m = i"
  by (auto simp: stub_def call_id_def rbind_Inr is_tool_def dest!: hash_val_refl split: pyval.splits option.splits)

lemma stubs_answer:
  assumes "stubs c got calls = Inr fill" and "rmap call_id calls = Inr ids"
  shows "list_all is_tool fill \<and> set (List.map hm_call_id fill) \<subseteq> set ids \<and>
    (\<forall>i \<in> set ids. py_in i got \<or> py_in i (List.map hm_call_id fill))"
  using assms
proof (induction calls arbitrary: fill ids)
  case (Cons tc tcs)
  from Cons.prems(2) obtain i js where i: "call_id tc = Inr i" "rmap call_id tcs = Inr js" and ids: "ids = i # js"
    by (auto simp: rbind_Inr)
  show ?case
  proof (cases "py_in i got")
    case True
    with Cons.prems(1) i Cons.IH [of fill js] show ?thesis by (auto simp: ids)
  next
    case False
    with Cons.prems(1) i obtain m ms where m: "stub c tc = Inr m" "stubs c got tcs = Inr ms" and fill: "fill = m # ms"
      by (auto simp: rbind_Inr)
    from stub_id [OF m(1) i(1)] have sm: "is_tool m" "hm_call_id m = i" by simp_all
    have "pyeq i i" using i(1) by (auto simp: call_id_def rbind_Inr dest!: hash_val_refl)
    then have "py_in i (List.map hm_call_id fill)" using sm fill by (auto intro!: py_in_self)
    moreover have "py_in j (List.map hm_call_id ms) \<Longrightarrow> py_in j (List.map hm_call_id fill)" for j
      by (erule py_in_mono) (auto simp: fill)
    ultimately show ?thesis using Cons.IH [OF m(2) i(2)] sm by (auto simp: ids fill)
  qed
qed simp

lemma takeWhile_tools: "list_all is_tool ts \<Longrightarrow> takeWhile is_tool (ts @ h) = ts @ takeWhile is_tool h"
  by (induction ts) auto

lemma heal_loop_correct:
  assumes "heal_loop c h = Inr out" and "rmap msg_call_ids h = Inr ids"
  shows "answered out \<and> filter (\<lambda>m. \<not> is_tool m) out = filter (\<lambda>m. \<not> is_tool m) h \<and>
    (\<forall>m \<in> set out. is_tool m \<longrightarrow> m \<in> set h \<or> py_in (hm_call_id m) (concat ids))"
  using assms
proof (induction c h arbitrary: out ids rule: heal_loop.induct)
  case (1 c)
  then show ?case by simp
next
  case (2 c m ms)
  from 2(4) obtain mi ids' where ids: "msg_call_ids m = Inr mi" "rmap msg_call_ids ms = Inr ids'" "ids = mi # ids'"
    by (auto simp: rbind_Inr)
  show ?case
  proof (cases "hm_role m \<noteq> ''assistant'' \<or> \<not> truthy (hm_calls m)")
    case True
    with 2(3) obtain o1 where o1: "heal_loop c ms = Inr o1" "out = m # o1" by (auto simp: rbind_Inr)
    from True have "asked_ids m = []" by auto
    moreover have "py_in x (concat ids') \<Longrightarrow> py_in x (concat ids)" for x by (erule py_in_mono) (auto simp: ids)
    ultimately show ?thesis using 2(1) [OF True o1(1) ids(2)] o1(2) by auto
  next
    case False
    let ?t = "takeWhile is_tool ms" and ?d = "dropWhile is_tool ms"
    from False 2(3) obtain calls fill o1 where c: "py_iter (hm_calls m) = Inr calls"
        "stubs c (List.map hm_call_id ?t) calls = Inr fill" "heal_loop c ?d = Inr o1" and out: "out = m # ?t @ fill @ o1"
      by (auto simp: rbind_Inr Let_def)
    have mi: "rmap call_id calls = Inr mi" using ids(1) c(1) False by (simp add: msg_call_ids_def)
    have "rbind (rmap msg_call_ids ?t) (\<lambda>a. rbind (rmap msg_call_ids ?d) (\<lambda>b. Inr (a @ b))) = Inr ids'"
      using ids(2) rmap_append [of msg_call_ids ?t ?d] by simp
    then obtain ti di where di: "rmap msg_call_ids ?t = Inr ti" "rmap msg_call_ids ?d = Inr di" "ids' = ti @ di"
      by (auto simp: rbind_Inr)
    note st = stubs_answer [OF c(2) mi]
    have tools: "list_all is_tool ?t" "list_all is_tool fill" using st by (auto simp: list_all_iff dest: set_takeWhileD)
    have ih: "answered o1 \<and> filter (\<lambda>m. \<not> is_tool m) o1 = filter (\<lambda>m. \<not> is_tool m) ?d \<and>
      (\<forall>x \<in> set o1. is_tool x \<longrightarrow> x \<in> set ?d \<or> py_in (hm_call_id x) (concat di))"
      using 2(2) [OF False refl c(3) di(2)] .
    have am: "asked_ids m = mi" by (simp add: asked_ids_def ids(1))
    have tw: "takeWhile is_tool (?t @ fill @ o1) = ?t @ fill @ takeWhile is_tool o1" using tools by (simp add: takeWhile_tools)
    have "py_in i (List.map hm_call_id (takeWhile is_tool (?t @ fill @ o1)))" if "i \<in> set mi" for i
    proof -
      have "py_in i (List.map hm_call_id ?t) \<or> py_in i (List.map hm_call_id fill)" using st that by blast
      then show ?thesis unfolding tw by (elim disjE; elim py_in_mono) auto
    qed
    then have "answered out" using ih tools by (simp add: out am answered_tools)
    moreover have "filter (\<lambda>m. \<not> is_tool m) out = filter (\<lambda>m. \<not> is_tool m) (m # ms)"
    proof -
      have f: "list_all is_tool ts \<Longrightarrow> filter (\<lambda>m. \<not> is_tool m) ts = []" for ts by (auto simp: list_all_iff filter_empty_conv)
      have "filter (\<lambda>m. \<not> is_tool m) ms = filter (\<lambda>m. \<not> is_tool m) ?t @ filter (\<lambda>m. \<not> is_tool m) ?d"
        by (metis filter_append takeWhile_dropWhile_id)
      with ih f [OF tools(1)] f [OF tools(2)] show ?thesis by (simp add: out)
    qed
    moreover have "x \<in> set (m # ms) \<or> py_in (hm_call_id x) (concat ids)" if x: "x \<in> set out" "is_tool x" for x
    proof -
      consider "x = m" | "x \<in> set ?t" | "x \<in> set fill" | "x \<in> set o1" using x(1) by (auto simp: out)
      then show ?thesis
      proof cases
        case 3
        then have "hm_call_id x \<in> set mi" using st by auto
        moreover have "pyeq (hm_call_id x) (hm_call_id x)" if "hm_call_id x \<in> set mi"
          using rmap_Inr_set [OF mi that] by (auto simp: call_id_def rbind_Inr dest!: hash_val_refl)
        ultimately show ?thesis by (intro disjI2 py_in_self) (auto simp: ids(3))
      next
        case 4
        with ih x(2) have "x \<in> set ?d \<or> py_in (hm_call_id x) (concat di)" by blast
        then show ?thesis
        proof
          assume "py_in (hm_call_id x) (concat di)"
          then have "py_in (hm_call_id x) (concat ids)" by (rule py_in_mono) (auto simp: ids(3) di(3))
          then show ?thesis ..
        qed (auto dest: set_dropWhileD)
      qed (auto dest: set_takeWhileD)
    qed
    ultimately show ?thesis by blast
  qed
qed


lemma asked_concat: "concat (List.map asked_ids (filter (\<lambda>m. \<not> is_tool m) h)) = concat (List.map asked_ids h)"
  by (induction h) auto

lemma rmap_filter: "rmap f xs = Inr ys \<Longrightarrow> \<exists>zs. rmap f (filter p xs) = Inr zs"
  by (induction xs arbitrary: ys) (auto simp: rbind_Inr)

lemma heal_orphans_replayable:
  assumes "heal_orphans c h = Inr out"
  shows "replayable out \<and> filter (\<lambda>m. \<not> is_tool m) out = filter (\<lambda>m. \<not> is_tool m) h"
proof -
  obtain ids where ids: "rmap msg_call_ids h = Inr ids"
    and l: "heal_loop c (filter (\<lambda>m. \<not> is_tool m \<or> py_in (hm_call_id m) (concat ids)) h) = Inr out"
    using assms by (auto simp: heal_orphans_def rbind_Inr)
  let ?k = "filter (\<lambda>m. \<not> is_tool m \<or> py_in (hm_call_id m) (concat ids)) h"
  obtain kids where kids: "rmap msg_call_ids ?k = Inr kids" using rmap_filter [OF ids] by blast
  note ch = heal_loop_correct [OF l kids]
  have nt: "filter (\<lambda>m. \<not> is_tool m) ?k = filter (\<lambda>m. \<not> is_tool m) h" by (auto intro: filter_cong)
  have "concat (List.map asked_ids ?k) = concat (List.map asked_ids h)"
    using asked_concat [of ?k] asked_concat [of h] unfolding nt by (rule trans [OF sym])
  then have k: "concat kids = concat ids" by (simp only: rmap_ids [OF ids] rmap_ids [OF kids])
  moreover have "concat (List.map asked_ids out) = concat ids"
    using ch nt asked_concat [of out] asked_concat [of h] rmap_ids [OF ids] by simp
  ultimately show ?thesis using ch nt by (auto simp: replayable_def)
qed

lemma heal_loop_intact:
  assumes "answered h" and "rmap msg_call_ids h = Inr ids"
  shows "heal_loop c h = Inr h"
  using assms
proof (induction c h arbitrary: ids rule: heal_loop.induct)
  case (2 c m ms)
  from 2(4) obtain mi ids' where ids: "msg_call_ids m = Inr mi" "rmap msg_call_ids ms = Inr ids'"
    by (auto simp: rbind_Inr)
  show ?case
  proof (cases "hm_role m \<noteq> ''assistant'' \<or> \<not> truthy (hm_calls m)")
    case True
    with 2(1) [OF True] 2(3) ids show ?thesis by simp
  next
    case False
    let ?t = "takeWhile is_tool ms" and ?d = "dropWhile is_tool ms"
    obtain calls where c: "py_iter (hm_calls m) = Inr calls" "rmap call_id calls = Inr mi"
      using ids(1) False by (auto simp: msg_call_ids_def rbind_Inr)
    have got: "\<forall>i \<in> set mi. py_in i (List.map hm_call_id ?t)" using 2(3) ids(1) by (simp add: asked_ids_def)
    have st: "stubs c got' xs = Inr []" if "rmap call_id xs = Inr js" "\<forall>i \<in> set js. py_in i got'" for xs js got'
      using that by (induction xs arbitrary: js) (auto simp: rbind_Inr)
    have "answered (?t @ ?d)" using 2(3) by simp
    then have "answered ?d" using answered_tools [of ?t ?d] by (auto simp: list_all_iff dest: set_takeWhileD)
    moreover obtain di where "rmap msg_call_ids ?d = Inr di"
      using rmap_append [of msg_call_ids ?t ?d] ids(2) by (cases "rmap msg_call_ids ?t"; cases "rmap msg_call_ids ?d") auto
    ultimately have "heal_loop c ?d = Inr ?d" using 2(2) [OF False refl] by blast
    with False c st [OF c(2) got] show ?thesis by (simp add: Let_def)
  qed
qed simp

lemma heal_orphans_intact:
  assumes "replayable h" and "rmap msg_call_ids h = Inr ids"
  shows "heal_orphans c h = Inr h"
proof -
  have "filter (\<lambda>m. \<not> is_tool m \<or> py_in (hm_call_id m) (concat ids)) h = h"
    using assms rmap_ids [OF assms(2)] by (auto simp: replayable_def intro!: filter_True)
  with heal_loop_intact [of h ids c] assms show ?thesis by (simp add: heal_orphans_def replayable_def)
qed

lemma messages_replayable: "messages_to_history c rows = Inr h \<Longrightarrow> replayable h"
  using heal_orphans_replayable by (fastforce simp: messages_to_history_def rbind_Inr split: option.splits prod.splits)

text \<open>An answer that is not next to its call stays where it is, and the call is answered twice.\<close>

lemma misplaced_answer_duplicated:
  "let call = (plain_msg ''assistant'' VNone)\<lparr>hm_calls := VList [VDict [(''id'', VStr ''c1''), (''name'', VStr ''read'')]]\<rparr>;
       answer = (plain_msg ''tool'' (VStr ''done''))\<lparr>hm_call_id := VStr ''c1'', hm_tool_name := VStr ''read''\<rparr> in
   case heal_orphans c [call, plain_msg ''user'' (VStr ''hi''), answer] of
     Inr out \<Rightarrow> length out = 4 \<and> List.map hm_call_id (filter is_tool out) = [VStr ''c1'', VStr ''c1'']
   | Inl _ \<Rightarrow> False"
  by (simp add: heal_orphans_def msg_call_ids_def plain_msg_def py_iter_def call_id_def key_get_def hash_val_def is_tool_def
      py_in_def stub_def py_or_def Let_def)


section \<open>A saved history reads back\<close>

definition state_dict :: "pyval \<Rightarrow> (string \<times> pyval) list" where
  "state_dict st = [(state_marker, VBool True), (''state'', st)]"

definition packed_calls :: "hist_msg \<Rightarrow> (string \<times> pyval) list" where
  "packed_calls m = [(''content'', hm_content m), (''tool_calls'', hm_calls m)]"

text \<open>
  A message that reads back as it was: its text is not itself a marker or a packed call, and the
  codec reads the packed dictionary it writes.
\<close>

definition storable_msg :: "codec \<Rightarrow> hist_msg \<Rightarrow> bool" where
  "storable_msg c m \<longleftrightarrow>
     (if truthy (hm_calls m) then
        hm_role m = ''assistant'' \<and> hm_call_id m = VNone \<and> hm_tool_name m = VNone \<and>
        loads c (dumps c (VDict (packed_calls m))) = Some (VDict (packed_calls m))
      else
        hm_calls m = VNone \<and> hm_role m \<in> {''user'', ''assistant'', ''tool''} \<and>
        (case hm_content m of
           VStr s \<Rightarrow> unpack_state c s = VNone \<and> unpack_compaction c s = None \<and>
             (hm_role m = ''assistant'' \<longrightarrow> history_tool_calls c s = None)
         | _ \<Rightarrow> False) \<and>
        (hm_role m = ''tool'' \<or> hm_call_id m = VNone \<and> hm_tool_name m = VNone))"

fun storable :: "codec \<Rightarrow> saved \<Rightarrow> bool" where
  "storable c (SaveMessage m) = storable_msg c m"
| "storable c (SaveState st) =
     (st \<noteq> VNone \<and> loads c (pack_state c st) = Some (VDict (state_dict st)) \<and> sublist state_marker (pack_state c st))"
| "storable c (SaveCompaction _ _ _) = False"

fun saved_messages :: "saved list \<Rightarrow> hist_msg list" where
  "saved_messages [] = []"
| "saved_messages (SaveMessage m # es) = m # saved_messages es"
| "saved_messages (_ # es) = saved_messages es"

fun saved_state :: "pyval \<Rightarrow> saved list \<Rightarrow> pyval" where
  "saved_state st [] = st"
| "saved_state st (SaveState st' # es) = saved_state st' es"
| "saved_state st (_ # es) = saved_state st es"

lemma marker_keys [simp]:
  "dget (packed_calls m) state_marker = None" "dget (packed_calls m) compaction_marker = None"
  "dget (state_dict st) compaction_marker = None" "dget (state_dict st) state_marker = Some (VBool True)"
  "dget (state_dict st) ''state'' = Some st" "dget (packed_calls m) ''tool_calls'' = Some (hm_calls m)"
  "dget (packed_calls m) ''content'' = Some (hm_content m)"
  by (simp_all add: packed_calls_def state_dict_def state_marker_def compaction_marker_def)

lemma stored_message:
  assumes "storable_msg c m"
  obtains row where "saved_row c (SaveMessage m) = Inr row" "row_history c row = [m]"
    "unpack_state c (rw_content row) = VNone" "unpack_compaction c (rw_content row) = None"
proof (cases "truthy (hm_calls m)")
  case True
  with assms that show ?thesis
    by (simp add: storable_msg_def content_text_def packed_calls_def [symmetric] row_history_def history_tool_calls_def
        unpack_state_def unpack_compaction_def unpack_dict_def plain_msg_def)
next
  case False
  with assms obtain s where s: "hm_content m = VStr s" by (auto simp: storable_msg_def split: pyval.splits)
  with False have "content_text c m = Inr s" by (simp add: content_text_def py_or_def)
  with assms that s False show ?thesis
    by (auto simp: storable_msg_def row_history_def plain_msg_def Let_def)
qed

lemma stored_state:
  assumes "storable c (SaveState st)"
  obtains row where "saved_row c (SaveState st) = Inr row" "row_history c row = []"
    "unpack_state c (rw_content row) = st" "unpack_compaction c (rw_content row) = None"
  using assms that by (simp add: row_history_def unpack_state_def unpack_compaction_def unpack_dict_def)

lemma latest_state_Cons:
  "latest_state c (row # rows) =
     (if latest_state c rows = VNone then unpack_state c (rw_content row) else latest_state c rows)"
proof -
  let ?p = "\<lambda>row. unpack_state c (rw_content row) \<noteq> VNone"
  have "find ?p (xs @ [row]) = (case find ?p xs of None \<Rightarrow> if ?p row then Some row else None | Some r \<Rightarrow> Some r)" for xs
    by (induction xs) auto
  then show ?thesis
    by (cases "find ?p (rev rows)") (auto simp: latest_state_def dest: find_SomeD)
qed

lemma stored_rows:
  assumes "list_all (storable c) es"
  shows "\<exists>rows. rmap (saved_row c) es = Inr rows \<and> concat (List.map (row_history c) rows) = saved_messages es \<and>
    latest_compaction c rows = None \<and>
    (\<forall>st. saved_state st es = (if latest_state c rows = VNone then st else latest_state c rows))"
  using assms
proof (induction es)
  case Nil
  show ?case by (simp add: latest_state_def)
next
  case (Cons e es)
  then obtain rows where ih: "rmap (saved_row c) es = Inr rows" "concat (List.map (row_history c) rows) = saved_messages es"
    "latest_compaction c rows = None" "\<forall>st. saved_state st es = (if latest_state c rows = VNone then st else latest_state c rows)"
    by auto
  show ?case
  proof (cases e)
    case (SaveMessage m)
    with Cons.prems obtain row where "saved_row c (SaveMessage m) = Inr row" "row_history c row = [m]"
        "unpack_state c (rw_content row) = VNone" "unpack_compaction c (rw_content row) = None"
      using stored_message [of c m] by auto
    with ih SaveMessage show ?thesis
      by (intro exI [of _ "row # rows"] conjI) (simp_all add: latest_state_Cons del: saved_row.simps)
  next
    case (SaveState st)
    with Cons.prems have "storable c (SaveState st)" by simp
    then obtain row where "saved_row c (SaveState st) = Inr row" "row_history c row = []"
        "unpack_state c (rw_content row) = st" "unpack_compaction c (rw_content row) = None"
      by (rule stored_state)
    moreover have "st \<noteq> VNone" using SaveState Cons.prems by simp
    ultimately show ?thesis using ih SaveState
      by (intro exI [of _ "row # rows"] conjI) (simp_all add: latest_state_Cons del: saved_row.simps)
  next
    case SaveCompaction
    with Cons.prems show ?thesis by simp
  qed
qed

lemma latest_compaction_append:
  assumes "latest_compaction c rows = None" and "unpack_compaction c (rw_content row) = Some d"
  shows "latest_compaction c (before @ row # rows) = Some (length before, d)"
  by (induction before) (simp_all add: assms)


text \<open>No role is asked of the row: the text of a user or of a tool is taken for a checkpoint as well.\<close>

lemma any_row_compacts:
  assumes "unpack_compaction c (rw_content row) = Some d" and "latest_compaction c rows = None"
  shows "messages_to_history c (before @ row # rows) =
    rbind (summary_history d) (\<lambda>h. heal_orphans c (h @ concat (List.map (row_history c) rows)))"
  by (simp add: messages_to_history_def latest_compaction_append [OF assms(2,1)])

end
