(* ===== verification/Effects.thy ===== *)
theory Effects
  imports Vocabulary FileEffects Serialization Database
begin

text \<open>
  \<open>effects/interpreter.py\<close>: one request at a time is checked against the declarations and the
  principal, graded, gated, fulfilled, journalled and recorded. What a request reaches outside the
  files and the output tables (sockets, models, processes, the registries) is a field of the
  context, as it is in the code.
\<close>

section \<open>Argument checks\<close>

definition as_str :: "pyval \<Rightarrow> string pyres" where
  "as_str v = (case v of VStr s \<Rightarrow> Inr s | _ \<Rightarrow> Inl (PyExn ''TypeError'' ''expected str''))"

definition param_dict :: "pyval \<Rightarrow> (string \<times> pyval) list pyres" where
  "param_dict v = (case py_or v (VDict []) of VDict d \<Rightarrow> Inr d | _ \<Rightarrow> Inl (PyExn ''TypeError'' ''cannot convert to a dict''))"

definition ident_start :: "char \<Rightarrow> bool" where
  "ident_start c \<longleftrightarrow> (let n = (of_char c :: nat) in 65 \<le> n \<and> n \<le> 90 \<or> 97 \<le> n \<and> n \<le> 122 \<or> n = 95)"

definition ident_char :: "char \<Rightarrow> bool" where
  "ident_char c \<longleftrightarrow> ident_start c \<or> (let n = (of_char c :: nat) in 48 \<le> n \<and> n \<le> 57)"

text \<open>\<open>re.findall("[A-Za-z_][A-Za-z0-9_]*", sql)\<close>.\<close>

function identifiers :: "string \<Rightarrow> string list" where
  "identifiers [] = []"
| "identifiers (c # cs) =
     (if ident_start c then (c # takeWhile ident_char cs) # identifiers (dropWhile ident_char cs) else identifiers cs)"
  by pat_completeness auto

termination by (relation "measure length") (auto simp: length_dropWhile_le le_imp_less_Suc)

definition check_sql_tables :: "string list \<Rightarrow> string \<Rightarrow> unit pyres" where
  "check_sql_tables banned sql =
     (case find (\<lambda>w. lower w \<in> set banned) (if banned = [] then [] else identifiers sql) of
        Some w \<Rightarrow> permission_error (''table '' @ w @ '' is not readable from a sandboxed request'')
      | None \<Rightarrow> Inr ())"

definition valid_table :: "string \<Rightarrow> bool" where
  "valid_table t \<longleftrightarrow> t \<noteq> [] \<and> ident_start (hd t) \<and> list_all ident_char (tl t)"

text \<open>Leading comments are cut, one at a time, before the first keyword is read.\<close>

fun after_pair :: "char \<Rightarrow> char \<Rightarrow> string \<Rightarrow> string option" where
  "after_pair a b (x # y # cs) = (if x = a \<and> y = b then Some cs else after_pair a b (y # cs))"
| "after_pair a b _ = None"

fun after_newline :: "string \<Rightarrow> string option" where
  "after_newline [] = None"
| "after_newline (c # cs) = (if c = CHR 0x0A then Some cs else after_newline cs)"

fun cut_comment :: "string \<Rightarrow> string option" where
  "cut_comment (x # y # cs) =
     (if x = CHR ''-'' \<and> y = CHR ''-'' then after_newline cs
      else if x = CHR ''/'' \<and> y = CHR ''*'' then after_pair (CHR ''*'') (CHR ''/'') cs
      else None)"
| "cut_comment _ = None"

fun cut_comments :: "nat \<Rightarrow> string \<Rightarrow> string" where
  "cut_comments 0 s = s"
| "cut_comments (Suc n) s = (case cut_comment s of None \<Rightarrow> s | Some t \<Rightarrow> cut_comments n (strip t))"

definition is_read_only_sql :: "string \<Rightarrow> bool" where
  "is_read_only_sql sql =
     (let s = cut_comments (length sql) (strip sql) in
      lower (takeWhile (\<lambda>c. \<not> is_space c) s) \<in> {''select'', ''pragma'', ''explain'', ''with''})"

text \<open>\<open>_check_egress_url\<close> on what \<open>urlsplit\<close> makes of the text.\<close>

record url_parts =
  up_scheme :: string
  up_user :: string
  up_password :: string
  up_host :: string

definition check_egress_url :: "(string \<Rightarrow> url_parts option) \<Rightarrow> string \<Rightarrow> string pyres" where
  "check_egress_url urlsplit raw =
     (case urlsplit (strip raw) of
        None \<Rightarrow> permission_error ''malformed url''
      | Some p \<Rightarrow>
          (let host = strip (up_host p) in
           if lower (up_scheme p) \<notin> {''http'', ''https''} then permission_error ''url scheme is not permitted''
           else if up_user p \<noteq> [] \<or> up_password p \<noteq> [] then permission_error ''credentials embedded in a url are not permitted''
           else if host = [] then permission_error ''url has no host''
           else if prefix ''169.254.'' (lower host) \<or> lower host = ''metadata.google.internal''
           then permission_error ''link-local/metadata host is not permitted''
           else Inr raw))"


section \<open>The world and the context\<close>

text \<open>
  An output table: the columns of its key and its rows with their \<open>rowid\<close>. \<open>INSERT OR REPLACE\<close>
  takes the next \<open>rowid\<close> and then deletes the rows that have the same key.
\<close>

record sql_table =
  st_key :: "string list"
  st_rows :: "(nat \<times> (string \<times> pyval) list) list"

record 'o effect_world =
  ew_files :: filesystem
  ew_tables :: "(string \<times> sql_table) list"
  ew_rest :: 'o

definition max_rowid :: "sql_table \<Rightarrow> nat" where
  "max_rowid t = fold max (List.map fst (st_rows t)) 0"

definition same_key :: "string list \<Rightarrow> (string \<times> pyval) list \<Rightarrow> (string \<times> pyval) list \<Rightarrow> bool" where
  "same_key key a b \<longleftrightarrow> key \<noteq> [] \<and> list_all (\<lambda>c. dget a c \<noteq> None \<and> dget a c = dget b c) key"

definition insert_or_replace :: "(string \<times> pyval) list \<Rightarrow> sql_table \<Rightarrow> sql_table" where
  "insert_or_replace row t =
     t\<lparr>st_rows := filter (\<lambda>(_, r). \<not> same_key (st_key t) r row) (st_rows t) @ [(Suc (max_rowid t), row)]\<rparr>"

fun insert_rows :: "string list \<Rightarrow> (string \<times> pyval) list list \<Rightarrow> sql_table \<Rightarrow> sql_table \<times> unit pyres" where
  "insert_rows cols [] t = (t, Inr ())"
| "insert_rows cols (r # rs) t =
     (if length r \<noteq> length cols then (t, Inl (PyExn ''ProgrammingError'' ''incorrect number of bindings supplied''))
      else insert_rows cols rs (insert_or_replace (zip cols (List.map snd r)) t))"

definition delete_above :: "nat \<Rightarrow> sql_table \<Rightarrow> sql_table" where
  "delete_above n t = t\<lparr>st_rows := filter (\<lambda>(i, _). i \<le> n) (st_rows t)\<rparr>"

text \<open>One reversible step: a file's, an insert's, or the one a surface hands over.\<close>

datatype 'o undo_step =
    FileStep file_undo
  | InsertStep string nat
  | SurfaceStep "'o effect_world \<Rightarrow> 'o effect_world \<times> unit pyres"

definition no_such_table :: "'a pyres" where
  "no_such_table = Inl (PyExn ''OperationalError'' ''no such table'')"

fun apply_undo :: "'o undo_step \<Rightarrow> 'o effect_world \<Rightarrow> 'o effect_world \<times> unit pyres" where
  "apply_undo (FileStep u) w = (case undo_file u (ew_files w) of (fs, r) \<Rightarrow> (w\<lparr>ew_files := fs\<rparr>, r))"
| "apply_undo (InsertStep t n) w = (case dget (ew_tables w) t of
     None \<Rightarrow> (w, no_such_table)
   | Some tb \<Rightarrow> (w\<lparr>ew_tables := dset t (delete_above n tb) (ew_tables w)\<rparr>, Inr ()))"
| "apply_undo (SurfaceStep f) w = f w"

record ledger_entry =
  le_type :: string
  le_ok :: bool
  le_error :: string
  le_denied :: bool
  le_tier :: tier

record 'o effect_state =
  es_world :: "'o effect_world"
  es_journal :: "'o undo_step list"
  es_taint :: "string list"
  es_audit :: "request list"
  es_ledger :: "ledger_entry list"

datatype process_end = Finished int string string rat | TimedOut | SpawnError string

type_synonym 'o served = "'o effect_world \<Rightarrow> 'o effect_world \<times> pyval pyres"

text \<open>\<open>EffectContext\<close>: a surface that is not wired is \<open>None\<close>.\<close>

record 'o effect_context =
  ec_env :: path_env
  ec_has_db :: bool
  ec_query :: "string \<Rightarrow> pyval \<Rightarrow> 'o effect_world \<Rightarrow> pyval pyres"
  ec_schema :: "string \<Rightarrow> (string \<times> sql_table) list \<Rightarrow> (string \<times> sql_table) list pyres"
  ec_execute :: "string \<Rightarrow> 'o served"
  ec_read_roots :: "path list option"
  ec_write_roots :: "path list option"
  ec_free_roots :: "path list option"
  ec_paths :: "(string \<times> pyval) list"
  ec_conversation :: pyval
  ec_user :: pyval
  ec_denied_sql :: "string list"
  ec_provider :: "(string \<Rightarrow> pyval \<Rightarrow> pyval pyres) option"
  ec_inventory :: "(string \<Rightarrow> pyval pyres) option"
  ec_conversations :: "(request \<Rightarrow> pyval pyres) option"
  ec_ask :: "(pyval \<Rightarrow> pyval \<Rightarrow> pyval \<Rightarrow> pyval pyres) option"
  ec_schedule :: "(request \<Rightarrow> 'o effect_world \<Rightarrow> 'o effect_world \<times> (pyval \<times> ('o effect_world \<Rightarrow> 'o effect_world \<times> unit pyres)) pyres) option"
  ec_call_tool :: "(string \<Rightarrow> (string \<times> pyval) list \<Rightarrow> 'o served) option"
  ec_session :: "(pyval \<Rightarrow> (string \<times> pyval) list \<Rightarrow> 'o served) option"
  ec_administer :: "(request \<Rightarrow> 'o served) option"
  ec_reload :: "(string \<Rightarrow> pyval \<Rightarrow> 'o served) option"
  ec_urlsplit :: "string \<Rightarrow> url_parts option"
  ec_http :: "request \<Rightarrow> 'o served"
  ec_llm :: "((string \<times> string) list \<Rightarrow> 'o effect_world \<Rightarrow> 'o effect_world \<times> (bool \<times> pyval) pyres) option"
  ec_embed :: "(pyval list \<Rightarrow> 'o effect_world \<Rightarrow> 'o effect_world \<times> (pyval \<times> pyval) pyres) option"
  ec_process :: "string list \<Rightarrow> path option \<Rightarrow> rat \<Rightarrow> 'o effect_world \<Rightarrow> 'o effect_world \<times> process_end"
  ec_dumps :: "pyval \<Rightarrow> string"
  ec_float :: "string \<Rightarrow> rat option"
  ec_str :: "pyval \<Rightarrow> string"
  ec_tools :: "(string \<times> tool_ref) list"
  ec_assignments :: "string \<Rightarrow> (string \<times> literal) list option"
  ec_path_trusted :: "string \<Rightarrow> bool"
  ec_call_chain :: "string list"
  ec_principal :: string
  ec_plugin_trusted :: bool
  ec_gate :: "request \<Rightarrow> string list \<Rightarrow> bool \<times> string"

record effect_result =
  er_ok :: bool
  er_value :: pyval
  er_error :: string
  er_denied :: bool
  er_tier :: tier

definition served_value :: "tier \<Rightarrow> pyval \<Rightarrow> effect_result" where
  "served_value t v = \<lparr>er_ok = True, er_value = v, er_error = [], er_denied = False, er_tier = t\<rparr>"

definition failed_effect :: "tier \<Rightarrow> string \<Rightarrow> effect_result" where
  "failed_effect t msg = \<lparr>er_ok = False, er_value = VNone, er_error = msg, er_denied = False, er_tier = t\<rparr>"

definition denied_effect :: "tier \<Rightarrow> string \<Rightarrow> effect_result" where
  "denied_effect t msg = (failed_effect t msg)\<lparr>er_denied := True\<rparr>"

definition result_to_wire :: "effect_result \<Rightarrow> (string \<times> pyval) list" where
  "result_to_wire r =
     [(''ok'', VBool (er_ok r)), (''value'', er_value r), (''error'', VStr (er_error r)), (''denied'', VBool (er_denied r)),
      (''tier'', VStr (case er_tier r of TIER_READ \<Rightarrow> ''read'' | TIER_WRITE \<Rightarrow> ''write'' | TIER_EGRESS \<Rightarrow> ''egress''))]"


section \<open>Who is asking, and what a request weighs\<close>

definition check_principal :: "'o effect_context \<Rightarrow> request \<Rightarrow> effect_result option" where
  "check_principal ctx r =
     (if rq_type r = CallTool \<and> rq_field r ''name'' \<in> VStr ` set (ec_call_chain ctx)
      then Some (denied_effect (rq_tier r) ''refusing recursive call'')
      else if rq_tag r \<notin> set admin_requests then None
      else if admin_disposition (ec_principal ctx) (ec_plugin_trusted ctx) = REFUSE
      then Some (denied_effect (rq_tier r)
        (rq_tag r @ '' refused: an untrusted plugin may not administer the kernel from an agent turn''))
      else None)"

definition admin_without_prompt :: "'o effect_context \<Rightarrow> request \<Rightarrow> bool" where
  "admin_without_prompt ctx r \<longleftrightarrow> rq_tag r \<in> set admin_requests \<and>
     admin_disposition (ec_principal ctx) (ec_plugin_trusted ctx) = ALLOW"

definition effective_tier :: "'o effect_context \<Rightarrow> request \<Rightarrow> tier pyres" where
  "effective_tier ctx r =
     (if rq_type r = CallTool then
        rbind (as_str (rq_field r ''name'')) (\<lambda>nm. Inr (tool_danger_tier nm (ec_tools ctx) []))
      else if rq_type r = ReloadPlugin then
        rbind (as_str (rq_field r ''path'')) (\<lambda>p. Inr (plugin_danger_tier (ec_assignments ctx p) (ec_path_trusted ctx p)))
      else Inr (rq_tier r))"

definition needs_gate :: "'o effect_context \<Rightarrow> request \<Rightarrow> bool pyres" where
  "needs_gate ctx r =
     (if admin_without_prompt ctx r then Inr False
      else rbind (effective_tier ctx r) (\<lambda>t. Inr (t = TIER_EGRESS)))"

definition tainting :: "request_type \<Rightarrow> bool" where
  "tainting t \<longleftrightarrow> t \<in> {ReadFile, ReadFiles, QueryDb, ListDir, Stat}"

definition taint_label :: "'o effect_context \<Rightarrow> request \<Rightarrow> string" where
  "taint_label ctx r =
     (let joined = (case rq_field r ''paths'' of
            VList ps \<Rightarrow> join_with '', '' (List.map (ec_str ctx) (take 3 ps)) | _ \<Rightarrow> []);
          label = py_or (rq_field r ''path'') (py_or (rq_field r ''root'') (py_or (rq_field r ''sql'')
            (if joined \<noteq> [] then VStr joined else VStr (rq_tag r))))
      in take 120 (ec_str ctx label))"

definition note_taint :: "'o effect_context \<Rightarrow> request \<Rightarrow> effect_result \<Rightarrow> string list \<Rightarrow> string list" where
  "note_taint ctx r res taint =
     (if \<not> er_ok res \<or> \<not> tainting (rq_type r) \<or> taint_label ctx r \<in> set taint then taint
      else taint @ [taint_label ctx r])"


section \<open>Reads\<close>

definition inventory_views :: "string list" where
  "inventory_views = [''commands'', ''tools'', ''tasks'', ''services'', ''frontends'', ''session_state'', ''packages'',
     ''pipeline'', ''settings'', ''llm_backends'', ''scheduled_jobs'', ''quarantined_plugins'']"

definition from_error_dict :: "pyval \<Rightarrow> effect_result" where
  "from_error_dict v = (case v of
     VDict d \<Rightarrow> (case dget d ''error'' of
         Some (VStr e) \<Rightarrow> (failed_effect TIER_READ e)\<lparr>er_value := v\<rparr>
       | _ \<Rightarrow> served_value TIER_READ v)
   | _ \<Rightarrow> served_value TIER_READ v)"

definition or_empty :: "pyval \<Rightarrow> string pyres" where
  "or_empty v = (case py_or v (VStr []) of VStr s \<Rightarrow> Inr s | _ \<Rightarrow> attribute_error)"

definition read_context :: "'o effect_context \<Rightarrow> request \<Rightarrow> effect_result pyres" where
  "read_context ctx r =
     (let view = rq_field r ''view''; ok = (\<lambda>v. Inr (served_value TIER_READ v)) in
      if view = VStr ''conversation_id'' then ok (ec_conversation ctx)
      else if view = VStr ''user_id'' then ok (ec_user ctx)
      else if view = VStr ''paths'' then ok (VDict (ec_paths ctx))
      else rbind (as_str view) (\<lambda>v.
        if v \<in> set inventory_views then
          (case ec_inventory ctx of
             None \<Rightarrow> Inr (failed_effect TIER_READ (''no inventory provider for view '' @ v))
           | Some f \<Rightarrow> rbind (f v) ok)
        else (case ec_provider ctx of
            None \<Rightarrow> ok (VStr [])
          | Some f \<Rightarrow> rbind (f v (rq_field r ''k'')) ok)))"

definition fulfil_read :: "'o effect_context \<Rightarrow> request \<Rightarrow> 'o effect_world \<Rightarrow> effect_result pyres" where
  "fulfil_read ctx r w =
     (let ok = (\<lambda>v. Inr (served_value TIER_READ v)); env = ec_env ctx; fs = ew_files w in
      case rq_type r of
        ReadFile \<Rightarrow>
          rbind (as_str (rq_field r ''path'')) (\<lambda>raw.
          rbind (check_path env (ec_read_roots ctx) raw) (\<lambda>p.
          rbind (as_str (rq_field r ''encoding'')) (\<lambda>enc.
          rbind (read_text env fs p enc) (\<lambda>t. ok (VStr t)))))
      | QueryDb \<Rightarrow>
          if \<not> ec_has_db ctx then Inr (failed_effect TIER_READ ''no database available'')
          else rbind (as_str (rq_field r ''sql'')) (\<lambda>sql.
            rbind (check_sql_tables (ec_denied_sql ctx) sql) (\<lambda>_.
            rbind (ec_query ctx sql (rq_field r ''max_rows'') w) ok))
      | ListDir \<Rightarrow> rbind (or_empty (rq_field r ''root'')) (\<lambda>raw.
          Inr (from_error_dict (list_dir env (ec_read_roots ctx) fs raw (truthy (rq_field r ''recursive'')))))
      | ReadFiles \<Rightarrow> rbind (read_files env (ec_read_roots ctx) fs (rq_field r ''paths'') (rq_field r ''max_bytes_per_file'')) ok
      | Stat \<Rightarrow> rbind (or_empty (rq_field r ''path'')) (\<lambda>raw.
          Inr (from_error_dict (stat_path env (ec_read_roots ctx) fs raw)))
      | ReadContext \<Rightarrow> read_context ctx r
      | ReadConversations \<Rightarrow>
          (case ec_conversations ctx of
             None \<Rightarrow> Inr (failed_effect TIER_READ ''no conversation store is available'')
           | Some f \<Rightarrow> rbind (f r) ok)
      | AskUser \<Rightarrow>
          (case ec_ask ctx of
             None \<Rightarrow> Inr (failed_effect TIER_READ ''no attended session is available to answer a question'')
           | Some f \<Rightarrow> rbind (f (py_or (rq_field r ''title'') (VStr ''Question'')) (rq_field r ''prompt'')
                 (py_or (rq_field r ''choices'') (VList []))) (\<lambda>answer.
               if answer = VNone then Inr (denied_effect TIER_READ ''the user did not answer'')
               else ok (VStr (ec_str ctx answer))))
      | Respond \<Rightarrow>
          rbind (as_str (rq_field r ''error'')) (\<lambda>e.
            Inr ((served_value TIER_READ (VDict (to_wire r)))\<lparr>er_ok := truthy (rq_field r ''success''), er_error := e\<rparr>))
      | _ \<Rightarrow> Inr (failed_effect TIER_READ (''unhandled read request '' @ rq_tag r)))"


section \<open>Writes\<close>

definition gate_write :: "'o effect_context \<Rightarrow> request \<Rightarrow> string list \<Rightarrow> path \<Rightarrow> effect_result option" where
  "gate_write ctx r taint p =
     (case ec_free_roots ctx of
        None \<Rightarrow> None
      | Some free \<Rightarrow>
          if under_roots free p then None
          else (case ec_gate ctx r taint of (allowed, reason) \<Rightarrow>
            if allowed then None
            else Some (denied_effect TIER_WRITE (if reason = [] then ''write denied by user'' else reason))))"

text \<open>A handler's change of the state, and its result or the exception it raised.\<close>

type_synonym 'o handled = "'o effect_state \<times> effect_result pyres"

definition journalled :: "'o effect_context \<Rightarrow> request \<Rightarrow> 'o undo_step \<Rightarrow> 'o effect_state \<Rightarrow> 'o effect_state" where
  "journalled ctx r u st =
     st\<lparr>es_journal := es_journal st @ [u], es_audit := (if ec_has_db ctx then es_audit st @ [r] else es_audit st)\<rparr>"

text \<open>The path of a file write: confined, and approved unless it lies in a free root.\<close>

definition write_target :: "'o effect_context \<Rightarrow> request \<Rightarrow> string list \<Rightarrow> (effect_result + path) pyres" where
  "write_target ctx r taint =
     rbind (as_str (rq_field r ''path'')) (\<lambda>raw.
     rbind (check_path (ec_env ctx) (ec_write_roots ctx) raw) (\<lambda>p.
       Inr (case gate_write ctx r taint p of Some res \<Rightarrow> Inl res | None \<Rightarrow> Inr p)))"

definition fulfil_write_file :: "'o effect_context \<Rightarrow> request \<Rightarrow> 'o effect_state \<Rightarrow> 'o handled" where
  "fulfil_write_file ctx r st =
     (case write_target ctx r (es_taint st) of
        Inl e \<Rightarrow> (st, Inl e)
      | Inr (Inl res) \<Rightarrow> (st, Inr res)
      | Inr (Inr p) \<Rightarrow>
          (case rbind (as_str (rq_field r ''content'')) (\<lambda>c. rbind (as_str (rq_field r ''encoding'')) (\<lambda>enc. Inr (c, enc))) of
             Inl e \<Rightarrow> (st, Inl e)
           | Inr (content, enc) \<Rightarrow>
               (case write_file (ec_env ctx) p content enc (ew_files (es_world st)) of (fs, res) \<Rightarrow>
                  (let st1 = st\<lparr>es_world := (es_world st)\<lparr>ew_files := fs\<rparr>\<rparr> in
                   case res of
                     Inl e \<Rightarrow> (st1, Inl e)
                   | Inr u \<Rightarrow> (journalled ctx r (FileStep u) st1,
                       Inr (served_value TIER_WRITE (VDict [(''path'', VStr (pe_text (ec_env ctx) p)),
                         (''bytes'', VInt (int (length content)))])))))))"

definition fulfil_delete_file :: "'o effect_context \<Rightarrow> request \<Rightarrow> 'o effect_state \<Rightarrow> 'o handled" where
  "fulfil_delete_file ctx r st =
     (case write_target ctx r (es_taint st) of
        Inl e \<Rightarrow> (st, Inl e)
      | Inr (Inl res) \<Rightarrow> (st, Inr res)
      | Inr (Inr p) \<Rightarrow>
          (case unlink_file p (ew_files (es_world st)) of (fs, u, existed) \<Rightarrow>
             (journalled ctx r (FileStep u) (st\<lparr>es_world := (es_world st)\<lparr>ew_files := fs\<rparr>\<rparr>),
              Inr (served_value TIER_WRITE (VDict [(''path'', VStr (pe_text (ec_env ctx) p)), (''existed'', VBool existed)])))))"

definition row_dict :: "pyval \<Rightarrow> (string \<times> pyval) list pyres" where
  "row_dict v = (case v of VDict d \<Rightarrow> Inr d | _ \<Rightarrow> attribute_error)"

text \<open>\<open>Database.write_outputs\<close>: nothing for no rows; the columns are those of the first row.\<close>

definition write_outputs :: "string \<Rightarrow> (string \<times> pyval) list list \<Rightarrow> (string \<times> sql_table) list \<Rightarrow>
    (string \<times> sql_table) list \<times> unit pyres" where
  "write_outputs table rows tables =
     (case rows of
        [] \<Rightarrow> (tables, Inr ())
      | row # _ \<Rightarrow>
          (case dget tables table of
             None \<Rightarrow> (tables, no_such_table)
           | Some t \<Rightarrow> (case insert_rows (dkeys row) rows t of (t1, res) \<Rightarrow> (dset table t1 tables, res))))"

definition fulfil_write_db :: "'o effect_context \<Rightarrow> request \<Rightarrow> 'o effect_state \<Rightarrow> 'o handled" where
  "fulfil_write_db ctx r st =
     (if \<not> ec_has_db ctx then (st, Inr (failed_effect TIER_WRITE ''no database available''))
      else
        (case rbind (as_str (rq_field r ''table'')) (\<lambda>table. rbind (as_str (rq_field r ''schema_sql'')) (\<lambda>sql. Inr (table, sql))) of
           Inl e \<Rightarrow> (st, Inl e)
         | Inr (table, sql) \<Rightarrow>
             if \<not> valid_table table then (st, Inr (failed_effect TIER_WRITE (''invalid table name '' @ table)))
             else
               (case rbind (check_sql_tables (ec_denied_sql ctx) table) (\<lambda>_.
                   rbind (check_sql_tables (ec_denied_sql ctx) sql) (\<lambda>_.
                     ensure_output_table table sql (ec_schema ctx) (ew_tables (es_world st)))) of
                  Inl e \<Rightarrow> (st, Inl e)
                | Inr tables \<Rightarrow>
                    (let st1 = st\<lparr>es_world := (es_world st)\<lparr>ew_tables := tables\<rparr>\<rparr> in
                     case rbind (py_seq (rq_field r ''rows'')) (rmap row_dict) of
                       Inl e \<Rightarrow> (st1, Inl e)
                     | Inr rows \<Rightarrow>
                         (case dget tables table of
                            None \<Rightarrow> (st1, no_such_table)
                          | Some t \<Rightarrow>
                              (case write_outputs table rows tables of (tables2, res) \<Rightarrow>
                                 (let st2 = st1\<lparr>es_world := (es_world st1)\<lparr>ew_tables := tables2\<rparr>\<rparr> in
                                  case res of
                                    Inl e \<Rightarrow> (st2, Inl e)
                                  | Inr _ \<Rightarrow> (journalled ctx r (InsertStep table (max_rowid t)) st2,
                                      Inr (served_value TIER_WRITE (VDict [(''table'', VStr table),
                                        (''inserted'', VInt (int (length rows)))]))))))))))"

definition fulfil_write :: "'o effect_context \<Rightarrow> request \<Rightarrow> 'o effect_state \<Rightarrow> 'o handled" where
  "fulfil_write ctx r st =
     (case rq_type r of
        WriteFile \<Rightarrow> fulfil_write_file ctx r st
      | WriteDb \<Rightarrow> fulfil_write_db ctx r st
      | DeleteFile \<Rightarrow> fulfil_delete_file ctx r st
      | ScheduleOp \<Rightarrow>
          (case ec_schedule ctx of
             None \<Rightarrow> (st, Inr (failed_effect TIER_WRITE ''no scheduled-job store is available''))
           | Some f \<Rightarrow>
               (case f r (es_world st) of (w, res) \<Rightarrow>
                  (let st1 = st\<lparr>es_world := w\<rparr> in
                   case res of
                     Inl e \<Rightarrow> (st1, Inl e)
                   | Inr (v, undo) \<Rightarrow> (journalled ctx r (SurfaceStep undo) st1, Inr (served_value TIER_WRITE v)))))
      | _ \<Rightarrow> (st, Inr (failed_effect TIER_WRITE (''unhandled write request '' @ rq_tag r))))"


section \<open>Egress\<close>

text \<open>A surface acts on the world; its value or exception becomes the handler's.\<close>

definition serve :: "'o served \<Rightarrow> 'o effect_state \<Rightarrow> 'o handled" where
  "serve f st = (case f (es_world st) of (w, res) \<Rightarrow>
     (st\<lparr>es_world := w\<rparr>, rbind res (\<lambda>v. Inr (served_value TIER_EGRESS v))))"

definition or_fail :: "'o effect_state \<Rightarrow> 'a pyres \<Rightarrow> ('a \<Rightarrow> 'o handled) \<Rightarrow> 'o handled" where
  "or_fail st x f = (case x of Inl e \<Rightarrow> (st, Inl e) | Inr a \<Rightarrow> f a)"

definition place_call_tool :: "'o effect_context \<Rightarrow> request \<Rightarrow> 'o effect_state \<Rightarrow> 'o handled" where
  "place_call_tool ctx r st =
     (case ec_call_tool ctx of
        None \<Rightarrow> (st, Inr (failed_effect TIER_EGRESS ''no tool registry is available''))
      | Some f \<Rightarrow> or_fail st (param_dict (rq_field r ''params'')) (\<lambda>d.
          or_fail st (as_str (rq_field r ''name'')) (\<lambda>nm. serve (f nm d) st)))"

definition place_session_action :: "'o effect_context \<Rightarrow> request \<Rightarrow> 'o effect_state \<Rightarrow> 'o handled" where
  "place_session_action ctx r st =
     (case ec_session ctx of
        None \<Rightarrow> (st, Inr (failed_effect TIER_EGRESS ''no active session to act on''))
      | Some f \<Rightarrow> or_fail st (param_dict (rq_field r ''payload'')) (\<lambda>d. serve (f (rq_field r ''action'') d) st))"

definition place_admin :: "'o effect_context \<Rightarrow> request \<Rightarrow> 'o effect_state \<Rightarrow> 'o handled" where
  "place_admin ctx r st =
     (case ec_administer ctx of
        None \<Rightarrow> (st, Inr (failed_effect TIER_EGRESS (rq_tag r @ '': no administration surface is available'')))
      | Some f \<Rightarrow> serve (f r) st)"

definition place_http :: "'o effect_context \<Rightarrow> request \<Rightarrow> 'o effect_state \<Rightarrow> 'o handled" where
  "place_http ctx r st =
     or_fail st (or_empty (rq_field r ''url'')) (\<lambda>url.
     or_fail st (check_egress_url (ec_urlsplit ctx) url) (\<lambda>_. serve (ec_http ctx r) st))"

definition complete_prompt :: "'o effect_context \<Rightarrow> request \<Rightarrow> string \<Rightarrow> string" where
  "complete_prompt ctx r prompt =
     (if truthy (rq_field r ''schema'')
      then prompt @ [CHR 0x0A, CHR 0x0A] @ ''Reply with ONLY a JSON object conforming to this schema:'' @ [CHR 0x0A] @
        ec_dumps ctx (rq_field r ''schema'')
      else prompt)"

definition place_complete :: "'o effect_context \<Rightarrow> request \<Rightarrow> 'o effect_state \<Rightarrow> 'o handled" where
  "place_complete ctx r st =
     (case ec_llm ctx of
        None \<Rightarrow> (st, Inr (failed_effect TIER_EGRESS ''no llm service available''))
      | Some f \<Rightarrow>
          or_fail st (as_str (rq_field r ''prompt'')) (\<lambda>prompt.
          or_fail st (or_empty (rq_field r ''system'')) (\<lambda>system.
            (case f ((if system = [] then [] else [(''system'', system)]) @ [(''user'', complete_prompt ctx r prompt)])
                (es_world st) of (w, res) \<Rightarrow>
               (st\<lparr>es_world := w\<rparr>, rbind res (\<lambda>(is_error, v).
                  Inr (if is_error then failed_effect TIER_EGRESS (ec_str ctx v) else served_value TIER_EGRESS v)))))))"

definition place_embed :: "'o effect_context \<Rightarrow> request \<Rightarrow> 'o effect_state \<Rightarrow> 'o handled" where
  "place_embed ctx r st =
     (case ec_embed ctx of
        None \<Rightarrow> (st, Inr (failed_effect TIER_EGRESS ''no embedder available''))
      | Some f \<Rightarrow>
          or_fail st (py_seq (rq_field r ''inputs'')) (\<lambda>inputs.
            (case f inputs (es_world st) of (w, res) \<Rightarrow>
               (st\<lparr>es_world := w\<rparr>, rbind res (\<lambda>(vectors, model).
                  Inr (served_value TIER_EGRESS (VDict [(''vectors'', vectors), (''model'', py_or model (rq_field r ''model''))])))))))"

definition place_exec_sql :: "'o effect_context \<Rightarrow> request \<Rightarrow> 'o effect_state \<Rightarrow> 'o handled" where
  "place_exec_sql ctx r st =
     (if \<not> ec_has_db ctx then (st, Inr (failed_effect TIER_EGRESS ''no database available''))
      else or_fail st (or_empty (rq_field r ''sql'')) (\<lambda>sql.
        if is_read_only_sql sql
        then (st, Inr (failed_effect TIER_EGRESS ''ExecSql is for mutations; use QueryDb for SELECT/PRAGMA/EXPLAIN''))
        else or_fail st (check_sql_tables (ec_denied_sql ctx) sql) (\<lambda>_.
          (case ec_execute ctx sql (es_world st) of (w, res) \<Rightarrow>
             (st\<lparr>es_world := w\<rparr>, rbind res (\<lambda>n. Inr (served_value TIER_EGRESS (VDict [(''rowcount'', n)]))))))))"

definition place_reload :: "'o effect_context \<Rightarrow> request \<Rightarrow> 'o effect_state \<Rightarrow> 'o handled" where
  "place_reload ctx r st =
     (case ec_reload ctx of
        None \<Rightarrow> (st, Inr (failed_effect TIER_EGRESS ''no plugin loader is available''))
      | Some f \<Rightarrow>
          or_fail st (as_str (rq_field r ''path'')) (\<lambda>raw.
            (case check_path (ec_env ctx) (ec_read_roots ctx) raw of
               Inl e \<Rightarrow> (st, Inr (failed_effect TIER_EGRESS (exn_message e)))
             | Inr p \<Rightarrow> serve (f (pe_text (ec_env ctx) p) (rq_field r ''action'')) st)))"

definition max_egress_bytes :: nat where "max_egress_bytes = 200000"

definition process_dict :: "int \<Rightarrow> string \<Rightarrow> string \<Rightarrow> rat \<Rightarrow> pyval" where
  "process_dict code out err duration =
     VDict [(''exit_code'', VInt code), (''stdout'', VStr (take max_egress_bytes out)), (''stderr'', VStr (take max_egress_bytes err)),
       (''truncated'', VBool (length out > max_egress_bytes \<or> length err > max_egress_bytes)), (''duration'', VFloat duration)]"

fun string_list :: "pyval list \<Rightarrow> string list option" where
  "string_list [] = Some []"
| "string_list (VStr s # vs) = map_option ((#) s) (string_list vs)"
| "string_list (_ # vs) = None"

text \<open>The directory a process starts in: confined when named, else the first read root.\<close>

definition process_cwd :: "'o effect_context \<Rightarrow> request \<Rightarrow> path option pyres" where
  "process_cwd ctx r =
     (if truthy (rq_field r ''cwd'') then
        rbind (as_str (rq_field r ''cwd'')) (\<lambda>raw.
        rbind (check_path (ec_env ctx) (ec_read_roots ctx) raw) (\<lambda>p. Inr (Some p)))
      else Inr (case ec_read_roots ctx of Some (p # _) \<Rightarrow> Some p | _ \<Rightarrow> None))"

text \<open>\<open>max(1.0, float(timeout))\<close>: a text that is no number is caught with the spawn errors, another value is not.\<close>

definition process_timeout :: "'o effect_context \<Rightarrow> pyval \<Rightarrow> rat option pyres" where
  "process_timeout ctx v =
     (case num_of v of
        Some t \<Rightarrow> Inr (Some (max 1 t))
      | None \<Rightarrow> (case v of
          VStr s \<Rightarrow> Inr (map_option (max 1) (ec_float ctx s))
        | _ \<Rightarrow> Inl (PyExn ''TypeError'' ''float() argument must be a string or a real number'')))"

definition place_process :: "'o effect_context \<Rightarrow> request \<Rightarrow> 'o effect_state \<Rightarrow> 'o handled" where
  "place_process ctx r st =
     or_fail st (py_iter (rq_field r ''argv'')) (\<lambda>args.
       (case string_list args of
          None \<Rightarrow> (st, Inr (failed_effect TIER_EGRESS ''argv must be a non-empty list of strings''))
        | Some [] \<Rightarrow> (st, Inr (failed_effect TIER_EGRESS ''argv must be a non-empty list of strings''))
        | Some argv \<Rightarrow>
            (case process_cwd ctx r of
               Inl e \<Rightarrow> (st, if exn_type e = ''PermissionError'' then Inr (failed_effect TIER_EGRESS (exn_message e)) else Inl e)
             | Inr cwd \<Rightarrow>
                 (case process_timeout ctx (rq_field r ''timeout'') of
                    Inl e \<Rightarrow> (st, Inl e)
                  | Inr None \<Rightarrow> (st, Inr (failed_effect TIER_EGRESS ''could not run process: could not convert string to float''))
                  | Inr (Some timeout) \<Rightarrow>
                      (case ec_process ctx argv cwd timeout (es_world st) of (w, outcome) \<Rightarrow>
                         (st\<lparr>es_world := w\<rparr>, Inr (case outcome of
                            Finished code out err d \<Rightarrow> served_value TIER_EGRESS (process_dict code out err d)
                          | TimedOut \<Rightarrow> failed_effect TIER_EGRESS ''process timed out''
                          | SpawnError e \<Rightarrow> failed_effect TIER_EGRESS (''could not run process: '' @ e))))))))"


definition place :: "'o effect_context \<Rightarrow> request \<Rightarrow> 'o effect_state \<Rightarrow> 'o handled" where
  "place ctx r st =
     (case rq_type r of
        CallTool \<Rightarrow> place_call_tool ctx r st
      | SessionAction \<Rightarrow> place_session_action ctx r st
      | WriteConfig \<Rightarrow> place_admin ctx r st
      | ReadConfig \<Rightarrow> place_admin ctx r st
      | ServiceControl \<Rightarrow> place_admin ctx r st
      | PackageOp \<Rightarrow> place_admin ctx r st
      | ConversationOp \<Rightarrow> place_admin ctx r st
      | TaskControl \<Rightarrow> place_admin ctx r st
      | HttpRequest \<Rightarrow> place_http ctx r st
      | Complete \<Rightarrow> place_complete ctx r st
      | Embed \<Rightarrow> place_embed ctx r st
      | ExecSql \<Rightarrow> place_exec_sql ctx r st
      | ReloadPlugin \<Rightarrow> place_reload ctx r st
      | RunProcess \<Rightarrow> place_process ctx r st
      | _ \<Rightarrow> (st, Inr (failed_effect TIER_EGRESS (''unhandled egress request '' @ rq_tag r))))"

definition fulfil_egress :: "'o effect_context \<Rightarrow> request \<Rightarrow> 'o effect_state \<Rightarrow> 'o handled" where
  "fulfil_egress ctx r st =
     or_fail st (needs_gate ctx r) (\<lambda>needed.
       (case (if needed then ec_gate ctx r (es_taint st) else (True, [])) of
          (True, _) \<Rightarrow> place ctx r st
        | (False, reason) \<Rightarrow> (st, Inr (denied_effect TIER_EGRESS (if reason = [] then ''egress denied'' else reason)))))"


section \<open>One request\<close>

definition record_ledger :: "'o effect_context \<Rightarrow> request \<Rightarrow> effect_result \<Rightarrow> 'o effect_state \<Rightarrow> 'o effect_state" where
  "record_ledger ctx r res st =
     (if ec_has_db ctx then st\<lparr>es_ledger := es_ledger st @ [\<lparr>le_type = rq_tag r, le_ok = er_ok res, le_error = er_error res,
          le_denied = er_denied res, le_tier = rq_tier r\<rparr>]\<rparr>
      else st)"

definition handle_request :: "'o effect_context \<Rightarrow> request \<Rightarrow> 'o effect_state \<Rightarrow> 'o handled" where
  "handle_request ctx r st =
     (case rq_tier r of
        TIER_READ \<Rightarrow> (st, fulfil_read ctx r (es_world st))
      | TIER_WRITE \<Rightarrow> fulfil_write ctx r st
      | TIER_EGRESS \<Rightarrow> fulfil_egress ctx r st)"

definition fulfil :: "'o effect_context \<Rightarrow> string list \<Rightarrow> request \<Rightarrow> 'o effect_state \<Rightarrow> 'o effect_state \<times> effect_result pyres" where
  "fulfil ctx declared r st =
     (case validate_declared r declared of
        Inl e \<Rightarrow> (st, Inl e)
      | Inr _ \<Rightarrow>
          (case check_principal ctx r of
             Some refusal \<Rightarrow> (record_ledger ctx r refusal st, Inr refusal)
           | None \<Rightarrow>
               (case handle_request ctx r st of (st1, outcome) \<Rightarrow>
                  (let res = (case outcome of Inr res \<Rightarrow> res | Inl e \<Rightarrow> failed_effect (rq_tier r) (exn_message e));
                       st2 = st1\<lparr>es_taint := note_taint ctx r res (es_taint st1)\<rparr>
                   in (record_ledger ctx r res st2, Inr res)))))"

text \<open>A body's requests, one after another, each reply going back before the next.\<close>

fun fulfil_all :: "'o effect_context \<Rightarrow> string list \<Rightarrow> request list \<Rightarrow> 'o effect_state \<Rightarrow> 'o effect_state" where
  "fulfil_all ctx declared [] st = st"
| "fulfil_all ctx declared (r # rs) st = fulfil_all ctx declared rs (fst (fulfil ctx declared r st))"


section \<open>The contract's gate and context\<close>

definition describe_taint :: "string list \<Rightarrow> string" where
  "describe_taint taint =
     (if taint = [] then []
      else ''has already read: '' @ join_with '', '' (take 3 taint) @
        (if length taint > 3 then '' (+'' @ show_nat (length taint - 3) @ '' more)'' else []))"

definition egress_target :: "request \<Rightarrow> string" where
  "egress_target r =
     (let txt = (\<lambda>v. case v of VStr s \<Rightarrow> s | _ \<Rightarrow> []) in
      case rq_type r of
        HttpRequest \<Rightarrow> strip (txt (rq_field r ''method'') @ '' '' @ txt (rq_field r ''url''))
      | ExecSql \<Rightarrow> txt (rq_field r ''sql'')
      | RunProcess \<Rightarrow> join_with '' '' (case rq_field r ''argv'' of VList vs \<Rightarrow> List.map txt vs | _ \<Rightarrow> [])
      | WriteFile \<Rightarrow> ''write '' @ txt (rq_field r ''path'')
      | DeleteFile \<Rightarrow> ''delete '' @ txt (rq_field r ''path'')
      | _ \<Rightarrow> rq_tag r)"

text \<open>\<open>approve_command\<close> of the live context: target and label in, the answer and the reason of a refusal out.\<close>

definition egress_gate :: "bool \<Rightarrow> string \<Rightarrow> (string \<Rightarrow> string \<Rightarrow> bool \<times> string) option \<Rightarrow> request \<Rightarrow> string list \<Rightarrow> bool \<times> string" where
  "egress_gate gate_model_calls nm approve r taint =
     (if rq_type r \<in> {Complete, Embed} \<and> \<not> (gate_model_calls \<and> taint \<noteq> []) then (True, [])
      else (case approve of
          None \<Rightarrow> (False, ''no approval surface available for egress'')
        | Some f \<Rightarrow>
            (let note = describe_taint taint;
                 label = [CHR 0x27] @ nm @ [CHR 0x27] @ '' '' @ rq_tag r @ (if note = [] then [] else '' - '' @ note)
             in (case f (egress_target r) label of
                   (True, _) \<Rightarrow> (True, [])
                 | (False, reason) \<Rightarrow> (False, if reason = [] then ''egress denied by user'' else reason)))))"

definition default_egress_gate :: "request \<Rightarrow> string list \<Rightarrow> bool \<times> string" where
  "default_egress_gate r taint =
     (if rq_type r \<in> {Complete, Embed} then (True, [])
      else (False, ''this egress is denied by default; no approval gate is wired''))"

text \<open>The chain of running plugins a context carries on, and the conversation text a view yields.\<close>

definition call_chain :: "string list \<Rightarrow> string \<Rightarrow> string list" where
  "call_chain inherited nm = (if nm = [] then inherited else inherited @ [nm])"

definition last_slice :: "int \<Rightarrow> 'a list \<Rightarrow> 'a list" where
  "last_slice k xs = (if k > 0 then drop (length xs - nat k) xs else drop (nat (- k)) xs)"

definition context_provider :: "(pyval \<Rightarrow> string) \<Rightarrow> int \<Rightarrow> pyval list \<Rightarrow> string \<Rightarrow> pyval \<Rightarrow> pyval pyres" where
  "context_provider dump view_k history view k =
     (if view = ''params_only'' then Inr (VStr [])
      else if view = ''last_k'' then
        rbind (case py_or k (VInt view_k) of
            VInt n \<Rightarrow> Inr n | VBool b \<Rightarrow> Inr (if b then 1 else 0)
          | _ \<Rightarrow> Inl (PyExn ''TypeError'' ''slice indices must be integers'')) (\<lambda>n.
          Inr (VStr (dump (VList (last_slice n history)))))
      else Inr (VStr (dump (VList history))))"



section \<open>What a request can change\<close>

lemma handle_read: "rq_tier r = TIER_READ \<Longrightarrow> fst (handle_request ctx r st) = st"
  by (simp add: handle_request_def)

lemma record_ledger_keeps [simp]:
  "es_world (record_ledger ctx r res st) = es_world st" "es_journal (record_ledger ctx r res st) = es_journal st"
  "es_taint (record_ledger ctx r res st) = es_taint st"
  by (simp_all add: record_ledger_def)

text \<open>A request that reaches a handler is declared and has passed the principal's check.\<close>

lemma fulfil_cases:
  assumes "fulfil ctx declared r st = (st', out)"
  obtains (stopped) "es_world st' = es_world st" "es_journal st' = es_journal st" "es_taint st' = es_taint st"
  | (handled) st1 outcome where "handle_request ctx r st = (st1, outcome)" "validate_declared r declared = Inr ()"
      "check_principal ctx r = None" "es_world st' = es_world st1" "es_journal st' = es_journal st1"
      "\<exists>res. out = Inr res \<and> es_taint st' = note_taint ctx r res (es_taint st1) \<and>
         res = (case outcome of Inr x \<Rightarrow> x | Inl e \<Rightarrow> failed_effect (rq_tier r) (exn_message e))"
proof (cases "validate_declared r declared")
  case (Inl e)
  with assms stopped show ?thesis by (simp add: fulfil_def)
next
  case (Inr u)
  show ?thesis
  proof (cases "check_principal ctx r")
    case (Some refusal)
    with assms Inr stopped show ?thesis by (auto simp: fulfil_def)
  next
    case None
    obtain st1 outcome where h: "handle_request ctx r st = (st1, outcome)" by (cases "handle_request ctx r st")
    with assms Inr None handled [OF h] show ?thesis by (auto simp: fulfil_def Let_def)
  qed
qed

definition gate_allows :: "'o effect_context \<Rightarrow> request \<Rightarrow> string list \<Rightarrow> bool" where
  "gate_allows ctx r taint \<longleftrightarrow> fst (ec_gate ctx r taint) \<or> admin_without_prompt ctx r \<or>
     (\<exists>t. effective_tier ctx r = Inr t \<and> t < TIER_EGRESS)"

lemma egress_needs_gate:
  assumes "fst (fulfil_egress ctx r st) \<noteq> st"
  shows "gate_allows ctx r (es_taint st)"
proof (cases "needs_gate ctx r")
  case (Inl e)
  with assms show ?thesis by (simp add: fulfil_egress_def or_fail_def)
next
  case (Inr needed)
  show ?thesis
  proof (cases needed)
    case True
    obtain b reason where "ec_gate ctx r (es_taint st) = (b, reason)" by (cases "ec_gate ctx r (es_taint st)")
    with assms Inr True show ?thesis by (cases b) (auto simp: fulfil_egress_def or_fail_def gate_allows_def)
  next
    case False
    with Inr show ?thesis
      by (auto simp: needs_gate_def gate_allows_def rbind_Inr less_tier_def split: if_splits)
        (metis nat_neq_iff tier.exhaust tier_rank.simps zero_less_numeral one_less_numeral_iff semiring_norm(76))
  qed
qed

lemma effects_gated:
  assumes "fulfil ctx declared r st = (st', out)" and "es_world st' \<noteq> es_world st"
  shows "rq_tag r \<in> set declared \<and> rq_tier r \<noteq> TIER_READ \<and>
    (rq_tag r \<in> set admin_requests \<longrightarrow> ec_principal ctx = principal_user \<or> ec_plugin_trusted ctx) \<and>
    (rq_tier r = TIER_EGRESS \<longrightarrow> gate_allows ctx r (es_taint st))"
  using assms(1)
proof (cases rule: fulfil_cases)
  case stopped
  with assms(2) show ?thesis by simp
next
  case (handled st1 outcome)
  with assms(2) have ch: "fst (handle_request ctx r st) \<noteq> st" by auto
  then have nr: "rq_tier r \<noteq> TIER_READ" using handle_read [of r ctx st] by auto
  with handled(2) implicit_read [of r] have "rq_tag r \<in> set declared"
    by (auto simp: validate_declared_def split: if_splits)
  moreover have "ec_principal ctx = principal_user \<or> ec_plugin_trusted ctx" if "rq_tag r \<in> set admin_requests"
    using handled(3) that by (auto simp: check_principal_def admin_disposition_def split: if_splits)
  moreover have "gate_allows ctx r (es_taint st)" if "rq_tier r = TIER_EGRESS"
    using ch that egress_needs_gate [of ctx r st] by (simp add: handle_request_def)
  ultimately show ?thesis using nr by blast
qed


text \<open>A file request acts as one file operation on a confined and approved path, or not at all.\<close>

definition file_request :: "request \<Rightarrow> bool" where
  "file_request r \<longleftrightarrow> rq_type r \<in> {WriteFile, DeleteFile}"

lemma class_tiers [simp]:
  "rq_type r = WriteFile \<Longrightarrow> rq_tier r = TIER_WRITE" "rq_type r = DeleteFile \<Longrightarrow> rq_tier r = TIER_WRITE"
  "rq_type r = WriteDb \<Longrightarrow> rq_tier r = TIER_WRITE"
  "tainting (rq_type r) \<Longrightarrow> rq_tier r = TIER_READ"
  by (auto simp: rq_tier_def class_of_def vocabulary_defs tainting_def)

definition approved_path :: "'o effect_context \<Rightarrow> request \<Rightarrow> string list \<Rightarrow> path \<Rightarrow> bool" where
  "approved_path ctx r taint p \<longleftrightarrow>
     (\<exists>raw. rq_field r ''path'' = VStr raw \<and> check_path (ec_env ctx) (ec_write_roots ctx) raw = Inr p) \<and>
     (case ec_free_roots ctx of None \<Rightarrow> True | Some free \<Rightarrow> under_roots free p \<or> fst (ec_gate ctx r taint))"

lemma write_target_approved: "write_target ctx r taint = Inr (Inr p) \<Longrightarrow> approved_path ctx r taint p"
  by (auto simp: write_target_def approved_path_def rbind_Inr as_str_def gate_write_def
      split: pyval.splits option.splits if_splits prod.splits)

lemma world_files_id: "w\<lparr>ew_files := ew_files w\<rparr> = w"
  by simp

lemma file_request_op:
  assumes "handle_request ctx r st = (st1, outcome)" and "file_request r"
  shows "\<exists>x us. run_file_ops (ec_env ctx) x (ew_files (es_world st)) = (ew_files (es_world st1), us) \<and>
    es_world st1 = (es_world st)\<lparr>ew_files := ew_files (es_world st1)\<rparr> \<and>
    es_journal st1 = es_journal st @ List.map FileStep us \<and>
    length x \<le> 1 \<and> (\<forall>y \<in> set x. approved_path ctx r (es_taint st) (op_path y) \<and>
      (\<forall>p c e. y = WriteOp p c e \<longrightarrow> rq_field r ''content'' = VStr c \<and> rq_field r ''encoding'' = VStr e))"
proof (cases "rq_type r = WriteFile")
  case True
  with assms(1) have h: "fulfil_write_file ctx r st = (st1, outcome)" by (simp add: handle_request_def fulfil_write_def)
  show ?thesis
  proof (cases "st1 = st")
    case False
    then obtain p c e where t: "write_target ctx r (es_taint st) = Inr (Inr p)"
      and ce: "rq_field r ''content'' = VStr c" "rq_field r ''encoding'' = VStr e"
      using h by (auto simp: fulfil_write_file_def rbind_Inr as_str_def split: sum.splits prod.splits pyval.splits)
    obtain fs res where w: "write_file (ec_env ctx) p c e (ew_files (es_world st)) = (fs, res)"
      by (cases "write_file (ec_env ctx) p c e (ew_files (es_world st))")
    from h t ce w show ?thesis
      by (cases res) (auto simp: fulfil_write_file_def as_str_def Let_def journalled_def write_target_approved
          intro!: exI [of _ "[WriteOp p c e]"])
  qed (auto intro!: exI [of _ "[]"])
next
  case False
  with assms have t: "rq_type r = DeleteFile" by (auto simp: file_request_def)
  with assms(1) have h: "fulfil_delete_file ctx r st = (st1, outcome)" by (simp add: handle_request_def fulfil_write_def)
  show ?thesis
  proof (cases "st1 = st")
    case False
    then obtain p where t: "write_target ctx r (es_taint st) = Inr (Inr p)"
      using h by (auto simp: fulfil_delete_file_def split: sum.splits prod.splits)
    obtain fs u b where d: "unlink_file p (ew_files (es_world st)) = (fs, u, b)"
      by (cases "unlink_file p (ew_files (es_world st))")
    from h t d show ?thesis
      by (auto simp: fulfil_delete_file_def journalled_def write_target_approved intro!: exI [of _ "[DeleteOp p]"])
  qed (auto intro!: exI [of _ "[]"])
qed


lemma file_op_changes:
  assumes "run_file_op env y fs = (fs', us)" and "dget fs' q \<noteq> dget fs q"
  shows "q = op_path y \<or> strict_prefix q (op_path y) \<and> dget fs q = None \<and> dget fs' q = Some Directory"
proof (cases y)
  case (WriteOp p c e)
  obtain fs1 res where w: "write_file env p c e fs = (fs1, res)" by (cases "write_file env p c e fs")
  with assms WriteOp have "fs' = fs1" by (auto split: sum.splits)
  with write_file_changes [OF w] assms(2) WriteOp show ?thesis by simp
next
  case (DeleteOp p)
  obtain fs1 res where d: "unlink_file p fs = (fs1, res)" by (cases "unlink_file p fs")
  with assms DeleteOp have "fs' = fs1" by (auto split: prod.splits)
  with delete_file_changes [OF d] assms(2) DeleteOp show ?thesis by simp
qed

lemma file_changes_confined:
  assumes "fulfil ctx declared r st = (st', out)" and "file_request r"
    and ch: "dget (ew_files (es_world st')) q \<noteq> dget (ew_files (es_world st)) q"
  shows "\<exists>p. approved_path ctx r (es_taint st) p \<and>
    (q = p \<or> strict_prefix q p \<and> dget (ew_files (es_world st)) q = None \<and> dget (ew_files (es_world st')) q = Some Directory)"
  using assms(1)
proof (cases rule: fulfil_cases)
  case stopped
  with ch show ?thesis by simp
next
  case (handled st1 outcome)
  obtain x us where x: "run_file_ops (ec_env ctx) x (ew_files (es_world st)) = (ew_files (es_world st1), us)" "length x \<le> 1"
    "\<forall>y \<in> set x. approved_path ctx r (es_taint st) (op_path y)"
    using file_request_op [OF handled(1) assms(2)] by blast
  show ?thesis
  proof (cases x)
    case Nil
    with x ch handled(4) show ?thesis by simp
  next
    case (Cons y ys)
    with x(2) have "x = [y]" by simp
    with x(1) obtain us' where "run_file_op (ec_env ctx) y (ew_files (es_world st)) = (ew_files (es_world st1), us')"
      by (auto split: prod.splits)
    from file_op_changes [OF this, of q] ch handled(4) x(3) Cons show ?thesis by auto
  qed
qed

lemma approved_confined: "approved_path ctx r taint p \<Longrightarrow> ec_write_roots ctx = Some rs \<Longrightarrow> under_roots rs p"
  by (auto simp: approved_path_def dest: check_path_confined)


section \<open>A turn of file requests can be rolled back\<close>

lemma run_file_ops_append:
  "run_file_ops env (xs @ ys) fs = (case run_file_ops env xs fs of (fs1, us) \<Rightarrow>
     (case run_file_ops env ys fs1 of (fs2, us') \<Rightarrow> (fs2, us @ us')))"
  by (induction xs arbitrary: fs) (auto split: prod.splits)

definition request_targets :: "'o effect_context \<Rightarrow> request list \<Rightarrow> path set" where
  "request_targets ctx rs =
     {p. \<exists>r \<in> set rs. \<exists>raw. rq_field r ''path'' = VStr raw \<and> check_path (ec_env ctx) (ec_write_roots ctx) raw = Inr p}"

text \<open>Every text of the turn can be encoded.\<close>

definition encodable :: "path_env \<Rightarrow> request \<Rightarrow> bool" where
  "encodable env r \<longleftrightarrow> (case (rq_field r ''content'', rq_field r ''encoding'') of
     (VStr c, VStr e) \<Rightarrow> pe_encode env c e \<noteq> None | _ \<Rightarrow> True)"


lemma request_is_file_ops:
  assumes "fulfil ctx declared r st = (st1, out)" and "file_request r \<or> rq_tier r = TIER_READ"
  shows "\<exists>xs us. run_file_ops (ec_env ctx) xs (ew_files (es_world st)) = (ew_files (es_world st1), us) \<and>
    es_world st1 = (es_world st)\<lparr>ew_files := ew_files (es_world st1)\<rparr> \<and>
    es_journal st1 = es_journal st @ List.map FileStep us \<and> op_path ` set xs \<subseteq> request_targets ctx [r] \<and>
    (encodable (ec_env ctx) r \<longrightarrow> list_all (op_encodes (ec_env ctx)) xs)"
  using assms(1)
proof (cases rule: fulfil_cases)
  case stopped
  then show ?thesis by (intro exI [of _ "[]"]) simp
next
  case (handled st2 outcome)
  show ?thesis
  proof (cases "file_request r")
    case False
    with assms(2) have "rq_tier r = TIER_READ" by simp
    with handled handle_read [of r ctx st] show ?thesis by (intro exI [of _ "[]"]) simp
  next
    case True
    from file_request_op [OF handled(1) True] obtain xs us where
      xs: "run_file_ops (ec_env ctx) xs (ew_files (es_world st)) = (ew_files (es_world st2), us)"
      "es_world st2 = (es_world st)\<lparr>ew_files := ew_files (es_world st2)\<rparr>"
      "es_journal st2 = es_journal st @ List.map FileStep us"
      "\<forall>y \<in> set xs. approved_path ctx r (es_taint st) (op_path y) \<and>
        (\<forall>p c e. y = WriteOp p c e \<longrightarrow> rq_field r ''content'' = VStr c \<and> rq_field r ''encoding'' = VStr e)" by blast
    have "op_path ` set xs \<subseteq> request_targets ctx [r]"
      using xs(4) by (auto simp: request_targets_def approved_path_def)
    moreover have "op_encodes (ec_env ctx) y" if "encodable (ec_env ctx) r" "y \<in> set xs" for y
      using that xs(4) by (cases y) (auto simp: encodable_def)
    ultimately show ?thesis using xs(1-3) handled(4,5) by (auto simp: list_all_iff intro!: exI [of _ xs])
  qed
qed

lemma turn_is_file_ops:
  assumes "\<forall>r \<in> set rs. file_request r \<or> rq_tier r = TIER_READ"
  shows "\<exists>xs us. run_file_ops (ec_env ctx) xs (ew_files (es_world st)) = (ew_files (es_world (fulfil_all ctx declared rs st)), us) \<and>
    es_world (fulfil_all ctx declared rs st) = (es_world st)\<lparr>ew_files := ew_files (es_world (fulfil_all ctx declared rs st))\<rparr> \<and>
    es_journal (fulfil_all ctx declared rs st) = es_journal st @ List.map FileStep us \<and>
    op_path ` set xs \<subseteq> request_targets ctx rs \<and>
    ((\<forall>r \<in> set rs. encodable (ec_env ctx) r) \<longrightarrow> list_all (op_encodes (ec_env ctx)) xs)"
  using assms
proof (induction rs arbitrary: st)
  case Nil
  show ?case by (intro exI [of _ "[]"]) simp
next
  case (Cons r rs)
  obtain st1 out where f: "fulfil ctx declared r st = (st1, out)" by (cases "fulfil ctx declared r st")
  from request_is_file_ops [OF f] Cons.prems obtain xs us where
    a: "run_file_ops (ec_env ctx) xs (ew_files (es_world st)) = (ew_files (es_world st1), us)"
    "es_world st1 = (es_world st)\<lparr>ew_files := ew_files (es_world st1)\<rparr>"
    "es_journal st1 = es_journal st @ List.map FileStep us" "op_path ` set xs \<subseteq> request_targets ctx [r]"
    "encodable (ec_env ctx) r \<longrightarrow> list_all (op_encodes (ec_env ctx)) xs" by auto
  let ?st2 = "fulfil_all ctx declared rs st1"
  from Cons.IH [of st1] Cons.prems obtain ys vs where
    b: "run_file_ops (ec_env ctx) ys (ew_files (es_world st1)) = (ew_files (es_world ?st2), vs)"
    "es_world ?st2 = (es_world st1)\<lparr>ew_files := ew_files (es_world ?st2)\<rparr>"
    "es_journal ?st2 = es_journal st1 @ List.map FileStep vs" "op_path ` set ys \<subseteq> request_targets ctx rs"
    "(\<forall>r \<in> set rs. encodable (ec_env ctx) r) \<longrightarrow> list_all (op_encodes (ec_env ctx)) ys" by auto
  have t: "request_targets ctx [r] \<subseteq> request_targets ctx (r # rs)" "request_targets ctx rs \<subseteq> request_targets ctx (r # rs)"
    by (auto simp: request_targets_def)
  have w: "es_world ?st2 = (es_world st)\<lparr>ew_files := ew_files (es_world ?st2)\<rparr>"
    using a(2) b(2) by (metis effect_world.update_convs(1) effect_world.surjective)
  have "op_path ` set (xs @ ys) \<subseteq> request_targets ctx (r # rs)" using a(4) b(4) t by auto
  moreover have "run_file_ops (ec_env ctx) (xs @ ys) (ew_files (es_world st)) = (ew_files (es_world ?st2), us @ vs)"
    using a(1) b(1) by (simp add: run_file_ops_append)
  ultimately show ?case using a(3,5) b(3,5) w f by (intro exI [of _ "xs @ ys"] exI [of _ "us @ vs"]) auto
qed

lemma roll_file_steps:
  "roll apply_undo (List.map FileStep us) w = (case roll undo_file us (ew_files w) of (fs, es) \<Rightarrow> (w\<lparr>ew_files := fs\<rparr>, es))"
proof (induction us arbitrary: w)
  case (Cons u us)
  obtain fs r where "undo_file u (ew_files w) = (fs, r)" by (cases "undo_file u (ew_files w)")
  with Cons [of "w\<lparr>ew_files := fs\<rparr>"] show ?case by (cases r) (auto split: prod.splits)
qed simp

lemma rolled_back_turn:
  assumes "\<forall>r \<in> set rs. file_request r \<or> rq_tier r = TIER_READ" and "\<forall>r \<in> set rs. encodable (ec_env ctx) r"
    and "rooted (ew_files (es_world st))" and "prefix_free (request_targets ctx rs)" and "[] \<notin> request_targets ctx rs"
    and "es_journal st = []"
  shows "\<exists>fs. rollback apply_undo (es_journal (fulfil_all ctx declared rs st)) (es_world (fulfil_all ctx declared rs st)) =
      ((es_world st)\<lparr>ew_files := fs\<rparr>, []) \<and> more_dirs (request_targets ctx rs) (ew_files (es_world st)) fs"
proof -
  let ?st' = "fulfil_all ctx declared rs st"
  from turn_is_file_ops [OF assms(1), of ctx st declared] obtain xs us where
    a: "run_file_ops (ec_env ctx) xs (ew_files (es_world st)) = (ew_files (es_world ?st'), us)"
    "es_world ?st' = (es_world st)\<lparr>ew_files := ew_files (es_world ?st')\<rparr>"
    "es_journal ?st' = es_journal st @ List.map FileStep us" "op_path ` set xs \<subseteq> request_targets ctx rs"
    "list_all (op_encodes (ec_env ctx)) xs" using assms(2) by blast
  from rollback_files [OF a(1) a(5) assms(3) _ a(4) assms(4) more_dirs_refl] assms(5) a(4) obtain fs where
    fs: "rollback undo_file us (ew_files (es_world ?st')) = (fs, [])" "more_dirs (request_targets ctx rs) (ew_files (es_world st)) fs"
    by auto
  have "rollback apply_undo (es_journal ?st') (es_world ?st') = ((es_world ?st')\<lparr>ew_files := fs\<rparr>, [])"
    using fs(1) by (simp add: a(3) assms(6) rollback_def rev_map roll_file_steps)
  moreover have "(es_world ?st')\<lparr>ew_files := fs\<rparr> = (es_world st)\<lparr>ew_files := fs\<rparr>" by (subst a(2)) simp
  ultimately show ?thesis using fs(2) by auto
qed


text \<open>An insert that replaces a row cannot be undone by deleting the rows above the old maximum.\<close>

lemma replaced_row_lost:
  "let t = \<lparr>st_key = [''path''], st_rows = [(1, [(''path'', VStr ''a''), (''n'', VInt 1)])]\<rparr>;
       row = [(''path'', VStr ''a''), (''n'', VInt 2)] in
   st_rows (delete_above (max_rowid t) (fst (insert_rows [''path'', ''n''] [row] t))) = []"
  by (simp add: max_rowid_def insert_or_replace_def same_key_def delete_above_def)

lemma insert_rows_key_free:
  assumes "insert_rows cols rs t = (t', Inr ())" and "st_key t = []"
  shows "delete_above (max_rowid t) t' = t"
proof -
  have max: "i \<le> max_rowid s" if "(i, r) \<in> set (st_rows s)" for i r and s :: sql_table
  proof -
    have "i \<in> set (List.map fst (st_rows s))" using that by force
    then show ?thesis unfolding max_rowid_def by (metis List.finite_set Max.set_eq_fold Max_ge list.set_intros(2) set_ConsD)
  qed
  have "\<exists>new. st_rows t' = st_rows t @ new \<and> (\<forall>(i, _) \<in> set new. i > max_rowid t)"
    using assms
  proof (induction rs arbitrary: t)
    case Nil
    then show ?case by simp
  next
    case (Cons r rs)
    let ?row = "zip cols (List.map snd r)"
    let ?t = "insert_or_replace ?row t"
    have i: "insert_rows cols rs ?t = (t', Inr ())" using Cons.prems(1) by (auto split: if_splits)
    have rows: "st_rows ?t = st_rows t @ [(Suc (max_rowid t), ?row)]" and key: "st_key ?t = []"
      using Cons.prems(2) by (simp_all add: insert_or_replace_def same_key_def)
    from Cons.IH [OF i key] obtain new where n: "st_rows t' = st_rows ?t @ new" "\<forall>(i, _) \<in> set new. i > max_rowid ?t" by blast
    have "max_rowid ?t > max_rowid t" using max [of "Suc (max_rowid t)" ?row ?t] rows by simp
    with n rows show ?case by (intro exI [of _ "(Suc (max_rowid t), ?row) # new"]) fastforce
  qed
  then obtain new where n: "st_rows t' = st_rows t @ new" "\<forall>(i, _) \<in> set new. i > max_rowid t" by blast
  have "filter (\<lambda>(i, _). i \<le> max_rowid t) (st_rows t) = st_rows t" using max by (auto intro!: filter_True)
  moreover have "filter (\<lambda>(i, _). i \<le> max_rowid t) new = []" using n(2) by (auto simp: filter_empty_conv)
  ultimately have r: "filter (\<lambda>(i, _). i \<le> max_rowid t) (st_rows t') = st_rows t" by (simp add: n(1))
  have "st_key t' = st_key t" using assms(1)
    by (induction rs arbitrary: t) (auto simp: insert_or_replace_def split: if_splits)
  then show ?thesis by (simp add: delete_above_def r)
qed


section \<open>What a read can see\<close>

definition same_view :: "path list \<Rightarrow> filesystem \<Rightarrow> filesystem \<Rightarrow> bool" where
  "same_view roots fs fs' \<longleftrightarrow>
     filter (\<lambda>(p, _). under_roots roots p) fs = filter (\<lambda>(p, _). under_roots roots p) fs'"

lemma dget_filter: "P p \<Longrightarrow> dget (filter (\<lambda>(q, _). P q) fs) p = dget fs p"
  by (induction fs) auto

lemma same_view_dget: "same_view roots fs fs' \<Longrightarrow> under_roots roots p \<Longrightarrow> dget fs p = dget fs' p"
  by (metis dget_filter same_view_def)

lemma under_roots_mono: "under_roots roots p \<Longrightarrow> prefix p q \<Longrightarrow> under_roots roots q"
  by (auto simp: under_roots_def list_ex_iff intro: prefix_order.trans)

lemma walked_view:
  assumes v: "same_view roots fs fs'" and b: "under_roots roots base"
  shows "filter (walked fs base recursive) fs = filter (walked fs' base recursive) fs'"
proof -
  have links: "list_all (\<lambda>q. \<not> (strict_prefix base q \<and> strict_prefix q p \<and> dget f q = Some Link)) (dkeys f) \<longleftrightarrow>
      (\<forall>q. \<not> (strict_prefix base q \<and> strict_prefix q p \<and> dget f q = Some Link))" for f p
  proof -
    have "dget f q = Some x \<Longrightarrow> q \<in> set (dkeys f)" for q x by (force dest: map_of_SomeD)
    then show ?thesis unfolding list_all_iff by blast
  qed
  have "walked fs base recursive e = walked fs' base recursive e" for e
  proof -
    have "dget fs q = dget fs' q" if "strict_prefix base q" for q
      using that b by (intro same_view_dget [OF v]) (auto elim: under_roots_mono intro: strict_prefixE)
    then show ?thesis unfolding walked_def links by (cases e) auto
  qed
  then have w: "walked fs base recursive = walked fs' base recursive" by blast
  have "filter (walked f base recursive) g = filter (walked f base recursive) (filter (\<lambda>(p, _). under_roots roots p) g)" for f g
  proof -
    have "walked f base recursive e \<Longrightarrow> under_roots roots (fst e)" for e
      using b by (auto simp: walked_def strict_prefix_def elim: under_roots_mono)
    then show ?thesis by (simp only: filter_filter) (auto intro!: filter_cong)
  qed
  with v w show ?thesis by (metis same_view_def)
qed


lemma resolve_root_under: "resolve_root env (Some (r # rs)) raw = Inr p \<Longrightarrow> under_roots (r # rs) p"
  by (auto simp: resolve_root_def Let_def split: if_splits)

lemma list_dir_view:
  assumes v: "same_view (r # rs) fs fs'"
  shows "list_dir env (Some (r # rs)) fs raw recursive = list_dir env (Some (r # rs)) fs' raw recursive"
proof (cases "resolve_root env (Some (r # rs)) raw")
  case (Inr p)
  note u = resolve_root_under [OF Inr]
  show ?thesis using same_view_dget [OF v u] walked_view [OF v u, of recursive] by (simp add: list_dir_def Inr)
qed (simp add: list_dir_def)

lemma stat_view:
  assumes v: "same_view (r # rs) fs fs'"
  shows "stat_path env (Some (r # rs)) fs raw = stat_path env (Some (r # rs)) fs' raw"
proof (cases "resolve_root env (Some (r # rs)) raw")
  case (Inr p)
  with same_view_dget [OF v resolve_root_under [OF Inr]] show ?thesis by (simp add: stat_path_def)
qed (simp add: stat_path_def)

lemma read_one_view:
  assumes v: "same_view (r # rs) fs fs'"
  shows "read_one env (Some (r # rs)) fs cap raw = read_one env (Some (r # rs)) fs' cap raw"
proof (cases "py_or raw (VStr [])")
  case (VStr s)
  show ?thesis
  proof (cases "resolve_root env (Some (r # rs)) s")
    case (Inr p)
    with same_view_dget [OF v resolve_root_under [OF Inr]] VStr show ?thesis by (simp add: read_one_def)
  qed (simp add: read_one_def VStr)
qed (simp_all add: read_one_def)

lemma read_batch_view:
  "same_view (r # rs) fs fs' \<Longrightarrow> read_batch env (Some (r # rs)) fs cap n raws = read_batch env (Some (r # rs)) fs' cap n raws"
proof (induction raws arbitrary: n)
  case (Cons raw raws)
  have "read_one env (Some (r # rs)) fs cap raw = read_one env (Some (r # rs)) fs' cap raw" using Cons.prems by (rule read_one_view)
  with Cons show ?case by simp
qed simp

text \<open>What lies outside the read roots makes no difference to any file read.\<close>

lemma file_reads_confined:
  assumes roots: "ec_read_roots ctx = Some (r # rs)" and v: "same_view (r # rs) (ew_files w) (ew_files w')"
    and t: "rq_type q \<in> {ReadFile, ReadFiles, ListDir, Stat}"
  shows "fulfil_read ctx q w = fulfil_read ctx q w'"
proof -
  have same_text: "check_path env (Some (r # rs)) raw = Inr p \<Longrightarrow> read_text env (ew_files w) p enc = read_text env (ew_files w') p enc" for env raw p enc
    using same_view_dget [OF v check_path_confined] by (simp add: read_text_def)
  consider "rq_type q = ReadFile" | "rq_type q = ReadFiles" | "rq_type q = ListDir" | "rq_type q = Stat" using t by blast
  then show ?thesis
  proof cases
    case 1
    show ?thesis
    proof (cases "rbind (as_str (rq_field q ''path'')) (check_path (ec_env ctx) (Some (r # rs)))")
      case (Inl e)
      then show ?thesis by (auto simp: fulfil_read_def 1 roots Let_def rbind_Inl)
    next
      case (Inr p)
      then obtain raw where raw: "as_str (rq_field q ''path'') = Inr raw" "check_path (ec_env ctx) (Some (r # rs)) raw = Inr p"
        by (auto simp: rbind_Inr)
      with same_text [OF raw(2)] show ?thesis by (simp add: fulfil_read_def 1 roots Let_def)
    qed
  next
    case 2
    then show ?thesis by (simp add: fulfil_read_def roots read_files_def read_batch_view [OF v])
  next
    case 3
    then show ?thesis by (simp add: fulfil_read_def roots list_dir_view [OF v])
  next
    case 4
    then show ?thesis by (simp add: fulfil_read_def roots stat_view [OF v])
  qed
qed

text \<open>An empty list of roots: the walk and the batch take it for no confinement, a single read refuses all.\<close>

lemma empty_roots:
  "\<exists>p. resolve_root env (Some []) raw = Inr p" "\<exists>e. check_path env (Some []) raw = Inl e"
  by (simp_all add: resolve_root_def check_path_def under_roots_def permission_error_def Let_def)

text \<open>The view a plugin declares plays no part: the request's own view decides.\<close>

lemma view_is_the_requests:
  assumes "ec_provider ctx = Some (context_provider dump view_k history)" and "rq_type r = ReadContext"
    and "rq_field r ''view'' = VStr ''full''"
  shows "fulfil_read ctx r w = Inr (served_value TIER_READ (VStr (dump (VList history))))"
  using assms by (simp add: fulfil_read_def read_context_def as_str_def inventory_views_def context_provider_def Let_def)

text \<open>What has been read stands in front of whoever approves.\<close>

lemma tainting_not_admin: "tainting (rq_type r) \<Longrightarrow> rq_tag r \<notin> set admin_requests"
proof -
  have "rq_tag r = ''read_file''" if "rq_type r = ReadFile" using that by (simp add: rq_tag_def class_of_def vocabulary_defs)
  moreover have "rq_tag r = ''read_files''" if "rq_type r = ReadFiles" using that by (simp add: rq_tag_def class_of_def vocabulary_defs)
  moreover have "rq_tag r = ''query_db''" if "rq_type r = QueryDb" using that by (simp add: rq_tag_def class_of_def vocabulary_defs)
  moreover have "rq_tag r = ''list_dir''" if "rq_type r = ListDir" using that by (simp add: rq_tag_def class_of_def vocabulary_defs)
  moreover have "rq_tag r = ''stat''" if "rq_type r = Stat" using that by (simp add: rq_tag_def class_of_def vocabulary_defs)
  ultimately show "tainting (rq_type r) \<Longrightarrow> ?thesis" by (auto simp: tainting_def admin_requests_def)
qed

lemma successful_read_taints:
  assumes "fulfil ctx declared r st = (st', Inr res)" and "tainting (rq_type r)" and "er_ok res"
  shows "es_taint st' = es_taint st \<or> es_taint st' = es_taint st @ [taint_label ctx r]"
    and "validate_declared r declared = Inr () \<Longrightarrow> taint_label ctx r \<in> set (es_taint st')"
proof -
  show "es_taint st' = es_taint st \<or> es_taint st' = es_taint st @ [taint_label ctx r]"
    using assms(1)
  proof (cases rule: fulfil_cases)
    case (handled st1 outcome)
    with assms(2) have "st1 = st" using handle_read [of r ctx st] by simp
    with handled(6) show ?thesis by (auto simp: note_taint_def)
  qed simp
  show "taint_label ctx r \<in> set (es_taint st')" if v: "validate_declared r declared = Inr ()"
  proof -
    have p: "check_principal ctx r = None"
      using tainting_not_admin [OF assms(2)] assms(2) by (auto simp: check_principal_def tainting_def)
    have "fst (handle_request ctx r st) = st" using assms(2) by (intro handle_read) simp
    then obtain outcome where h: "handle_request ctx r st = (st, outcome)" by (cases "handle_request ctx r st") simp
    show ?thesis using assms v p h by (auto simp: fulfil_def Let_def note_taint_def)
  qed
qed

lemma tainted_gate_names_reads:
  assumes "rq_type r \<notin> {Complete, Embed}" and "taint \<noteq> []" and "fst (egress_gate flag nm (Some f) r taint)"
  shows "fst (f (egress_target r) ([CHR 0x27] @ nm @ [CHR 0x27] @ '' '' @ rq_tag r @ '' - '' @ describe_taint taint))"
  using assms by (auto simp: egress_gate_def describe_taint_def Let_def split: bool.splits prod.splits)

end
