(* ===== verification/Sandbox.thy ===== *)
theory Sandbox
  imports Effects
begin

text \<open>
  \<open>sandbox/driver.py\<close>, \<open>sandbox/local.py\<close>, the message pump of \<open>sandbox/runner.py\<close> and
  \<open>sandbox/worker.py\<close>: a plugin body is driven request by request, in this process or in a child
  behind a pipe, and resident children are pooled. A body is the function from the replies it has
  received to what it does next; values cross the pipe unchanged.
\<close>

section \<open>Bodies and outcomes\<close>

type_synonym wire = "(string \<times> pyval) list"

record reply =
  rp_ok :: bool
  rp_value :: pyval
  rp_error :: pyval
  rp_denied :: bool

definition reply_of :: "wire \<Rightarrow> reply" where
  "reply_of w =
     \<lparr>rp_ok = (case dget w ''ok'' of Some v \<Rightarrow> truthy v | None \<Rightarrow> True), rp_value = opt_val (dget w ''value''),
      rp_error = (case dget w ''error'' of Some v \<Rightarrow> v | None \<Rightarrow> VStr []),
      rp_denied = (case dget w ''denied'' of Some v \<Rightarrow> truthy v | None \<Rightarrow> False)\<rparr>"

datatype body_event = Yields wire | Returns pyval | ReturnsRequest wire | Raises pyexn

type_synonym body = "reply list \<Rightarrow> body_event"

record sandbox_outcome =
  so_success :: bool
  so_summary :: pyval
  so_data :: pyval
  so_error :: pyval
  so_error_type :: string
  so_attachments :: pyval

definition failed_outcome :: "string \<Rightarrow> string \<Rightarrow> sandbox_outcome" where
  "failed_outcome msg kind = \<lparr>so_success = False, so_summary = VStr [], so_data = VNone, so_error = VStr msg,
     so_error_type = kind, so_attachments = VList []\<rparr>"

definition outcome_from_respond :: "wire \<Rightarrow> sandbox_outcome" where
  "outcome_from_respond w =
     \<lparr>so_success = (case dget w ''success'' of Some v \<Rightarrow> truthy v | None \<Rightarrow> True),
      so_summary = py_or (opt_val (dget w ''summary'')) (VStr []), so_data = opt_val (dget w ''data''),
      so_error = py_or (opt_val (dget w ''error'')) (VStr []), so_error_type = [],
      so_attachments = py_or (opt_val (dget w ''attachment_paths'')) (VList [])\<rparr>"

text \<open>\<open>as_final\<close>: a body that ends without a value has failed; a bare value becomes a response.\<close>

definition respond_wire :: "wire \<Rightarrow> bool" where
  "respond_wire w \<longleftrightarrow> dget w ''type'' = Some (VStr ''respond'')"

definition as_final :: "(pyval \<Rightarrow> string) \<Rightarrow> pyval \<Rightarrow> wire pyres" where
  "as_final str v =
     (case v of
        VNone \<Rightarrow> Inl (PyExn ''RuntimeError'' ''tool finished without a Respond'')
      | VDict d \<Rightarrow>
          if respond_wire d then Inr d
          else Inr [(''type'', VStr ''respond''), (''summary'', VStr (str v)), (''data'', v), (''success'', VBool True), (''error'', VStr [])]
      | _ \<Rightarrow> Inr [(''type'', VStr ''respond''), (''summary'', VStr (str v)), (''data'', v), (''success'', VBool True), (''error'', VStr [])])"


section \<open>Driving a body\<close>

text \<open>
  \<open>drive\<close>: the loop over the generator. \<open>answer\<close> gets a request's wire and the state, and returns
  the reply's wire or the exception it raises. A body that yields for ever has no result.
\<close>

partial_function (option) drive ::
    "(pyval \<Rightarrow> string) \<Rightarrow> body \<Rightarrow> (wire \<Rightarrow> 's \<Rightarrow> 's \<times> wire pyres) \<Rightarrow> reply list \<Rightarrow> 's \<Rightarrow> ('s \<times> wire pyres) option" where
  "drive str body answer got s =
     (case body got of
        Raises e \<Rightarrow> Some (s, Inl e)
      | Returns v \<Rightarrow> Some (s, as_final str v)
      | ReturnsRequest w \<Rightarrow> Some (s, Inr w)
      | Yields w \<Rightarrow>
          if respond_wire w then Some (s, Inr w)
          else (case answer w s of
              (s1, Inl e) \<Rightarrow> Some (s1, Inl e)
            | (s1, Inr out) \<Rightarrow> drive str body answer (got @ [reply_of out]) s1))"

text \<open>\<open>run_local_tool\<close>: the interpreter answers directly.\<close>

definition interpreter_fulfil :: "'o effect_context \<Rightarrow> string list \<Rightarrow> wire \<Rightarrow> 'o effect_state \<Rightarrow> 'o effect_state \<times> wire pyres" where
  "interpreter_fulfil ctx declared w st =
     (case from_wire w of
        Inl e \<Rightarrow> (st, Inl e)
      | Inr r \<Rightarrow> (case fulfil ctx declared r st of
          (st1, Inl e) \<Rightarrow> (st1, Inl e)
        | (st1, Inr res) \<Rightarrow> (st1, Inr (result_to_wire res))))"

definition local_outcome :: "wire pyres \<Rightarrow> sandbox_outcome" where
  "local_outcome x = (case x of
     Inr w \<Rightarrow> outcome_from_respond w
   | Inl e \<Rightarrow> failed_outcome (exn_message e)
       (if exn_type e = ''UndeclaredRequestError'' then ''UndeclaredRequest'' else exn_type e))"

definition run_local_tool ::
    "'o effect_context \<Rightarrow> string list \<Rightarrow> body \<Rightarrow> 'o effect_state \<Rightarrow> ('o effect_state \<times> sandbox_outcome) option" where
  "run_local_tool ctx declared body st =
     map_option (\<lambda>(st1, x). (st1, local_outcome x)) (drive (ec_str ctx) body (interpreter_fulfil ctx declared) [] st)"


section \<open>The pump on the other side of the pipe\<close>

datatype message = YieldMsg wire | FinalMsg wire | ErrorMsg string string

text \<open>What the child writes next, having received these replies.\<close>

definition child_message :: "(pyval \<Rightarrow> string) \<Rightarrow> body \<Rightarrow> reply list \<Rightarrow> message" where
  "child_message str body got =
     (case body got of
        Raises e \<Rightarrow> ErrorMsg (exn_type e) (exn_message e)
      | Returns v \<Rightarrow> (case as_final str v of Inr w \<Rightarrow> FinalMsg w | Inl e \<Rightarrow> ErrorMsg (exn_type e) (exn_message e))
      | ReturnsRequest w \<Rightarrow> FinalMsg w
      | Yields w \<Rightarrow> if respond_wire w then FinalMsg w else YieldMsg w)"

text \<open>\<open>_handle_message\<close>: either the run's outcome, or the reply to send back.\<close>

definition handle_message ::
    "'o effect_context \<Rightarrow> string list \<Rightarrow> message \<Rightarrow> 'o effect_state \<Rightarrow> 'o effect_state \<times> (sandbox_outcome + wire)" where
  "handle_message ctx declared msg st =
     (case msg of
        YieldMsg w \<Rightarrow>
          (case from_wire w of
             Inl e \<Rightarrow> (st, Inl (failed_outcome (''malformed request off the pipe: '' @ exn_message e) ''ProtocolError''))
           | Inr r \<Rightarrow> (case fulfil ctx declared r st of
               (st1, Inl e) \<Rightarrow> (st1, Inl (failed_outcome (exn_message e) ''UndeclaredRequest''))
             | (st1, Inr res) \<Rightarrow> (st1, Inr (result_to_wire res))))
      | FinalMsg w \<Rightarrow> (st, Inl (outcome_from_respond w))
      | ErrorMsg kind msg \<Rightarrow> (st, Inl (failed_outcome (if msg = [] then ''tool raised'' else msg)
          (if kind = [] then ''ToolError'' else kind))))"

text \<open>The checks before each message: the memory cap, a cancellation, the deadline.\<close>

datatype interruption = MemoryCap string | Cancelled | DeadlinePassed string

fun interrupted :: "interruption \<Rightarrow> sandbox_outcome" where
  "interrupted (MemoryCap msg) = failed_outcome msg ''MemoryCap''"
| "interrupted Cancelled = failed_outcome ''run cancelled'' ''Cancelled''"
| "interrupted (DeadlinePassed msg) = failed_outcome msg ''Timeout''"

partial_function (option) pump ::
    "'o effect_context \<Rightarrow> string list \<Rightarrow> body \<Rightarrow> (nat \<Rightarrow> interruption option) \<Rightarrow> reply list \<Rightarrow> 'o effect_state \<Rightarrow>
     ('o effect_state \<times> sandbox_outcome) option" where
  "pump ctx declared body stop got st =
     (case stop (length got) of
        Some i \<Rightarrow> Some (st, interrupted i)
      | None \<Rightarrow>
          (case handle_message ctx declared (child_message (ec_str ctx) body got) st of
             (st1, Inl outcome) \<Rightarrow> Some (st1, outcome)
           | (st1, Inr out) \<Rightarrow> pump ctx declared body stop (got @ [reply_of out]) st1))"

text \<open>\<open>run_sandbox_tool\<close>: the source and every module of its closure are validated first.\<close>

definition run_sandbox_tool ::
    "'o effect_context \<Rightarrow> string list \<Rightarrow> string option \<Rightarrow> body \<Rightarrow> (nat \<Rightarrow> interruption option) \<Rightarrow> 'o effect_state \<Rightarrow>
     ('o effect_state \<times> sandbox_outcome) option" where
  "run_sandbox_tool ctx declared invalid body stop st =
     (case invalid of
        Some e \<Rightarrow> Some (st, failed_outcome (''validation failed: '' @ e) ''ValidationError'')
      | None \<Rightarrow> pump ctx declared body stop [] st)"


section \<open>The two modes agree\<close>

text \<open>Same outcome, or both failed (the wording of a failure differs).\<close>

definition outcomes_agree :: "sandbox_outcome \<Rightarrow> sandbox_outcome \<Rightarrow> bool" where
  "outcomes_agree a b \<longleftrightarrow> a = b \<or> \<not> so_success a \<and> \<not> so_success b"

lemma fulfil_error_type: "fulfil ctx declared r st = (st1, Inl e) \<Longrightarrow> exn_type e = ''UndeclaredRequestError'' \<and> st1 = st"
  by (auto simp: fulfil_def validate_declared_def Let_def split: sum.splits option.splits prod.splits if_splits)


lemma local_failed: "\<not> so_success (local_outcome (Inl e))" "\<not> so_success (failed_outcome msg kind)"
  by (simp_all add: local_outcome_def failed_outcome_def)

lemma drive_is_pump:
  assumes "drive str body answer got st = Some r" and "str = ec_str ctx" and "answer = interpreter_fulfil ctx declared"
  shows "\<exists>out. pump ctx declared body (\<lambda>_. None) got st = Some (fst r, out) \<and> outcomes_agree (local_outcome (snd r)) out"
  using assms
proof (induction str body answer got st r rule: drive.raw_induct [rotated, consumes 1, case_names step])
  case (step drv str body answer got st r)
  note ih = step(1) and d = step(2) and eqs = step(3,4)
  show ?case
  proof (cases "body got")
    case (Yields w)
    show ?thesis
    proof (cases "respond_wire w")
      case True
      with d Yields show ?thesis
        by (subst pump.simps) (auto simp: child_message_def handle_message_def outcomes_agree_def local_outcome_def)
    next
      case False
      show ?thesis
      proof (cases "from_wire w")
        case (Inl e)
        with d Yields False eqs show ?thesis
          by (subst pump.simps) (auto simp: child_message_def handle_message_def interpreter_fulfil_def outcomes_agree_def local_failed)
      next
        case req: (Inr q)
        obtain st1 x where f: "fulfil ctx declared q st = (st1, x)" by (cases "fulfil ctx declared q st")
        show ?thesis
        proof (cases x)
          case (Inl e)
          with d Yields False eqs req f show ?thesis
            by (subst pump.simps) (auto simp: child_message_def handle_message_def interpreter_fulfil_def outcomes_agree_def local_failed)
        next
          case (Inr res)
          with d Yields False eqs req f have "drv str body answer (got @ [reply_of (result_to_wire res)]) st1 = Some r"
            by (simp add: interpreter_fulfil_def)
          from ih [OF this eqs] obtain out where
            "pump ctx declared body (\<lambda>_. None) (got @ [reply_of (result_to_wire res)]) st1 = Some (fst r, out)"
            "outcomes_agree (local_outcome (snd r)) out" by blast
          with Yields False req f Inr show ?thesis
            by (subst pump.simps) (simp add: child_message_def handle_message_def)
        qed
      qed
    qed
  next
    case (Returns v)
    with d eqs show ?thesis
      by (subst pump.simps) (cases "as_final (ec_str ctx) v";
          auto simp: child_message_def handle_message_def outcomes_agree_def local_outcome_def failed_outcome_def)
  next
    case (ReturnsRequest w)
    with d show ?thesis
      by (subst pump.simps) (auto simp: child_message_def handle_message_def outcomes_agree_def local_outcome_def)
  next
    case (Raises e)
    with d show ?thesis
      by (subst pump.simps) (auto simp: child_message_def handle_message_def outcomes_agree_def local_failed)
  qed
qed

lemma pump_is_drive:
  assumes "pump ctx declared body stop got st = Some r" and "stop = (\<lambda>_. None)"
  shows "\<exists>x. drive (ec_str ctx) body (interpreter_fulfil ctx declared) got st = Some (fst r, x)"
  using assms
proof (induction ctx declared body stop got st r rule: pump.raw_induct [rotated, consumes 1, case_names step])
  case (step pmp ctx declared body stop got st r)
  note ih = step(1) and p = step(2) and eqs = step(3)
  show ?case
  proof (cases "body got")
    case (Yields w)
    show ?thesis
    proof (cases "respond_wire w")
      case True
      with p eqs Yields show ?thesis by (subst drive.simps) (auto simp: child_message_def handle_message_def)
    next
      case False
      show ?thesis
      proof (cases "from_wire w")
        case (Inl e)
        with p Yields False eqs show ?thesis
          by (subst drive.simps) (auto simp: child_message_def handle_message_def interpreter_fulfil_def)
      next
        case req: (Inr q)
        obtain st1 x where f: "fulfil ctx declared q st = (st1, x)" by (cases "fulfil ctx declared q st")
        show ?thesis
        proof (cases x)
          case (Inl e)
          with p Yields False eqs req f show ?thesis
            by (subst drive.simps) (auto simp: child_message_def handle_message_def interpreter_fulfil_def)
        next
          case (Inr res)
          with p Yields False eqs req f have "pmp ctx declared body stop (got @ [reply_of (result_to_wire res)]) st1 = Some r"
            by (simp add: child_message_def handle_message_def)
          moreover have "interpreter_fulfil ctx declared w st = (st1, Inr (result_to_wire res))"
            using req f Inr by (simp add: interpreter_fulfil_def)
          ultimately show ?thesis using ih [OF _ eqs] Yields False by (subst drive.simps) auto
        qed
      qed
    qed
  next
    case (Returns v)
    with p eqs show ?thesis
      by (subst drive.simps) (cases "as_final (ec_str ctx) v"; auto simp: child_message_def handle_message_def)
  next
    case (ReturnsRequest w)
    with p eqs show ?thesis by (subst drive.simps) (auto simp: child_message_def handle_message_def)
  next
    case (Raises e)
    with p eqs show ?thesis by (subst drive.simps) (auto simp: child_message_def handle_message_def)
  qed
qed


text \<open>Running in this process is no bypass: the kernel ends in the same state and the run in the same outcome.\<close>

lemma modes_agree:
  "case (run_local_tool ctx declared body st, run_sandbox_tool ctx declared None body (\<lambda>_. None) st) of
     (None, None) \<Rightarrow> True
   | (Some (st1, a), Some (st2, b)) \<Rightarrow> st1 = st2 \<and> outcomes_agree a b
   | _ \<Rightarrow> False"
proof (cases "drive (ec_str ctx) body (interpreter_fulfil ctx declared) [] st")
  case None
  then have "pump ctx declared body (\<lambda>_. None) [] st = None"
    using pump_is_drive [of ctx declared body "\<lambda>_. None" "[]" st] by (cases "pump ctx declared body (\<lambda>_. None) [] st") auto
  with None show ?thesis by (simp add: run_local_tool_def run_sandbox_tool_def)
next
  case (Some r)
  from drive_is_pump [OF Some refl refl] obtain out where
    "pump ctx declared body (\<lambda>_. None) [] st = Some (fst r, out)" "outcomes_agree (local_outcome (snd r)) out" by blast
  with Some show ?thesis by (cases r) (simp add: run_local_tool_def run_sandbox_tool_def)
qed


section \<open>Resident workers\<close>

text \<open>
  \<open>sandbox/worker.py\<close>: the pool's table of children, keyed by the digest of a plugin's source and
  closure. \<open>wk_running\<close> is what polling the process says; the clock is an argument.
\<close>

record worker =
  wk_id :: nat
  wk_persistent :: bool
  wk_running :: bool
  wk_calls :: nat
  wk_last_used :: int

definition max_calls :: nat where "max_calls = 50"
definition max_idle :: int where "max_idle = 600"

definition worker_alive :: "worker \<Rightarrow> bool" where
  "worker_alive w \<longleftrightarrow> (if wk_persistent w then wk_running w else wk_running w \<and> wk_calls w < max_calls)"

record worker_pool =
  wp_workers :: "(string \<times> worker) list"
  wp_max :: nat
  wp_next :: nat

definition reaped :: "int \<Rightarrow> worker \<Rightarrow> bool" where
  "reaped now w \<longleftrightarrow> \<not> worker_alive w \<or> \<not> wk_persistent w \<and> now - wk_last_used w > max_idle"

definition reap :: "int \<Rightarrow> worker_pool \<Rightarrow> worker_pool" where
  "reap now p = p\<lparr>wp_workers := filter (\<lambda>(_, w). \<not> reaped now w) (wp_workers p)\<rparr>"

text \<open>The least recently used ephemeral worker goes; a persistent one never does.\<close>

fun oldest_ephemeral :: "(string \<times> worker) list \<Rightarrow> (string \<times> worker) option" where
  "oldest_ephemeral [] = None"
| "oldest_ephemeral ((k, w) # ws) =
     (if wk_persistent w then oldest_ephemeral ws
      else (case oldest_ephemeral ws of
          None \<Rightarrow> Some (k, w)
        | Some (k', w') \<Rightarrow> if wk_last_used w' < wk_last_used w then Some (k', w') else Some (k, w)))"

definition evict_one :: "worker_pool \<Rightarrow> worker_pool" where
  "evict_one p = (case oldest_ephemeral (wp_workers p) of
     None \<Rightarrow> p | Some (k, _) \<Rightarrow> p\<lparr>wp_workers := dpop k (wp_workers p)\<rparr>)"

definition acquire_worker :: "int \<Rightarrow> string \<Rightarrow> bool \<Rightarrow> worker_pool \<Rightarrow> worker_pool \<times> worker" where
  "acquire_worker now key persistent p0 =
     (let p = reap now p0;
          fresh = \<lparr>wk_id = wp_next p, wk_persistent = persistent, wk_running = True, wk_calls = 0, wk_last_used = now\<rparr> in
      case dget (wp_workers p) key of
        Some w \<Rightarrow>
          if worker_alive w then (p, w)
          else (let p1 = p\<lparr>wp_workers := dpop key (wp_workers p)\<rparr>;
                    p2 = (if length (wp_workers p1) \<ge> wp_max p1 then evict_one p1 else p1)
                in (p2\<lparr>wp_workers := dset key fresh (wp_workers p2), wp_next := wp_next p2 + 1\<rparr>, fresh))
      | None \<Rightarrow>
          (let p2 = (if length (wp_workers p) \<ge> wp_max p then evict_one p else p)
           in (p2\<lparr>wp_workers := dset key fresh (wp_workers p2), wp_next := wp_next p2 + 1\<rparr>, fresh)))"

definition note_call :: "int \<Rightarrow> string \<Rightarrow> worker_pool \<Rightarrow> worker_pool" where
  "note_call now key p = (case dget (wp_workers p) key of
     None \<Rightarrow> p
   | Some w \<Rightarrow> p\<lparr>wp_workers := dset key (w\<lparr>wk_calls := wk_calls w + 1, wk_last_used := now\<rparr>) (wp_workers p)\<rparr>)"

text \<open>A call that passes its deadline closes the child: it may be in the middle of a request.\<close>

definition retire :: "string \<Rightarrow> worker_pool \<Rightarrow> worker_pool" where
  "retire key p = (case dget (wp_workers p) key of
     None \<Rightarrow> p
   | Some w \<Rightarrow> p\<lparr>wp_workers := dset key (w\<lparr>wk_running := False\<rparr>) (wp_workers p)\<rparr>)"

definition release_worker :: "string \<Rightarrow> worker_pool \<Rightarrow> worker_pool" where
  "release_worker key p = p\<lparr>wp_workers := dpop key (wp_workers p)\<rparr>"

definition shutdown_pool :: "worker_pool \<Rightarrow> worker_pool" where
  "shutdown_pool p = p\<lparr>wp_workers := []\<rparr>"

definition pool_ok :: "worker_pool \<Rightarrow> bool" where
  "pool_ok p \<longleftrightarrow> distinct (dkeys (wp_workers p)) \<and>
     (length (wp_workers p) \<le> wp_max p \<or> length (filter (\<lambda>(_, w). \<not> wk_persistent w) (wp_workers p)) \<le> 1)"

lemma oldest_ephemeral_Some: "oldest_ephemeral ws = Some (k, w) \<Longrightarrow> (k, w) \<in> set ws \<and> \<not> wk_persistent w"
  by (induction ws arbitrary: k w) (auto split: if_splits option.splits)

lemma oldest_ephemeral_None: "oldest_ephemeral ws = None \<Longrightarrow> (k, w) \<in> set ws \<Longrightarrow> wk_persistent w"
  by (induction ws) (auto split: if_splits option.splits)

lemma length_dset: "distinct (dkeys d) \<Longrightarrow> length (dset k v d) = (if k \<in> set (dkeys d) then length d else Suc (length d))"
  by (induction d) auto

lemma length_dpop: "distinct (dkeys d) \<Longrightarrow> k \<in> set (dkeys d) \<Longrightarrow> Suc (length (dpop k d)) = length d"
proof (induction d)
  case (Cons e d)
  then show ?case by (cases e) (auto simp: dpop_absent)
qed simp


definition ephemerals :: "(string \<times> worker) list \<Rightarrow> nat" where
  "ephemerals ws = length (filter (\<lambda>(_, w). \<not> wk_persistent w) ws)"

lemma filter_keys: "distinct (dkeys d) \<Longrightarrow> distinct (dkeys (filter P d))"
  by (induction d) (auto dest: set_mp)


lemma ephemerals_filter: "ephemerals (filter P ws) \<le> ephemerals ws"
  by (induction ws) (auto simp: ephemerals_def)

lemma reap_ok: "pool_ok p \<Longrightarrow> pool_ok (reap now p)"
proof -
  let ?f = "filter (\<lambda>(_, w). \<not> reaped now w) (wp_workers p)"
  assume "pool_ok p"
  then have d: "distinct (dkeys (wp_workers p))" and b: "length (wp_workers p) \<le> wp_max p \<or> ephemerals (wp_workers p) \<le> 1"
    by (simp_all add: pool_ok_def ephemerals_def)
  have "length ?f \<le> wp_max p \<or> ephemerals ?f \<le> 1"
    using b ephemerals_filter [of "\<lambda>(_, w). \<not> reaped now w" "wp_workers p"] by (meson length_filter_le order_trans)
  then show ?thesis using d by (simp add: pool_ok_def reap_def ephemerals_def filter_keys)
qed

lemma ephemerals_dpop:
  "distinct (dkeys ws) \<Longrightarrow> (k, w) \<in> set ws \<Longrightarrow> \<not> wk_persistent w \<Longrightarrow> Suc (ephemerals (dpop k ws)) = ephemerals ws"
proof (induction ws)
  case (Cons e ws)
  show ?case
  proof (cases "fst e = k")
    case True
    with Cons.prems have e: "e = (k, w)" by (cases e) force
    with Cons.prems(1) have "dpop k ws = ws" by (intro dpop_absent) simp
    with e Cons.prems(3) show ?thesis by (simp add: ephemerals_def)
  next
    case False
    with Cons.prems have "(k, w) \<in> set ws" "distinct (dkeys ws)" by (cases e; auto)+
    with Cons.IH Cons.prems(3) have "Suc (ephemerals (dpop k ws)) = ephemerals ws" by simp
    with False show ?thesis by (cases e) (auto simp: ephemerals_def split: if_splits)
  qed
qed simp

lemma ephemerals_add: "k \<notin> set (dkeys ws) \<Longrightarrow> ephemerals (dset k v ws) \<le> Suc (ephemerals ws)"
  by (induction ws) (auto simp: ephemerals_def)

lemma add_ok:
  assumes "pool_ok p" and k: "key \<notin> set (dkeys (wp_workers p))"
    and p2: "p2 = (if length (wp_workers p) \<ge> wp_max p then evict_one p else p)"
  shows "pool_ok (p2\<lparr>wp_workers := dset key fresh (wp_workers p2), wp_next := n\<rparr>)"
proof -
  have d: "distinct (dkeys (wp_workers p))" and b: "length (wp_workers p) \<le> wp_max p \<or> ephemerals (wp_workers p) \<le> 1"
    using assms(1) by (simp_all add: pool_ok_def ephemerals_def)
  show ?thesis
  proof (cases "length (wp_workers p) \<ge> wp_max p")
    case False
    then have "p2 = p" using p2 by simp
    with False d k show ?thesis by (simp add: pool_ok_def length_dset)
  next
    case True
    show ?thesis
    proof (cases "oldest_ephemeral (wp_workers p)")
      case None
      then have "filter (\<lambda>(_, w). \<not> wk_persistent w) (wp_workers p) = []" by (auto simp: filter_empty_conv dest: oldest_ephemeral_None)
      then have "ephemerals (dset key fresh (wp_workers p)) \<le> 1"
        using ephemerals_add [OF k, of fresh] by (simp add: ephemerals_def)
      moreover have "p2 = p" using p2 None by (simp add: evict_one_def)
      ultimately show ?thesis using d by (simp add: pool_ok_def ephemerals_def)
    next
      case (Some x)
      obtain k' w where x: "x = (k', w)" by (cases x)
      from oldest_ephemeral_Some Some x have o': "(k', w) \<in> set (wp_workers p)" "\<not> wk_persistent w" by auto
      let ?ws = "dpop k' (wp_workers p)"
      have p2': "p2 = p\<lparr>wp_workers := ?ws\<rparr>" using p2 True Some x by (simp add: evict_one_def)
      have kin: "k' \<in> set (dkeys (wp_workers p))" using o'(1) by force
      have d': "distinct (dkeys ?ws)" using d by simp
      have kn: "key \<notin> set (dkeys ?ws)" unfolding dkeys_dpop using k by blast
      have len: "length (dset key fresh ?ws) = length (wp_workers p)" using length_dset [OF d'] kn length_dpop [OF d kin] by simp
      have "ephemerals (dset key fresh ?ws) \<le> ephemerals (wp_workers p)"
        using ephemerals_add [OF kn, of fresh] ephemerals_dpop [OF d o'] by simp
      with len b d' show ?thesis unfolding pool_ok_def p2' ephemerals_def [symmetric] by auto
    qed
  qed
qed

lemma reap_alive: "dget (wp_workers (reap now p)) k = Some w \<Longrightarrow> distinct (dkeys (wp_workers p)) \<Longrightarrow> worker_alive w"
  by (auto simp: reap_def reaped_def dest!: map_of_SomeD)

lemma acquire_worker_ok:
  assumes ok: "pool_ok p0" and a: "acquire_worker now key persistent p0 = (p, w)"
  shows "pool_ok p \<and> worker_alive w \<and> dget (wp_workers p) key = Some w"
proof -
  note rok = reap_ok [OF ok, of now]
  show ?thesis
  proof (cases "dget (wp_workers (reap now p0)) key")
    case (Some w0)
    with reap_alive [OF Some] ok have "worker_alive w0" by (simp add: pool_ok_def)
    with a Some rok show ?thesis by (simp add: acquire_worker_def Let_def)
  next
    case None
    then have "key \<notin> set (dkeys (wp_workers (reap now p0)))" by (simp add: map_of_eq_None_iff)
    from add_ok [OF rok this refl] a None show ?thesis
      by (auto simp: acquire_worker_def Let_def worker_alive_def max_calls_def)
  qed
qed

text \<open>A running service keeps its child whatever else is acquired.\<close>

lemma acquire_keeps_persistent:
  assumes ok: "pool_ok p0" and w: "dget (wp_workers p0) k = Some w" "wk_persistent w" "wk_running w"
    and a: "acquire_worker now key persistent p0 = (p, v)"
  shows "dget (wp_workers p) k = Some w"
proof -
  let ?p = "reap now p0"
  have mem: "(k, w) \<in> set (wp_workers ?p)" using w by (auto simp: reap_def reaped_def worker_alive_def dest: map_of_SomeD)
  have d: "distinct (dkeys (wp_workers ?p))" using reap_ok [OF ok] by (simp add: pool_ok_def)
  from mem d have g: "dget (wp_workers ?p) k = Some w" by simp
  have ev: "dget (wp_workers (evict_one ?p)) k = Some w"
  proof (cases "oldest_ephemeral (wp_workers ?p)")
    case (Some x)
    obtain k' w' where x: "x = (k', w')" by (cases x)
    with oldest_ephemeral_Some Some have "(k', w') \<in> set (wp_workers ?p)" "\<not> wk_persistent w'" by auto
    with mem w(2) have "k' \<noteq> k" using eq_key_imp_eq_value [OF d] by blast
    with g Some x show ?thesis by (simp add: evict_one_def)
  qed (simp add: evict_one_def g)
  show ?thesis
  proof (cases "dget (wp_workers ?p) key")
    case (Some w0)
    with reap_alive [OF Some] ok have "worker_alive w0" by (simp add: pool_ok_def)
    with a Some g show ?thesis by (simp add: acquire_worker_def Let_def)
  next
    case None
    with g have "k \<noteq> key" by auto
    with a None g ev show ?thesis by (auto simp: acquire_worker_def Let_def split: if_splits)
  qed
qed

end
