(* ===== verification/TokenFilter.thy ===== *)
theory TokenFilter
  imports Prelude "HOL-Library.Sublist"
begin

text \<open>
  \<open>runtime/token_stripper.py\<close>, the streaming filter: thinking blocks and end-of-stream tokens are
  removed from a text that arrives in fragments, and a tail that may be the beginning of a tag is
  withheld. The theory ends with the filter's main property: how the text is cut into fragments
  does not matter.
\<close>

section \<open>The filter\<close>

definition openers :: "string list" where "openers = [''<think>'', ''<thinking>'']"
definition closers :: "string list" where "closers = [''</think>'', ''</thinking>'']"
definition dropped :: "string list" where "dropped = [''<|im_end|>'', ''<|eot_id|>'']"
definition all_tags :: "string list" where "all_tags = openers @ closers @ dropped"

text \<open>\<open>text.find(tag)\<close>.\<close>

fun find_sub :: "string \<Rightarrow> string \<Rightarrow> nat option" where
  "find_sub t [] = (if t = [] then Some 0 else None)"
| "find_sub t (c # cs) = (if prefix t (c # cs) then Some 0 else map_option Suc (find_sub t cs))"

definition earlier :: "string \<Rightarrow> string \<Rightarrow> (nat \<times> string) option \<Rightarrow> (nat \<times> string) option" where
  "earlier str tag best =
     (case find_sub tag str of
        None \<Rightarrow> best
      | Some i \<Rightarrow> (case best of None \<Rightarrow> Some (i, tag) | Some (j, t) \<Rightarrow> if i < j then Some (i, tag) else best))"

definition find_first :: "string \<Rightarrow> string list \<Rightarrow> (nat \<times> string) option" where
  "find_first str tags = fold (earlier str) tags None"

definition longest_tag :: nat where "longest_tag = fold max (map length all_tags) 0"

text \<open>The longest suffix, of at most one character less than the longest tag, that starts some tag.\<close>

definition partial_tag_tail :: "string \<Rightarrow> string" where
  "partial_tag_tail str =
     (case find (\<lambda>n. list_ex (prefix (drop (length str - n) str)) all_tags)
             (rev [1..<Suc (min (length str) (longest_tag - 1))]) of
        None \<Rightarrow> [] | Some n \<Rightarrow> drop (length str - n) str)"

record token_filter =
  tk_tail :: string
  tk_think :: bool
  tk_emitted :: bool

definition new_filter :: token_filter where
  "new_filter = \<lparr>tk_tail = [], tk_think = False, tk_emitted = False\<rparr>"

lemma find_first_mem: "find_first str tags = Some (i, t) \<Longrightarrow> t \<in> set tags"
proof -
  have "fold (earlier str) tags b = Some (i, t) \<Longrightarrow> t \<in> set tags \<or> b = Some (i, t)" for b
    by (induction tags arbitrary: b) (fastforce simp: earlier_def split: option.splits if_splits)+
  then show "find_first str tags = Some (i, t) \<Longrightarrow> t \<in> set tags" by (force simp: find_first_def)
qed

lemma tag_nonempty: "t \<in> set all_tags \<Longrightarrow> t \<noteq> []"
  by (auto simp: all_tags_def openers_def closers_def dropped_def)

text \<open>The loop of \<open>feed\<close>: what it displays, whether it ends inside a thinking block, and the tail it keeps.\<close>

function scan :: "bool \<Rightarrow> string \<Rightarrow> string \<times> bool \<times> string" where
  "scan think str =
     (if str = [] then ([], think, [])
      else if think then
        (case find_first str closers of
           None \<Rightarrow> ([], True, partial_tag_tail str)
         | Some (i, t) \<Rightarrow> scan False (drop (i + length t) str))
      else
        (case find_first str all_tags of
           None \<Rightarrow> (let keep = partial_tag_tail str in (take (length str - length keep) str, False, keep))
         | Some (i, t) \<Rightarrow>
             (case scan (t \<in> set openers) (drop (i + length t) str) of
                (out, think', tail) \<Rightarrow> (take i str @ out, think', tail))))"
  by pat_completeness auto

termination
proof (relation "measure (length \<circ> snd)")
  fix think str i t x
  assume "str \<noteq> []" and "find_first str closers = Some x" and "(i, t) = x"
  then have "t \<noteq> []" using tag_nonempty [of t] by (auto simp: all_tags_def dest!: find_first_mem)
  with \<open>str \<noteq> []\<close> show "((False, drop (i + length t) str), think, str) \<in> measure (length \<circ> snd)"
    by (cases t) auto
next
  fix think str i t x
  assume "str \<noteq> []" and "find_first str all_tags = Some x" and "(i, t) = x"
  then have "t \<noteq> []" using tag_nonempty [of t] by (auto dest!: find_first_mem)
  with \<open>str \<noteq> []\<close> show "((t \<in> set openers, drop (i + length t) str), think, str) \<in> measure (length \<circ> snd)"
    by (cases t) auto
qed simp

declare scan.simps [simp del]

definition feed :: "string \<Rightarrow> token_filter \<Rightarrow> string \<times> token_filter" where
  "feed fragment st =
     (case scan (tk_think st) (tk_tail st @ fragment) of
        (out, think, tail) \<Rightarrow>
          (let emitted = (if tk_emitted st then out else lstrip_when is_space out)
           in (emitted, \<lparr>tk_tail = tail, tk_think = think, tk_emitted = tk_emitted st \<or> emitted \<noteq> []\<rparr>)))"

definition flush :: "token_filter \<Rightarrow> string \<times> token_filter" where
  "flush st =
     (let st1 = st\<lparr>tk_tail := []\<rparr> in
      if tk_think st \<or> tk_tail st = [] then ([], st1)
      else (let tail = (if tk_emitted st then tk_tail st else lstrip_when is_space (tk_tail st))
            in (tail, st1\<lparr>tk_emitted := tk_emitted st \<or> tail \<noteq> []\<rparr>)))"

text \<open>A whole response: its fragments in turn, then the end of the stream.\<close>

fun feed_all :: "string list \<Rightarrow> token_filter \<Rightarrow> string \<times> token_filter" where
  "feed_all [] st = ([], st)"
| "feed_all (f # fs) st = (case feed f st of (out, st1) \<Rightarrow> (case feed_all fs st1 of (rest, st2) \<Rightarrow> (out @ rest, st2)))"

definition displayed :: "string list \<Rightarrow> string" where
  "displayed fragments = (case feed_all fragments new_filter of (out, st) \<Rightarrow> out @ fst (flush st))"


section \<open>The reference: a character at a time\<close>

definition relevant :: "bool \<Rightarrow> string list" where
  "relevant think = (if think then closers else all_tags)"

definition starts_tag :: "string \<Rightarrow> bool" where
  "starts_tag k \<longleftrightarrow> k \<noteq> [] \<and> length k < longest_tag \<and> list_ex (prefix k) all_tags"

text \<open>What has been displayed, whether a thinking block is open, and the beginning of a tag read so far.\<close>

type_synonym automaton = "string \<times> bool \<times> string"

fun advance :: "char \<Rightarrow> automaton \<Rightarrow> automaton" where
  "advance c (out, think, buf) =
     (let b = buf @ [c] in
      if b \<in> set (relevant think) then (out, if think then False else b \<in> set openers, [])
      else if starts_tag b then (out, think, b)
      else if c = CHR ''<'' then (if think then out else out @ buf, think, [c])
      else (if think then out else out @ b, think, []))"

definition run_automaton :: "automaton \<Rightarrow> string \<Rightarrow> automaton" where
  "run_automaton st s = fold advance s st"

lemma run_automaton_append: "run_automaton st (x @ y) = run_automaton (run_automaton st x) y"
  by (simp add: run_automaton_def)

text \<open>What is known of the tags: they open with an angle bracket and hold no other, and none is part of another.\<close>

lemma tag_shape: "t \<in> set all_tags \<Longrightarrow> t \<noteq> [] \<and> hd t = CHR ''<'' \<and> CHR ''<'' \<notin> set (tl t) \<and> length t \<le> longest_tag"
  by (auto simp: all_tags_def openers_def closers_def dropped_def longest_tag_def)

lemma tags_prefix_free: "t \<in> set all_tags \<Longrightarrow> u \<in> set all_tags \<Longrightarrow> prefix t u \<Longrightarrow> t = u"
  by (auto simp: all_tags_def openers_def closers_def dropped_def)

lemma relevant_tags: "set (relevant think) \<subseteq> set all_tags"
  by (auto simp: relevant_def all_tags_def)

lemma starts_tag_shape: "starts_tag k \<Longrightarrow> hd k = CHR ''<'' \<and> CHR ''<'' \<notin> set (tl k)"
proof -
  assume k: "starts_tag k"
  then obtain t r where "t \<in> set all_tags" "t = k @ r" "k \<noteq> []" by (auto simp: starts_tag_def list_ex_iff prefix_def)
  with tag_shape [of t] show ?thesis by (cases k) auto
qed

lemma starts_tag_prefix: "starts_tag (k @ [c]) \<Longrightarrow> k \<noteq> [] \<Longrightarrow> starts_tag k"
  by (auto simp: starts_tag_def list_ex_iff prefix_def)

lemma take_suffix: "suffix k s \<Longrightarrow> take (length s - length k) s @ k = s"
  by (auto simp: suffix_def)

text \<open>Two suffixes of a text that each begin a tag are the same.\<close>

lemma bracket_suffix_unique:
  assumes "suffix k s" "suffix l s" "k \<noteq> []" "l \<noteq> []" "hd k = CHR ''<''" "CHR ''<'' \<notin> set (tl k)"
    "hd l = CHR ''<''" "CHR ''<'' \<notin> set (tl l)"
  shows "k = l"
proof -
  have main: "x = y" if "suffix x y" "x \<noteq> []" "y \<noteq> []" "hd x = CHR ''<''" "CHR ''<'' \<notin> set (tl y)" for x y :: string
  proof -
    from that(1) obtain z where z: "y = z @ x" by (auto simp: suffix_def)
    show ?thesis
    proof (cases z)
      case (Cons a zs)
      with z that have "CHR ''<'' \<in> set (tl y)" by (cases x) auto
      with that show ?thesis by simp
    qed (use z in simp)
  qed
  from suffix_same_cases [OF assms(1,2)] main [of k l] main [of l k] assms show ?thesis by auto
qed

lemma partial_tail_unique:
  assumes "suffix k s" and "starts_tag k"
  shows "partial_tag_tail s = k"
proof -
  let ?ns = "rev [1..<Suc (min (length s) (longest_tag - 1))]"
  let ?p = "\<lambda>n. list_ex (prefix (drop (length s - n) s)) all_tags"
  from assms(1) have d: "drop (length s - length k) s = k" and l: "length k \<le> length s"
    by (auto simp: suffix_def)
  have lk: "0 < length k" "length k < longest_tag" using assms(2) by (auto simp: starts_tag_def)
  have "length k \<in> set ?ns" unfolding set_rev set_upt atLeastLessThan_iff using lk l by linarith
  moreover have "?p (length k)" using assms(2) d by (simp add: starts_tag_def)
  ultimately have "find ?p ?ns \<noteq> None" unfolding find_None_iff by blast
  then obtain n where f: "find ?p ?ns = Some n" by blast
  then have n: "n \<in> set ?ns" "?p n" by (auto dest: find_SomeD)
  then have "starts_tag (drop (length s - n) s)" by (auto simp: starts_tag_def)
  with bracket_suffix_unique [of "drop (length s - n) s" s k] assms starts_tag_shape have "drop (length s - n) s = k"
    by (auto simp: starts_tag_def suffix_drop)
  with f show ?thesis by (simp add: partial_tag_tail_def)
qed

lemma partial_tail_none:
  assumes "\<And>k. suffix k s \<Longrightarrow> \<not> starts_tag k"
  shows "partial_tag_tail s = []"
proof -
  have "\<not> list_ex (prefix (drop (length s - n) s)) all_tags" if "n \<in> set (rev [1..<Suc (min (length s) (longest_tag - 1))])" for n
    using that assms [of "drop (length s - n) s"] by (auto simp: starts_tag_def suffix_drop)
  then show ?thesis by (auto simp: partial_tag_tail_def split: option.split dest!: find_SomeD)
qed

text \<open>A text without a relevant tag is displayed up to its partial tail.\<close>

lemma run_plain:
  assumes "\<And>t. t \<in> set (relevant think) \<Longrightarrow> \<not> sublist t s"
  shows "run_automaton (out, think, []) s =
      (if think then out else out @ take (length s - length (partial_tag_tail s)) s, think, partial_tag_tail s) \<and>
    suffix (partial_tag_tail s) s \<and> (partial_tag_tail s = [] \<or> starts_tag (partial_tag_tail s)) \<and>
    (partial_tag_tail s = [] \<longrightarrow> (\<forall>k. suffix k s \<longrightarrow> \<not> starts_tag k))"
  using assms
proof (induction s rule: rev_induct)
  case Nil
  have "partial_tag_tail [] = []" by (rule partial_tail_none) (simp add: starts_tag_def)
  then show ?case by (simp add: run_automaton_def starts_tag_def)
next
  case (snoc c s)
  let ?k = "partial_tag_tail s" and ?b = "partial_tag_tail s @ [c]"
  have ns: "\<not> sublist t s" if "t \<in> set (relevant think)" for t
    using snoc.prems [OF that] by (metis append.assoc sublist_def)
  note ih = snoc.IH [OF ns, simplified]
  then have sfx: "suffix ?k s" and st: "?k = [] \<or> starts_tag ?k"
    and none: "?k = [] \<longrightarrow> (\<forall>k. suffix k s \<longrightarrow> \<not> starts_tag k)" by simp_all
  have sb: "suffix ?b (s @ [c])" using sfx by (auto simp: suffix_def)
  have nr: "?b \<notin> set (relevant think)" using snoc.prems [of ?b] sb by (auto dest: suffix_imp_sublist)
  have r: "run_automaton (out, think, []) (s @ [c]) =
      advance c (if think then out else out @ take (length s - length ?k) s, think, ?k)"
    using ih by (simp add: run_automaton_def)
  have split: "take (length s - length ?k) s @ ?k = s" using sfx by (rule take_suffix)
  show ?case
  proof (cases "starts_tag ?b")
    case True
    with sb have p: "partial_tag_tail (s @ [c]) = ?b" by (rule partial_tail_unique)
    with True sb r nr show ?thesis by (simp add: Let_def)
  next
    case nb: False
    show ?thesis
    proof (cases "c = CHR ''<''")
      case True
      have lt: "starts_tag [c]" using True by (simp add: starts_tag_def longest_tag_def all_tags_def openers_def closers_def dropped_def)
      then have p: "partial_tag_tail (s @ [c]) = [c]" by (intro partial_tail_unique) (auto simp: suffix_def)
      with True nb lt r nr split show ?thesis by (auto simp: Let_def suffix_def)
    next
      case False
      have n: "\<not> starts_tag k" if "suffix k (s @ [c])" for k
      proof
        assume k: "starts_tag k"
        then have "k \<noteq> []" by (simp add: starts_tag_def)
        with that obtain l where l: "k = l @ [c]" "suffix l s" by (auto simp: suffix_snoc)
        have "l \<noteq> []" using starts_tag_shape [OF k] False l(1) by auto
        with k l have "starts_tag l" by (auto dest: starts_tag_prefix)
        with l(2) have "?k = l" by (rule partial_tail_unique)
        with k l nb show False by simp
      qed
      have p: "partial_tag_tail (s @ [c]) = []" using n by (rule partial_tail_none)
      have "out @ take (length s - length ?k) s @ ?k @ [c] = out @ s @ [c]" using split by (metis append.assoc)
      with False nb p n r nr show ?thesis by (simp add: Let_def)
    qed
  qed
qed

text \<open>The searches: the first occurrence of a tag, and the first of several tags.\<close>

lemma find_sub_occurs: "\<exists>j. find_sub t (x @ t @ y) = Some j \<and> j \<le> length x"
proof (induction x)
  case Nil
  have "prefix t (t @ y)" by simp
  then have "find_sub t (t @ y) = Some 0" by (cases "t @ y") auto
  then show ?case by simp
next
  case (Cons c x)
  then show ?case by auto
qed

lemma find_sub_Some: "find_sub t s = Some i \<Longrightarrow> \<exists>a b. s = a @ t @ b \<and> length a = i"
proof (induction s arbitrary: i)
  case (Cons c cs)
  show ?case
  proof (cases "prefix t (c # cs)")
    case True
    with Cons.prems show ?thesis by (auto simp: prefix_def)
  next
    case False
    with Cons.prems obtain j where j: "find_sub t cs = Some j" "i = Suc j" by auto
    from Cons.IH [OF j(1)] obtain a b where "cs = a @ t @ b" "length a = j" by blast
    with j show ?thesis by (intro exI [of _ "c # a"] exI [of _ b]) simp
  qed
qed (auto split: if_splits)

lemma find_sub_None: "find_sub t s = None \<Longrightarrow> \<not> sublist t s"
  using find_sub_occurs [of t] by (metis option.distinct(1) sublist_def)

lemma find_first_fold:
  assumes "fold (earlier str) tags b = r"
  shows "case r of
       None \<Rightarrow> b = None \<and> (\<forall>u \<in> set tags. find_sub u str = None)
     | Some (i, t) \<Rightarrow> (b = Some (i, t) \<or> t \<in> set tags \<and> find_sub t str = Some i) \<and>
         (\<forall>u \<in> set tags. \<forall>j. find_sub u str = Some j \<longrightarrow> i \<le> j) \<and> (\<forall>j u. b = Some (j, u) \<longrightarrow> i \<le> j)"
  using assms
proof (induction tags arbitrary: b)
  case (Cons u us)
  have ih: "fold (earlier str) us (earlier str u b) = r" using Cons.prems by simp
  note ih = Cons.IH [OF ih]
  show ?case
  proof (cases r)
    case None
    with ih have "earlier str u b = None" by simp
    then have "b = None" "find_sub u str = None" by (auto simp: earlier_def split: option.splits if_splits)
    with None ih show ?thesis by simp
  next
    case (Some x)
    obtain i t where x: "x = (i, t)" by (cases x)
    from ih Some x have e: "earlier str u b = Some (i, t) \<or> t \<in> set us \<and> find_sub t str = Some i"
      and us: "\<forall>v \<in> set us. \<forall>j. find_sub v str = Some j \<longrightarrow> i \<le> j"
      and least: "\<forall>j v. earlier str u b = Some (j, v) \<longrightarrow> i \<le> j" by simp_all
    have "earlier str u b = Some (i, t) \<Longrightarrow> b = Some (i, t) \<or> t = u \<and> find_sub t str = Some i"
      by (auto simp: earlier_def split: option.splits if_splits)
    moreover have "find_sub u str = Some j \<Longrightarrow> i \<le> j" for j
      using least by (fastforce simp: earlier_def split: option.splits if_splits)
    moreover have "b = Some (j, v) \<Longrightarrow> i \<le> j" for j v
      using least by (cases "find_sub u str") (fastforce simp: earlier_def split: if_splits)+
    ultimately show ?thesis using e us by (auto simp: Some x)
  qed
qed (auto split: option.split)

lemma find_first_None: "find_first str tags = None \<Longrightarrow> u \<in> set tags \<Longrightarrow> \<not> sublist u str"
  using find_first_fold [of str tags None None] find_sub_None by (auto simp: find_first_def)

lemma tag_starts_earlier:
  assumes t: "t \<in> set all_tags" and u: "u \<in> set all_tags" and xy: "a @ butlast t = x @ u @ y"
  shows "length x < length a"
proof (rule ccontr)
  assume "\<not> length x < length a"
  with xy obtain z where z: "x = a @ z" "butlast t = z @ u @ y" by (auto simp: append_eq_append_conv2)
  note shape = tag_shape [OF t] tag_shape [OF u]
  have "z = []"
  proof (cases z)
    case (Cons c zs)
    with z shape have "CHR ''<'' \<in> set (tl (butlast t))" by (cases u) auto
    then have "CHR ''<'' \<in> set (tl t)" by (cases t) (auto dest: in_set_butlastD split: if_splits)
    with shape show ?thesis by simp
  qed
  with z shape have "prefix u t" by (metis append_butlast_last_id append.assoc append_Nil prefixI)
  with tags_prefix_free [OF u t] have "u = t" by simp
  with z \<open>z = []\<close> have "length t \<le> length (butlast t)" by simp
  moreover have "0 < length t" using shape by simp
  ultimately show False unfolding length_butlast by linarith
qed

lemma find_first_Some:
  assumes "find_first str tags = Some (i, t)" and tags: "set tags \<subseteq> set all_tags"
  obtains a b where "str = a @ t @ b" "length a = i" "t \<in> set tags"
    "\<And>u. u \<in> set tags \<Longrightarrow> \<not> sublist u (a @ butlast t)"
proof -
  from assms(1) find_first_fold [of str tags None "Some (i, t)"]
  have t: "t \<in> set tags" "find_sub t str = Some i" and least: "\<And>u j. u \<in> set tags \<Longrightarrow> find_sub u str = Some j \<Longrightarrow> i \<le> j"
    by (auto simp: find_first_def)
  from find_sub_Some [OF t(2)] obtain a b where ab: "str = a @ t @ b" "length a = i" by blast
  have "\<not> sublist u (a @ butlast t)" if u: "u \<in> set tags" for u
  proof
    assume "sublist u (a @ butlast t)"
    then obtain x y where xy: "a @ butlast t = x @ u @ y" by (auto simp: sublist_def)
    have tu: "t \<in> set all_tags" "u \<in> set all_tags" using t u tags by auto
    have "str = (a @ butlast t) @ last t # b" using ab tag_shape [OF tu(1)] by simp
    then have "str = x @ u @ (y @ last t # b)" unfolding xy by simp
    with find_sub_occurs [of u x "y @ last t # b"] obtain j where "find_sub u str = Some j" "j \<le> length x" by metis
    with least [OF u] ab have "length a \<le> length x" by fastforce
    with tag_starts_earlier [OF tu xy] show False by simp
  qed
  with that ab t show thesis by blast
qed

text \<open>Reading a text up to the end of its first tag.\<close>

lemma run_first:
  assumes t: "t \<in> set (relevant think)" and none: "\<And>u. u \<in> set (relevant think) \<Longrightarrow> \<not> sublist u (a @ butlast t)"
  shows "run_automaton (out, think, []) (a @ t) = (if think then out else out @ a, if think then False else t \<in> set openers, [])"
proof -
  have tag: "t \<in> set all_tags" using t relevant_tags by blast
  note shape = tag_shape [OF tag]
  have two: "length t \<ge> 2" using tag by (auto simp: all_tags_def openers_def closers_def dropped_def)
  then have "butlast t \<noteq> []" by (cases t) auto
  moreover have "length (butlast t) < longest_tag" unfolding length_butlast using two shape by linarith
  ultimately have st: "starts_tag (butlast t)"
    using tag by (auto simp: starts_tag_def list_ex_iff prefixeq_butlast intro!: bexI [of _ t])
  have p: "partial_tag_tail (a @ butlast t) = butlast t" using st by (intro partial_tail_unique) (auto simp: suffix_def)
  have "run_automaton (out, think, []) (a @ butlast t) = (if think then out else out @ a, think, butlast t)"
    using run_plain [OF none, of think out] by (simp add: p)
  then have "run_automaton (out, think, []) ((a @ butlast t) @ [last t]) =
      advance (last t) (if think then out else out @ a, think, butlast t)"
    unfolding run_automaton_append by (simp add: run_automaton_def)
  with shape t show ?thesis by simp
qed


section \<open>The filter computes the reference\<close>

lemma scan_is_run: "scan think s = (o', think', tail) \<Longrightarrow> run_automaton (out, think, []) s = (out @ o', think', tail)"
proof (induction think s arbitrary: out o' think' tail rule: scan.induct)
  case (1 think s)
  show ?case
  proof (cases "s = []")
    case True
    with 1(3) show ?thesis by (simp add: scan.simps run_automaton_def)
  next
    case ne: False
    show ?thesis
    proof (cases think)
      case True
      show ?thesis
      proof (cases "find_first s closers")
        case None
        then have "\<not> sublist u s" if "u \<in> set (relevant think)" for u
          using find_first_None that True by (auto simp: relevant_def)
        from run_plain [OF this, of think out] ne True None 1(3) show ?thesis by (simp add: scan.simps [of True s] scan.simps [of False s])
      next
        case (Some x)
        obtain i t where x: "x = (i, t)" by (cases x)
        have sub: "set closers \<subseteq> set all_tags" by (auto simp: all_tags_def)
        from Some x obtain a b where ab: "s = a @ t @ b" "length a = i" "t \<in> set closers"
          and none: "\<And>u. u \<in> set closers \<Longrightarrow> \<not> sublist u (a @ butlast t)"
          using find_first_Some [OF _ sub] by metis
        have "scan False (drop (i + length t) s) = (o', think', tail)"
          using 1(3) ne True Some x by (simp add: scan.simps [of True s])
        moreover have "drop (i + length t) s = b" using ab by simp
        ultimately have "run_automaton (out, False, []) b = (out @ o', think', tail)"
          using 1(1) [OF ne True Some x [symmetric]] by simp
        moreover have "run_automaton (out, think, []) (a @ t) = (out, False, [])"
          using run_first [of t think a out] ab(3) none True by (simp add: relevant_def)
        ultimately show ?thesis using ab(1) by (metis append.assoc run_automaton_append)
      qed
    next
      case False
      show ?thesis
      proof (cases "find_first s all_tags")
        case None
        then have "\<not> sublist u s" if "u \<in> set (relevant think)" for u
          using find_first_None that False by (auto simp: relevant_def)
        from run_plain [OF this, of think out] ne False None 1(3) show ?thesis by (auto simp: scan.simps [of True s] scan.simps [of False s] Let_def)
      next
        case (Some x)
        obtain i t where x: "x = (i, t)" by (cases x)
        from Some x obtain a b where ab: "s = a @ t @ b" "length a = i" "t \<in> set all_tags"
          and none: "\<And>u. u \<in> set all_tags \<Longrightarrow> \<not> sublist u (a @ butlast t)"
          using find_first_Some [OF _ order.refl] by metis
        obtain o1 where s1: "scan (t \<in> set openers) (drop (i + length t) s) = (o1, think', tail)" and o1: "o' = take i s @ o1"
          using 1(3) ne False Some x by (auto simp: scan.simps [of False s] split: prod.splits)
        have o': "o' = a @ o1" using o1 ab by simp
        have "drop (i + length t) s = b" using ab by simp
        with s1 1(2) [OF ne False Some x [symmetric]] have "run_automaton (out @ a, t \<in> set openers, []) b = (out @ a @ o1, think', tail)"
          by simp
        moreover have "run_automaton (out, think, []) (a @ t) = (out @ a, t \<in> set openers, [])"
          using run_first [of t think a out] ab(3) none False by (simp add: relevant_def)
        ultimately show ?thesis using ab(1) o' by (metis append.assoc run_automaton_append)
      qed
    qed
  qed
qed


text \<open>The tail a state keeps is one the reference would also hold.\<close>

definition good :: "token_filter \<Rightarrow> bool" where
  "good st \<longleftrightarrow> run_automaton ([], tk_think st, []) (tk_tail st) = ([], tk_think st, tk_tail st)"

lemma run_out: "run_automaton (x @ out, think, buf) s = (case run_automaton (out, think, buf) s of (o', th, k) \<Rightarrow> (x @ o', th, k))"
proof (induction s arbitrary: out think buf)
  case (Cons c s)
  obtain o1 th k where a: "advance c (out, think, buf) = (o1, th, k)" by (cases "advance c (out, think, buf)")
  then have "advance c (x @ out, think, buf) = (x @ o1, th, k)" by (auto simp: Let_def split: if_splits)
  with a Cons.IH [of o1 th k] show ?case by (simp add: run_automaton_def del: advance.simps)
qed (simp add: run_automaton_def)

lemma scan_tail_good: "scan think s = (o', think', tail) \<Longrightarrow> run_automaton (out, think', []) tail = (out, think', tail)"
proof (induction think s arbitrary: o' rule: scan.induct)
  case (1 think s)
  have keep: "run_automaton (out, think, []) (partial_tag_tail s) = (out, think, partial_tag_tail s)"
    if none: "\<And>u. u \<in> set (relevant think) \<Longrightarrow> \<not> sublist u s"
  proof (cases "partial_tag_tail s = []")
    case False
    from run_plain [OF none, of think "[]"] False have k: "suffix (partial_tag_tail s) s" "starts_tag (partial_tag_tail s)" by auto
    then have "\<not> sublist u (partial_tag_tail s)" if "u \<in> set (relevant think)" for u
      using none [OF that] by (metis append.assoc sublist_def suffix_def)
    note r = run_plain [OF this, of think out]
    have "partial_tag_tail (partial_tag_tail s) = partial_tag_tail s" using k(2) by (intro partial_tail_unique) auto
    with r show ?thesis by simp
  qed (simp add: run_automaton_def)
  show ?case
  proof (cases "s = []")
    case True
    with 1(3) show ?thesis by (simp add: scan.simps run_automaton_def)
  next
    case ne: False
    show ?thesis
    proof (cases "find_first s (relevant think)")
      case None
      then have "run_automaton (out, think, []) (partial_tag_tail s) = (out, think, partial_tag_tail s)"
        by (intro keep find_first_None)
      with None ne 1(3) show ?thesis
        by (cases think) (auto simp: scan.simps [of True s] scan.simps [of False s] relevant_def Let_def)
    next
      case (Some x)
      obtain i t where x: "x = (i, t)" by (cases x)
      show ?thesis
      proof (cases think)
        case True
        with Some have f: "find_first s closers = Some x" by (simp add: relevant_def)
        have "scan False (drop (i + length t) s) = (o', think', tail)"
          using 1(3) ne True f x by (simp add: scan.simps [of True s] scan.simps [of False s])
        then show ?thesis by (rule 1(1) [OF ne True f x [symmetric]])
      next
        case False
        with Some have f: "find_first s all_tags = Some x" by (simp add: relevant_def)
        obtain o1 where "scan (t \<in> set openers) (drop (i + length t) s) = (o1, think', tail)"
          using 1(3) ne False f x by (auto simp: scan.simps [of True s] scan.simps [of False s] split: prod.splits)
        then show ?thesis by (rule 1(2) [OF ne False f x [symmetric]])
      qed
    qed
  qed
qed

text \<open>Leading whitespace, trimmed until something has been displayed.\<close>

lemma lstrip_append:
  "lstrip_when p (x @ y) = (if lstrip_when p x = [] then lstrip_when p y else lstrip_when p x @ y)"
  by (induction x) (auto simp: lstrip_when_def)

definition trimmed :: "string \<Rightarrow> string" where
  "trimmed s = lstrip_when is_space s"

text \<open>A state whose output so far is the trimming of \<open>raw\<close>.\<close>

definition shown :: "string \<Rightarrow> token_filter \<Rightarrow> bool" where
  "shown raw st \<longleftrightarrow> tk_emitted st = (trimmed raw \<noteq> [])"

lemma feed_is_run:
  assumes "feed f st = (o', st')" and "good st" and "shown raw st"
  shows "\<exists>raw'. run_automaton (raw, tk_think st, tk_tail st) f = (raw', tk_think st', tk_tail st') \<and> good st' \<and> shown raw' st' \<and>
    trimmed raw' = trimmed raw @ o'"
proof -
  obtain out th tl where sc: "scan (tk_think st) (tk_tail st @ f) = (out, th, tl)"
    by (cases "scan (tk_think st) (tk_tail st @ f)")
  have st': "st' = \<lparr>tk_tail = tl, tk_think = th, tk_emitted = tk_emitted st \<or> o' \<noteq> []\<rparr>"
    and o': "o' = (if tk_emitted st then out else lstrip_when is_space out)"
    using assms(1) sc by (auto simp: feed_def Let_def)
  have "run_automaton (raw, tk_think st, []) (tk_tail st) = (raw, tk_think st, tk_tail st)"
    using assms(2) run_out [of raw "[]" "tk_think st" "[]"] by (simp add: good_def)
  with scan_is_run [OF sc, of raw] have "run_automaton (raw, tk_think st, tk_tail st) f = (raw @ out, th, tl)"
    by (simp add: run_automaton_append)
  moreover have "trimmed (raw @ out) = trimmed raw @ o'"
    using assms(3) o' lstrip_append [of is_space raw out] by (auto simp: shown_def trimmed_def)
  moreover have "good st'" using scan_tail_good [OF sc, of "[]"] by (simp add: good_def st')
  ultimately show ?thesis using assms(3) by (intro exI [of _ "raw @ out"]) (auto simp: st' shown_def)
qed

lemma feed_all_is_run:
  assumes "feed_all fs st = (o', st')" and "good st" and "shown raw st"
  shows "\<exists>raw'. run_automaton (raw, tk_think st, tk_tail st) (concat fs) = (raw', tk_think st', tk_tail st') \<and> shown raw' st' \<and>
    trimmed raw' = trimmed raw @ o'"
  using assms
proof (induction fs arbitrary: st o' raw)
  case Nil
  then show ?case by (simp add: run_automaton_def)
next
  case (Cons f fs)
  obtain o1 st1 o2 where f: "feed f st = (o1, st1)" "feed_all fs st1 = (o2, st')" and o': "o' = o1 @ o2"
    using Cons.prems(1) by (auto split: prod.splits)
  from feed_is_run [OF f(1) Cons.prems(2,3)] obtain r1 where
    r1: "run_automaton (raw, tk_think st, tk_tail st) f = (r1, tk_think st1, tk_tail st1)" "good st1" "shown r1 st1" "trimmed r1 = trimmed raw @ o1"
    by blast
  from Cons.IH [OF f(2) r1(2,3)] obtain r2 where
    "run_automaton (r1, tk_think st1, tk_tail st1) (concat fs) = (r2, tk_think st', tk_tail st')" "shown r2 st'" "trimmed r2 = trimmed r1 @ o2"
    by blast
  with r1 show ?case by (auto simp: run_automaton_append o')
qed

text \<open>What the reference displays of a whole text: what it let through, and a beginning of a tag that was none.\<close>

definition reference_display :: "string \<Rightarrow> string" where
  "reference_display s = (case run_automaton ([], False, []) s of (out, think, tail) \<Rightarrow> trimmed (if think then out else out @ tail))"

lemma displayed_is_reference: "displayed fs = reference_display (concat fs)"
proof -
  obtain o' st where f: "feed_all fs new_filter = (o', st)" by (cases "feed_all fs new_filter")
  have "good new_filter" "shown [] new_filter" by (simp_all add: good_def shown_def new_filter_def run_automaton_def trimmed_def lstrip_when_def)
  from feed_all_is_run [OF f this] obtain raw where
    r: "run_automaton ([], False, []) (concat fs) = (raw, tk_think st, tk_tail st)" "shown raw st" "trimmed raw = o'"
    by (auto simp: new_filter_def trimmed_def lstrip_when_def)
  then have "displayed fs = trimmed (if tk_think st then raw else raw @ tk_tail st)"
    using lstrip_append [of is_space raw "tk_tail st"]
    by (auto simp: displayed_def f flush_def Let_def shown_def trimmed_def)
  with r show ?thesis by (simp add: reference_display_def)
qed


text \<open>A response with one thinking block: the block is hidden, whatever the block says.\<close>

lemma no_tag_without_bracket:
  assumes "CHR ''<'' \<notin> set a" and t: "t \<in> set all_tags" and u: "u \<in> set all_tags"
  shows "\<not> sublist u (a @ butlast t)"
proof
  assume "sublist u (a @ butlast t)"
  then obtain x y where xy: "a @ butlast t = x @ u @ y" by (auto simp: sublist_def)
  from tag_starts_earlier [OF t u xy] have lt: "length x < length a" .
  have "u \<noteq> []" "hd u = CHR ''<''" using tag_shape [OF u] by auto
  then have "(x @ u @ y) ! length x = CHR ''<''" by (cases u) (auto simp: nth_append)
  with lt xy have "a ! length x = CHR ''<''" by (metis nth_append)
  with lt assms(1) show False by (metis nth_mem)
qed

lemma run_no_bracket: "CHR ''<'' \<notin> set a \<Longrightarrow> run_automaton (out, False, []) a = (out @ a, False, [])"
proof (induction a arbitrary: out)
  case (Cons c a)
  have "[c] \<notin> set all_tags" by (auto simp: all_tags_def openers_def closers_def dropped_def)
  moreover have "\<not> starts_tag [c]" using Cons.prems starts_tag_shape [of "[c]"] by auto
  ultimately have "advance c (out, False, []) = (out @ [c], False, [])" using Cons.prems by (auto simp: relevant_def Let_def)
  with Cons show ?case by (simp add: run_automaton_def del: advance.simps)
qed (simp add: run_automaton_def)

lemma reference_hides_thinking:
  assumes "CHR ''<'' \<notin> set a" and "CHR ''<'' \<notin> set c" and op: "op \<in> set openers" and cl: "cl \<in> set closers"
    and none: "\<And>u. u \<in> set closers \<Longrightarrow> \<not> sublist u (b @ butlast cl)"
  shows "reference_display (a @ op @ b @ cl @ c) = trimmed (a @ c)"
proof -
  have tags: "op \<in> set all_tags" using op by (simp add: all_tags_def)
  have "run_automaton ([], False, []) (a @ op) = (a, True, [])"
    using run_first [of op False a "[]"] no_tag_without_bracket [OF assms(1) tags] tags op by (simp add: relevant_def)
  moreover have "run_automaton (a, True, []) (b @ cl) = (a, False, [])"
    using run_first [of cl True b a] none cl by (simp add: relevant_def)
  ultimately have "run_automaton ([], False, []) ((a @ op) @ (b @ cl) @ c) = (a @ c, False, [])"
    by (simp only: run_automaton_append run_no_bracket [OF assms(2)])
  then show ?thesis by (simp add: reference_display_def)
qed


section \<open>The batch stripper\<close>

text \<open>
  \<open>re.sub\<close> with the empty text: a pattern is the length of its match at the front of a text, and no
  pattern here matches the empty text. \<open>re.finditer\<close> lists the texts matched.
\<close>

function remove_matches :: "(string \<Rightarrow> nat option) \<Rightarrow> string \<Rightarrow> string" where
  "remove_matches m [] = []"
| "remove_matches m (c # cs) =
     (case m (c # cs) of
        None \<Rightarrow> c # remove_matches m cs
      | Some n \<Rightarrow> remove_matches m (drop (n - 1) cs))"
  by pat_completeness auto
termination by (relation "measure (length \<circ> snd)") auto

function all_matches :: "(string \<Rightarrow> nat option) \<Rightarrow> string \<Rightarrow> string list" where
  "all_matches m [] = []"
| "all_matches m (c # cs) =
     (case m (c # cs) of
        None \<Rightarrow> all_matches m cs
      | Some n \<Rightarrow> take n (c # cs) # all_matches m (drop (n - 1) cs))"
  by pat_completeness auto
termination by (relation "measure (length \<circ> snd)") auto

text \<open>
  \<open>_THINKING_PATTERN\<close>: the opening tag is optional and what follows is matched lazily, so that at any
  place of the text the pattern matches up to the end of the next closing tag, if there is one. The group
  is what stands between an opening tag right at the front and that closing tag.
\<close>

definition thinking_pattern :: "string \<Rightarrow> nat option" where
  "thinking_pattern s = map_option (\<lambda>(i, t). i + length t) (find_first s closers)"

definition thinking_group :: "string \<Rightarrow> string" where
  "thinking_group s =
     (let body = (case find_first s closers of None \<Rightarrow> s | Some (i, _) \<Rightarrow> take i s)
      in (case find (\<lambda>t. prefix t body) openers of None \<Rightarrow> body | Some t \<Rightarrow> drop (length t) body))"

text \<open>\<open>_STRUCTURAL_PATTERN\<close>, whose alternatives begin differently, and \<open>_THINKING_TAG_PATTERN\<close>.\<close>

definition block_pattern :: "string \<Rightarrow> string \<Rightarrow> string \<Rightarrow> nat option" where
  "block_pattern opening closing s =
     (if \<not> prefix opening s then None
      else (let inner = drop (length opening) s in
        case find_sub ''>'' inner of
          None \<Rightarrow> None
        | Some i \<Rightarrow> map_option (\<lambda>j. length opening + Suc i + j + length closing) (find_sub closing (drop (Suc i) inner))))"

definition one_of :: "string list \<Rightarrow> string \<Rightarrow> nat option" where
  "one_of tags s = map_option length (find (\<lambda>t. prefix t s) tags)"

definition structural_pattern :: "string \<Rightarrow> nat option" where
  "structural_pattern s =
     (case block_pattern ''<invoke'' ''</invoke>'' s of
        Some n \<Rightarrow> Some n
      | None \<Rightarrow> (case block_pattern ''<tool_call'' ''</tool_call>'' s of
          Some n \<Rightarrow> Some n
        | None \<Rightarrow> one_of ([''<minimax:tool_call>'', ''</minimax:tool_call>''] @ dropped) s))"

definition strip_model_tokens :: "string \<Rightarrow> string \<times> string list" where
  "strip_model_tokens s =
     (strip (remove_matches (one_of (openers @ closers)) (remove_matches structural_pattern (remove_matches thinking_pattern s))),
      map (strip \<circ> thinking_group) (all_matches thinking_pattern s))"

text \<open>
  What the first pattern leaves is what follows the last closing tag: a response in which the model
  spoke before it thought loses that text, which the streaming filter shows.
\<close>

lemma thinking_removed:
  "\<exists>x. s = x @ remove_matches thinking_pattern s \<and> (x = [] \<or> (\<exists>t \<in> set closers. suffix t x)) \<and>
     (\<forall>t \<in> set closers. \<not> sublist t (remove_matches thinking_pattern s))"
proof (induction "thinking_pattern" s rule: remove_matches.induct)
  case 1
  show ?case by (auto simp: closers_def)
next
  case (2 c cs)
  show ?case
  proof (cases "find_first (c # cs) closers")
    case None
    have plain: "remove_matches thinking_pattern s = s" if "find_first s closers = None" for s
      using that
    proof (induction s)
      case (Cons d ds)
      have "find_first ds closers = None"
      proof (rule ccontr)
        assume "find_first ds closers \<noteq> None"
        then obtain i t where f: "find_first ds closers = Some (i, t)" by auto
        have "set closers \<subseteq> set all_tags" by (auto simp: all_tags_def)
        from find_first_Some [OF f this] obtain a b where "ds = a @ t @ b" "t \<in> set closers" by metis
        then have "sublist t (d # ds)" by (metis append_Cons sublist_appendI)
        with find_first_None [OF Cons.prems \<open>t \<in> set closers\<close>] show False by simp
      qed
      with Cons show ?case by (simp add: thinking_pattern_def)
    qed simp
    then have "remove_matches thinking_pattern (c # cs) = c # cs" using None by blast
    with find_first_None [OF None] show ?thesis by (simp del: remove_matches.simps)
  next
    case (Some p)
    obtain i t where p: "p = (i, t)" by (cases p)
    have "set closers \<subseteq> set all_tags" by (auto simp: all_tags_def)
    from find_first_Some [OF Some [unfolded p] this] obtain a b where
      s: "c # cs = a @ t @ b" "length a = i" "t \<in> set closers" by metis
    have "t \<noteq> []" using s(3) by (auto simp: closers_def)
    then have n: "i + length t = Suc (i + length t - 1)" by (cases t) auto
    have d: "drop (i + length t - 1) cs = b"
      using arg_cong [OF s(1), of "drop (i + length t)"] s(2) n by (metis append.assoc append_eq_conv_conj drop_Suc_Cons length_append)
    have m: "thinking_pattern (c # cs) = Some (i + length t)" by (simp add: thinking_pattern_def Some p)
    from 2(2) [OF m] d obtain x where
      x: "b = x @ remove_matches thinking_pattern b" "x = [] \<or> (\<exists>t \<in> set closers. suffix t x)"
         "\<forall>t \<in> set closers. \<not> sublist t (remove_matches thinking_pattern b)" by auto
    have "c # cs = (a @ t @ x) @ remove_matches thinking_pattern b" using s x(1) by simp
    moreover have "\<exists>u \<in> set closers. suffix u (a @ t @ x)"
      using x(2) s(3) by (auto simp: suffix_def) (metis append.assoc)
    moreover have "remove_matches thinking_pattern (c # cs) = remove_matches thinking_pattern b" using m d by simp
    ultimately show ?thesis using x(3) by (metis (no_types))
  qed
qed

lemma spoken_text_lost:
  "displayed [''Sure. <think>hm</think>Done.''] = ''Sure. Done.'' \<and>
   strip_model_tokens ''Sure. <think>hm</think>Done.'' = (''Done.'', [''Sure. <think>hm''])"
  by code_simp

end
