(* ===== verification/PriorityLock.thy ===== *)
theory PriorityLock
  imports Prelude
begin

text \<open>
  The lock of \<open>pipeline/database.py\<close>: background threads yield to interactive ones. Every
  method body runs under the lock's condition variable, so a step is the code between two waits.
  A thread that waits is asleep until the holder's \<open>notify_all\<close>, and then has to take the
  condition and test again; the order in which woken threads do so is arbitrary.
\<close>

section \<open>Threads and the lock\<close>

datatype lock_pc = Outside | Asleep | Ready | Inside

record lock_thread =
  lt_high :: bool
  lt_pc :: lock_pc

record priority_lock =
  pl_held :: bool
  pl_high_waiters :: nat

type_synonym lock_state = "priority_lock \<times> lock_thread list"

definition set_thread_priority :: "bool \<Rightarrow> nat \<Rightarrow> lock_state \<Rightarrow> lock_state" where
  "set_thread_priority high i st = (case st of (l, ts) \<Rightarrow> (l, ts[i := (ts ! i)\<lparr>lt_high := high\<rparr>]))"

text \<open>The loop of \<open>__enter__\<close>: one test, and either another wait or the lock.\<close>

definition lock_test :: "nat \<Rightarrow> lock_state \<Rightarrow> lock_state" where
  "lock_test i st = (case st of (l, ts) \<Rightarrow>
     (let t = ts ! i in
      if pl_held l \<or> \<not> lt_high t \<and> pl_high_waiters l > 0 then (l, ts[i := t\<lparr>lt_pc := Asleep\<rparr>])
      else (l\<lparr>pl_held := True, pl_high_waiters := (if lt_high t then pl_high_waiters l - 1 else pl_high_waiters l)\<rparr>,
            ts[i := t\<lparr>lt_pc := Inside\<rparr>])))"

definition lock_enter :: "nat \<Rightarrow> lock_state \<Rightarrow> lock_state" where
  "lock_enter i st = (case st of (l, ts) \<Rightarrow>
     lock_test i (if lt_high (ts ! i) then (l\<lparr>pl_high_waiters := pl_high_waiters l + 1\<rparr>, ts) else (l, ts)))"

definition notify :: "lock_thread \<Rightarrow> lock_thread" where
  "notify t = (if lt_pc t = Asleep then t\<lparr>lt_pc := Ready\<rparr> else t)"

definition lock_exit :: "nat \<Rightarrow> lock_state \<Rightarrow> lock_state" where
  "lock_exit i st = (case st of (l, ts) \<Rightarrow>
     (l\<lparr>pl_held := False\<rparr>, List.map notify (ts[i := (ts ! i)\<lparr>lt_pc := Outside\<rparr>])))"

text \<open>An exception raised in the wait: the \<open>finally\<close> of the high-priority branch.\<close>

definition lock_interrupt :: "nat \<Rightarrow> lock_state \<Rightarrow> lock_state" where
  "lock_interrupt i st = (case st of (l, ts) \<Rightarrow>
     (if lt_high (ts ! i) then l\<lparr>pl_high_waiters := pl_high_waiters l - 1\<rparr> else l,
      ts[i := (ts ! i)\<lparr>lt_pc := Outside\<rparr>]))"

datatype lock_event = Enter nat | Retest nat | Leave nat | Interrupt nat | Prioritise nat bool

fun event_thread :: "lock_event \<Rightarrow> nat" where
  "event_thread (Enter i) = i"
| "event_thread (Retest i) = i"
| "event_thread (Leave i) = i"
| "event_thread (Interrupt i) = i"
| "event_thread (Prioritise i _) = i"

fun lock_apply :: "lock_event \<Rightarrow> lock_state \<Rightarrow> lock_state" where
  "lock_apply (Enter i) st = lock_enter i st"
| "lock_apply (Retest i) st = lock_test i st"
| "lock_apply (Leave i) st = lock_exit i st"
| "lock_apply (Interrupt i) st = lock_interrupt i st"
| "lock_apply (Prioritise i high) st = set_thread_priority high i st"

text \<open>Where a thread has to be for its next step.\<close>

fun may_fire :: "lock_event \<Rightarrow> lock_pc \<Rightarrow> bool" where
  "may_fire (Enter _) pc \<longleftrightarrow> pc = Outside"
| "may_fire (Retest _) pc \<longleftrightarrow> pc = Ready"
| "may_fire (Leave _) pc \<longleftrightarrow> pc = Inside"
| "may_fire (Interrupt _) pc \<longleftrightarrow> pc = Asleep \<or> pc = Ready"
| "may_fire (Prioritise _ _) pc \<longleftrightarrow> pc = Outside \<or> pc = Inside"

definition lock_fire :: "lock_event \<Rightarrow> lock_state \<Rightarrow> lock_state option" where
  "lock_fire e st = (let i = event_thread e in
     if i < length (snd st) \<and> may_fire e (lt_pc (snd st ! i)) then Some (lock_apply e st) else None)"

fun lock_run :: "lock_event list \<Rightarrow> lock_state \<Rightarrow> lock_state option" where
  "lock_run [] st = Some st"
| "lock_run (e # es) st = Option.bind (lock_fire e st) (lock_run es)"

definition idle_lock :: "bool list \<Rightarrow> lock_state" where
  "idle_lock priorities =
     (\<lparr>pl_held = False, pl_high_waiters = 0\<rparr>, List.map (\<lambda>h. \<lparr>lt_high = h, lt_pc = Outside\<rparr>) priorities)"


section \<open>The invariant\<close>

definition waiting :: "lock_thread \<Rightarrow> bool" where
  "waiting t \<longleftrightarrow> lt_pc t = Asleep \<or> lt_pc t = Ready"

definition waiting_high :: "lock_thread \<Rightarrow> bool" where
  "waiting_high t \<longleftrightarrow> lt_high t \<and> waiting t"

definition count_threads :: "(lock_thread \<Rightarrow> bool) \<Rightarrow> lock_thread list \<Rightarrow> nat" where
  "count_threads P ts = length (filter P ts)"

definition lock_safe :: "lock_state \<Rightarrow> bool" where
  "lock_safe st \<longleftrightarrow> (case st of (l, ts) \<Rightarrow>
     count_threads (\<lambda>t. lt_pc t = Inside) ts = of_bool (pl_held l) \<and> pl_high_waiters l = count_threads waiting_high ts \<and>
     (\<forall>t \<in> set ts. lt_high t \<and> lt_pc t = Asleep \<longrightarrow> pl_held l))"

text \<open>A sleeper will be woken: the lock is held, or a thread with priority is about to take it.\<close>

definition no_stranded :: "lock_state \<Rightarrow> bool" where
  "no_stranded st \<longleftrightarrow> (case st of (l, ts) \<Rightarrow>
     (\<exists>t \<in> set ts. lt_pc t = Asleep) \<longrightarrow> pl_held l \<or> pl_high_waiters l > 0)"

lemma count_update:
  "i < length ts \<Longrightarrow> count_threads P (ts[i := x]) + of_bool (P (ts ! i)) = count_threads P ts + of_bool (P x)"
proof (induction ts arbitrary: i)
  case (Cons t ts)
  show ?case
  proof (cases i)
    case (Suc j)
    with Cons.prems Cons.IH [of j] show ?thesis by (simp add: count_threads_def)
  qed (simp add: count_threads_def)
qed simp

lemma count_pos: "count_threads P ts > 0 \<longleftrightarrow> (\<exists>t \<in> set ts. P t)"
  by (auto simp: count_threads_def filter_empty_conv)

lemma count_map: "(\<And>t. P (f t) = P t) \<Longrightarrow> count_threads P (List.map f ts) = count_threads P ts"
  by (simp add: count_threads_def filter_map comp_def)

lemma notify_keeps [simp]:
  "lt_high (notify t) = lt_high t" "lt_pc (notify t) = Inside \<longleftrightarrow> lt_pc t = Inside" "waiting_high (notify t) = waiting_high t"
  "lt_pc (notify t) \<noteq> Asleep"
  by (auto simp: notify_def waiting_high_def waiting_def)

lemma count_notify [simp]:
  "count_threads waiting_high (List.map notify ts) = count_threads waiting_high ts"
  "count_threads (\<lambda>t. lt_pc t = Inside) (List.map notify ts) = count_threads (\<lambda>t. lt_pc t = Inside) ts"
  by (simp_all add: count_map)

lemma lock_test_safe:
  assumes "lock_safe (l, ts)" and i: "i < length ts" and "lt_pc (ts ! i) = Ready"
  shows "lock_safe (lock_test i (l, ts))"
  using assms count_update [OF i, of "\<lambda>t. lt_pc t = Inside" "(ts ! i)\<lparr>lt_pc := Inside\<rparr>"]
    count_update [OF i, of waiting_high "(ts ! i)\<lparr>lt_pc := Inside\<rparr>"]
    count_update [OF i, of "\<lambda>t. lt_pc t = Inside" "(ts ! i)\<lparr>lt_pc := Asleep\<rparr>"]
    count_update [OF i, of waiting_high "(ts ! i)\<lparr>lt_pc := Asleep\<rparr>"]
  by (auto simp: lock_safe_def lock_test_def Let_def waiting_high_def waiting_def dest!: set_update_subset_insert [THEN subsetD])

text \<open>Entering is joining the threads that are to test, then testing.\<close>

lemma lock_test_pc: "i < length ts \<Longrightarrow> lock_test i (l, ts[i := (ts ! i)\<lparr>lt_pc := pc\<rparr>]) = lock_test i (l, ts)"
  by (simp add: lock_test_def Let_def)

definition join_lock :: "nat \<Rightarrow> lock_state \<Rightarrow> lock_state" where
  "join_lock i st = (case st of (l, ts) \<Rightarrow>
     (if lt_high (ts ! i) then l\<lparr>pl_high_waiters := pl_high_waiters l + 1\<rparr> else l, ts[i := (ts ! i)\<lparr>lt_pc := Ready\<rparr>]))"

lemma enter_joins: "i < length (snd st) \<Longrightarrow> lock_enter i st = lock_test i (join_lock i st)"
  by (auto simp: lock_enter_def join_lock_def lock_test_pc split: prod.split)

lemma join_safe:
  assumes "lock_safe (l, ts)" and i: "i < length ts" and "lt_pc (ts ! i) = Outside"
  shows "lock_safe (join_lock i (l, ts))"
  using assms count_update [OF i, of "\<lambda>t. lt_pc t = Inside" "(ts ! i)\<lparr>lt_pc := Ready\<rparr>"]
    count_update [OF i, of waiting_high "(ts ! i)\<lparr>lt_pc := Ready\<rparr>"]
  by (auto simp: lock_safe_def join_lock_def waiting_high_def waiting_def dest!: set_update_subset_insert [THEN subsetD])

lemma exit_safe:
  assumes "lock_safe (l, ts)" and i: "i < length ts" and "lt_pc (ts ! i) = Inside"
  shows "lock_safe (lock_exit i (l, ts))"
  using assms count_update [OF i, of "\<lambda>t. lt_pc t = Inside" "(ts ! i)\<lparr>lt_pc := Outside\<rparr>"]
    count_update [OF i, of waiting_high "(ts ! i)\<lparr>lt_pc := Outside\<rparr>"]
  by (cases "pl_held l") (auto simp: lock_safe_def lock_exit_def waiting_high_def waiting_def split: if_splits)

lemma interrupt_safe:
  assumes "lock_safe (l, ts)" and i: "i < length ts" and "waiting (ts ! i)"
  shows "lock_safe (lock_interrupt i (l, ts))"
  using assms count_update [OF i, of "\<lambda>t. lt_pc t = Inside" "(ts ! i)\<lparr>lt_pc := Outside\<rparr>"]
    count_update [OF i, of waiting_high "(ts ! i)\<lparr>lt_pc := Outside\<rparr>"]
  by (auto simp: lock_safe_def lock_interrupt_def waiting_high_def waiting_def dest!: set_update_subset_insert [THEN subsetD])

lemma priority_safe:
  assumes "lock_safe (l, ts)" and i: "i < length ts" and "\<not> waiting (ts ! i)"
  shows "lock_safe (set_thread_priority h i (l, ts))"
  using assms count_update [OF i, of "\<lambda>t. lt_pc t = Inside" "(ts ! i)\<lparr>lt_high := h\<rparr>"]
    count_update [OF i, of waiting_high "(ts ! i)\<lparr>lt_high := h\<rparr>"]
  by (auto simp: lock_safe_def set_thread_priority_def waiting_high_def waiting_def dest!: set_update_subset_insert [THEN subsetD])

lemma length_join [simp]: "length (snd (join_lock i st)) = length (snd st)"
  by (simp add: join_lock_def split: prod.split)

lemma join_ready: "i < length ts \<Longrightarrow> lt_pc (snd (join_lock i (l, ts)) ! i) = Ready"
  by (simp add: join_lock_def)

lemma fire_safe: "lock_safe st \<Longrightarrow> lock_fire e st = Some st' \<Longrightarrow> lock_safe st'"
proof (cases st)
  case (Pair l ts)
  assume safe: "lock_safe st" and f: "lock_fire e st = Some st'"
  show ?thesis
  proof (cases e)
    case (Enter i)
    with f Pair have i: "i < length ts" "lt_pc (ts ! i) = Outside" and st': "st' = lock_test i (join_lock i (l, ts))"
      by (auto simp: lock_fire_def enter_joins split: if_splits)
    obtain l1 ts1 where j: "join_lock i (l, ts) = (l1, ts1)" by (cases "join_lock i (l, ts)")
    with join_safe [of l ts i] safe Pair i have "lock_safe (l1, ts1)" by simp
    moreover have "i < length ts1" "lt_pc (ts1 ! i) = Ready"
      using join_ready [OF i(1), of l] length_join [of i "(l, ts)"] i(1) j by simp_all
    ultimately show ?thesis by (simp add: st' j lock_test_safe)
  qed (use f safe Pair in \<open>auto simp: lock_fire_def waiting_def lock_test_safe exit_safe interrupt_safe priority_safe
        split: if_splits\<close>)
qed


lemma idle_lock_safe: "lock_safe (idle_lock ps)" "no_stranded (idle_lock ps)"
  by (auto simp: lock_safe_def no_stranded_def idle_lock_def count_threads_def waiting_high_def waiting_def)

lemma run_safe: "lock_run es st = Some st' \<Longrightarrow> lock_safe st \<Longrightarrow> lock_safe st'"
proof (induction es arbitrary: st)
  case (Cons e es)
  then obtain s1 where "lock_fire e st = Some s1" "lock_run es s1 = Some st'" by (auto simp: bind_eq_Some_conv)
  with Cons fire_safe show ?case by blast
qed simp

text \<open>Only an interrupted wait can strand a sleeping background thread.\<close>

fun is_interrupt :: "lock_event \<Rightarrow> bool" where
  "is_interrupt (Interrupt _) = True"
| "is_interrupt _ = False"

lemma test_no_stranded:
  assumes "no_stranded (l, ts)" "i < length ts"
  shows "no_stranded (lock_test i (l, ts))"
  using assms by (auto simp: no_stranded_def lock_test_def Let_def dest!: set_update_subset_insert [THEN subsetD])

lemma join_no_stranded:
  assumes "no_stranded (l, ts)" "i < length ts"
  shows "no_stranded (join_lock i (l, ts))"
  using assms by (auto simp: no_stranded_def join_lock_def dest!: set_update_subset_insert [THEN subsetD])

lemma fire_no_stranded:
  assumes "no_stranded st" and f: "lock_fire e st = Some st'" and "\<not> is_interrupt e"
  shows "no_stranded st'"
proof (cases st)
  case (Pair l ts)
  show ?thesis
  proof (cases e)
    case (Enter i)
    with f Pair have i: "i < length ts" and st': "st' = lock_test i (join_lock i (l, ts))"
      by (auto simp: lock_fire_def enter_joins split: if_splits)
    obtain l1 ts1 where j: "join_lock i (l, ts) = (l1, ts1)" by (cases "join_lock i (l, ts)")
    with i have "i < length ts1" using length_join [of i "(l, ts)"] by simp
    moreover have "no_stranded (l1, ts1)" using join_no_stranded [of l ts i] assms(1) Pair i j by simp
    ultimately show ?thesis by (simp add: st' j test_no_stranded)
  next
    case (Leave i)
    with f Pair show ?thesis by (auto simp: lock_fire_def lock_exit_def no_stranded_def split: if_splits)
  next
    case (Prioritise i h)
    with f Pair assms(1) show ?thesis
      by (auto simp: lock_fire_def set_thread_priority_def no_stranded_def split: if_splits
          dest!: set_update_subset_insert [THEN subsetD])
  qed (use assms Pair in \<open>auto simp: lock_fire_def test_no_stranded split: if_splits\<close>)
qed

lemma run_no_stranded:
  "lock_run es st = Some st' \<Longrightarrow> no_stranded st \<Longrightarrow> \<not> list_ex is_interrupt es \<Longrightarrow> no_stranded st'"
proof (induction es arbitrary: st)
  case (Cons e es)
  then obtain s1 where "lock_fire e st = Some s1" "lock_run es s1 = Some st'" by (auto simp: bind_eq_Some_conv)
  with Cons fire_no_stranded show ?case by simp
qed simp

text \<open>When the lock is free and someone waits, a thread stands ready that the lock lets in.\<close>

lemma free_lock_is_taken:
  assumes "lock_safe st" and "no_stranded st" and "\<not> pl_held (fst st)" and "\<exists>t \<in> set (snd st). waiting t"
  shows "\<exists>i st'. lock_fire (Retest i) st = Some st' \<and> lt_pc (snd st' ! i) = Inside \<and>
    ((\<exists>t \<in> set (snd st). waiting_high t) \<longrightarrow> lt_high (snd st' ! i))"
proof -
  obtain l ts where st: "st = (l, ts)" by (cases st)
  from assms(1) st have hw: "pl_high_waiters l = count_threads waiting_high ts" by (simp add: lock_safe_def)
  show ?thesis
  proof (cases "\<exists>t \<in> set ts. waiting_high t")
    case True
    then obtain i where i: "i < length ts" "waiting_high (ts ! i)" by (auto simp: in_set_conv_nth)
    with assms(1,3) st have "lt_pc (ts ! i) = Ready" by (auto simp: lock_safe_def waiting_high_def waiting_def)
    with i assms(3) st show ?thesis
      by (intro exI [of _ i]) (auto simp: lock_fire_def lock_test_def Let_def waiting_high_def)
  next
    case False
    then have z: "pl_high_waiters l = 0" unfolding hw using count_pos [of waiting_high ts] by simp
    from assms(4) st obtain i where i: "i < length ts" "waiting (ts ! i)" by (auto simp: in_set_conv_nth)
    with assms(2,3) st z have "lt_pc (ts ! i) = Ready" by (auto simp: no_stranded_def waiting_def)
    with i assms(3) st z False show ?thesis
      by (intro exI [of _ i]) (auto simp: lock_fire_def lock_test_def Let_def)
  qed
qed

text \<open>A thread that gets in while one with priority waits has priority itself.\<close>

lemma entering_respects_priority:
  assumes "lock_safe st" and f: "lock_fire e st = Some st'"
    and "lt_pc (snd st ! event_thread e) \<noteq> Inside" and "lt_pc (snd st' ! event_thread e) = Inside"
    and "\<exists>t \<in> set (snd st). waiting_high t"
  shows "lt_high (snd st' ! event_thread e)"
proof -
  obtain l ts where st: "st = (l, ts)" by (cases st)
  from assms(1,5) st have hw: "pl_high_waiters l > 0" using count_pos [of waiting_high ts] by (auto simp: lock_safe_def)
  from assms(3,4) f st show ?thesis
    by (cases e) (use hw in \<open>auto simp: lock_fire_def lock_enter_def lock_test_def lock_exit_def lock_interrupt_def
        set_thread_priority_def notify_def Let_def split: if_splits\<close>)
qed

lemma inside_unique:
  assumes "lock_safe st" and "i < length (snd st)" "j < length (snd st)"
    and "lt_pc (snd st ! i) = Inside" "lt_pc (snd st ! j) = Inside"
  shows "i = j"
proof (rule ccontr)
  assume ne: "i \<noteq> j"
  obtain l ts where st: "st = (l, ts)" by (cases st)
  let ?P = "\<lambda>t. lt_pc t = Inside"
  let ?ts = "ts[i := (ts ! i)\<lparr>lt_pc := Outside\<rparr>]"
  have "count_threads ?P ?ts + 1 = count_threads ?P ts"
    using count_update [of i ts ?P "(ts ! i)\<lparr>lt_pc := Outside\<rparr>"] assms(2,4) st by simp
  moreover have "?ts ! j \<in> set ?ts" using assms(3) st by (intro nth_mem) simp
  with assms(5) ne st have "count_threads ?P ?ts > 0" unfolding count_pos by (intro bexI [of _ "?ts ! j"]) simp_all
  ultimately show False using assms(1) st by (auto simp: lock_safe_def of_bool_def split: if_splits)
qed

text \<open>An exception in the wait of a thread with priority leaves a sleeper that nobody wakes.\<close>

lemma interrupted_wait_strands:
  "case lock_run [Enter 0, Enter 1, Enter 2, Leave 0, Retest 2, Interrupt 1] (idle_lock [True, True, False]) of
     Some (l, ts) \<Rightarrow> \<not> pl_held l \<and> pl_high_waiters l = 0 \<and> lt_pc (ts ! 2) = Asleep
   | None \<Rightarrow> False"
  by code_simp

end
