(* ===== verification/EffectSamples.thy ===== *)
theory EffectSamples
  imports Sandbox TokenFilter PriorityLock
begin

text \<open>
  A small store and a context over it, used to exercise the theorems about effects: one writable
  directory, a network surface that counts its calls, and a gate that lets everything through.
\<close>

section \<open>A store, a context, a turn\<close>

definition effect_req :: "request_type \<Rightarrow> (string \<times> pyval) list \<Rightarrow> request" where
  "effect_req t fs = \<lparr>rq_type = t, rq_fields = fs\<rparr>"

definition write_b :: request where
  "write_b = effect_req WriteFile [(''path'', VStr ''b''), (''content'', VStr ''new''), (''encoding'', VStr ''utf-8'')]"

definition delete_a :: request where
  "delete_a = effect_req DeleteFile [(''path'', VStr ''a'')]"

definition read_a :: request where
  "read_a = effect_req ReadFile [(''path'', VStr ''a''), (''encoding'', VStr ''utf-8'')]"

definition get_page :: request where
  "get_page = effect_req HttpRequest
     [(''method'', VStr ''GET''), (''url'', VStr ''http://h''), (''headers'', VNone), (''body'', VNone), (''timeout'', VFloat 30)]"

definition demo_declared :: "string list" where
  "demo_declared = [''read_file'', ''write_file'', ''delete_file'', ''http_request'']"

definition demo_store :: filesystem where
  "demo_store = [([], Directory), ([''w''], Directory), ([''w'', ''a''], RegularFile ''old''), ([''s''], RegularFile ''key'')]"

definition demo_world :: "nat effect_world" where
  "demo_world = \<lparr>ew_files = demo_store, ew_tables = [], ew_rest = 0\<rparr>"

definition demo_effects :: "nat effect_state" where
  "demo_effects = \<lparr>es_world = demo_world, es_journal = [], es_taint = [], es_audit = [], es_ledger = []\<rparr>"

definition demo_context :: "(request \<Rightarrow> string list \<Rightarrow> bool \<times> string) \<Rightarrow> nat effect_context" where
  "demo_context gate =
     \<lparr>ec_env = ascii_env, ec_has_db = False, ec_query = (\<lambda>_ _ _. Inr VNone), ec_schema = (\<lambda>_ ts. Inr ts),
      ec_execute = (\<lambda>_ w. (w, Inr VNone)), ec_read_roots = Some [[''w'']], ec_write_roots = Some [[''w'']], ec_free_roots = Some [[''w'']],
      ec_paths = [], ec_conversation = VNone, ec_user = VNone, ec_denied_sql = [], ec_provider = None, ec_inventory = None,
      ec_conversations = None, ec_ask = None, ec_schedule = None, ec_call_tool = None, ec_session = None, ec_administer = None,
      ec_reload = None, ec_urlsplit = (\<lambda>_. Some \<lparr>up_scheme = ''http'', up_user = [], up_password = [], up_host = ''h''\<rparr>),
      ec_http = (\<lambda>_ w. (w\<lparr>ew_rest := ew_rest w + 1\<rparr>, Inr VNone)), ec_llm = None, ec_embed = None,
      ec_process = (\<lambda>_ _ _ w. (w, TimedOut)), ec_dumps = (\<lambda>_. []), ec_float = (\<lambda>_. None), ec_str = (\<lambda>_. []),
      ec_tools = [], ec_assignments = (\<lambda>_. None), ec_path_trusted = (\<lambda>_. False), ec_call_chain = [],
      ec_principal = ''agent'', ec_plugin_trusted = False, ec_gate = gate\<rparr>"

definition demo_ctx :: "nat effect_context" where
  "demo_ctx = demo_context (\<lambda>_ _. (True, []))"

lemma demo_get: "ew_rest (es_world (fst (fulfil demo_ctx demo_declared get_page demo_effects))) = 1"
  by code_simp

lemma demo_write:
  "dget (ew_files (es_world (fst (fulfil demo_ctx demo_declared write_b demo_effects)))) [''w'', ''b''] = Some (RegularFile ''new'')"
  by code_simp


section \<open>A saved conversation\<close>

definition demo_call :: pyval where
  "demo_call = VDict [(''id'', VStr ''c1''), (''name'', VStr ''stat'')]"

definition demo_asks :: hist_msg where
  "demo_asks = (plain_msg ''assistant'' VNone)\<lparr>hm_calls := VList [demo_call]\<rparr>"

definition demo_saved :: "saved list" where
  "demo_saved = [SaveMessage (plain_msg ''user'' (VStr ''hi'')), SaveState (VInt 1), SaveMessage demo_asks,
     SaveMessage ((plain_msg ''tool'' (VStr ''{}''))\<lparr>hm_call_id := VStr ''c1''\<rparr>)]"

definition demo_state_text :: string where
  "demo_state_text = ''{'' @ state_marker @ ''}''"

definition demo_codec :: codec where
  "demo_codec = \<lparr>dumps = (\<lambda>v. if v = VDict (state_dict (VInt 1)) then demo_state_text else ''calls''),
     loads = (\<lambda>s. if s = demo_state_text then Some (VDict (state_dict (VInt 1)))
                  else if s = ''calls'' then Some (VDict (packed_calls demo_asks)) else None)\<rparr>"

end
