(* ===== verification/Hooks.thy ===== *)
theory Hooks
  imports Serialization
begin

text \<open>
  \<open>runtime/hooks.py\<close>: the registry of hooks around an agent turn. A hook is any callable; what the
  registry relies on is whether it raises, abstains (\<open>None\<close>) or speaks. An escort of the model call
  is given as the tree of what it does with the telephone: it dials, sees the response or the exception,
  and goes on; it returns after finitely many calls.
\<close>

section \<open>Registration\<close>

definition moments :: "string list" where
  "moments = [''turn_start'', ''shape_scope'', ''vet_permission'', ''model_call'', ''end_turn'', ''turn_finish'']"

text \<open>A callable is its identity here.\<close>

type_synonym hook_table = "(string, nat list) pydict"

definition no_hooks :: hook_table where
  "no_hooks = map (\<lambda>m. (m, [])) moments"

definition hook_add :: "string \<Rightarrow> nat \<Rightarrow> hook_table \<Rightarrow> hook_table pyres" where
  "hook_add moment fn hooks =
     (case dget hooks moment of
        None \<Rightarrow> Inl (PyExn ''ValueError'' (''Unknown hook moment: '' @ moment))
      | Some bucket \<Rightarrow> Inr (dset moment (bucket @ [fn]) hooks))"

definition hook_remove :: "nat \<Rightarrow> hook_table \<Rightarrow> hook_table" where
  "hook_remove fn hooks = map (\<lambda>(m, bucket). (m, remove1 fn bucket)) hooks"

lemma moments_stay: "hook_add m fn hooks = Inr hooks' \<Longrightarrow> dkeys hooks = moments \<Longrightarrow> dkeys hooks' = moments"
  "dkeys (hook_remove fn hooks) = dkeys hooks"
proof -
  assume a: "hook_add m fn hooks = Inr hooks'" "dkeys hooks = moments"
  then obtain b where "dget hooks m = Some b" "hooks' = dset m (b @ [fn]) hooks" by (auto simp: hook_add_def split: option.splits)
  then have "m \<in> set (dkeys hooks)" by (force dest: map_of_SomeD)
  then have "dkeys (dset m (b @ [fn]) hooks) = dkeys hooks" by (simp add: update_keys)
  with a(2) \<open>hooks' = dset m (b @ [fn]) hooks\<close> show "dkeys hooks' = moments" by simp
next
  show "dkeys (hook_remove fn hooks) = dkeys hooks" by (induction hooks) (auto simp: hook_remove_def)
qed

lemma dget_remove: "dget (hook_remove fn hooks) m = map_option (remove1 fn) (dget hooks m)"
  by (induction hooks) (auto simp: hook_remove_def)

text \<open>Loading a plugin and unloading it again leaves every doorway as it was.\<close>

lemma remove_undoes_add:
  assumes "hook_add m fn hooks = Inr hooks'" and "\<forall>b \<in> set (dvalues hooks). fn \<notin> set b"
  shows "dget (hook_remove fn hooks') m' = dget hooks m'"
proof -
  from assms(1) obtain b where b: "dget hooks m = Some b" "hooks' = dset m (b @ [fn]) hooks"
    by (auto simp: hook_add_def split: option.splits)
  have old: "fn \<notin> set c" if "dget hooks k = Some c" for k c
    using assms(2) that by (force dest: map_of_SomeD)
  show ?thesis
  proof (cases "m' = m")
    case True
    with b old [OF b(1)] show ?thesis by (simp add: dget_remove remove1_append)
  next
    case False
    with b old show ?thesis by (cases "dget hooks m'") (auto simp: dget_remove remove1_idem)
  qed
qed


section \<open>Verdicts and adjusters\<close>

text \<open>\<open>vet_permission\<close> and \<open>vet_end_turn\<close>: hooks that raise or abstain are passed over.\<close>

fun first_verdict :: "('q \<Rightarrow> 'v option pyres) list \<Rightarrow> 'q \<Rightarrow> 'v option" where
  "first_verdict [] q = None"
| "first_verdict (gate # gates) q =
     (case gate q of Inr (Some v) \<Rightarrow> Some v | _ \<Rightarrow> first_verdict gates q)"

lemma first_verdict_Some:
  "first_verdict gates q = Some v \<longleftrightarrow>
     (\<exists>a g b. gates = a @ g # b \<and> g q = Inr (Some v) \<and> (\<forall>h \<in> set a. \<forall>w. h q \<noteq> Inr (Some w)))"
proof (induction gates)
  case (Cons g gs)
  show ?case
  proof (cases "\<exists>w. g q = Inr (Some w)")
    case True
    then obtain w where w: "g q = Inr (Some w)" by blast
    have "w = v \<longleftrightarrow> (\<exists>a h b. g # gs = a @ h # b \<and> h q = Inr (Some v) \<and> (\<forall>k \<in> set a. \<forall>u. k q \<noteq> Inr (Some u)))"
    proof
      assume "w = v"
      with w show "\<exists>a h b. g # gs = a @ h # b \<and> h q = Inr (Some v) \<and> (\<forall>k \<in> set a. \<forall>u. k q \<noteq> Inr (Some u))"
        by (intro exI [of _ "[]"] exI [of _ g] exI [of _ gs]) simp
    next
      assume "\<exists>a h b. g # gs = a @ h # b \<and> h q = Inr (Some v) \<and> (\<forall>k \<in> set a. \<forall>u. k q \<noteq> Inr (Some u))"
      then obtain a h b where s: "g # gs = a @ h # b" "h q = Inr (Some v)" "\<forall>k \<in> set a. \<forall>u. k q \<noteq> Inr (Some u)" by blast
      with w show "w = v" by (cases a) auto
    qed
    with w show ?thesis by simp
  next
    case False
    then have "first_verdict (g # gs) q = first_verdict gs q" by (auto split: sum.splits option.splits)
    moreover have "(\<exists>a h b. g # gs = a @ h # b \<and> h q = Inr (Some v) \<and> (\<forall>k \<in> set a. \<forall>w. k q \<noteq> Inr (Some w))) \<longleftrightarrow>
        (\<exists>a h b. gs = a @ h # b \<and> h q = Inr (Some v) \<and> (\<forall>k \<in> set a. \<forall>w. k q \<noteq> Inr (Some w)))"
    proof (intro iffI; elim exE conjE)
      fix a h b assume s: "g # gs = a @ h # b" "h q = Inr (Some v)" "\<forall>k \<in> set a. \<forall>w. k q \<noteq> Inr (Some w)"
      then obtain a' where "a = g # a'" using False by (cases a) auto
      with s show "\<exists>a h b. gs = a @ h # b \<and> h q = Inr (Some v) \<and> (\<forall>k \<in> set a. \<forall>w. k q \<noteq> Inr (Some w))" by auto
    next
      fix a h b assume "gs = a @ h # b" "h q = Inr (Some v)" "\<forall>k \<in> set a. \<forall>w. k q \<noteq> Inr (Some w)"
      with False show "\<exists>a h b. g # gs = a @ h # b \<and> h q = Inr (Some v) \<and> (\<forall>k \<in> set a. \<forall>w. k q \<noteq> Inr (Some w))"
        by (intro exI [of _ "g # a"] exI [of _ h] exI [of _ b]) auto
    qed
    ultimately show ?thesis using Cons by simp
  qed
qed simp

text \<open>\<open>shape_scope\<close>: every shaper sees what the ones before it made.\<close>

definition shape_scope :: "('s \<Rightarrow> 's option pyres) list \<Rightarrow> 's \<Rightarrow> 's" where
  "shape_scope shapers registry =
     fold (\<lambda>shaper r. case shaper r of Inr (Some r') \<Rightarrow> r' | _ \<Rightarrow> r) shapers registry"

text \<open>\<open>start_turn\<close> and \<open>finish_turn\<close>: what a hook changed before it raised stays changed.\<close>

record 's turn_session =
  tn_rest :: 's
  tn_staged :: "pyval list"

definition start_turn :: "('s turn_session \<Rightarrow> 's turn_session \<times> unit pyres) list \<Rightarrow> 's turn_session \<Rightarrow> 's turn_session" where
  "start_turn starters s = fold (\<lambda>f s. fst (f s)) starters s"

definition finish_turn :: "('s turn_session \<Rightarrow> 's turn_session \<times> unit pyres) list \<Rightarrow> 's turn_session \<Rightarrow> 's turn_session" where
  "finish_turn finalizers s = (fold (\<lambda>f s. fst (f s)) finalizers s)\<lparr>tn_staged := []\<rparr>"

definition drain_attachments :: "'s turn_session \<Rightarrow> pyval list \<times> 's turn_session" where
  "drain_attachments s = (tn_staged s, s\<lparr>tn_staged := []\<rparr>)"


section \<open>The call to the model\<close>

record brain =
  bn_name :: string
  bn_tool_choice :: bool
  bn_context :: nat

record model_request =
  mr_llm :: "brain option"
  mr_messages :: "hist_msg list"
  mr_tools :: "pyval list option"
  mr_choice :: pyval
  mr_params :: "(string, pyval) pydict"
  mr_attachments :: "pyval list"

text \<open>A tool call as the model backends report it, and a response.\<close>

record model_call =
  mc_id :: "string option"
  mc_name :: "string option"
  mc_arguments :: "string option"

record model_response =
  rs_content :: "string option"
  rs_calls :: "model_call list"
  rs_error :: string
  rs_prompt_tokens :: nat

text \<open>The next step inwards: it takes a request and changes the state.\<close>

type_synonym 's handler = "model_request \<Rightarrow> 's \<Rightarrow> 's \<times> model_response pyres"

datatype escort_script =
    Speak "model_response option"
  | Raise pyexn
  | Dial "model_request option" "model_response pyres \<Rightarrow> escort_script"

type_synonym escort = "model_request \<Rightarrow> escort_script"

text \<open>
  \<open>_escort_layer\<close>. \<open>got\<close> is the last response obtained; a dialled call that raises leaves it as it
  is, and raises inside the escort, which may catch it.
\<close>

primrec run_script :: "escort_script \<Rightarrow> model_request \<Rightarrow> 's handler \<Rightarrow> model_response option \<Rightarrow> 's \<Rightarrow> 's \<times> model_response pyres" where
  "run_script (Speak out) req proceed got s =
     (case out of Some r \<Rightarrow> (s, Inr r) | None \<Rightarrow> (case got of Some r \<Rightarrow> (s, Inr r) | None \<Rightarrow> proceed req s))"
| "run_script (Raise e) req proceed got s =
     (case got of Some r \<Rightarrow> (s, Inr r) | None \<Rightarrow> proceed req s)"
| "run_script (Dial other k) req proceed got s =
     (case proceed (case other of None \<Rightarrow> req | Some r \<Rightarrow> r) s of
        (s1, Inl e) \<Rightarrow> run_script (k (Inl e)) req proceed got s1
      | (s1, Inr r) \<Rightarrow> run_script (k (Inr r)) req proceed (Some r) s1)"

definition escort_layer :: "escort \<Rightarrow> 's handler \<Rightarrow> 's handler" where
  "escort_layer fn proceed req s = run_script (fn req) req proceed None s"

definition wrap_model_call :: "escort list \<Rightarrow> 's handler \<Rightarrow> 's handler" where
  "wrap_model_call escorts base = foldr escort_layer escorts base"

text \<open>
  The contract of a step inwards: every call relates the states before and after by one preorder. What
  the base keeps, the whole onion keeps, as escorts change nothing but by dialling.
\<close>

locale call_relation =
  fixes R :: "'s \<Rightarrow> 's \<Rightarrow> bool"
  assumes refl: "R a a" and trans: "R a b \<Longrightarrow> R b c \<Longrightarrow> R a c"
begin

lemma dialled: "(\<And>q s. R s (fst (proceed q s))) \<Longrightarrow> proceed req s = (s1, x) \<Longrightarrow> R s0 s \<Longrightarrow> R s0 s1"
  by (metis fst_conv trans)

lemma escort_layer_keeps:
  assumes base: "\<And>q s. R s (fst (proceed q s))"
  shows "R s (fst (escort_layer fn proceed req s))"
proof -
  have "R s (fst (run_script sc req proceed got s))" for sc got s
  proof (induction sc arbitrary: got s)
    case (Dial other k)
    obtain s1 x where p: "proceed (case other of None \<Rightarrow> req | Some r \<Rightarrow> r) s = (s1, x)"
      by (cases "proceed (case other of None \<Rightarrow> req | Some r \<Rightarrow> r) s")
    have "R s s1" using base [of s "case other of None \<Rightarrow> req | Some r \<Rightarrow> r"] p by simp
    with Dial.IH [of "k x"] trans show ?case by (cases x) (fastforce simp: p)+
  qed (auto simp: base refl split: option.splits)
  then show ?thesis by (simp add: escort_layer_def)
qed

lemma wrap_keeps: "(\<And>q s. R s (fst (base q s))) \<Longrightarrow> R s (fst (wrap_model_call escorts base req s))"
  by (induction escorts arbitrary: req s) (auto simp: wrap_model_call_def intro: escort_layer_keeps)

end

text \<open>Escorts that raise before they dial, abstain, or only pass the call on are not there.\<close>

definition passes :: escort where
  "passes req = Dial None (\<lambda>r. case r of Inl e \<Rightarrow> Raise e | Inr out \<Rightarrow> Speak (Some out))"

lemma silent_escorts:
  assumes "\<forall>fn \<in> set escorts. \<forall>req. (\<exists>e. fn req = Raise e) \<or> fn req = Speak None"
  shows "wrap_model_call escorts base = base"
  using assms
proof (induction escorts)
  case (Cons fn escorts)
  have "escort_layer fn base = base"
  proof (intro ext)
    fix req s
    from Cons.prems have "(\<exists>e. fn req = Raise e) \<or> fn req = Speak None" by simp
    then show "escort_layer fn base req s = base req s" by (auto simp: escort_layer_def)
  qed
  with Cons show ?case by (simp add: wrap_model_call_def)
qed (simp add: wrap_model_call_def)

lemma answered_once:
  assumes "\<And>req s. \<exists>s' r. base req s = (s', Inr r)"
  shows "wrap_model_call (replicate n passes) base = base"
proof (induction n)
  case (Suc n)
  have "escort_layer passes base = base"
  proof (intro ext)
    fix req s
    from assms [of req s] show "escort_layer passes base req s = base req s" by (auto simp: escort_layer_def passes_def)
  qed
  with Suc show ?case by (simp add: wrap_model_call_def)
qed (simp add: wrap_model_call_def)

text \<open>
  But an exception of the call itself counts as the escort's: each escort on the way dials again, and a
  failing model is called twice as often with every escort registered.
\<close>

lemma failed_dial: "w req s = (s1, Inl e) \<Longrightarrow> escort_layer passes w req s = w req s1"
  by (simp add: escort_layer_def passes_def)

lemma failed_call_dialled_again:
  assumes "\<And>req k. base req k = (k + 1, Inl e)"
  shows "wrap_model_call (replicate n passes) base req (k :: nat) = (k + 2 ^ n, Inl e)"
proof (induction n arbitrary: req k)
  case 0
  then show ?case by (simp add: wrap_model_call_def assms)
next
  case (Suc n)
  have "wrap_model_call (replicate (Suc n) passes) base = escort_layer passes (wrap_model_call (replicate n passes) base)"
    by (simp add: wrap_model_call_def)
  with failed_dial [of "wrap_model_call (replicate n passes) base", OF Suc] Suc show ?case by simp
qed

end
