(* ===== verification/AgentLoop.thy ===== *)
theory AgentLoop
  imports Hooks TokenFilter StateMachine Database
begin

text \<open>
  \<open>runtime/conversation_loop.py\<close>: the agent's turn. The loop asks the model for its next move, lets the
  state machine enact it, writes down what was said and done, and ends the turn. The conversation state
  and \<open>enact\<close> are those of the state machine's theories, the model call goes through the escorts of
  \<open>Hooks\<close>. What is not of the loop is in the record \<open>loop_host\<close>: the model, the compaction service,
  the registered tools with their call limits, the hooks, and whatever other threads do to the session
  in the meantime. Live deltas and bus announcements are not modelled.
\<close>

section \<open>Texts\<close>

definition last_chars :: "nat \<Rightarrow> string \<Rightarrow> string" where
  "last_chars n s = (if n = 0 then s else drop (length s - n) s)"

definition truncate_middle :: "nat \<Rightarrow> string \<Rightarrow> string" where
  "truncate_middle max_chars s =
     (if length s \<le> max_chars then s
      else (let front = max_chars div 2; back = max_chars - front in
        take front s @ [CHR 0x0A] @ ''...[truncated '' @ show_nat (length s - max_chars) @ '' chars]...'' @ [CHR 0x0A] @ last_chars back s))"

definition clean :: "string option \<Rightarrow> string" where
  "clean text = fst (strip_model_tokens (case text of None \<Rightarrow> [] | Some t \<Rightarrow> t))"

text \<open>\<open>is_context_limit_error\<close>, on the text of a provider error in lower case.\<close>

definition context_limit_hints :: "string list" where
  "context_limit_hints = [''context window'', ''context length'', ''context_length'', ''maximum context'', ''max context'',
     ''too many tokens'', ''too long'', ''max_tokens'', ''prompt is too long'', ''prompt tokens'', ''exceeds limit'',
     ''exceeds limits'', ''exceeded limit'', ''token limit'', ''request too large'']"

definition context_related_terms :: "string list" where
  "context_related_terms = [''context'', ''token'', ''prompt'', ''input'']"

definition limit_related_terms :: "string list" where
  "limit_related_terms = [''limit'', ''limits'', ''length'', ''maximum'', ''max'', ''too long'', ''too many'', ''exceed'', ''exceeds'', ''exceeded'']"

definition non_context_limit_hints :: "string list" where
  "non_context_limit_hints = [''not support model'', ''not supported model'', ''current token plan'', ''token plan not support'']"

definition is_context_limit_error :: "string \<Rightarrow> bool" where
  "is_context_limit_error error_text =
     (let t = lower error_text; mentions = (\<lambda>hint. sublist hint t) in
      if t = [] then False
      else if list_ex mentions non_context_limit_hints then False
      else if list_ex mentions context_limit_hints then True
      else if list_ex mentions context_related_terms \<and> list_ex mentions limit_related_terms then True
      else mentions ''invalid params'' \<and> mentions ''window'' \<and> mentions ''limit'')"


section \<open>The prompt\<close>

definition system_context_marker :: string where "system_context_marker = ''[SYSTEM CONTEXT UPDATE]''"

text \<open>A prompt is one text, or sections, each of a role and a text.\<close>

datatype system_prompt = PlainPrompt string | Sections "(string \<times> string) list"

definition context_section :: "string \<times> string \<Rightarrow> bool" where
  "context_section s \<longleftrightarrow> fst s = ''user'' \<and> prefix system_context_marker (lstrip_when is_space (snd s))"

definition prompt_sections :: "system_prompt \<Rightarrow> (string \<times> string) list" where
  "prompt_sections p = (case p of
     PlainPrompt t \<Rightarrow> [(''system'', t)]
   | Sections ss \<Rightarrow> filter (\<lambda>s. snd s \<noteq> [] \<and> (fst s = ''system'' \<or> context_section s)) ss)"

text \<open>The transcript before the latest message of the user, and from that message on.\<close>

definition split_current_turn :: "hist_msg list \<Rightarrow> hist_msg list \<times> hist_msg list" where
  "split_current_turn h =
     (let rest = rev (takeWhile (\<lambda>m. hm_role m \<noteq> ''user'') (rev h));
          upto = rev (dropWhile (\<lambda>m. hm_role m \<noteq> ''user'') (rev h))
      in if upto = [] then (h, []) else (butlast upto, last upto # rest))"

definition prepend_to_user :: "(pyval \<Rightarrow> string) \<Rightarrow> hist_msg \<Rightarrow> string \<Rightarrow> hist_msg" where
  "prepend_to_user str m context =
     m\<lparr>hm_content := (case hm_content m of
         VList blocks \<Rightarrow> VList (VDict [(''type'', VStr ''text''), (''text'', VStr context)] # blocks)
       | v \<Rightarrow> (let t = strip (if truthy v then str v else []) in
           VStr (if t \<noteq> [] then context @ [CHR 0x0A, CHR 0x0A] @ t else context)))\<rparr>"

definition section_msg :: "string \<times> string \<Rightarrow> hist_msg" where
  "section_msg s = plain_msg (fst s) (VStr (snd s))"

definition build_messages :: "(pyval \<Rightarrow> string) \<Rightarrow> system_prompt \<Rightarrow> hist_msg list \<Rightarrow> hist_msg list" where
  "build_messages str prompt h =
     (let sections = prompt_sections prompt; history = filter (\<lambda>m. hm_role m \<noteq> ''system'') h in
      case find context_section sections of
        None \<Rightarrow> map section_msg sections @ history
      | Some ctx \<Rightarrow>
          (let front = map section_msg (remove1 ctx sections) in
           case split_current_turn history of
             (prior, []) \<Rightarrow> front @ prior @ [section_msg ctx]
           | (prior, m # rest) \<Rightarrow> front @ prior @ [prepend_to_user str m (snd ctx)] @ rest))"


section \<open>State\<close>

text \<open>A tool call the loop is about to make.\<close>

record tool_move =
  tm_name :: "string option"
  tm_args :: pyval
  tm_id :: "string option"
  tm_text :: "string option"
  tm_forced :: "string option"

datatype agent_move = Say string | Finish string | UseTool tool_move

record queued_action =
  qa_name :: string
  qa_args :: "(string, pyval) pydict"
  qa_forced :: string

text \<open>
  What the loop shares with the rest of the process: the cancel event, and the fields of the session
  it reads and clears.
\<close>

record loop_session =
  sn_restart :: bool
  sn_messages :: "string list"
  sn_actions :: "queued_action list"
  sn_staged :: "pyval list"

record shared_state =
  sh_cancelled :: bool
  sh_session :: "loop_session option"

record ledger_row =
  lr_action :: string
  lr_content :: pyval
  lr_ok :: bool
  lr_forced :: "string option"

record loop_state =
  ls_cs :: conv_state
  ls_history :: "hist_msg list"
  ls_new :: "hist_msg list"
  ls_saved :: "saved list"
  ls_paths :: "pyval list"
  ls_pending :: "model_call list"
  ls_call_text :: "string option"
  ls_final :: "string option"
  ls_counts :: "(string, nat) pydict"
  ls_fires :: nat
  ls_notes :: "string list"
  ls_tools_once :: "pyval list option"
  ls_choice_once :: pyval
  ls_suppress :: bool
  ls_retried :: bool
  ls_bundle :: "pyval list"
  ls_ledger :: "ledger_row list"
  ls_shared :: shared_state
  ls_clock :: nat

datatype doorman_verdict =
    Allow
  | SendBack string bool bool
  | RequireTool string string
  | Redrive

record turn_ending =
  te_final :: "string option"
  te_reason :: string
  te_fires :: nat

text \<open>What \<open>getattr\<close> finds on the result of a tool, with the defaults the loop gives.\<close>

record tool_view =
  tv_success :: bool
  tv_error :: pyval
  tv_summary :: "string option"
  tv_data :: pyval
  tv_paths :: "pyval list"

text \<open>
  \<open>lh_outside\<close> is what others do to the shared state between two points of time; the clock advances
  whenever the loop waits for somebody (at every iteration, model call and enacted move).
  \<open>lh_compact\<close> is the compaction service: \<open>None\<close> when it is missing, fails or says nothing.
\<close>

record loop_host =
  lh_env :: environment
  lh_actor :: string
  lh_codec :: codec
  lh_decode_error :: "string \<Rightarrow> string"
  lh_str :: "pyval \<Rightarrow> string"
  lh_brain :: brain
  lh_backend :: "nat \<Rightarrow> brain \<Rightarrow> model_request \<Rightarrow> (string, pyval) pydict \<Rightarrow> model_response pyres"
  lh_error_text :: "pyexn \<Rightarrow> string"
  lh_escorts :: "escort list"
  lh_doormen :: "nat \<Rightarrow> (turn_ending \<Rightarrow> doorman_verdict option pyres) list"
  lh_limits :: "(string, nat) pydict"
  lh_registry_max :: nat
  lh_schemas :: "pyval list"
  lh_prompt :: "nat \<Rightarrow> system_prompt"
  lh_compact :: "nat \<Rightarrow> string \<Rightarrow> string option"
  lh_now :: "nat \<Rightarrow> rat"
  lh_uuid :: "nat \<Rightarrow> string"
  lh_saves :: bool
  lh_view :: "datum \<Rightarrow> tool_view"
  lh_outside :: "nat \<Rightarrow> shared_state \<Rightarrow> shared_state"

definition tick :: "loop_host \<Rightarrow> loop_state \<Rightarrow> loop_state" where
  "tick h st = st\<lparr>ls_shared := lh_outside h (ls_clock st) (ls_shared st), ls_clock := ls_clock st + 1\<rparr>"

definition cancelled :: "loop_state \<Rightarrow> bool" where
  "cancelled st = sh_cancelled (ls_shared st)"

definition session_of :: "loop_state \<Rightarrow> loop_session option" where
  "session_of st = sh_session (ls_shared st)"

definition set_session :: "loop_session \<Rightarrow> loop_state \<Rightarrow> loop_state" where
  "set_session s st = st\<lparr>ls_shared := (ls_shared st)\<lparr>sh_session := Some s\<rparr>\<rparr>"

definition restart_requested :: "loop_state \<Rightarrow> bool" where
  "restart_requested st = (case session_of st of None \<Rightarrow> False | Some s \<Rightarrow> sn_restart s)"

definition max_tool_calls :: "loop_host \<Rightarrow> nat" where
  "max_tool_calls h = (if lh_registry_max h \<noteq> 0 then lh_registry_max h
     else if sum_list (dvalues (lh_limits h)) \<noteq> 0 then sum_list (dvalues (lh_limits h)) else 1)"

text \<open>\<open>_record\<close>: the one place where a row of the turn is written.\<close>

definition record_row :: "loop_host \<Rightarrow> hist_msg \<Rightarrow> loop_state \<Rightarrow> loop_state" where
  "record_row h m st = st\<lparr>ls_history := ls_history st @ [m], ls_new := ls_new st @ [m],
     ls_saved := (if lh_saves h then ls_saved st @ [SaveMessage m] else ls_saved st)\<rparr>"



section \<open>The call to the model\<close>

definition provider_messages :: "loop_host \<Rightarrow> loop_state \<Rightarrow> hist_msg list \<Rightarrow> hist_msg list" where
  "provider_messages h st history = build_messages (lh_str h) (lh_prompt h (ls_clock st)) history"

definition user_msg :: "string \<Rightarrow> hist_msg" where
  "user_msg t = plain_msg ''user'' (VStr t)"

text \<open>\<open>_call_backend\<close> and \<open>_invoke_inner\<close>: an answer that is an error is raised like one.\<close>

definition call_backend :: "loop_host \<Rightarrow> loop_state handler" where
  "call_backend h req st =
     (let b = (case mr_llm req of Some b \<Rightarrow> b | None \<Rightarrow> lh_brain h);
          kwargs = (if mr_choice req \<noteq> VNone \<and> bn_tool_choice b then dset ''tool_choice'' (mr_choice req) (mr_params req) else mr_params req)
      in (tick h st, case lh_backend h (ls_clock st) b req kwargs of
            Inl e \<Rightarrow> Inl e
          | Inr r \<Rightarrow> if rs_error r \<noteq> [] then Inl (PyExn ''RuntimeError'' (rs_error r)) else Inr r))"

definition empty_nudge :: string where
  "empty_nudge = ''Your last response was empty. Send the user a substantive reply summarizing where things stand (or call a tool).''"

definition empty_response_layer :: "loop_state handler \<Rightarrow> loop_state handler" where
  "empty_response_layer proceed req st =
     (case proceed req st of
        (st1, Inl e) \<Rightarrow> (st1, Inl e)
      | (st1, Inr r) \<Rightarrow>
          if rs_calls r \<noteq> [] \<or> clean (rs_content r) \<noteq> [] \<or> ls_retried st1 then (st1, Inr r)
          else proceed (req\<lparr>mr_messages := mr_messages req @ [user_msg empty_nudge], mr_attachments := []\<rparr>)
                 (st1\<lparr>ls_retried := True\<rparr>))"

text \<open>
  \<open>_compact\<close>: nothing happens when the transcript cannot be built (a content that is neither text nor
  list), or when the service has no summary.
\<close>

definition transcript_line :: "(pyval \<Rightarrow> string) \<Rightarrow> hist_msg \<Rightarrow> string option" where
  "transcript_line str m = map_option (\<lambda>body. map upper_char (hm_role m) @ '': '' @ body)
     (case py_or (hm_content m) (VStr []) of
        VStr s \<Rightarrow> Some (take 1000 s)
      | VList xs \<Rightarrow> Some (str (VList (take 1000 xs)))
      | _ \<Rightarrow> None)"

definition max_tool_result_chars :: nat where "max_tool_result_chars = 12000"

definition cap_content :: "nat \<Rightarrow> hist_msg \<Rightarrow> hist_msg" where
  "cap_content cap m = (case hm_content m of
     VStr s \<Rightarrow> if length s \<le> cap then m else m\<lparr>hm_content := VStr (truncate_middle cap s)\<rparr>
   | _ \<Rightarrow> m)"

definition summary_text :: "string \<Rightarrow> string" where
  "summary_text summary = ''[Conversation summary from earlier]'' @ [CHR 0x0A] @ summary"

definition compact :: "loop_host \<Rightarrow> loop_state \<Rightarrow> loop_state" where
  "compact h st =
     (let history = ls_history st; lines = map (transcript_line (lh_str h)) history in
      if length history \<le> 2 \<or> list_ex (\<lambda>l. l = None) lines then st
      else (case lh_compact h (ls_clock st) (truncate_middle 20000 (join_with [CHR 0x0A] (map the lines))) of
          None \<Rightarrow> st
        | Some [] \<Rightarrow> st
        | Some summary \<Rightarrow>
            st\<lparr>ls_saved := (if lh_saves h then ls_saved st @ [SaveCompaction summary 2 (lh_now h (ls_clock st))] else ls_saved st),
               ls_history := [user_msg (summary_text summary), plain_msg ''assistant'' (VStr ''Understood - I have the earlier context.'')] @
                 map (cap_content max_tool_result_chars) (drop (length history - 2) history)\<rparr>))"

definition emergency_truncate :: "loop_state \<Rightarrow> loop_state" where
  "emergency_truncate st =
     (let history = ls_history st in
      if history = [] then st
      else (let keep = (if list_ex (\<lambda>m. hm_role m = ''user'') history then snd (split_current_turn history)
                        else [last history]) in
        st\<lparr>ls_history := [user_msg ''[Earlier conversation dropped to fit context. Continue from the message below.]'',
             plain_msg ''assistant'' (VStr ''Understood.'')] @ map (cap_content 2000) keep\<rparr>))"

definition compact_if_needed :: "loop_host \<Rightarrow> model_request \<Rightarrow> model_response \<Rightarrow> loop_state \<Rightarrow> loop_state" where
  "compact_if_needed h req r st =
     (let b = (case mr_llm req of Some b \<Rightarrow> b | None \<Rightarrow> lh_brain h) in
      if bn_context b = 0 \<or> rs_prompt_tokens r = 0 \<or> rs_prompt_tokens r * 5 < bn_context b * 4 \<or> length (ls_history st) \<le> 2
      then st else compact h st)"

definition context_limit :: "loop_host \<Rightarrow> pyexn \<Rightarrow> bool" where
  "context_limit h e = is_context_limit_error (lh_error_text h e)"

definition rebuilt :: "loop_host \<Rightarrow> model_request \<Rightarrow> loop_state \<Rightarrow> model_request" where
  "rebuilt h req st = req\<lparr>mr_messages := provider_messages h st (ls_history st), mr_attachments := []\<rparr>"

definition compaction_layer :: "loop_host \<Rightarrow> loop_state handler \<Rightarrow> loop_state handler" where
  "compaction_layer h proceed req st =
     (case proceed req st of
        (st1, Inr r) \<Rightarrow> (compact_if_needed h req r st1, Inr r)
      | (st1, Inl e) \<Rightarrow>
          if \<not> context_limit h e then (st1, Inl e)
          else (let st2 = compact h st1 in
            case proceed (rebuilt h req st2) st2 of
              (st3, Inr r) \<Rightarrow> (st3, Inr r)
            | (st3, Inl e2) \<Rightarrow>
                if \<not> context_limit h e2 then (st3, Inl e2)
                else (let st4 = emergency_truncate st3 in
                  case proceed (rebuilt h req st4) st4 of
                    (st5, Inr r) \<Rightarrow> (st5, Inr r)
                  | (st5, Inl e3) \<Rightarrow> (st5, Inl (if context_limit h e3
                      then PyExn ''RuntimeError'' ''Context limit reached even after compacting. Use /new to start fresh.'' else e3)))))"

definition invoke :: "loop_host \<Rightarrow> hist_msg list \<Rightarrow> pyval list option \<Rightarrow> pyval list \<Rightarrow> pyval \<Rightarrow> loop_state \<Rightarrow> loop_state \<times> model_response pyres" where
  "invoke h messages tools bundle choice st =
     (let base = compaction_layer h (empty_response_layer (call_backend h));
          handler = (if session_of st = None then base else wrap_model_call (lh_escorts h) base)
      in handler \<lparr>mr_llm = Some (lh_brain h), mr_messages = messages, mr_tools = tools, mr_choice = choice,
           mr_params = [], mr_attachments = bundle\<rparr> st)"


section \<open>The next move\<close>

text \<open>
  \<open>json.loads\<close> of the arguments, of which only a decoding error is caught. The budget refusal counts
  the call it lets through.
\<close>

definition invalid_key :: string where "invalid_key = ''__invalid_arguments__''"

definition parse_arguments :: "loop_host \<Rightarrow> string option \<Rightarrow> pyval" where
  "parse_arguments h arguments =
     (case arguments of
        None \<Rightarrow> VDict []
      | Some [] \<Rightarrow> VDict []
      | Some s \<Rightarrow> (case loads (lh_codec h) s of
          Some v \<Rightarrow> v
        | None \<Rightarrow> VDict [(invalid_key, VStr (lh_decode_error h s))]))"

definition pop_call :: "loop_host \<Rightarrow> loop_state \<Rightarrow> (loop_state \<times> agent_move) option" where
  "pop_call h st =
     (case ls_pending st of
        [] \<Rightarrow> None
      | tc # rest \<Rightarrow> Some (st\<lparr>ls_pending := rest, ls_call_text := None\<rparr>,
          UseTool \<lparr>tm_name = mc_name tc, tm_args = parse_arguments h (mc_arguments tc), tm_id = mc_id tc,
            tm_text = ls_call_text st, tm_forced = None\<rparr>))"

text \<open>\<open>_pop_agent_action\<close>: entries without a name are dropped.\<close>

fun pop_queued :: "queued_action list \<Rightarrow> queued_action list \<times> queued_action option" where
  "pop_queued [] = ([], None)"
| "pop_queued (a # rest) = (if qa_name a = [] then pop_queued rest else (rest, Some a))"

definition pop_agent_action :: "loop_host \<Rightarrow> loop_state \<Rightarrow> loop_state \<times> agent_move option" where
  "pop_agent_action h st =
     (case session_of st of
        None \<Rightarrow> (st, None)
      | Some s \<Rightarrow>
          (case pop_queued (sn_actions s) of
             (rest, None) \<Rightarrow> (set_session (s\<lparr>sn_actions := rest\<rparr>) st, None)
           | (rest, Some a) \<Rightarrow> (set_session (s\<lparr>sn_actions := rest\<rparr>) st,
               Some (UseTool \<lparr>tm_name = Some (qa_name a), tm_args = VDict (qa_args a), tm_id = Some (''tc_hook_'' @ lh_uuid h (ls_clock st)),
                 tm_text = None, tm_forced = Some (if qa_forced a = [] then ''pending_agent_actions'' else qa_forced a)\<rparr>))))"

text \<open>\<open>next_action\<close>: \<open>None\<close> when the turn was cancelled. The attachments go with the first model call only.\<close>

definition offered_tools :: "loop_host \<Rightarrow> loop_state \<Rightarrow> pyval list option" where
  "offered_tools h st =
     (let schemas = (if ls_suppress st then [] else case ls_tools_once st of Some s \<Rightarrow> s | None \<Rightarrow> lh_schemas h)
      in if schemas = [] then None else Some schemas)"

definition take_reply :: "loop_host \<Rightarrow> model_response \<Rightarrow> loop_state \<Rightarrow> loop_state \<times> agent_move option" where
  "take_reply h r st =
     (if rs_calls r \<noteq> [] then
        (let st1 = st\<lparr>ls_pending := rs_calls r, ls_call_text := rs_content r\<rparr> in
         if cancelled st1 then (st1, None)
         else (case pop_call h st1 of None \<Rightarrow> (st1, None) | Some (st2, mv) \<Rightarrow> (st2, Some mv)))
      else (let t = clean (rs_content r) in (st\<lparr>ls_final := Some t\<rparr>, Some (Say t))))"

definition ask_model :: "loop_host \<Rightarrow> loop_state \<Rightarrow> loop_state \<times> agent_move option pyres" where
  "ask_model h st =
     (case invoke h (provider_messages h st (ls_history st) @ map user_msg (ls_notes st)) (offered_tools h st) (ls_bundle st) (ls_choice_once st)
             (st\<lparr>ls_tools_once := None, ls_choice_once := VNone, ls_suppress := False, ls_notes := []\<rparr>) of
        (st1, Inl e) \<Rightarrow> (st1, Inl e)
      | (st1, Inr r) \<Rightarrow> (case take_reply h r (st1\<lparr>ls_bundle := []\<rparr>) of (st2, mv) \<Rightarrow> (st2, Inr mv)))"

definition next_action :: "loop_host \<Rightarrow> loop_state \<Rightarrow> loop_state \<times> agent_move option pyres" where
  "next_action h st =
     (if cancelled st then (st, Inr None)
      else (case pop_call h st of
          Some (st1, mv) \<Rightarrow> (st1, Inr (Some mv))
        | None \<Rightarrow>
            (case pop_agent_action h st of
               (st1, Some mv) \<Rightarrow> (st1, Inr (Some mv))
             | (st1, None) \<Rightarrow>
                 (case ls_final st1 of
                    Some t \<Rightarrow> if cs_turn_priority (ls_cs st1) = ''agent'' then (st1, Inr (Some (Finish t))) else ask_model h st1
                  | None \<Rightarrow> ask_model h st1))))"




section \<open>Enacting a move and writing it down\<close>

definition move_action :: "agent_move \<Rightarrow> string" where
  "move_action mv = (case mv of Say _ \<Rightarrow> ''send_text'' | Finish _ \<Rightarrow> ''end_turn'' | UseTool _ \<Rightarrow> ''call_tool'')"

definition opt_str :: "string option \<Rightarrow> pyval" where
  "opt_str s = (case s of None \<Rightarrow> VNone | Some t \<Rightarrow> VStr t)"

definition move_content :: "agent_move \<Rightarrow> pyval" where
  "move_content mv = (case mv of
     Say t \<Rightarrow> VStr t
   | Finish t \<Rightarrow> VDict [(''final_text'', VStr t)]
   | UseTool m \<Rightarrow> VDict ([(''name'', opt_str (tm_name m)), (''args'', tm_args m), (''_tool_call_id'', opt_str (tm_id m)),
       (''_assistant_text'', opt_str (tm_text m))] @ (case tm_forced m of None \<Rightarrow> [] | Some f \<Rightarrow> [(''_forced_by'', VStr f)])))"

definition or_text :: "string option \<Rightarrow> string \<Rightarrow> string" where
  "or_text s dflt = (case s of None \<Rightarrow> dflt | Some [] \<Rightarrow> dflt | Some t \<Rightarrow> t)"

definition move_name :: "tool_move \<Rightarrow> string" where "move_name m = or_text (tm_name m) ''unknown''"
definition move_args :: "tool_move \<Rightarrow> pyval" where "move_args m = py_or (tm_args m) (VDict [])"

text \<open>\<open>_enact_logged\<close>: the one call of \<open>enact\<close>, and its row in the ledger.\<close>

definition enact_logged :: "loop_host \<Rightarrow> string \<Rightarrow> pyval \<Rightarrow> string option \<Rightarrow> loop_state \<Rightarrow> action_result \<times> loop_state" where
  "enact_logged h action content forced st =
     (case enact (lh_env h) action content (Some (lh_actor h)) (ls_cs st) of
        (r, cs) \<Rightarrow> (r, tick h (st\<lparr>ls_cs := cs,
          ls_ledger := ls_ledger st @ [\<lparr>lr_action = action, lr_content = content, lr_ok = ar_ok r, lr_forced = forced\<rparr>]\<rparr>)))"

text \<open>
  \<open>"__invalid_arguments__" in args\<close>: of a number it raises, in a text or a list it finds the key and
  then indexes it with a text, which raises as well.
\<close>

definition invalid_arguments :: "(pyval \<Rightarrow> string) \<Rightarrow> pyval \<Rightarrow> string option pyres" where
  "invalid_arguments str args =
     (case args of
        VDict d \<Rightarrow> Inr (map_option str (dget d invalid_key))
      | VStr s \<Rightarrow> if sublist invalid_key s then Inl (PyExn ''TypeError'' ''string indices must be integers'') else Inr None
      | VList xs \<Rightarrow> if py_in (VStr invalid_key) xs then Inl (PyExn ''TypeError'' ''list indices must be integers'') else Inr None
      | _ \<Rightarrow> Inl (PyExn ''TypeError'' ''argument is not iterable''))"

definition tool_budget :: "loop_host \<Rightarrow> string \<Rightarrow> loop_state \<Rightarrow> loop_state \<times> string option" where
  "tool_budget h nm st =
     (case dget (lh_limits h) nm of
        None \<Rightarrow> (st, None)
      | Some limit \<Rightarrow>
          (let used = (case dget (ls_counts st) nm of None \<Rightarrow> 0 | Some n \<Rightarrow> n) in
           if limit \<le> used then (st, Some (''Tool '' @ nm @ '' has reached its call limit ('' @ show_nat limit @ ''). Try a different approach.''))
           else (st\<lparr>ls_counts := dset nm (used + 1) (ls_counts st)\<rparr>, None)))"

definition tool_refusal :: "loop_host \<Rightarrow> tool_move \<Rightarrow> loop_state \<Rightarrow> loop_state \<times> (string \<times> string) option pyres" where
  "tool_refusal h m st =
     (case invalid_arguments (lh_str h) (move_args m) of
        Inl e \<Rightarrow> (st, Inl e)
      | Inr (Some t) \<Rightarrow> (st, Inr (Some (''Invalid JSON in tool arguments: '' @ t, ''invalid_arguments'')))
      | Inr None \<Rightarrow> (case tool_budget h (move_name m) st of
          (st1, None) \<Rightarrow> (st1, Inr None)
        | (st1, Some msg) \<Rightarrow> (st1, Inr (Some (msg, ''tool_budget_exceeded'')))))"

definition refused_result :: "string \<times> string \<Rightarrow> action_result" where
  "refused_result x = fail_result ''call_tool'' \<lparr>er_code = snd x, er_message = fst x, er_details = [], er_retry_phase = None\<rparr> []"

definition error_json :: "loop_host \<Rightarrow> pyval \<Rightarrow> string" where
  "error_json h v = dumps (lh_codec h) (VDict [(''error'', v)])"

definition format_tool_result :: "loop_host \<Rightarrow> action_result \<Rightarrow> pyval \<Rightarrow> (string \<times> pyval list) pyres" where
  "format_tool_result h r args =
     rbind (invalid_arguments (lh_str h) args) (\<lambda>bad.
       case bad of
         Some t \<Rightarrow> Inr (error_json h (VStr (''Invalid JSON in tool arguments: '' @ t)), [])
       | None \<Rightarrow>
           if \<not> ar_ok r then
             Inr (error_json h (case ar_error r of Some e \<Rightarrow> VStr (er_message e) | None \<Rightarrow> VStr ''Tool failed.''), [])
           else (case dget (ar_data r) ''result'' of
               None \<Rightarrow> Inr (or_text (ar_message r) ''(tool produced no result)'', [])
             | Some (Plain VNone) \<Rightarrow> Inr (or_text (ar_message r) ''(tool produced no result)'', [])
             | Some d \<Rightarrow>
                 (let v = lh_view h d in
                  if \<not> tv_success v then Inr (error_json h (tv_error v), [])
                  else Inr (truncate_middle max_tool_result_chars
                      (or_text (tv_summary v) (dumps (lh_codec h) (tv_data v))), tv_paths v))))"

definition call_row :: "loop_host \<Rightarrow> tool_move \<Rightarrow> hist_msg" where
  "call_row h m = (plain_msg ''assistant'' (opt_str (tm_text m)))\<lparr>hm_calls := VList [VDict
     [(''id'', VStr (or_text (tm_id m) ''tc_unknown'')), (''type'', VStr ''function''),
      (''function'', VDict [(''name'', VStr (move_name m)), (''arguments'', VStr (dumps (lh_codec h) (move_args m)))])]]\<rparr>"

definition result_row :: "tool_move \<Rightarrow> string \<Rightarrow> hist_msg" where
  "result_row m t = (plain_msg ''tool'' (VStr t))\<lparr>hm_call_id := VStr (or_text (tm_id m) ''tc_unknown''), hm_tool_name := VStr (move_name m)\<rparr>"

text \<open>\<open>_absorb\<close>. Formatting only raises on arguments that \<open>tool_refusal\<close> has already stopped.\<close>

definition absorb :: "loop_host \<Rightarrow> agent_move \<Rightarrow> action_result \<Rightarrow> loop_state \<Rightarrow> loop_state" where
  "absorb h mv r st =
     (case mv of
        Say t \<Rightarrow> record_row h (plain_msg ''assistant'' (VStr t)) st
      | Finish _ \<Rightarrow> st
      | UseTool m \<Rightarrow>
          (case format_tool_result h r (move_args m) of
             Inl _ \<Rightarrow> record_row h (call_row h m) st
           | Inr (t, paths) \<Rightarrow>
               record_row h (result_row m t) (record_row h (call_row h m) (st\<lparr>ls_paths := ls_paths st @ paths\<rparr>))))"

text \<open>\<open>_drain_hook_attachments\<close>, \<open>_drain_queued_messages\<close>.\<close>

definition drain_staged :: "loop_state \<Rightarrow> loop_state" where
  "drain_staged st = (case session_of st of
     None \<Rightarrow> st
   | Some s \<Rightarrow> set_session (s\<lparr>sn_staged := []\<rparr>) (st\<lparr>ls_bundle := ls_bundle st @ sn_staged s\<rparr>))"

definition drain_queued :: "loop_host \<Rightarrow> loop_state \<Rightarrow> loop_state" where
  "drain_queued h st =
     (if ls_pending st \<noteq> [] then st
      else (case session_of st of
          None \<Rightarrow> st
        | Some s \<Rightarrow>
            if sn_messages s = [] then st
            else (fold (\<lambda>t. record_row h (user_msg t)) (sn_messages s)
                   (set_session (s\<lparr>sn_messages := []\<rparr>) st))\<lparr>ls_final := None\<rparr>))"


section \<open>The doorway at the end of the turn\<close>

definition doorman_fire_limit :: nat where "doorman_fire_limit = 3"

datatype gate = GateEnd | GateAgain | GateRedrive

definition tool_schema :: "loop_host \<Rightarrow> string \<Rightarrow> pyval option" where
  "tool_schema h nm = find (\<lambda>schema. case schema of
      VDict d \<Rightarrow> (case dget d ''function'' of
          None \<Rightarrow> dget d ''name'' = Some (VStr nm)
        | Some (VDict f) \<Rightarrow> dget f ''name'' = Some (VStr nm)
        | Some _ \<Rightarrow> False)
    | _ \<Rightarrow> False) (lh_schemas h)"

definition vet_end_turn :: "loop_host \<Rightarrow> turn_ending \<Rightarrow> loop_state \<Rightarrow> doorman_verdict option" where
  "vet_end_turn h ending st = first_verdict (lh_doormen h (ls_clock st)) ending"

definition ask_restart :: "loop_state \<Rightarrow> loop_state" where
  "ask_restart st = (case session_of st of None \<Rightarrow> st | Some s \<Rightarrow> set_session (s\<lparr>sn_restart := True\<rparr>) st)"

definition doorman_gate :: "loop_host \<Rightarrow> string \<Rightarrow> loop_state \<Rightarrow> loop_state \<times> gate" where
  "doorman_gate h final st =
     (if doorman_fire_limit \<le> ls_fires st \<or> session_of st = None then (st, GateEnd)
      else (case vet_end_turn h \<lparr>te_final = Some final, te_reason = ''model_finished'', te_fires = ls_fires st\<rparr> st of
          None \<Rightarrow> (st, GateEnd)
        | Some Allow \<Rightarrow> (st, GateEnd)
        | Some Redrive \<Rightarrow> (ask_restart st, GateRedrive)
        | Some (SendBack note ephemeral allow_tools) \<Rightarrow>
            (let st1 = st\<lparr>ls_fires := ls_fires st + 1\<rparr>; n = strip note;
                 st2 = (if n = [] then st1
                        else if \<not> ephemeral then record_row h (user_msg n) st1
                        else st1\<lparr>ls_notes := ls_notes st1 @ [n]\<rparr>)
             in (st2\<lparr>ls_suppress := ls_suppress st2 \<or> \<not> allow_tools, ls_final := None\<rparr>, GateAgain))
        | Some (RequireTool nm note) \<Rightarrow>
            (let st1 = st\<lparr>ls_fires := ls_fires st + 1\<rparr> in
             case tool_schema h nm of
               None \<Rightarrow> (st1, GateEnd)
             | Some schema \<Rightarrow>
                 (let n = (if strip note \<noteq> [] then strip note else ''Before finishing, you must call the '' @ nm @ '' tool now.'');
                      st2 = st1\<lparr>ls_notes := ls_notes st1 @ [n], ls_final := None\<rparr>
                  in ((if bn_tool_choice (lh_brain h)
                       then st2\<lparr>ls_tools_once := Some [schema],
                              ls_choice_once := VDict [(''type'', VStr ''function''), (''function'', VDict [(''name'', VStr nm)])]\<rparr>
                       else st2), GateAgain)))))"

definition over_budget_message :: string where
  "over_budget_message = ''I have made too many tool calls. Could you try a more specific question?''"

definition over_budget_nudge :: string where
  "over_budget_nudge = ''You have hit the tool-call limit. Summarize what you have and stop calling tools.''"

definition wrap_up :: "loop_host \<Rightarrow> string \<Rightarrow> loop_state \<Rightarrow> loop_state" where
  "wrap_up h note st =
     (case invoke h (provider_messages h st (ls_history st @ [user_msg note])) None [] VNone st of
        (st1, out) \<Rightarrow>
          (let t = (case out of Inl _ \<Rightarrow> over_budget_message
                    | Inr r \<Rightarrow> if clean (rs_content r) = [] then over_budget_message else clean (rs_content r))
           in case enact_logged h ''send_text'' (VStr t) None (st1\<lparr>ls_final := Some t\<rparr>) of
                (r, st2) \<Rightarrow> absorb h (Say t) r st2))"

definition finish_over_budget :: "loop_host \<Rightarrow> loop_state \<Rightarrow> loop_state" where
  "finish_over_budget h st =
     (let verdict = (if session_of st \<noteq> None \<and> ls_fires st < doorman_fire_limit
            then vet_end_turn h \<lparr>te_final = None, te_reason = ''budget_exhausted'', te_fires = ls_fires st\<rparr> st else None) in
      case verdict of
        Some Allow \<Rightarrow> st
      | Some Redrive \<Rightarrow> ask_restart st
      | Some (SendBack note _ _) \<Rightarrow>
          if strip note \<noteq> [] then wrap_up h (strip note) (st\<lparr>ls_fires := ls_fires st + 1\<rparr>) else wrap_up h over_budget_nudge st
      | Some (RequireTool _ note) \<Rightarrow>
          wrap_up h (if strip note \<noteq> [] then strip note else over_budget_nudge) (st\<lparr>ls_fires := ls_fires st + 1\<rparr>)
      | None \<Rightarrow> wrap_up h over_budget_nudge st)"


section \<open>The loop\<close>

datatype loop_exit = Ended | Restarting | ActionFailed

datatype iteration = Again | Exit loop_exit

text \<open>A move that is not refused by the loop itself: enact it, write it down, see what follows.\<close>

definition perform :: "loop_host \<Rightarrow> agent_move \<Rightarrow> loop_state \<Rightarrow> loop_state \<times> iteration" where
  "perform h mv st =
     (case enact_logged h (move_action mv) (move_content mv) (case mv of UseTool m \<Rightarrow> tm_forced m | _ \<Rightarrow> None) st of
        (r, st1) \<Rightarrow>
          (let st2 = absorb h mv r st1;
               st3 = (case mv of UseTool _ \<Rightarrow> drain_staged st2 | _ \<Rightarrow> st2)
           in (st3, if restart_requested st3 then Exit Restarting
                    else if \<not> ar_ok r then (case mv of UseTool _ \<Rightarrow> Again | _ \<Rightarrow> Exit ActionFailed)
                    else (case mv of Finish _ \<Rightarrow> Exit Ended | _ \<Rightarrow> Again))))"

definition take_move :: "loop_host \<Rightarrow> agent_move \<Rightarrow> loop_state \<Rightarrow> loop_state \<times> iteration pyres" where
  "take_move h mv st =
     (case mv of
        Say _ \<Rightarrow> (case perform h mv st of (st1, i) \<Rightarrow> (st1, Inr i))
      | Finish final \<Rightarrow>
          (case doorman_gate h final st of
             (st1, GateRedrive) \<Rightarrow> (st1, Inr (Exit Restarting))
           | (st1, GateAgain) \<Rightarrow> (st1, Inr Again)
           | (st1, GateEnd) \<Rightarrow> (case perform h mv st1 of (st2, i) \<Rightarrow> (st2, Inr i)))
      | UseTool m \<Rightarrow>
          (case tool_refusal h m st of
             (st1, Inl e) \<Rightarrow> (st1, Inl e)
           | (st1, Inr (Some x)) \<Rightarrow> (absorb h mv (refused_result x) st1, Inr Again)
           | (st1, Inr None) \<Rightarrow> (case perform h mv st1 of (st2, i) \<Rightarrow> (st2, Inr i))))"

fun iterate :: "nat \<Rightarrow> loop_host \<Rightarrow> loop_state \<Rightarrow> loop_state \<times> loop_exit pyres" where
  "iterate 0 h st = (st, Inr Ended)"
| "iterate (Suc n) h st0 =
     (let st = tick h st0 in
      if cancelled st \<or> cs_turn_priority (ls_cs st) \<noteq> lh_actor h then (st, Inr Ended)
      else (case next_action h (drain_queued h st) of
          (st1, Inl e) \<Rightarrow> (st1, Inl e)
        | (st1, Inr None) \<Rightarrow> (st1, Inr Ended)
        | (st1, Inr (Some mv)) \<Rightarrow>
            if cancelled st1 then (st1, Inr Ended)
            else (case take_move h mv st1 of
                (st2, Inl e) \<Rightarrow> (st2, Inl e)
              | (st2, Inr (Exit x)) \<Rightarrow> (st2, Inr x)
              | (st2, Inr Again) \<Rightarrow> iterate n h st2)))"

definition max_iterations :: "loop_host \<Rightarrow> nat" where
  "max_iterations h = (max_tool_calls h + 1) * 4"

text \<open>What \<open>drive\<close> resets, and the attachments it takes over from the conversation.\<close>

definition begin_turn :: "conv_state \<Rightarrow> hist_msg list \<Rightarrow> shared_state \<Rightarrow> loop_state" where
  "begin_turn cs history shared =
     \<lparr>ls_cs = (if cs_lifecycle cs = ''per_turn'' then cs\<lparr>cs_attachments := []\<rparr> else cs),
      ls_history = history, ls_new = [], ls_saved = [], ls_paths = [], ls_pending = [], ls_call_text = None, ls_final = None,
      ls_counts = [], ls_fires = 0, ls_notes = [], ls_tools_once = None, ls_choice_once = VNone, ls_suppress = False,
      ls_retried = False, ls_bundle = cs_attachments cs, ls_ledger = [], ls_shared = shared, ls_clock = 0\<rparr>"

definition hand_back :: "loop_host \<Rightarrow> loop_exit \<Rightarrow> loop_state \<Rightarrow> loop_state" where
  "hand_back h x st =
     (if cs_turn_priority (ls_cs st) = lh_actor h \<and> x \<noteq> Restarting \<and> \<not> restart_requested st then
        (let st1 = (if \<not> cancelled st \<and> x \<noteq> ActionFailed then finish_over_budget h st else st) in
         if restart_requested st1 then st1 else snd (enact_logged h ''end_turn'' VNone None st1))
      else st)"

definition drive_turn :: "loop_host \<Rightarrow> conv_state \<Rightarrow> hist_msg list \<Rightarrow> shared_state \<Rightarrow> loop_state \<times> string option pyres" where
  "drive_turn h cs history shared =
     (case iterate (max_iterations h) h (begin_turn cs history shared) of
        (st, Inl e) \<Rightarrow> (st, Inl e)
      | (st, Inr x) \<Rightarrow> (let st1 = hand_back h x st in (st1, Inr (ls_final st1))))"


end
