(* ===== verification/TurnProofs.thy ===== *)
theory TurnProofs
  imports AgentLoop
begin

text \<open>
  What a turn of the agent keeps, whatever the model, the hooks and the rest of the process do: the rows
  it writes are whole pairs of calls and answers, no tool runs more often than its limit, the
  conversation stays well formed, the doormen hold the agent back at most three times, and the turn is
  handed back. Each invariant has one lemma per operation of the loop.
\<close>

section \<open>What a model call leaves alone\<close>

text \<open>
  Waiting, asking the model and compacting the history leave the conversation, the rows of the turn, the
  ledger and the counters as they are, and save no message.
\<close>

lemma saved_messages_append [simp]: "saved_messages (xs @ ys) = saved_messages xs @ saved_messages ys"
  by (induction xs rule: saved_messages.induct) auto

definition calm :: "loop_state \<Rightarrow> loop_state \<Rightarrow> bool" where
  "calm st st' \<longleftrightarrow> ls_cs st' = ls_cs st \<and> ls_new st' = ls_new st \<and> ls_ledger st' = ls_ledger st \<and>
     ls_counts st' = ls_counts st \<and> ls_fires st' = ls_fires st \<and>
     saved_messages (ls_saved st') = saved_messages (ls_saved st)"

lemma calm_refl [simp]: "calm st st"
  by (simp add: calm_def)

interpretation calm: call_relation calm
  by unfold_locales (simp_all add: calm_def)

lemmas calm_trans = calm.trans

named_theorems calm_intros

lemma calm_updates [calm_intros]:
  "calm st (tick h st)" "calm st (set_session s st)" "calm st (compact h st)" "calm st (emergency_truncate st)"
  "calm st (compact_if_needed h req r st)" "calm st (ask_restart st)" "calm st (drain_staged st)"
  by (auto simp: calm_def tick_def set_session_def compact_def emergency_truncate_def compact_if_needed_def ask_restart_def
      drain_staged_def Let_def split: option.splits list.splits)

lemma calm_backend: "calm st (fst (call_backend h req st))"
  by (auto simp: call_backend_def Let_def intro: calm_intros)

text \<open>The two layers of the kernel and the escorts dial again, but only dial.\<close>

definition calm_handler :: "loop_state handler \<Rightarrow> bool" where
  "calm_handler proceed \<longleftrightarrow> (\<forall>req st. calm st (fst (proceed req st)))"

lemma calm_dialled: "calm_handler proceed \<Longrightarrow> proceed req st = (st1, x) \<Longrightarrow> calm st0 st \<Longrightarrow> calm st0 st1"
  unfolding calm_handler_def by (blast intro: calm.dialled)

lemma calm_empty_layer: "calm_handler proceed \<Longrightarrow> calm_handler (empty_response_layer proceed)"
proof (unfold calm_handler_def [of "empty_response_layer proceed"], intro allI)
  fix req st
  assume c: "calm_handler proceed"
  obtain st1 x where p: "proceed req st = (st1, x)" by (cases "proceed req st")
  have c1: "calm st st1" using calm_dialled [OF c p] by simp
  have "calm st1 (st1\<lparr>ls_retried := True\<rparr>)" by (simp add: calm_def)
  with c1 have "calm st (st1\<lparr>ls_retried := True\<rparr>)" by (rule calm_trans)
  then have "calm st (fst (proceed r (st1\<lparr>ls_retried := True\<rparr>)))" for r
    using c unfolding calm_handler_def by (blast intro: calm_trans)
  with c1 p show "calm st (fst (empty_response_layer proceed req st))"
    by (auto simp: empty_response_layer_def split: sum.splits)
qed

lemma calm_compaction_layer: "calm_handler proceed \<Longrightarrow> calm_handler (compaction_layer h proceed)"
proof (unfold calm_handler_def [of "compaction_layer h proceed"], intro allI)
  fix req st
  assume c: "calm_handler proceed"
  obtain st1 x where p: "proceed req st = (st1, x)" by (cases "proceed req st")
  have c1: "calm st st1" using calm_dialled [OF c p] by simp
  let ?st2 = "compact h st1"
  obtain st3 y where q: "proceed (rebuilt h req ?st2) ?st2 = (st3, y)" by (cases "proceed (rebuilt h req ?st2) ?st2")
  have "calm st ?st2" using c1 by (blast intro: calm_trans calm_intros)
  from calm_dialled [OF c q this] have c3: "calm st st3" .
  let ?st4 = "emergency_truncate st3"
  obtain st5 z where r: "proceed (rebuilt h req ?st4) ?st4 = (st5, z)" by (cases "proceed (rebuilt h req ?st4) ?st4")
  have "calm st ?st4" using c3 by (blast intro: calm_trans calm_intros)
  from calm_dialled [OF c r this] have c5: "calm st st5" .
  have "calm st (compact_if_needed h req v st1)" for v using c1 by (blast intro: calm_trans calm_intros)
  with c1 c3 c5 show "calm st (fst (compaction_layer h proceed req st))"
    by (auto simp: compaction_layer_def p q r Let_def split: sum.splits)
qed

lemma calm_invoke: "calm st (fst (invoke h messages tools bundle choice st))"
proof -
  let ?base = "compaction_layer h (empty_response_layer (call_backend h))"
  have "calm_handler (call_backend h)" by (simp add: calm_handler_def calm_backend)
  then have base: "calm_handler ?base" by (intro calm_compaction_layer calm_empty_layer)
  then have "calm s (fst (wrap_model_call (lh_escorts h) ?base req s))" for req s
    using calm.wrap_keeps [of ?base] by (simp add: calm_handler_def)
  with base show ?thesis by (simp add: invoke_def Let_def calm_handler_def)
qed

lemma calm_pop_call: "pop_call h st = Some (st1, mv) \<Longrightarrow> calm st st1"
  by (auto simp: pop_call_def calm_def split: list.splits)

lemma calm_pop_agent: "calm st (fst (pop_agent_action h st))"
  by (auto simp: pop_agent_action_def intro: calm_intros split: option.splits prod.splits)

lemma calm_take_reply: "calm st (fst (take_reply h r st))"
proof -
  let ?st1 = "st\<lparr>ls_pending := rs_calls r, ls_call_text := rs_content r\<rparr>"
  have c: "calm st ?st1" "calm st (st\<lparr>ls_final := f\<rparr>)" for f by (simp_all add: calm_def)
  have "calm st st2" if "pop_call h ?st1 = Some (st2, mv)" for st2 mv
    using calm_trans [OF c(1) calm_pop_call [OF that]] .
  with c show ?thesis by (auto simp: take_reply_def Let_def split: option.split)
qed

lemma calm_ask_model: "calm st (fst (ask_model h st))"
proof -
  let ?st0 = "st\<lparr>ls_tools_once := None, ls_choice_once := VNone, ls_suppress := False, ls_notes := []\<rparr>"
  let ?call = "invoke h (provider_messages h st (ls_history st) @ map user_msg (ls_notes st)) (offered_tools h st) (ls_bundle st) (ls_choice_once st) ?st0"
  obtain st1 x where p: "?call = (st1, x)" by (cases ?call)
  have "calm st ?st0" by (simp add: calm_def)
  moreover have "calm ?st0 st1" using calm_invoke p by (metis fst_conv)
  ultimately have c: "calm st st1" by (rule calm_trans)
  then have "calm st (st1\<lparr>ls_bundle := []\<rparr>)" by (simp add: calm_def)
  from calm_trans [OF this calm_take_reply] c show ?thesis
    unfolding ask_model_def p by (auto split: sum.split prod.split) (metis fst_conv)
qed

lemma calm_next_action: "calm st (fst (next_action h st))"
proof (cases "pop_call h st")
  case (Some p)
  then show ?thesis using calm_pop_call [of h st "fst p" "snd p"] by (auto simp: next_action_def split: prod.splits)
next
  case None
  obtain st1 x where p: "pop_agent_action h st = (st1, x)" by (cases "pop_agent_action h st")
  have "calm st st1" using calm_pop_agent [of st h] p by simp
  moreover have "calm st (fst (ask_model h st1))" using calm_trans [OF \<open>calm st st1\<close> calm_ask_model] .
  ultimately show ?thesis using None p by (auto simp: next_action_def split: option.splits)
qed

section \<open>From the operations to the turn\<close>

text \<open>
  The contract of an invariant of the turn, one law per operation of the loop; what satisfies it holds
  at the end of the turn.
\<close>

locale turn_invariant =
  fixes h :: loop_host and P :: "loop_state \<Rightarrow> bool"
  assumes stays: "calm st st' \<Longrightarrow> P st \<Longrightarrow> P st'"
    and queue: "P st \<Longrightarrow> P (drain_queued h st)"
    and move: "P st \<Longrightarrow> P (fst (take_move h mv st))"
    and fire: "P st \<Longrightarrow> ls_fires st < doorman_fire_limit \<Longrightarrow> P (st\<lparr>ls_fires := ls_fires st + 1\<rparr>)"
    and said: "P st \<Longrightarrow> P (absorb h (Say t) r st)"
    and enacts: "P st \<Longrightarrow> a \<in> {''send_text'', ''end_turn''} \<Longrightarrow> P (snd (enact_logged h a c None st))"
begin

lemma iterate: "P st \<Longrightarrow> P (fst (iterate n h st))"
proof (induction n arbitrary: st)
  case (Suc n)
  have tick: "P (tick h st)" by (rule stays [OF _ Suc.prems]) (rule calm_intros)
  obtain st1 x where n: "next_action h (drain_queued h (tick h st)) = (st1, x)" by (cases "next_action h (drain_queued h (tick h st))")
  have p1: "P st1" using stays [OF _ queue [OF tick]] calm_next_action n by (metis fst_conv)
  show ?case
  proof (cases x)
    case (Inl e)
    with n p1 tick show ?thesis by (simp add: Let_def)
  next
    case (Inr a)
    show ?thesis
    proof (cases a)
      case None
      with n p1 tick Inr show ?thesis by (simp add: Let_def)
    next
      case (Some mv)
      obtain st2 y where m: "take_move h mv st1 = (st2, y)" by (cases "take_move h mv st1")
      have "P st2" using move [OF p1, of mv] m by simp
      with Suc.IH have "P (fst (iterate n h st2))" by blast
      with n p1 tick Inr Some m \<open>P st2\<close> show ?thesis
        by (auto simp: Let_def split: sum.splits iteration.splits)
    qed
  qed
qed simp

lemma wrap: "P st \<Longrightarrow> P (wrap_up h nt st)"
proof -
  assume p: "P st"
  let ?call = "invoke h (provider_messages h st (ls_history st @ [user_msg nt])) None [] VNone st"
  obtain st1 y where i: "?call = (st1, y)" by (cases ?call)
  have "calm st st1" using calm_invoke i by (metis fst_conv)
  then have "calm st (st1\<lparr>ls_final := t\<rparr>)" for t by (simp add: calm_def)
  from stays [OF this p] have "P (st1\<lparr>ls_final := t\<rparr>)" for t .
  from said [OF enacts [OF this]] show ?thesis by (simp add: wrap_up_def i Let_def case_prod_beta)
qed

lemma over_budget: "P st \<Longrightarrow> P (finish_over_budget h st)"
proof (cases "session_of st \<noteq> None \<and> ls_fires st < doorman_fire_limit")
  case True
  assume p: "P st"
  from fire [OF p] True have "P (st\<lparr>ls_fires := ls_fires st + 1\<rparr>)" by blast
  moreover have "P (ask_restart st)" by (rule stays [OF _ p]) (rule calm_intros)
  ultimately show ?thesis using wrap p True
    by (auto simp: finish_over_budget_def Let_def split: option.splits doorman_verdict.splits)
next
  case False
  then show "P st \<Longrightarrow> ?thesis" using wrap by (auto simp: finish_over_budget_def)
qed

lemma hand_back: "P st \<Longrightarrow> P (hand_back h x st)"
  using over_budget enacts by (auto simp: hand_back_def Let_def)

lemma drive: "P (begin_turn cs history shared) \<Longrightarrow> drive_turn h cs history shared = (st', out) \<Longrightarrow> P st'"
  using iterate [of "begin_turn cs history shared" "max_iterations h"] hand_back
  by (auto simp: drive_turn_def Let_def split: prod.splits sum.splits)

end

section \<open>The conversation stays well formed\<close>

lemma absorb_calm:
  "ls_cs (absorb h mv r st) = ls_cs st" "ls_ledger (absorb h mv r st) = ls_ledger st"
  "ls_counts (absorb h mv r st) = ls_counts st" "ls_fires (absorb h mv r st) = ls_fires st"
  "ls_shared (absorb h mv r st) = ls_shared st"
  by (auto simp: absorb_def record_row_def split: agent_move.splits sum.splits)

lemma drain_queued_fields:
  "ls_cs (drain_queued h st) = ls_cs st" "ls_ledger (drain_queued h st) = ls_ledger st"
  "ls_counts (drain_queued h st) = ls_counts st" "ls_fires (drain_queued h st) = ls_fires st"
proof -
  have "ls_cs (fold (\<lambda>t. record_row h (user_msg t)) ts s) = ls_cs s \<and> ls_ledger (fold (\<lambda>t. record_row h (user_msg t)) ts s) = ls_ledger s \<and>
      ls_counts (fold (\<lambda>t. record_row h (user_msg t)) ts s) = ls_counts s \<and> ls_fires (fold (\<lambda>t. record_row h (user_msg t)) ts s) = ls_fires s" for ts s
    by (induction ts arbitrary: s) (simp_all add: record_row_def)
  then show "ls_cs (drain_queued h st) = ls_cs st" "ls_ledger (drain_queued h st) = ls_ledger st"
    "ls_counts (drain_queued h st) = ls_counts st" "ls_fires (drain_queued h st) = ls_fires st"
    by (simp_all add: drain_queued_def set_session_def split: option.splits)
qed

lemma enact_logged_cs: "ls_cs (snd (enact_logged h a c f st)) = snd (enact (lh_env h) a c (Some (lh_actor h)) (ls_cs st))"
  by (simp add: enact_logged_def tick_def case_prod_beta)

lemma enact_logged_fields:
  "ls_ledger (snd (enact_logged h a c f st)) =
     ls_ledger st @ [\<lparr>lr_action = a, lr_content = c, lr_ok = ar_ok (fst (enact (lh_env h) a c (Some (lh_actor h)) (ls_cs st))), lr_forced = f\<rparr>]"
  "ls_counts (snd (enact_logged h a c f st)) = ls_counts st" "ls_fires (snd (enact_logged h a c f st)) = ls_fires st"
  "ls_new (snd (enact_logged h a c f st)) = ls_new st" "ls_saved (snd (enact_logged h a c f st)) = ls_saved st"
  by (simp_all add: enact_logged_def tick_def case_prod_beta)

text \<open>A performed move is its enactment, its rows and, for a tool, the attachments it staged.\<close>

definition forced_of :: "agent_move \<Rightarrow> string option" where
  "forced_of mv = (case mv of UseTool m \<Rightarrow> tm_forced m | _ \<Rightarrow> None)"

abbreviation enacted :: "loop_host \<Rightarrow> agent_move \<Rightarrow> loop_state \<Rightarrow> action_result \<times> loop_state" where
  "enacted h mv st \<equiv> enact_logged h (move_action mv) (move_content mv) (forced_of mv) st"

lemma perform_calm: "calm (absorb h mv (fst (enacted h mv st)) (snd (enacted h mv st))) (fst (perform h mv st))"
  by (simp add: perform_def forced_of_def Let_def case_prod_beta calm_updates split: agent_move.split)

lemma perform_fields:
  "ls_cs (fst (perform h mv st)) = snd (enact (lh_env h) (move_action mv) (move_content mv) (Some (lh_actor h)) (ls_cs st))"
  "ls_ledger (fst (perform h mv st)) = ls_ledger (snd (enacted h mv st))"
  "ls_counts (fst (perform h mv st)) = ls_counts st" "ls_fires (fst (perform h mv st)) = ls_fires st"
  using perform_calm [of h mv st] by (simp_all add: calm_def absorb_calm enact_logged_cs enact_logged_fields)

lemma doorman_gate_fields:
  "ls_cs (fst (doorman_gate h t st)) = ls_cs st" "ls_ledger (fst (doorman_gate h t st)) = ls_ledger st"
  "ls_counts (fst (doorman_gate h t st)) = ls_counts st"
  by (auto simp: doorman_gate_def Let_def ask_restart_def set_session_def record_row_def split: option.splits doorman_verdict.splits)

lemma tool_refusal_fields:
  "ls_cs (fst (tool_refusal h m st)) = ls_cs st" "ls_ledger (fst (tool_refusal h m st)) = ls_ledger st"
  "ls_new (fst (tool_refusal h m st)) = ls_new st" "ls_saved (fst (tool_refusal h m st)) = ls_saved st"
  "ls_fires (fst (tool_refusal h m st)) = ls_fires st"
  by (auto simp: tool_refusal_def tool_budget_def Let_def split: sum.splits option.splits prod.splits)

text \<open>A move either leaves the conversation or enacts one action.\<close>

lemma take_move_cs:
  "ls_cs (fst (take_move h mv st)) = ls_cs st \<or>
   ls_cs (fst (take_move h mv st)) = snd (enact (lh_env h) (move_action mv) (move_content mv) (Some (lh_actor h)) (ls_cs st))"
proof (cases mv)
  case (Say t)
  then show ?thesis by (simp add: take_move_def case_prod_beta perform_fields)
next
  case (Finish t)
  obtain st1 g where "doorman_gate h t st = (st1, g)" by (cases "doorman_gate h t st")
  with doorman_gate_fields(1) [of h t st] show ?thesis
    by (auto simp: take_move_def Finish case_prod_beta perform_fields split: gate.splits)
next
  case (UseTool m)
  obtain st1 x where "tool_refusal h m st = (st1, x)" by (cases "tool_refusal h m st")
  with tool_refusal_fields(1) [of h m st] show ?thesis
    by (auto simp: take_move_def UseTool case_prod_beta perform_fields absorb_calm split: sum.splits option.splits)
qed

text \<open>The state machine's invariant, as long as the tools keep the roster.\<close>

definition well_formed :: "loop_host \<Rightarrow> loop_state \<Rightarrow> bool" where
  "well_formed h st \<longleftrightarrow> (handlers_ok (lh_env h) \<longrightarrow> conv_ok (ls_cs st))"

interpretation wf: turn_invariant h "well_formed h" for h
proof
  show "well_formed h (fst (take_move h mv st))" if "well_formed h st" for mv st
    using that take_move_cs [of h mv st] enact_ok [of "lh_env h"] unfolding well_formed_def by metis
qed (simp_all add: well_formed_def calm_def drain_queued_fields absorb_calm enact_logged_cs enact_ok)

lemma drive_conv_ok:
  assumes "handlers_ok (lh_env h)" and "conv_ok cs" and "drive_turn h cs history shared = (st', out)"
  shows "conv_ok (ls_cs st')"
  using wf.drive [OF _ assms(3)] assms(1,2) by (simp add: well_formed_def begin_turn_def conv_ok_def)


section \<open>The tool budget\<close>

definition called_name :: "pyval \<Rightarrow> string" where
  "called_name content = (case content of
     VDict d \<Rightarrow> (case dget d ''name'' of Some (VStr s) \<Rightarrow> or_text (Some s) ''unknown'' | _ \<Rightarrow> ''unknown'')
   | _ \<Rightarrow> ''unknown'')"

text \<open>How often the turn has enacted a call of a tool.\<close>

definition enacted_calls :: "string \<Rightarrow> loop_state \<Rightarrow> nat" where
  "enacted_calls nm st = length (filter (\<lambda>r. lr_action r = ''call_tool'' \<and> called_name (lr_content r) = nm) (ls_ledger st))"

definition counted :: "string \<Rightarrow> loop_state \<Rightarrow> nat" where
  "counted nm st = (case dget (ls_counts st) nm of None \<Rightarrow> 0 | Some n \<Rightarrow> n)"

definition within_budget :: "loop_host \<Rightarrow> loop_state \<Rightarrow> bool" where
  "within_budget h st \<longleftrightarrow> (\<forall>nm limit. dget (lh_limits h) nm = Some limit \<longrightarrow> enacted_calls nm st \<le> counted nm st \<and> counted nm st \<le> limit)"

lemma called_move: "called_name (move_content (UseTool m)) = move_name m"
  by (simp add: called_name_def move_content_def move_name_def opt_str_def or_text_def split: option.splits list.splits)

lemma enacted_logged:
  "enacted_calls nm (snd (enact_logged h a c f st)) = enacted_calls nm st + (if a = ''call_tool'' \<and> called_name c = nm then 1 else 0)"
  "counted nm (snd (enact_logged h a c f st)) = counted nm st"
  by (simp_all add: enacted_calls_def counted_def enact_logged_def tick_def case_prod_beta)

lemma enacted_perform:
  "enacted_calls nm (fst (perform h mv st)) =
     enacted_calls nm st + (if move_action mv = ''call_tool'' \<and> called_name (move_content mv) = nm then 1 else 0)"
  "counted nm (fst (perform h mv st)) = counted nm st"
  by (simp_all add: enacted_calls_def counted_def perform_fields enact_logged_fields)

lemma refusal_counts:
  assumes "tool_refusal h m st = (st1, x)" and "within_budget h st"
  shows "\<And>nm. enacted_calls nm st1 = enacted_calls nm st" and "within_budget h st1"
    and "x = Inr None \<Longrightarrow> dget (lh_limits h) nm = Some limit \<Longrightarrow> enacted_calls nm st + (if move_name m = nm then 1 else 0) \<le> counted nm st1"
proof -
  have e: "enacted_calls n st1 = enacted_calls n st" for n
    using tool_refusal_fields(2) [of h m st] assms(1) by (simp add: enacted_calls_def)
  then show "\<And>nm. enacted_calls nm st1 = enacted_calls nm st" by blast
  have "counted n st \<le> counted n st1 \<and> (dget (lh_limits h) n = Some k \<longrightarrow> counted n st \<le> k \<longrightarrow> counted n st1 \<le> k)" for n k
    using assms(1) by (auto simp: tool_refusal_def tool_budget_def counted_def Let_def split: sum.splits option.splits if_splits prod.splits)
  with e assms(2) show "within_budget h st1" unfolding within_budget_def by (metis le_trans)
  assume "x = Inr None" "dget (lh_limits h) nm = Some limit"
  with assms(1) have "counted nm st + (if move_name m = nm then 1 else 0) \<le> counted nm st1"
    by (auto simp: tool_refusal_def tool_budget_def counted_def Let_def split: sum.splits option.splits if_splits prod.splits)
  with assms(2) \<open>dget (lh_limits h) nm = Some limit\<close> show "enacted_calls nm st + (if move_name m = nm then 1 else 0) \<le> counted nm st1"
    unfolding within_budget_def by (metis add_mono_thms_linordered_semiring(3) le_trans)
qed

lemma budget_take_move: "within_budget h st \<Longrightarrow> within_budget h (fst (take_move h mv st))"
proof (cases mv)
  case (Say t)
  then show "within_budget h st \<Longrightarrow> ?thesis"
    by (simp add: take_move_def case_prod_beta within_budget_def enacted_perform enacted_logged move_action_def)
next
  case (Finish t)
  obtain st1 g where g: "doorman_gate h t st = (st1, g)" by (cases "doorman_gate h t st")
  assume "within_budget h st"
  then have "within_budget h st1" using doorman_gate_fields [of h t st] g by (simp add: within_budget_def enacted_calls_def counted_def)
  then show ?thesis
    by (auto simp: take_move_def Finish g case_prod_beta within_budget_def enacted_perform enacted_logged move_action_def split: gate.splits)
next
  case (UseTool m)
  assume w: "within_budget h st"
  obtain st1 x where x: "tool_refusal h m st = (st1, x)" by (cases "tool_refusal h m st")
  note r = refusal_counts [OF x w]
  have "within_budget h (fst (perform h mv st1))" if "x = Inr None"
    using r(2) r(3) [OF that] unfolding within_budget_def UseTool
    by (auto simp: enacted_perform enacted_logged move_action_def called_move r(1))
  moreover have "within_budget h (absorb h mv a st1)" for a
    using r(2) by (simp add: within_budget_def enacted_calls_def counted_def absorb_calm)
  ultimately show ?thesis using r(2) by (auto simp: take_move_def UseTool x case_prod_beta split: sum.splits option.splits)
qed

interpretation budget: turn_invariant h "within_budget h" for h
proof
  show "within_budget h (fst (take_move h mv st))" if "within_budget h st" for mv st
    by (rule budget_take_move [OF that])
  show "within_budget h (snd (enact_logged h a c None st))" if "within_budget h st" "a \<in> {''send_text'', ''end_turn''}" for st a c
    using that unfolding within_budget_def by (auto simp: enacted_logged)
qed (simp_all add: within_budget_def enacted_calls_def counted_def calm_def drain_queued_fields absorb_calm enact_logged_fields)

lemma drive_within_budget: "drive_turn h cs history shared = (st', out) \<Longrightarrow> within_budget h st'"
  by (rule budget.drive) (simp add: within_budget_def begin_turn_def enacted_calls_def counted_def)


section \<open>The doormen, and the number of moves\<close>

lemma gate_fires: "ls_fires st \<le> doorman_fire_limit \<Longrightarrow> ls_fires (fst (doorman_gate h t st)) \<le> doorman_fire_limit"
  by (auto simp: doorman_gate_def Let_def ask_restart_def set_session_def record_row_def split: option.splits doorman_verdict.splits)

lemma fires_take_move: "ls_fires st \<le> doorman_fire_limit \<Longrightarrow> ls_fires (fst (take_move h mv st)) \<le> doorman_fire_limit"
proof (cases mv)
  case (Finish t)
  assume "ls_fires st \<le> doorman_fire_limit"
  from gate_fires [OF this, of h t] show ?thesis
    by (cases "doorman_gate h t st") (auto simp: take_move_def Finish case_prod_beta perform_fields split: gate.splits)
next
  case (UseTool m)
  obtain st1 x where "tool_refusal h m st = (st1, x)" by (cases "tool_refusal h m st")
  with tool_refusal_fields(5) [of h m st] show "ls_fires st \<le> doorman_fire_limit \<Longrightarrow> ?thesis"
    by (auto simp: take_move_def UseTool case_prod_beta perform_fields absorb_calm split: sum.splits option.splits)
qed (simp add: take_move_def case_prod_beta perform_fields)

interpretation fires: turn_invariant h "\<lambda>st. ls_fires st \<le> doorman_fire_limit" for h
  by unfold_locales (simp_all add: fires_take_move calm_def drain_queued_fields absorb_calm enact_logged_fields)

lemma drive_fires: "drive_turn h cs history shared = (st', out) \<Longrightarrow> ls_fires st' \<le> doorman_fire_limit"
  by (rule fires.drive) (simp add: begin_turn_def)

text \<open>Every iteration enacts at most one action, and the end of the turn at most two.\<close>

lemma moves_take_move: "length (ls_ledger (fst (take_move h mv st))) \<le> Suc (length (ls_ledger st))"
proof (cases mv)
  case (Finish t)
  from doorman_gate_fields(2) [of h t st] show ?thesis
    by (cases "doorman_gate h t st") (auto simp: take_move_def Finish case_prod_beta perform_fields enact_logged_fields split: gate.splits)
next
  case (UseTool m)
  from tool_refusal_fields(2) [of h m st] show ?thesis
    by (cases "tool_refusal h m st")
      (auto simp: take_move_def UseTool case_prod_beta perform_fields enact_logged_fields absorb_calm split: sum.splits option.splits)
qed (simp add: take_move_def case_prod_beta perform_fields enact_logged_fields)

lemma calm_ledger: "calm st st' \<Longrightarrow> ls_ledger st' = ls_ledger st" "calm st st' \<Longrightarrow> ls_cs st' = ls_cs st"
  by (simp_all add: calm_def)

lemma moves_iterate: "length (ls_ledger (fst (iterate n h st))) \<le> length (ls_ledger st) + n"
proof (induction n arbitrary: st)
  case (Suc n)
  obtain st1 x where n: "next_action h (drain_queued h (tick h st)) = (st1, x)" by (cases "next_action h (drain_queued h (tick h st))")
  have l1: "ls_ledger st1 = ls_ledger st"
    using calm_next_action [of "drain_queued h (tick h st)" h] n by (simp add: calm_def drain_queued_fields tick_def)
  have t: "ls_ledger (tick h st) = ls_ledger st" by (simp add: tick_def)
  have "length (ls_ledger (fst (iterate n h (fst (take_move h mv st1))))) \<le> length (ls_ledger st) + Suc n" for mv
    using Suc.IH [of "fst (take_move h mv st1)"] moves_take_move [of h mv st1] l1 by simp
  moreover have "length (ls_ledger (fst (take_move h mv st1))) \<le> length (ls_ledger st) + Suc n" for mv
    using moves_take_move [of h mv st1] l1 by simp
  ultimately have next_moves: "length (ls_ledger (fst (iterate n h st2))) \<le> length (ls_ledger st) + Suc n"
    "length (ls_ledger st2) \<le> length (ls_ledger st) + Suc n" if "take_move h mv st1 = (st2, y)" for mv st2 y
    using that by (metis fst_conv)+
  show ?case
  proof (cases x)
    case (Inr a)
    with n l1 t next_moves show ?thesis
      by (cases a) (auto simp: Let_def split: sum.split iteration.split prod.split)
  qed (simp add: n l1 t Let_def)
qed simp

lemma wrap_up_ledger: "length (ls_ledger (wrap_up h nt st)) = Suc (length (ls_ledger st))"
proof -
  let ?call = "invoke h (provider_messages h st (ls_history st @ [user_msg nt])) None [] VNone st"
  obtain s1 y where i: "?call = (s1, y)" by (cases ?call)
  then have "ls_ledger s1 = ls_ledger st" using calm_invoke calm_ledger by (metis fst_conv)
  then show ?thesis by (simp add: wrap_up_def i Let_def case_prod_beta absorb_calm enact_logged_fields)
qed

lemma finish_ledger: "length (ls_ledger (finish_over_budget h st)) \<le> Suc (length (ls_ledger st))"
  by (simp add: finish_over_budget_def Let_def wrap_up_ledger ask_restart_def set_session_def
      split: option.split doorman_verdict.split)

lemma drive_moves:
  assumes d: "drive_turn h cs history shared = (st', out)"
  shows "length (ls_ledger st') \<le> max_iterations h + 2"
proof -
  obtain st x where i: "iterate (max_iterations h) h (begin_turn cs history shared) = (st, x)"
    by (cases "iterate (max_iterations h) h (begin_turn cs history shared)")
  have m: "length (ls_ledger st) \<le> max_iterations h"
    using moves_iterate [of "max_iterations h" h "begin_turn cs history shared"] i by (simp add: begin_turn_def)
  have "length (ls_ledger (hand_back h e st)) \<le> length (ls_ledger st) + 2" for e
    using finish_ledger [of h st] by (simp add: hand_back_def Let_def enact_logged_fields)
  then have "length (ls_ledger (hand_back h e st)) \<le> max_iterations h + 2" for e using m by (meson add_le_mono1 le_trans)
  moreover have "st' = st \<or> (\<exists>e. st' = hand_back h e st)"
    using d unfolding drive_turn_def i by (cases x) (auto simp: Let_def)
  ultimately show ?thesis using m by (elim disjE exE) simp_all
qed


section \<open>The turn is handed back\<close>

lemma index_of_found: "x \<in> set xs \<Longrightarrow> \<exists>i. index_of x xs = Some i"
  by (induction xs) auto

lemma end_turn_switches:
  assumes ok: "conv_ok cs" and phase: "cs_phase cs = base_phase" and who: "cs_turn_priority cs = a"
    and many: "length (cs_turn_order cs) \<noteq> 1" and e: "enact env ''end_turn'' content (Some a) cs = (r, cs')"
  shows "ar_ok r \<and> cs_phase cs' = base_phase \<and> cs_turn_priority cs' \<noteq> a"
proof -
  let ?order = "cs_turn_order cs"
  have roster: "a \<in> set ?order" "distinct ?order" "dget (cs_participants cs) a \<noteq> None"
    using ok who by (auto simp: conv_ok_def roster_ok_def map_of_eq_None_iff)
  from index_of_found [OF roster(1)] obtain i where i: "index_of a ?order = Some i" by blast
  from index_of_nth [OF this] have at: "i < length ?order" "?order ! i = a" by auto
  let ?next = "?order ! (Suc i mod length ?order)"
  have "2 \<le> length ?order" using at(1) many by linarith
  then have "Suc i mod length ?order \<noteq> i" using at(1)
    by (cases "Suc i = length ?order") auto
  moreover have "Suc i mod length ?order < length ?order" using at(1) by (intro mod_less_divisor) linarith
  ultimately have next_other: "?next \<noteq> a" using at roster(2) nth_eq_iff_index_eq by metis
  have action: "create_action cs ''end_turn'' = EndTurn"
    unfolding create_action_def phase by code_simp
  have actor: "actor_or_active cs (Some a) = a" using who by (simp add: actor_or_active_def)
  have legal: "is_legal EndTurn cs a = None"
    using roster(3) who by (auto simp: is_legal_def base_legal_def split: option.splits)
  have switch: "switch_priority (Some a) (reset_phase cs) = Inr ((reset_phase cs)\<lparr>cs_turn_priority := ?next\<rparr>)"
    using i many who by (auto simp: switch_priority_def other_id_def actor_or_active_def reset_phase_def Let_def)
  obtain r0 c0 where x: "exec_end_turn cs = (Inr r0, c0)" "ar_ok r0" "cs_phase c0 = base_phase" "cs_turn_priority c0 = ?next"
    using switch who unfolding exec_end_turn_def xbind_def xupdate_def Let_def
    by (auto simp: reset_phase_def record_event_def ok_result_def)
  have "enact env ''end_turn'' content (Some a) cs = (r0, c0)"
    unfolding enact_unfold [of env "''end_turn''" content "Some a" cs] enact_once_def action actor Let_def legal
    by (simp add: execute_def x(1))
  with e x next_other show ?thesis by simp
qed

lemma end_turn_refused:
  assumes "cs_phase cs \<noteq> base_phase" and e: "enact env ''end_turn'' content (Some a) cs = (r, cs')"
  shows "cs_phase cs' = cs_phase cs"
proof -
  have "create_action cs ''end_turn'' = InvalidAction"
    using assms(1) by (auto simp: create_action_def action_map_def form_actions_def base_phase_def split: option.splits)
  then obtain code reason where "is_legal (create_action cs ''end_turn'') cs (actor_or_active cs (Some a)) = Some (code, reason)"
    by (simp add: is_legal_def)
  with e show ?thesis unfolding enact_unfold [of env "''end_turn''" content "Some a" cs] enact_once_def
    by (auto simp: Let_def fail_with_def record_event_def split: option.splits)
qed


lemma end_turn_keeps:
  assumes e: "enact env ''end_turn'' content (Some a) cs = (r, cs')"
  shows "cs_turn_order cs' = cs_turn_order cs" and "cs_turn_priority cs \<noteq> a \<Longrightarrow> a \<noteq> [] \<Longrightarrow> cs_turn_priority cs' = cs_turn_priority cs"
proof -
  let ?w = "actor_or_active cs (Some a)"
  have action: "create_action cs ''end_turn'' \<in> {EndTurn, InvalidAction}"
    by (auto simp: create_action_def action_map_def form_actions_def split: option.splits)
  have order: "cs_turn_order (snd (exec_end_turn cs)) = cs_turn_order cs"
    by (auto simp: exec_end_turn_def xbind_def xupdate_def Let_def reset_phase_def record_event_def switch_priority_def rbind_def
        split: sum.splits prod.splits)
  show "cs_turn_order cs' = cs_turn_order cs"
  proof (cases "is_legal (create_action cs ''end_turn'') cs ?w")
    case None
    then have "create_action cs ''end_turn'' = EndTurn" using action by (auto simp: is_legal_def)
    with e None order show ?thesis unfolding enact_unfold [of env "''end_turn''" content "Some a" cs] enact_once_def
      by (auto simp: Let_def execute_def fail_with_def record_event_def split: prod.splits sum.splits)
  next
    case (Some x)
    with e show ?thesis unfolding enact_unfold [of env "''end_turn''" content "Some a" cs] enact_once_def
      by (auto simp: Let_def fail_with_def record_event_def split: prod.splits)
  qed
  assume "cs_turn_priority cs \<noteq> a" "a \<noteq> []"
  then have "is_legal (create_action cs ''end_turn'') cs ?w \<noteq> None"
    by (simp add: is_legal_def base_legal_def actor_or_active_def)
  then obtain code reason where "is_legal (create_action cs ''end_turn'') cs ?w = Some (code, reason)" by auto
  with e show "cs_turn_priority cs' = cs_turn_priority cs"
    unfolding enact_unfold [of env "''end_turn''" content "Some a" cs] enact_once_def
    by (auto simp: Let_def fail_with_def record_event_def)
qed

lemma restarting_requested: "take_move h mv st = (st', Inr (Exit Restarting)) \<Longrightarrow> restart_requested st'"
proof (cases mv)
  case (Finish t)
  have gate: "doorman_gate h t st = (s, GateRedrive) \<Longrightarrow> restart_requested s" for s
    by (auto simp: doorman_gate_def Let_def ask_restart_def restart_requested_def session_of_def set_session_def
        split: option.splits doorman_verdict.splits if_splits)
  assume "take_move h mv st = (st', Inr (Exit Restarting))"
  with gate show ?thesis
    by (cases "doorman_gate h t st")
      (auto simp: take_move_def Finish perform_def Let_def split: gate.splits prod.splits if_splits)
next
  case (UseTool m)
  assume "take_move h mv st = (st', Inr (Exit Restarting))"
  then show ?thesis
    by (auto simp: take_move_def UseTool perform_def Let_def case_prod_beta split: sum.splits option.splits prod.splits if_splits)
qed (auto simp: take_move_def perform_def Let_def case_prod_beta split: if_splits)

lemma iterate_restarting: "iterate n h st = (st', Inr Restarting) \<Longrightarrow> restart_requested st'"
  by (induction n arbitrary: st)
    (auto simp: Let_def restarting_requested split: prod.splits sum.splits option.splits iteration.splits if_splits)

text \<open>What the end of the turn adds to the conversation is an end of turn.\<close>

lemma drive_hands_back:
  assumes env: "handlers_ok (lh_env h)" and ok: "conv_ok cs" and d: "drive_turn h cs history shared = (st', Inr final)"
    and who: "lh_actor h \<noteq> []" and going: "\<not> restart_requested st'" and base: "cs_phase (ls_cs st') = base_phase"
    and many: "length (cs_turn_order (ls_cs st')) \<noteq> 1"
  shows "cs_turn_priority (ls_cs st') \<noteq> lh_actor h"
proof -
  obtain st x where i: "iterate (max_iterations h) h (begin_turn cs history shared) = (st, Inr x)" and st': "st' = hand_back h x st"
    using d by (auto simp: drive_turn_def Let_def split: prod.splits sum.splits)
  let ?P = "\<lambda>s. conv_ok (ls_cs s)"
  have "well_formed h (begin_turn cs history shared)" using ok by (simp add: well_formed_def begin_turn_def conv_ok_def)
  from wf.iterate [OF this, of "max_iterations h"] have wf: "well_formed h st" by (simp add: i)
  with wf.over_budget [OF wf] env have okst: "?P st" and fin: "?P (finish_over_budget h st)" by (simp_all add: well_formed_def)
  let ?st1 = "if \<not> cancelled st \<and> x \<noteq> ActionFailed then finish_over_budget h st else st"
  consider "cs_turn_priority (ls_cs st) \<noteq> lh_actor h" "st' = st" | "restart_requested st'"
    | "st' = snd (enact_logged h ''end_turn'' VNone None ?st1)"
    using st' iterate_restarting [of "max_iterations h" h _ st] i by (auto simp: hand_back_def Let_def split: if_splits)
  then show ?thesis
  proof cases
    case 3
    have ok1: "?P ?st1" using okst fin by simp
    obtain r cs' where e: "enact (lh_env h) ''end_turn'' VNone (Some (lh_actor h)) (ls_cs ?st1) = (r, cs')"
      by (cases "enact (lh_env h) ''end_turn'' VNone (Some (lh_actor h)) (ls_cs ?st1)")
    have cs': "ls_cs st' = cs'" unfolding 3 enact_logged_cs e by simp
    have phase: "cs_phase (ls_cs ?st1) = base_phase" using end_turn_refused [OF _ e] base cs' by metis
    have "length (cs_turn_order (ls_cs ?st1)) \<noteq> 1" using end_turn_keeps(1) [OF e] many cs' by simp
    then show ?thesis using end_turn_switches [OF ok1 phase _ _ e] end_turn_keeps(2) [OF e _ who] cs' by metis
  qed (use going in simp_all)
qed


section \<open>Whole pairs of calls and answers\<close>

text \<open>Every message that calls a tool calls one and is followed by its answer, and there is no other answer.\<close>

fun paired :: "hist_msg list \<Rightarrow> bool" where
  "paired [] = True"
| "paired (m # ms) =
     (if truthy (hm_calls m) then
        (case ms of [] \<Rightarrow> False | t # rest \<Rightarrow>
           is_tool t \<and> msg_call_ids m = Inr [hm_call_id t] \<and> pyeq (hm_call_id t) (hm_call_id t) \<and> paired rest)
      else \<not> is_tool m \<and> paired ms)"

lemma paired_append: "paired xs \<Longrightarrow> paired ys \<Longrightarrow> paired (xs @ ys)"
  by (induction xs rule: paired.induct) (auto split: list.splits if_splits)

lemma paired_ids: "paired h \<Longrightarrow> \<exists>ids. rmap msg_call_ids h = Inr ids"
proof (induction h rule: paired.induct)
  case (2 m ms)
  show ?case
  proof (cases "truthy (hm_calls m)")
    case True
    with 2(3) obtain t rest where t: "ms = t # rest" "is_tool t" "msg_call_ids m = Inr [hm_call_id t]" "paired rest"
      by (auto split: list.splits)
    then have "msg_call_ids t = Inr []" by (simp add: msg_call_ids_def is_tool_def)
    with t 2(1) [OF True, of t rest] True show ?thesis by auto
  next
    case False
    then have "msg_call_ids m = Inr []" by (auto simp: msg_call_ids_def py_iter_def)
    with 2(2) [OF False] 2(3) False show ?thesis by auto
  qed
qed simp

lemma paired_replayable: "paired h \<Longrightarrow> replayable h"
proof (induction h rule: paired.induct)
  case (2 m ms)
  show ?case
  proof (cases "truthy (hm_calls m)")
    case True
    with 2(3) obtain t rest where t: "ms = t # rest" "is_tool t" "msg_call_ids m = Inr [hm_call_id t]" "pyeq (hm_call_id t) (hm_call_id t)" "paired rest"
      by (auto split: list.splits)
    have "replayable rest" using 2(1) [OF True t(1)] t(5) .
    moreover have "asked_ids m = [hm_call_id t]" "asked_ids t = []" using t by (simp_all add: asked_ids_def msg_call_ids_def is_tool_def)
    moreover have "\<not> is_tool m" using t(3) by (auto simp: msg_call_ids_def is_tool_def)
    ultimately show ?thesis using t by (auto simp: replayable_def py_in_def)
  next
    case False
    then have "asked_ids m = []" by (auto simp: asked_ids_def msg_call_ids_def py_iter_def)
    with 2(2) [OF False] 2(3) False show ?thesis by (auto simp: replayable_def)
  qed
qed (simp add: replayable_def)

lemma paired_needs_no_repair: "paired h \<Longrightarrow> heal_orphans c h = Inr h"
  using paired_ids paired_replayable heal_orphans_intact by metis

definition rows_whole :: "loop_host \<Rightarrow> loop_state \<Rightarrow> bool" where
  "rows_whole h st \<longleftrightarrow> paired (ls_new st) \<and> (lh_saves h \<longrightarrow> saved_messages (ls_saved st) = ls_new st)"

definition plain_row :: "hist_msg \<Rightarrow> bool" where
  "plain_row m \<longleftrightarrow> \<not> truthy (hm_calls m) \<and> \<not> is_tool m"

lemma plain_rows [simp]: "plain_row (user_msg t)" "plain_row (plain_msg ''assistant'' v)"
  by (simp_all add: plain_row_def user_msg_def plain_msg_def is_tool_def)

lemma record_plain: "plain_row m \<Longrightarrow> rows_whole h st \<Longrightarrow> rows_whole h (record_row h m st)"
  by (auto simp: rows_whole_def record_row_def plain_row_def intro: paired_append)

lemma record_pair: "rows_whole h st \<Longrightarrow> rows_whole h (record_row h (result_row m t) (record_row h (call_row h m) st))"
proof -
  have "paired [call_row h m, result_row m t]"
    by (simp add: call_row_def result_row_def plain_msg_def is_tool_def msg_call_ids_def py_iter_def call_id_def key_get_def hash_val_def)
  from paired_append [OF _ this] show "rows_whole h st \<Longrightarrow> ?thesis" by (auto simp: rows_whole_def record_row_def)
qed

lemma rows_fields: "ls_new st' = ls_new st \<Longrightarrow> ls_saved st' = ls_saved st \<Longrightarrow> rows_whole h st' = rows_whole h st"
  by (simp add: rows_whole_def)

lemma absorb_whole:
  assumes "rows_whole h st" and "\<And>m e. mv = UseTool m \<Longrightarrow> invalid_arguments (lh_str h) (move_args m) \<noteq> Inl e"
  shows "rows_whole h (absorb h mv r st)"
proof (cases mv)
  case (UseTool m)
  with assms(2) have "format_tool_result h r (move_args m) \<noteq> Inl e" for e
    by (cases "invalid_arguments (lh_str h) (move_args m)")
      (auto simp: format_tool_result_def Let_def rbind_def split: option.splits datum.splits pyval.splits)
  then obtain t paths where "format_tool_result h r (move_args m) = Inr (t, paths)"
    by (cases "format_tool_result h r (move_args m)") auto
  moreover have "rows_whole h (st\<lparr>ls_paths := p\<rparr>)" for p using assms(1) by (simp add: rows_whole_def)
  ultimately show ?thesis by (simp add: absorb_def UseTool record_pair)
qed (simp_all add: absorb_def assms(1) record_plain)

lemma calm_rows: "calm st st' \<Longrightarrow> rows_whole h st \<Longrightarrow> rows_whole h st'"
  by (simp add: calm_def rows_whole_def)

lemma enact_whole: "rows_whole h (snd (enact_logged h a c f st)) = rows_whole h st"
  by (rule rows_fields) (simp_all add: enact_logged_fields)

lemma perform_whole:
  assumes "rows_whole h st" and "\<And>m e. mv = UseTool m \<Longrightarrow> invalid_arguments (lh_str h) (move_args m) \<noteq> Inl e"
  shows "rows_whole h (fst (perform h mv st))"
  using calm_rows [OF perform_calm] absorb_whole [OF _ assms(2)] assms(1) by (simp add: enact_whole)

lemma said_whole: "rows_whole h st \<Longrightarrow> rows_whole h (absorb h (Say t) r st)"
  using absorb_whole [of h st "Say t" r] by simp

lemma gate_whole: "rows_whole h st \<Longrightarrow> rows_whole h (fst (doorman_gate h t st))"
proof -
  assume w: "rows_whole h st"
  then have "rows_whole h (record_row h (user_msg n) (st\<lparr>ls_fires := k\<rparr>))" for n k
    by (intro record_plain) (simp_all add: rows_whole_def)
  with w show ?thesis
    by (auto simp: doorman_gate_def Let_def ask_restart_def set_session_def rows_whole_def split: option.splits doorman_verdict.splits)
qed

lemma take_move_whole: "rows_whole h st \<Longrightarrow> rows_whole h (fst (take_move h mv st))"
proof (cases mv)
  case (Say t)
  then show "rows_whole h st \<Longrightarrow> ?thesis" using perform_whole [of h st "Say t"] by (simp add: take_move_def case_prod_beta)
next
  case (Finish t)
  assume "rows_whole h st"
  from gate_whole [OF this, of t] show ?thesis using perform_whole [of h _ "Finish t"]
    by (cases "doorman_gate h t st") (auto simp: take_move_def Finish case_prod_beta split: gate.splits)
next
  case (UseTool m)
  assume w: "rows_whole h st"
  obtain st1 x where r: "tool_refusal h m st = (st1, x)" by (cases "tool_refusal h m st")
  have w1: "rows_whole h st1" using w tool_refusal_fields(3,4) [of h m st] r by (simp add: rows_whole_def)
  show ?thesis
  proof (cases x)
    case (Inl e)
    with w1 r show ?thesis by (simp add: take_move_def UseTool)
  next
    case (Inr y)
    then have "invalid_arguments (lh_str h) (move_args m) \<noteq> Inl e" for e
      using r by (auto simp: tool_refusal_def split: sum.splits option.splits prod.splits)
    with w1 r Inr show ?thesis
      by (auto simp: take_move_def UseTool case_prod_beta intro: absorb_whole perform_whole split: option.splits)
  qed
qed

lemma drain_whole: "rows_whole h st \<Longrightarrow> rows_whole h (drain_queued h st)"
proof -
  have "rows_whole h s \<Longrightarrow> rows_whole h (fold (\<lambda>t. record_row h (user_msg t)) ts s)" for ts s
    by (induction ts arbitrary: s) (simp_all add: record_plain)
  then show "rows_whole h st \<Longrightarrow> ?thesis"
    by (auto simp: drain_queued_def set_session_def rows_whole_def split: option.splits)
qed

lemma fires_whole: "rows_whole h (st\<lparr>ls_fires := k\<rparr>) = rows_whole h st"
  by (simp add: rows_whole_def)

interpretation rows: turn_invariant h "rows_whole h" for h
  by unfold_locales (auto simp: fires_whole enact_whole intro: calm_rows drain_whole take_move_whole said_whole)

lemma drive_rows_whole: "drive_turn h cs history shared = (st', out) \<Longrightarrow> rows_whole h st'"
  by (rule rows.drive) (simp add: rows_whole_def begin_turn_def)

end
