(* ===== verification/TurnSamples.thy ===== *)
theory TurnSamples
  imports TurnProofs Samples EffectSamples
begin

text \<open>
  A turn used to exercise the theorems about the agent loop: the model calls the same tool twice, the
  tool may run once, and then the model says that it is done. Two lemmas at the end show what the loop does with
  answers of the model and the provider that it does not expect.
\<close>

section \<open>A turn with two calls of a tool that may run once\<close>

definition stat_spec :: callable_spec where
  "stat_spec = \<lparr>sp_name = ''stat'', sp_handler = Some (\<lambda>cs _ _. (Inr (Plain (VStr ''fine'')), cs)), sp_form = [],
     sp_require_approval = False, sp_approval_actor = None, sp_validator = None, sp_form_factory = None\<rparr>"

definition agent_env :: environment where
  "agent_env = \<lparr>ev_host = demo_host, ev_commands = (\<lambda>_. []), ev_tools = (\<lambda>_. [(''stat'', stat_spec)]), ev_attachment_parser = None\<rparr>"

definition agent_conv :: conv_state where
  "agent_conv = after (make_state [(demo_person ''agent'')\<lparr>pt_kind := ''agent''\<rparr>, demo_person ''user''] None base_phase [] [] ''per_turn'')"

definition stat_call :: "string \<Rightarrow> model_call" where
  "stat_call i = \<lparr>mc_id = Some i, mc_name = Some ''stat'', mc_arguments = None\<rparr>"

definition demo_model :: "model_request \<Rightarrow> model_response" where
  "demo_model req =
     (if list_ex is_tool (mr_messages req)
      then \<lparr>rs_content = Some ''done'', rs_calls = [], rs_error = [], rs_prompt_tokens = 0\<rparr>
      else \<lparr>rs_content = None, rs_calls = [stat_call ''c1'', stat_call ''c2''], rs_error = [], rs_prompt_tokens = 0\<rparr>)"

definition demo_loop :: loop_host where
  "demo_loop = \<lparr>lh_env = agent_env, lh_actor = ''agent'', lh_codec = demo_codec, lh_decode_error = (\<lambda>_. []), lh_str = (\<lambda>_. []),
     lh_brain = \<lparr>bn_name = ''m'', bn_tool_choice = False, bn_context = 0\<rparr>, lh_backend = (\<lambda>_ _ req _. Inr (demo_model req)),
     lh_error_text = exn_message, lh_escorts = [], lh_doormen = (\<lambda>_. []), lh_limits = [(''stat'', 1)], lh_registry_max = 0,
     lh_schemas = [], lh_prompt = (\<lambda>_. PlainPrompt ''p''), lh_compact = (\<lambda>_ _. None), lh_now = (\<lambda>_. 0), lh_uuid = (\<lambda>_. []),
     lh_saves = True, lh_view = (\<lambda>_. \<lparr>tv_success = True, tv_error = VNone, tv_summary = Some ''fine'', tv_data = VNone, tv_paths = []\<rparr>),
     lh_outside = (\<lambda>_ s. s)\<rparr>"

definition demo_shared :: shared_state where
  "demo_shared = \<lparr>sh_cancelled = False, sh_session = None\<rparr>"

abbreviation demo_turn :: "loop_state \<times> string option pyres" where
  "demo_turn \<equiv> drive_turn demo_loop agent_conv [user_msg ''go''] demo_shared"

lemma agent_conv_ok: "conv_ok agent_conv"
  by code_simp

lemma agent_handlers_ok: "handlers_ok agent_env"
  by (auto simp: handlers_ok_def agent_env_def stat_spec_def split: if_splits)

lemma demo_turn_facts:
  "case demo_turn of (st, out) \<Rightarrow> out = Inr (Some ''done'') \<and> \<not> restart_requested st \<and> cs_phase (ls_cs st) = base_phase \<and>
     length (cs_turn_order (ls_cs st)) = 2 \<and> length (ls_new st) = 5 \<and> enacted_calls ''stat'' st = 1"
  by code_simp


section \<open>Answers the loop does not expect\<close>

text \<open>Arguments that are valid JSON but a number end the turn with an exception, where invalid JSON is told to the model.\<close>

lemma number_arguments_raise:
  "truthy (VInt i) \<Longrightarrow> snd (take_move h (UseTool \<lparr>tm_name = n, tm_args = VInt i, tm_id = j, tm_text = t, tm_forced = f\<rparr>) st) =
     Inl (PyExn ''TypeError'' ''argument is not iterable'')"
  by (simp add: take_move_def tool_refusal_def invalid_arguments_def move_args_def py_or_def)

text \<open>A refusal for too many requests that speaks of tokens is taken for a full context, and the history is compacted.\<close>

lemma rate_limit_compacts: "is_context_limit_error ''Rate limit reached on tokens per min''"
  by code_simp

text \<open>
  The two messages a compaction keeps may be an answer and what the user said after it: the call is
  gone, and the history the model gets next has an answer without one.
\<close>

definition answered_history :: "hist_msg list" where
  "answered_history = [user_msg ''go'', call_row demo_loop \<lparr>tm_name = Some ''stat'', tm_args = VDict [], tm_id = Some ''c1'', tm_text = None, tm_forced = None\<rparr>,
     result_row \<lparr>tm_name = Some ''stat'', tm_args = VDict [], tm_id = Some ''c1'', tm_text = None, tm_forced = None\<rparr> ''fine'', user_msg ''and?'']"

lemma compaction_splits_pair:
  "replayable answered_history \<and>
   \<not> replayable (ls_history (compact (demo_loop\<lparr>lh_compact := \<lambda>_ _. Some ''short''\<rparr>) (begin_turn agent_conv answered_history demo_shared)))"
  by code_simp

text \<open>The turn of an agent under another name than the built-in one is never ended by the agent.\<close>

lemma only_agent_finishes: "next_action h st = (st', Inr (Some (Finish t))) \<Longrightarrow> cs_turn_priority (ls_cs st') = ''agent''"
  by (auto simp: next_action_def pop_call_def pop_agent_action_def ask_model_def take_reply_def Let_def
      split: if_splits option.splits prod.splits list.splits sum.splits)

end
