(* ===== verification/FileJournal.thy ===== *)
theory FileJournal
  imports FileEffects
begin

text \<open>
  \<open>security/file_journal.py\<close>: inverse records for file mutations that survive a crash. Every
  change of the file system or of the journal is one system call, which works, fails with an
  \<open>OSError\<close>, or is where the process dies; which of them is an input of the model.
\<close>

section \<open>System calls\<close>

datatype io_verdict = Works | Fails | Dies

datatype 'a ran = Done 'a | Raises pyexn | Crashed

text \<open>The record \<open>intent.json\<close> holds; \<open>updated_at\<close> is written and never read.\<close>

record file_intent =
  fi_version :: int
  fi_tid :: string
  fi_target :: path
  fi_existed :: bool
  fi_backup :: "string option"
  fi_digest :: "string option"
  fi_status :: string
  fi_parents :: "path list"

record move_intent =
  vi_version :: int
  vi_tid :: string
  vi_source :: path
  vi_destination :: path
  vi_source_backup :: string
  vi_source_digest :: string
  vi_existed :: bool
  vi_backup :: "string option"
  vi_digest :: "string option"
  vi_status :: string
  vi_parents :: "path list"

datatype intent = MutationIntent file_intent | MoveIntent move_intent

text \<open>
  A transaction's directory: the copies it keeps and its intent, \<open>None\<close> for an absent or
  unreadable one.
\<close>

record journal_dir =
  jd_copies :: "(string, string) pydict"
  jd_intent :: "intent option"

record kernel_files =
  kf_files :: filesystem
  kf_journal :: "(string, journal_dir) pydict"
  kf_verdicts :: "io_verdict list"
  kf_draws :: nat

text \<open>What comes from outside: transaction ids, the names \<open>mkstemp\<close> picks, SHA-256 and a path's text.\<close>

record journal_env =
  je_gen :: "nat \<Rightarrow> string"
  je_temp :: "filesystem \<Rightarrow> path \<Rightarrow> path"
  je_sha :: "string \<Rightarrow> string"
  je_text :: "path \<Rightarrow> string"

type_synonym 'a fio = "kernel_files \<Rightarrow> 'a ran \<times> kernel_files"

definition fdone :: "'a \<Rightarrow> 'a fio" where "fdone a st = (Done a, st)"

definition fraise :: "string \<Rightarrow> string \<Rightarrow> 'a fio" where "fraise ty msg st = (Raises (PyExn ty msg), st)"

definition fbind :: "'a fio \<Rightarrow> ('a \<Rightarrow> 'b fio) \<Rightarrow> 'b fio" where
  "fbind m f st = (case m st of (Done a, st1) \<Rightarrow> f a st1 | (Raises e, st1) \<Rightarrow> (Raises e, st1) | (Crashed, st1) \<Rightarrow> (Crashed, st1))"

text \<open>\<open>except\<close> and \<open>finally\<close>: a process that died runs neither.\<close>

definition fcatch :: "'a fio \<Rightarrow> (pyexn \<Rightarrow> 'a fio) \<Rightarrow> 'a fio" where
  "fcatch m h st = (case m st of (Raises e, st1) \<Rightarrow> h e st1 | (Done a, st1) \<Rightarrow> (Done a, st1) | (Crashed, st1) \<Rightarrow> (Crashed, st1))"

definition ffinally :: "'a fio \<Rightarrow> unit fio \<Rightarrow> 'a fio" where
  "ffinally m f st = (case m st of
     (Crashed, st1) \<Rightarrow> (Crashed, st1)
   | (Done a, st1) \<Rightarrow> fbind f (\<lambda>_. fdone a) st1
   | (Raises e, st1) \<Rightarrow> fbind f (\<lambda>_ st2. (Raises e, st2)) st1)"

definition syscall :: "(kernel_files \<Rightarrow> kernel_files pyres) \<Rightarrow> unit fio" where
  "syscall act st =
     (let st1 = st\<lparr>kf_verdicts := tl (kf_verdicts st)\<rparr> in
      case kf_verdicts st of
        Dies # _ \<Rightarrow> (Crashed, st1)
      | Fails # _ \<Rightarrow> (Raises (PyExn ''OSError'' ''input/output error''), st1)
      | _ \<Rightarrow> (case act st1 of Inl e \<Rightarrow> (Raises e, st1) | Inr st2 \<Rightarrow> (Done (), st2)))"

definition on_files :: "(filesystem \<Rightarrow> filesystem pyres) \<Rightarrow> unit fio" where
  "on_files act = syscall (\<lambda>st. rbind (act (kf_files st)) (\<lambda>fs. Inr (st\<lparr>kf_files := fs\<rparr>)))"

definition on_dir :: "string \<Rightarrow> (journal_dir \<Rightarrow> journal_dir pyres) \<Rightarrow> unit fio" where
  "on_dir tid act = syscall (\<lambda>st. case dget (kf_journal st) tid of
     None \<Rightarrow> Inl (PyExn ''FileNotFoundError'' ''No such file or directory'')
   | Some d \<Rightarrow> rbind (act d) (\<lambda>d'. Inr (st\<lparr>kf_journal := dset tid d' (kf_journal st)\<rparr>)))"

text \<open>The calls on files; a file in the way of a path is \<open>ENOTDIR\<close>, not \<open>ENOENT\<close>.\<close>

definition blocked :: "filesystem \<Rightarrow> path \<Rightarrow> bool" where
  "blocked fs p \<longleftrightarrow> list_ex (\<lambda>q. dget fs q \<noteq> None \<and> dget fs q \<noteq> Some Directory) (ancestors p)"

definition os_unlink :: "path \<Rightarrow> filesystem \<Rightarrow> filesystem pyres" where
  "os_unlink p fs =
     (if blocked fs p then Inl (PyExn ''NotADirectoryError'' ''Not a directory'')
      else case dget fs p of
        None \<Rightarrow> Inl (PyExn ''FileNotFoundError'' ''No such file or directory'')
      | Some Directory \<Rightarrow> Inl (PyExn ''IsADirectoryError'' ''Is a directory'')
      | Some _ \<Rightarrow> Inr (dpop p fs))"

definition os_replace :: "path \<Rightarrow> path \<Rightarrow> filesystem \<Rightarrow> filesystem pyres" where
  "os_replace s d fs = (case dget fs s of
     Some (RegularFile b) \<Rightarrow>
       (if dget fs d = Some Directory then Inl (PyExn ''IsADirectoryError'' ''Is a directory'')
        else if length d > 1 \<and> dget fs (butlast d) \<noteq> Some Directory
        then Inl (PyExn ''FileNotFoundError'' ''No such file or directory'')
        else Inr (dset d (RegularFile b) (dpop s fs)))
   | _ \<Rightarrow> Inl (PyExn ''FileNotFoundError'' ''No such file or directory''))"

definition os_rmdir :: "path \<Rightarrow> filesystem \<Rightarrow> filesystem pyres" where
  "os_rmdir p fs =
     (if dget fs p \<noteq> Some Directory then Inl (PyExn ''FileNotFoundError'' ''No such file or directory'')
      else if list_ex (strict_prefix p) (dkeys fs) then Inl (PyExn ''OSError'' ''Directory not empty'')
      else Inr (dpop p fs))"

text \<open>\<open>parent.mkdir(parents=True, exist_ok=True)\<close>: one call for each ancestor that is not there.\<close>

fun make_parents :: "path list \<Rightarrow> unit fio" where
  "make_parents [] = fdone ()"
| "make_parents (q # qs) = fbind
     (\<lambda>st. if dget (kf_files st) q = Some Directory then fdone () st else on_files (make_dirs [q]) st)
     (\<lambda>_. make_parents qs)"

definition make_temp :: "journal_env \<Rightarrow> path \<Rightarrow> path fio" where
  "make_temp env p st = (let t = je_temp env (kf_files st) p in
     fbind (on_files (\<lambda>fs. open_for_writing fs t)) (\<lambda>_. fdone t) st)"

definition fill :: "path \<Rightarrow> string \<Rightarrow> unit fio" where
  "fill t b = on_files (\<lambda>fs. Inr (dset t (RegularFile b) fs))"

text \<open>\<open>try: path.unlink() except FileNotFoundError: pass\<close>.\<close>

definition ignore_missing :: "unit fio \<Rightarrow> unit fio" where
  "ignore_missing m = fcatch m (\<lambda>e. if exn_type e = ''FileNotFoundError'' then fdone () else fraise (exn_type e) (exn_message e))"

definition unlink_if_there :: "path \<Rightarrow> unit fio" where
  "unlink_if_there p = ignore_missing (on_files (os_unlink p))"

fun remove_empty :: "path list \<Rightarrow> unit fio" where
  "remove_empty [] = fdone ()"
| "remove_empty (q # qs) = fbind (fcatch (on_files (os_rmdir q)) (\<lambda>_. fdone ())) (\<lambda>_. remove_empty qs)"

text \<open>\<open>_missing_parents\<close>: the ancestors that do not exist, innermost first.\<close>

definition missing_parents :: "filesystem \<Rightarrow> path \<Rightarrow> path list" where
  "missing_parents fs p = takeWhile (\<lambda>q. dget fs q = None) (rev (ancestors p))"


section \<open>A prepared mutation\<close>

record mutation =
  mu_tid :: string
  mu_target :: path
  mu_existed :: bool
  mu_backup :: "string option"
  mu_parents :: "path list"
  mu_applied :: bool

definition copy_of :: "string \<Rightarrow> string \<Rightarrow> string fio" where
  "copy_of tid name st = (case dget (kf_journal st) tid of
     Some d \<Rightarrow> (case dget (jd_copies d) name of
        Some b \<Rightarrow> (Done b, st) | None \<Rightarrow> (Raises (PyExn ''FileNotFoundError'' ''No such file or directory''), st))
   | None \<Rightarrow> (Raises (PyExn ''FileNotFoundError'' ''No such file or directory''), st))"

definition copy_digest :: "journal_env \<Rightarrow> string \<Rightarrow> string option \<Rightarrow> string option fio" where
  "copy_digest env tid nm = (case nm of
     None \<Rightarrow> fdone None | Some f \<Rightarrow> fbind (copy_of tid f) (\<lambda>b. fdone (Some (je_sha env b))))"

definition write_intent :: "string \<Rightarrow> intent \<Rightarrow> unit fio" where
  "write_intent tid i = on_dir tid (\<lambda>d. Inr (d\<lparr>jd_intent := Some i\<rparr>))"

definition mutation_intent :: "mutation \<Rightarrow> string option \<Rightarrow> string \<Rightarrow> intent" where
  "mutation_intent m digest status = MutationIntent \<lparr>fi_version = 1, fi_tid = mu_tid m, fi_target = mu_target m,
     fi_existed = mu_existed m, fi_backup = mu_backup m, fi_digest = digest, fi_status = status, fi_parents = mu_parents m\<rparr>"

definition mark :: "journal_env \<Rightarrow> mutation \<Rightarrow> string \<Rightarrow> unit fio" where
  "mark env m status = fbind (copy_digest env (mu_tid m) (mu_backup m)) (\<lambda>digest.
     write_intent (mu_tid m) (mutation_intent m digest status))"

definition make_dir :: "string \<Rightarrow> unit fio" where
  "make_dir tid = syscall (\<lambda>st. if dget (kf_journal st) tid \<noteq> None then Inl (PyExn ''FileExistsError'' ''File exists'')
     else Inr (st\<lparr>kf_journal := dset tid \<lparr>jd_copies = [], jd_intent = None\<rparr> (kf_journal st)\<rparr>))"

definition keep_copy :: "string \<Rightarrow> string \<Rightarrow> path \<Rightarrow> unit fio" where
  "keep_copy tid name p = syscall (\<lambda>st. rbind (read_bytes (kf_files st) p) (\<lambda>b.
     case dget (kf_journal st) tid of
       None \<Rightarrow> Inl (PyExn ''FileNotFoundError'' ''No such file or directory'')
     | Some d \<Rightarrow> Inr (st\<lparr>kf_journal := dset tid (d\<lparr>jd_copies := dset name b (jd_copies d)\<rparr>) (kf_journal st)\<rparr>)))"

definition new_tid :: "journal_env \<Rightarrow> string fio" where
  "new_tid env st = (Done (je_gen env (kf_draws st)), st\<lparr>kf_draws := Suc (kf_draws st)\<rparr>)"

text \<open>\<open>DurableFileJournal.prepare\<close>.\<close>

definition prepare_mutation :: "journal_env \<Rightarrow> path \<Rightarrow> mutation fio" where
  "prepare_mutation env p st =
     (let node = dget (kf_files st) p in
      if node \<noteq> None \<and> \<not> regular (the node)
      then fraise ''FileJournalError'' ''transactional mutations support files only'' st
      else fbind (new_tid env) (\<lambda>tid.
        fbind (make_dir tid) (\<lambda>_.
        fbind (if node \<noteq> None then keep_copy tid ''before.bin'' p else fdone ()) (\<lambda>_ st1.
          (let m = \<lparr>mu_tid = tid, mu_target = p, mu_existed = node \<noteq> None,
                 mu_backup = (if node \<noteq> None then Some ''before.bin'' else None),
                 mu_parents = missing_parents (kf_files st1) p, mu_applied = False\<rparr>
           in fbind (mark env m ''prepared'') (\<lambda>_. fdone m) st1)))) st)"

text \<open>Putting a kept copy back in place, through a temporary file beside the target.\<close>

definition restore_copy :: "journal_env \<Rightarrow> string \<Rightarrow> string \<Rightarrow> path \<Rightarrow> unit fio" where
  "restore_copy env tid name p =
     fbind (make_parents (ancestors p)) (\<lambda>_.
     fbind (make_temp env p) (\<lambda>t.
       ffinally (fbind (copy_of tid name) (\<lambda>b. fbind (fill t b) (\<lambda>_. on_files (os_replace t p)))) (unlink_if_there t)))"

definition has_copy :: "string \<Rightarrow> string option \<Rightarrow> kernel_files \<Rightarrow> bool" where
  "has_copy tid nm st = (case nm of None \<Rightarrow> False | Some f \<Rightarrow>
     (case dget (kf_journal st) tid of None \<Rightarrow> False | Some d \<Rightarrow> dget (jd_copies d) f \<noteq> None))"

definition roll_back :: "journal_env \<Rightarrow> mutation \<Rightarrow> unit fio" where
  "roll_back env m =
     fbind (if mu_existed m
            then (\<lambda>st. if has_copy (mu_tid m) (mu_backup m) st then restore_copy env (mu_tid m) (the (mu_backup m)) (mu_target m) st
                      else fraise ''FileJournalError'' ''inverse backup is missing'' st)
            else unlink_if_there (mu_target m)) (\<lambda>_.
     fbind (remove_empty (mu_parents m)) (\<lambda>_. mark env m ''rolled_back''))"

definition remove_tree :: "string \<Rightarrow> unit fio" where
  "remove_tree tid st = (Done (), st\<lparr>kf_journal := dpop tid (kf_journal st)\<rparr>)"

definition abort_mutation :: "journal_env \<Rightarrow> mutation \<Rightarrow> unit fio" where
  "abort_mutation env m = fbind (if mu_applied m then roll_back env m else fdone ()) (\<lambda>_. remove_tree (mu_tid m))"

text \<open>\<open>write\<close> and \<open>delete\<close>; the directories and the temporary file are made outside the \<open>try\<close>.\<close>

definition write_result :: "journal_env \<Rightarrow> mutation \<Rightarrow> string \<Rightarrow> pyval" where
  "write_result env m b = VDict [(''transaction_id'', VStr (mu_tid m)), (''bytes'', VInt (int (length b))),
     (''path'', VStr (je_text env (mu_target m)))]"

definition write_mutation :: "journal_env \<Rightarrow> mutation \<Rightarrow> string \<Rightarrow> pyval fio" where
  "write_mutation env m b =
     fbind (mark env m ''applying'') (\<lambda>_.
     fbind (make_parents (ancestors (mu_target m))) (\<lambda>_.
     fbind (make_temp env (mu_target m)) (\<lambda>t.
       fcatch
         (fbind (fill t b) (\<lambda>_.
          fbind (on_files (os_replace t (mu_target m))) (\<lambda>_.
          fbind (mark env m ''committed'') (\<lambda>_. fdone (write_result env m b)))))
         (\<lambda>e. fbind (ffinally (roll_back env m) (unlink_if_there t)) (\<lambda>_. fraise (exn_type e) (exn_message e))))))"

definition delete_result :: "journal_env \<Rightarrow> mutation \<Rightarrow> pyval" where
  "delete_result env m = VDict [(''transaction_id'', VStr (mu_tid m)), (''existed'', VBool (mu_existed m)),
     (''path'', VStr (je_text env (mu_target m)))]"

definition delete_target :: "path \<Rightarrow> unit fio" where
  "delete_target p st = (case dget (kf_files st) p of
     None \<Rightarrow> fdone () st
   | Some nd \<Rightarrow> if regular nd then on_files (os_unlink p) st
       else fraise ''FileJournalError'' ''transactional delete supports files only'' st)"

definition delete_mutation :: "journal_env \<Rightarrow> mutation \<Rightarrow> pyval fio" where
  "delete_mutation env m =
     fbind (mark env m ''applying'') (\<lambda>_.
       fcatch
         (fbind (delete_target (mu_target m)) (\<lambda>_.
          fbind (mark env m ''committed'') (\<lambda>_. fdone (delete_result env m))))
         (\<lambda>e. fbind (roll_back env m) (\<lambda>_. fraise (exn_type e) (exn_message e))))"


section \<open>A prepared move\<close>

record file_move =
  fm_tid :: string
  fm_source :: path
  fm_destination :: path
  fm_source_backup :: string
  fm_existed :: bool
  fm_backup :: "string option"
  fm_parents :: "path list"
  fm_applied :: bool

definition move_intent_of :: "file_move \<Rightarrow> string \<Rightarrow> string option \<Rightarrow> string \<Rightarrow> intent" where
  "move_intent_of m source_digest digest status = MoveIntent \<lparr>vi_version = 1, vi_tid = fm_tid m, vi_source = fm_source m,
     vi_destination = fm_destination m, vi_source_backup = fm_source_backup m, vi_source_digest = source_digest,
     vi_existed = fm_existed m, vi_backup = fm_backup m, vi_digest = digest, vi_status = status, vi_parents = fm_parents m\<rparr>"

definition mark_move :: "journal_env \<Rightarrow> file_move \<Rightarrow> string \<Rightarrow> unit fio" where
  "mark_move env m status =
     fbind (copy_of (fm_tid m) (fm_source_backup m)) (\<lambda>s.
     fbind (copy_digest env (fm_tid m) (fm_backup m)) (\<lambda>digest.
       write_intent (fm_tid m) (move_intent_of m (je_sha env s) digest status)))"

text \<open>\<open>DurableFileJournal.prepare_move\<close>.\<close>

definition prepare_move :: "journal_env \<Rightarrow> path \<Rightarrow> path \<Rightarrow> file_move fio" where
  "prepare_move env s d st =
     (let fs = kf_files st; there = dget fs d \<noteq> None in
      if s = d then fraise ''FileJournalError'' ''move source and destination are identical'' st
      else if (case dget fs s of None \<Rightarrow> True | Some nd \<Rightarrow> \<not> regular nd)
      then fraise ''FileJournalError'' ''move source must be an existing file'' st
      else if there \<and> \<not> regular (the (dget fs d))
      then fraise ''FileJournalError'' ''move destination must be a file or absent'' st
      else fbind (new_tid env) (\<lambda>tid.
        fbind (make_dir tid) (\<lambda>_.
        fbind (keep_copy tid ''source-before.bin'' s) (\<lambda>_.
        fbind (if there then keep_copy tid ''destination-before.bin'' d else fdone ()) (\<lambda>_ st1.
          (let m = \<lparr>fm_tid = tid, fm_source = s, fm_destination = d, fm_source_backup = ''source-before.bin'',
                 fm_existed = there, fm_backup = (if there then Some ''destination-before.bin'' else None),
                 fm_parents = missing_parents (kf_files st1) d, fm_applied = False\<rparr>
           in fbind (mark_move env m ''prepared'') (\<lambda>_. fdone m) st1))))) st)"

definition roll_back_move :: "journal_env \<Rightarrow> file_move \<Rightarrow> unit fio" where
  "roll_back_move env m =
     fbind (restore_copy env (fm_tid m) (fm_source_backup m) (fm_source m)) (\<lambda>_.
     fbind (if fm_existed m
            then (case fm_backup m of
                None \<Rightarrow> fraise ''FileJournalError'' ''destination inverse backup is missing''
              | Some f \<Rightarrow> restore_copy env (fm_tid m) f (fm_destination m))
            else unlink_if_there (fm_destination m)) (\<lambda>_.
     fbind (remove_empty (fm_parents m)) (\<lambda>_. mark_move env m ''rolled_back'')))"

definition abort_move :: "journal_env \<Rightarrow> file_move \<Rightarrow> unit fio" where
  "abort_move env m = fbind (if fm_applied m then roll_back_move env m else fdone ()) (\<lambda>_. remove_tree (fm_tid m))"

definition move_result :: "journal_env \<Rightarrow> file_move \<Rightarrow> pyval" where
  "move_result env m = VDict [(''transaction_id'', VStr (fm_tid m)), (''source'', VStr (je_text env (fm_source m))),
     (''destination'', VStr (je_text env (fm_destination m)))]"

definition run_move :: "journal_env \<Rightarrow> file_move \<Rightarrow> pyval fio" where
  "run_move env m =
     fbind (mark_move env m ''applying'') (\<lambda>_.
       fcatch
         (fbind (make_parents (ancestors (fm_destination m))) (\<lambda>_.
          fbind (on_files (os_replace (fm_source m) (fm_destination m))) (\<lambda>_.
          fbind (mark_move env m ''committed'') (\<lambda>_. fdone (move_result env m)))))
         (\<lambda>e. fbind (roll_back_move env m) (\<lambda>_. fraise (exn_type e) (exn_message e))))"


section \<open>Recovery\<close>

datatype pending = PendingMutation mutation | PendingMove file_move

definition journal_error :: "string \<Rightarrow> 'a pyres" where
  "journal_error msg = Inl (PyExn ''FileJournalError'' msg)"

text \<open>\<open>_load\<close> and \<open>_load_move\<close>: an intent of another version or directory, or a copy whose digest differs, is refused.\<close>

definition same_digest :: "journal_env \<Rightarrow> journal_dir \<Rightarrow> string \<Rightarrow> string option \<Rightarrow> string \<Rightarrow> unit pyres" where
  "same_digest env d f digest msg = (case dget (jd_copies d) f of
     None \<Rightarrow> Inl (PyExn ''FileNotFoundError'' ''No such file or directory'')
   | Some b \<Rightarrow> if Some (je_sha env b) = digest then Inr () else journal_error msg)"

definition optional_digest :: "journal_env \<Rightarrow> journal_dir \<Rightarrow> string option \<Rightarrow> string option \<Rightarrow> string \<Rightarrow> unit pyres" where
  "optional_digest env d nm digest msg = (case nm of None \<Rightarrow> Inr () | Some f \<Rightarrow> same_digest env d f digest msg)"

definition load_mutation :: "journal_env \<Rightarrow> string \<Rightarrow> journal_dir \<Rightarrow> file_intent \<Rightarrow> mutation pyres" where
  "load_mutation env tid d i =
     (if fi_version i \<noteq> 1 \<or> fi_tid i \<noteq> tid then journal_error ''invalid inverse record''
      else rbind (optional_digest env d (fi_backup i) (fi_digest i) ''inverse backup digest mismatch'') (\<lambda>_.
        Inr \<lparr>mu_tid = tid, mu_target = fi_target i, mu_existed = fi_existed i, mu_backup = fi_backup i,
             mu_parents = fi_parents i, mu_applied = False\<rparr>))"

definition load_move :: "journal_env \<Rightarrow> string \<Rightarrow> journal_dir \<Rightarrow> move_intent \<Rightarrow> file_move pyres" where
  "load_move env tid d i =
     (if vi_version i \<noteq> 1 \<or> vi_tid i \<noteq> tid then journal_error ''invalid move inverse record''
      else rbind (same_digest env d (vi_source_backup i) (Some (vi_source_digest i)) ''source inverse backup digest mismatch'') (\<lambda>_.
        rbind (optional_digest env d (vi_backup i) (vi_digest i) ''destination inverse backup digest mismatch'') (\<lambda>_.
        Inr \<lparr>fm_tid = tid, fm_source = vi_source i, fm_destination = vi_destination i, fm_source_backup = vi_source_backup i,
             fm_existed = vi_existed i, fm_backup = vi_backup i, fm_parents = vi_parents i, fm_applied = False\<rparr>)))"

definition load_pending :: "journal_env \<Rightarrow> string \<Rightarrow> journal_dir \<Rightarrow> (pending \<times> string) pyres" where
  "load_pending env tid d = (case jd_intent d of
     None \<Rightarrow> Inl (PyExn ''FileNotFoundError'' ''intent.json'')
   | Some (MutationIntent i) \<Rightarrow> rbind (load_mutation env tid d i) (\<lambda>m. Inr (PendingMutation m, fi_status i))
   | Some (MoveIntent i) \<Rightarrow> rbind (load_move env tid d i) (\<lambda>m. Inr (PendingMove m, vi_status i)))"

fun abort_pending :: "journal_env \<Rightarrow> pending \<Rightarrow> unit fio" where
  "abort_pending env (PendingMutation m) = abort_mutation env m"
| "abort_pending env (PendingMove m) = abort_move env m"

fun roll_back_pending :: "journal_env \<Rightarrow> pending \<Rightarrow> unit fio" where
  "roll_back_pending env (PendingMutation m) = roll_back env (m\<lparr>mu_applied := True\<rparr>)"
| "roll_back_pending env (PendingMove m) = roll_back_move env (m\<lparr>fm_applied := True\<rparr>)"

text \<open>One directory: a malformed record is left alone.\<close>

definition recover_dir :: "journal_env \<Rightarrow> string \<Rightarrow> string list fio" where
  "recover_dir env tid st = (case dget (kf_journal st) tid of
     None \<Rightarrow> fdone [] st
   | Some d \<Rightarrow> (case load_pending env tid d of
       Inl _ \<Rightarrow> fdone [] st
     | Inr (p, status) \<Rightarrow>
         (if status = ''prepared'' then fbind (abort_pending env p) (\<lambda>_. fdone [tid]) st
          else if status = ''applying'' then fbind (roll_back_pending env p) (\<lambda>_. fdone [tid]) st
          else fdone [] st)))"

fun recover_dirs :: "journal_env \<Rightarrow> string list \<Rightarrow> string list fio" where
  "recover_dirs env [] = fdone []"
| "recover_dirs env (t # ts) = fbind (recover_dir env t) (\<lambda>a. fbind (recover_dirs env ts) (\<lambda>b. fdone (a @ b)))"

text \<open>\<open>recover_incomplete\<close>: an exception of one rollback ends the whole recovery.\<close>

definition recover_incomplete :: "journal_env \<Rightarrow> string list fio" where
  "recover_incomplete env st = recover_dirs env (sort (dkeys (kf_journal st))) st"

end
