(* ===== verification/FileRecovery.thy ===== *)
theory FileRecovery
  imports FileJournal
begin

text \<open>
  What the file journal promises: whatever fails and wherever the process dies, a change that
  did not return can be undone. Programs of system calls are judged by their outcome
  (\<open>runs\<close>, for every list of verdicts) and by how they end when nothing fails (\<open>goes\<close>).
\<close>

section \<open>Outcomes of a program\<close>

definition runs :: "(kernel_files \<Rightarrow> bool) \<Rightarrow> 'a fio \<Rightarrow> ('a \<Rightarrow> kernel_files \<Rightarrow> bool) \<Rightarrow> (kernel_files \<Rightarrow> bool) \<Rightarrow> bool" where
  "runs P m Q E \<longleftrightarrow> (\<forall>st. P st \<longrightarrow> (case m st of (Done a, st') \<Rightarrow> Q a st' | (_, st') \<Rightarrow> E st'))"

definition goes :: "(kernel_files \<Rightarrow> bool) \<Rightarrow> 'a fio \<Rightarrow> ('a \<Rightarrow> kernel_files \<Rightarrow> bool) \<Rightarrow> bool" where
  "goes P m Q \<longleftrightarrow> (\<forall>st. P st \<and> kf_verdicts st = [] \<longrightarrow> (\<exists>a st'. m st = (Done a, st') \<and> Q a st' \<and> kf_verdicts st' = []))"

lemma runs_done: "runs (Q a) (fdone a) Q E"
  by (simp add: runs_def fdone_def)

lemma runs_raise: "runs E (fraise ty msg) Q E"
  by (simp add: runs_def fraise_def)

lemma runsI:
  assumes "\<And>st a st'. P st \<Longrightarrow> m st = (Done a, st') \<Longrightarrow> Q a st'"
    and "\<And>st e st'. P st \<Longrightarrow> m st = (Raises e, st') \<Longrightarrow> E st'" and "\<And>st st'. P st \<Longrightarrow> m st = (Crashed, st') \<Longrightarrow> E st'"
  shows "runs P m Q E"
  unfolding runs_def using assms by (auto split: prod.split ran.split)

lemma runsD:
  "runs P m Q E \<Longrightarrow> P st \<Longrightarrow> m st = (Done a, st') \<Longrightarrow> Q a st'"
  "runs P m Q E \<Longrightarrow> P st \<Longrightarrow> m st = (Raises e, st') \<Longrightarrow> E st'"
  "runs P m Q E \<Longrightarrow> P st \<Longrightarrow> m st = (Crashed, st') \<Longrightarrow> E st'"
  by (auto simp: runs_def split: prod.splits ran.splits dest: spec [of _ st])

lemma runs_end: "runs P m (\<lambda>_. P) P \<Longrightarrow> P st \<Longrightarrow> P (snd (m st))"
  by (cases "m st"; cases "fst (m st)") (auto dest: runsD)

lemma runs_bind:
  assumes "runs P m Q E" and "\<And>a. runs (Q a) (f a) R E"
  shows "runs P (fbind m f) R E"
  by (rule runsI) (auto simp: fbind_def split: prod.splits ran.splits dest: runsD [OF assms(1)] runsD [OF assms(2)])

lemma runs_then: "runs P m (\<lambda>_. Q) E \<Longrightarrow> runs P (fbind m (\<lambda>_. fdone x)) (\<lambda>_. Q) E"
  by (erule runs_bind) (simp add: runs_def fdone_def)

lemma runs_weaken:
  assumes "runs P m Q E" and "\<And>st. P' st \<Longrightarrow> P st" and "\<And>a st. Q a st \<Longrightarrow> Q' a st" and "\<And>st. E st \<Longrightarrow> E' st"
  shows "runs P' m Q' E'"
  by (rule runsI) (blast dest: assms(2) runsD [OF assms(1)] intro: assms(3,4))+

lemma runs_catch:
  assumes "runs P m Q E" and "\<And>e. runs E (h e) Q E'" and "\<And>st. E st \<Longrightarrow> E' st"
  shows "runs P (fcatch m h) Q E'"
  by (rule runsI) (auto simp: fcatch_def split: prod.splits ran.splits dest: runsD [OF assms(1)] runsD [OF assms(2)] intro: assms(3))

lemma runs_finally:
  assumes "runs P m Q E" and "\<And>a. runs (Q a) f (\<lambda>_. Q a) E" and "runs E f (\<lambda>_. E) E"
  shows "runs P (ffinally m f) Q E"
  by (rule runsI) (auto simp: ffinally_def fbind_def fdone_def split: prod.splits ran.splits
      dest: runsD [OF assms(1)] runsD [OF assms(2)] runsD [OF assms(3)])

lemma goes_done: "goes (Q a) (fdone a) Q"
  by (simp add: goes_def fdone_def)

lemma goes_bind: "goes P m Q \<Longrightarrow> (\<And>a. goes (Q a) (f a) R) \<Longrightarrow> goes P (fbind m f) R"
  by (fastforce simp: goes_def fbind_def)

lemma goes_then: "goes P m (\<lambda>_. Q) \<Longrightarrow> goes P (fbind m (\<lambda>_. fdone x)) (\<lambda>_. Q)"
  by (erule goes_bind) (simp add: goes_def fdone_def)

lemma goes_weaken: "goes P m Q \<Longrightarrow> (\<And>st. P' st \<Longrightarrow> P st) \<Longrightarrow> (\<And>a st. Q a st \<Longrightarrow> Q' a st) \<Longrightarrow> goes P' m Q'"
  by (fastforce simp: goes_def)

lemma goes_finally: "goes P m Q \<Longrightarrow> (\<And>a. goes (Q a) f (\<lambda>_. R a)) \<Longrightarrow> goes P (ffinally m f) R"
  by (fastforce simp: goes_def ffinally_def fbind_def fdone_def)


section \<open>A transaction in progress\<close>

text \<open>A transaction: its directory, the files it may change, the directories it made, and what was there before.\<close>

record setting =
  se_tid :: string
  se_targets :: "path set"
  se_parents :: "path list"
  se_before :: filesystem
  se_copies :: "(string, string) pydict"
  se_intent :: "string \<Rightarrow> intent"

definition finished :: "journal_dir \<Rightarrow> bool" where
  "finished d \<longleftrightarrow> (case jd_intent d of
     None \<Rightarrow> True | Some (MutationIntent i) \<Rightarrow> fi_status i \<noteq> ''applying'' | Some (MoveIntent i) \<Rightarrow> vi_status i \<noteq> ''applying'')"

text \<open>Outside its targets a transaction leaves at most directories it made and temporary files.\<close>

definition leftover :: "setting \<Rightarrow> path \<Rightarrow> fs_node \<Rightarrow> bool" where
  "leftover s q nd \<longleftrightarrow> q \<in> set (se_parents s) \<and> nd = Directory \<or>
     regular nd \<and> q \<noteq> [] \<and> (\<exists>p \<in> se_targets s. butlast q = butlast p) \<and> (\<forall>p \<in> se_targets s. \<not> prefix q p)"

definition littered :: "setting \<Rightarrow> filesystem \<Rightarrow> bool" where
  "littered s fs \<longleftrightarrow>
     (\<forall>q. q \<in> se_targets s \<or> dget fs q = dget (se_before s) q \<or>
        dget (se_before s) q = None \<and> (\<exists>nd. dget fs q = Some nd \<and> leftover s q nd)) \<and>
     (\<forall>p \<in> se_targets s. dget fs p \<noteq> Some Directory)"

definition restored :: "setting \<Rightarrow> path set \<Rightarrow> filesystem \<Rightarrow> bool" where
  "restored s D fs \<longleftrightarrow> littered s fs \<and> (\<forall>p \<in> D. dget fs p = dget (se_before s) p)"

definition phase :: "setting \<Rightarrow> string \<Rightarrow> (filesystem \<Rightarrow> bool) \<Rightarrow> kernel_files \<Rightarrow> bool" where
  "phase s status K st \<longleftrightarrow>
     dget (kf_journal st) (se_tid s) = Some \<lparr>jd_copies = se_copies s, jd_intent = Some (se_intent s status)\<rparr> \<and> K (kf_files st) \<and>
     (\<forall>tid d. tid \<noteq> se_tid s \<longrightarrow> dget (kf_journal st) tid = Some d \<longrightarrow> finished d)"

definition gone :: "setting \<Rightarrow> kernel_files \<Rightarrow> bool" where
  "gone s st \<longleftrightarrow> dget (kf_journal st) (se_tid s) = None \<and> restored s (se_targets s) (kf_files st) \<and>
     (\<forall>tid d. dget (kf_journal st) tid = Some d \<longrightarrow> finished d)"

definition undoable :: "setting \<Rightarrow> kernel_files \<Rightarrow> bool" where
  "undoable s st \<longleftrightarrow> phase s ''prepared'' (restored s (se_targets s)) st \<or> phase s ''applying'' (littered s) st \<or>
     phase s ''rolled_back'' (restored s (se_targets s)) st \<or> gone s st"

text \<open>
  What the recovery needs: no regular file stands where a directory of a target should be,
  temporary names are new and apart from the targets, and the made directories are the missing
  ones.
\<close>

definition temps_apart :: "journal_env \<Rightarrow> path set \<Rightarrow> bool" where
  "temps_apart env T \<longleftrightarrow> (\<forall>fs. \<forall>p \<in> T. let t = je_temp env fs p in
     dget fs t = None \<and> t \<noteq> [] \<and> butlast t = butlast p \<and> (\<forall>q \<in> T. \<not> prefix t q))"

definition sound :: "journal_env \<Rightarrow> setting \<Rightarrow> bool" where
  "sound env s \<longleftrightarrow> temps_apart env (se_targets s) \<and> prefix_free (se_targets s) \<and> [] \<notin> se_targets s \<and>
     (\<forall>p \<in> se_targets s. dget (se_before s) p = None \<or> (\<exists>b. dget (se_before s) p = Some (RegularFile b))) \<and>
     (\<forall>p \<in> se_targets s. \<forall>q \<in> set (ancestors p). dget (se_before s) q = Some Directory \<or>
        dget (se_before s) q = None \<and> q \<in> set (se_parents s)) \<and>
     (\<forall>q \<in> set (se_parents s). dget (se_before s) q = None)"

lemma ancestors_same_dir: "butlast t = butlast p \<Longrightarrow> t \<noteq> [] \<Longrightarrow> p \<noteq> [] \<Longrightarrow> ancestors t = ancestors p"
proof -
  assume a: "butlast t = butlast p" "t \<noteq> []" "p \<noteq> []"
  have "0 < length t" "0 < length p" using a(2,3) by simp_all
  moreover have "length t - 1 = length p - 1" using a(1) by (metis length_butlast)
  ultimately have l: "length t = length p" by linarith
  have "take n x = take n (butlast x)" if "n < length x" for n and x :: path
    using that by (simp add: take_butlast)
  with l a(1) show ?thesis unfolding ancestors_def by (metis (mono_tags, lifting) atLeastLessThan_iff map_eq_conv set_upt)
qed

lemma littered_dir:
  assumes "sound env s" and "littered s fs" and "p \<in> se_targets s" and "q \<in> set (ancestors p)"
  shows "q \<notin> se_targets s" and "dget fs q = Some Directory \<or> dget fs q = None"
    and "dget fs q = None \<Longrightarrow> dget (se_before s) q = None \<and> q \<in> set (se_parents s)"
proof -
  have pre: "strict_prefix q p" using ancestors_prefix [OF assms(4)] .
  show t: "q \<notin> se_targets s" using assms(1,3) pre by (auto simp: sound_def prefix_free_def)
  have l: "dget fs q = dget (se_before s) q \<or> dget (se_before s) q = None \<and> (\<exists>nd. dget fs q = Some nd \<and> leftover s q nd)"
    using assms(2) t by (auto simp: littered_def)
  have n: "leftover s q nd \<Longrightarrow> nd = Directory" for nd using pre assms(3) by (auto simp: leftover_def)
  have b: "dget (se_before s) q = Some Directory \<or> dget (se_before s) q = None \<and> q \<in> set (se_parents s)"
    using assms(1,3,4) by (auto simp: sound_def)
  from l n b show "dget fs q = Some Directory \<or> dget fs q = None" by auto
  from l b show "dget fs q = None \<Longrightarrow> dget (se_before s) q = None \<and> q \<in> set (se_parents s)" by auto
qed

text \<open>The single changes of the file system and what they keep.\<close>

definition harmless :: "setting \<Rightarrow> path \<Rightarrow> fs_node option \<Rightarrow> bool" where
  "harmless s q nd \<longleftrightarrow> q \<notin> se_targets s \<and>
     (nd = dget (se_before s) q \<or> dget (se_before s) q = None \<and> (\<exists>x. nd = Some x \<and> leftover s q x))"

lemma restored_elsewhere:
  assumes "restored s D fs" and "D \<subseteq> se_targets s" and "\<And>r. r \<noteq> q \<Longrightarrow> dget fs' r = dget fs r" and "harmless s q (dget fs' q)"
  shows "restored s D fs'"
proof -
  have "q \<notin> se_targets s" using assms(4) by (simp add: harmless_def)
  then have t: "dget fs' p = dget fs p" if "p \<in> se_targets s" for p using assms(3) that by metis
  have "r \<in> se_targets s \<or> dget fs' r = dget (se_before s) r \<or>
      dget (se_before s) r = None \<and> (\<exists>nd. dget fs' r = Some nd \<and> leftover s r nd)" for r
  proof (cases "r = q")
    case True
    with assms(4) show ?thesis by (auto simp: harmless_def)
  next
    case False
    with assms(1) assms(3) [of r] show ?thesis by (simp add: restored_def littered_def)
  qed
  with t assms(1,2) show ?thesis unfolding restored_def littered_def by (simp add: subset_iff)
qed

lemma restored_target:
  assumes "restored s D fs" and "p \<in> se_targets s" and "p \<notin> D" and "\<And>r. r \<noteq> p \<Longrightarrow> dget fs' r = dget fs r"
    and "dget fs' p \<noteq> Some Directory"
  shows "restored s D fs'"
proof -
  have "r \<in> se_targets s \<or> dget fs' r = dget (se_before s) r \<or>
      dget (se_before s) r = None \<and> (\<exists>nd. dget fs' r = Some nd \<and> leftover s r nd)" for r
    using assms(1,2) assms(4) [of r] by (cases "r = p") (simp_all add: restored_def littered_def)
  moreover have "dget fs' r \<noteq> Some Directory" if "r \<in> se_targets s" for r
    using assms(1,5) assms(4) [of r] that by (cases "r = p") (simp_all add: restored_def littered_def)
  moreover have "dget fs' r = dget (se_before s) r" if "r \<in> D" for r
    using assms(1,3) assms(4) [of r] that by (auto simp: restored_def)
  ultimately show ?thesis by (simp add: restored_def littered_def)
qed

lemma restored_mkdir:
  assumes "sound env s" and "restored s D fs" and "D \<subseteq> se_targets s" and "p \<in> se_targets s" and "q \<in> set (ancestors p)"
    and "make_dirs [q] fs = Inr fs'"
  shows "restored s D fs'" and "dget fs' q = Some Directory" and "dget fs r = Some Directory \<Longrightarrow> dget fs' r = Some Directory"
proof -
  have l: "littered s fs" using assms(2) by (simp add: restored_def)
  note d = littered_dir [OF assms(1) l assms(4,5)]
  have c: "fs' = fs \<and> dget fs q = Some Directory \<or> dget fs q = None \<and> fs' = dset q Directory fs"
    using assms(6) by (auto split: option.splits fs_node.splits)
  then show "dget fs' q = Some Directory" "dget fs r = Some Directory \<Longrightarrow> dget fs' r = Some Directory" by auto
  from c show "restored s D fs'"
  proof
    assume n: "dget fs q = None \<and> fs' = dset q Directory fs"
    then have "harmless s q (dget fs' q)" using d(1) d(3) by (simp add: harmless_def leftover_def)
    with n show ?thesis by (intro restored_elsewhere [OF assms(2,3), of q]) auto
  qed (use assms(2) in simp)
qed

lemma restored_temp:
  assumes "sound env s" and "restored s D fs" and "D \<subseteq> se_targets s" and "p \<in> se_targets s" and "t = je_temp env fs p"
  shows "t \<notin> se_targets s" and "dget (se_before s) t = None" and "leftover s t (RegularFile b)"
proof -
  have t: "dget fs t = None" "t \<noteq> []" "butlast t = butlast p" "\<forall>q \<in> se_targets s. \<not> prefix t q"
    using assms(1,4,5) by (auto simp: sound_def temps_apart_def Let_def)
  then show n: "t \<notin> se_targets s" by auto
  with assms(2) t(1) show "dget (se_before s) t = None" by (auto simp: restored_def littered_def)
  show "leftover s t (RegularFile b)" using t assms(4) by (auto simp: leftover_def regular_def)
qed

text \<open>A path a temporary file may use.\<close>

definition spare :: "setting \<Rightarrow> path \<Rightarrow> path \<Rightarrow> bool" where
  "spare s p t \<longleftrightarrow> t \<notin> se_targets s \<and> dget (se_before s) t = None \<and> leftover s t (RegularFile []) \<and> butlast t = butlast p \<and> t \<noteq> []"

lemma spare_put: "spare s p t \<Longrightarrow> restored s D fs \<Longrightarrow> D \<subseteq> se_targets s \<Longrightarrow> restored s D (dset t (RegularFile b) fs)"
  by (rule restored_elsewhere [of s D fs t]) (auto simp: spare_def harmless_def leftover_def regular_def)

lemma spare_pop: "spare s p t \<Longrightarrow> restored s D fs \<Longrightarrow> D \<subseteq> se_targets s \<Longrightarrow> restored s D (dpop t fs)"
  by (rule restored_elsewhere [of s D fs t]) (auto simp: spare_def harmless_def)

lemma target_put: "p \<in> se_targets s \<Longrightarrow> restored s D fs \<Longrightarrow> p \<notin> D \<Longrightarrow> restored s D (dset p (RegularFile b) fs)"
  by (rule restored_target [of s D fs p]) auto

lemma target_pop: "p \<in> se_targets s \<Longrightarrow> restored s D fs \<Longrightarrow> p \<notin> D \<Longrightarrow> restored s D (dpop p fs)"
  by (rule restored_target [of s D fs p]) auto

lemma restored_rmdir:
  assumes "sound env s" and "q \<in> set (se_parents s)" and "D \<subseteq> se_targets s" and "restored s D fs" and "os_rmdir q fs = Inr fs'"
  shows "restored s D fs'"
proof -
  from assms(5) have d: "dget fs q = Some Directory" "fs' = dpop q fs" by (auto simp: os_rmdir_def split: if_splits)
  have "q \<notin> se_targets s" using d(1) assms(4) by (auto simp: restored_def littered_def)
  with assms(1,2) d have "harmless s q (dget fs' q)" by (simp add: harmless_def sound_def)
  with d show ?thesis by (intro restored_elsewhere [OF assms(4,3), of q]) auto
qed

lemma littered_elsewhere:
  "littered s fs \<Longrightarrow> q \<in> se_targets s \<or> dget fs q = dget (se_before s) q \<or>
     dget (se_before s) q = None \<and> (\<exists>nd. dget fs q = Some nd \<and> leftover s q nd)"
  by (simp add: littered_def)

lemma restored_none: "restored s {} = littered s"
  by (simp add: restored_def fun_eq_iff)



section \<open>What each call does to a transaction\<close>

lemma restored_weaken: "restored s D fs \<Longrightarrow> D' \<subseteq> D \<Longrightarrow> restored s D' fs"
  by (auto simp: restored_def)

lemma phase_weaken: "phase s a K st \<Longrightarrow> (\<And>fs. K fs \<Longrightarrow> K' fs) \<Longrightarrow> phase s a K' st"
  by (simp add: phase_def)

lemma phase_verdicts [simp]: "phase s a K (st\<lparr>kf_verdicts := v\<rparr>) = phase s a K st"
  by (simp add: phase_def)

lemma runs_syscall:
  assumes "\<And>st v. P (st\<lparr>kf_verdicts := v\<rparr>) = P st" and "\<And>st st'. P st \<Longrightarrow> act st = Inr st' \<Longrightarrow> Q () st'"
  shows "runs P (syscall act) Q P"
proof -
  have "P st \<Longrightarrow> act (st\<lparr>kf_verdicts := v\<rparr>) = Inr st' \<Longrightarrow> Q () st'" for st v st'
    by (rule assms(2) [of "st\<lparr>kf_verdicts := v\<rparr>"]) (simp_all add: assms(1))
  then show ?thesis
    by (intro runsI) (auto simp: syscall_def Let_def assms(1) split: list.splits io_verdict.splits sum.splits)
qed

lemma goes_syscall:
  assumes "\<And>st. P st \<Longrightarrow> kf_verdicts st = [] \<Longrightarrow> \<exists>st'. act st = Inr st' \<and> Q () st' \<and> kf_verdicts st' = []"
  shows "goes P (syscall act) Q"
  unfolding goes_def
proof (intro allI impI)
  fix st assume p: "P st \<and> kf_verdicts st = []"
  then have e: "st\<lparr>kf_verdicts := []\<rparr> = st" by (cases st) simp
  from p assms obtain st' where "act st = Inr st'" "Q () st'" "kf_verdicts st' = []" by blast
  with p show "\<exists>a st'. syscall act st = (Done a, st') \<and> Q a st' \<and> kf_verdicts st' = []"
    by (simp add: syscall_def e)
qed

lemma runs_choice:
  "runs (\<lambda>st. P st \<and> b st) m1 Q E \<Longrightarrow> runs (\<lambda>st. P st \<and> \<not> b st) m2 Q E \<Longrightarrow> runs P (\<lambda>st. if b st then m1 st else m2 st) Q E"
  by (simp add: runs_def)

lemma goes_choice:
  "goes (\<lambda>st. P st \<and> b st) m1 Q \<Longrightarrow> goes (\<lambda>st. P st \<and> \<not> b st) m2 Q \<Longrightarrow> goes P (\<lambda>st. if b st then m1 st else m2 st) Q"
  by (simp add: goes_def)

lemma phase_forget: "phase s a (\<lambda>fs. restored s D fs \<and> K fs) st \<Longrightarrow> phase s a (restored s {}) st"
  by (auto simp: phase_def restored_def)

lemma runs_files:
  "(\<And>fs fs'. K fs \<Longrightarrow> act fs = Inr fs' \<Longrightarrow> K' fs') \<Longrightarrow> runs (phase s a K) (on_files act) (\<lambda>_. phase s a K') (phase s a K)"
  unfolding on_files_def by (rule runs_syscall) (auto simp: rbind_Inr phase_def)

lemma goes_files:
  assumes "\<And>fs. K fs \<Longrightarrow> \<exists>fs'. act fs = Inr fs' \<and> K' fs'"
  shows "goes (phase s a K) (on_files act) (\<lambda>_. phase s a K')"
  unfolding on_files_def
proof (rule goes_syscall)
  fix st :: kernel_files assume p: "phase s a K st" and v: "kf_verdicts st = []"
  from p have "K (kf_files st)" by (simp add: phase_def)
  from assms [OF this] obtain fs' where "act (kf_files st) = Inr fs'" "K' fs'" by blast
  with p v show "\<exists>st'. rbind (act (kf_files st)) (\<lambda>fs. Inr (st\<lparr>kf_files := fs\<rparr>)) = Inr st' \<and> phase s a K' st' \<and> kf_verdicts st' = []"
    by (simp add: phase_def)
qed

lemma runs_pure: "(A \<Longrightarrow> runs P m Q E) \<Longrightarrow> runs (\<lambda>st. A \<and> P st) m Q E"
  by (auto simp: runs_def)

lemma goes_pure: "(A \<Longrightarrow> goes P m Q) \<Longrightarrow> goes (\<lambda>st. A \<and> P st) m Q"
  by (auto simp: goes_def)

definition dirs :: "path set \<Rightarrow> filesystem \<Rightarrow> bool" where
  "dirs R fs \<longleftrightarrow> (\<forall>q \<in> R. dget fs q = Some Directory)"

lemma mkdir_keeps:
  assumes "sound env s" and "D \<subseteq> se_targets s" and "p \<in> se_targets s" and "q \<in> set (ancestors p)"
    and "restored s D fs \<and> dirs R fs" and "make_dirs [q] fs = Inr fs'"
  shows "restored s D fs' \<and> dirs (insert q R) fs'"
proof
  note k = restored_mkdir [OF assms(1) _ assms(2-4,6)]
  from assms(5) have r: "restored s D fs" and d: "dirs R fs" by blast+
  show "restored s D fs'" by (rule k(1) [OF r])
  have "dget fs' q = Some Directory" by (rule k(2) [OF r])
  moreover have "dget fs' x = Some Directory" if "x \<in> R" for x using k(3) [OF r] d that by (simp add: dirs_def)
  ultimately show "dirs (insert q R) fs'" by (simp add: dirs_def)
qed

lemma runs_parents:
  assumes "sound env s" and "D \<subseteq> se_targets s" and "p \<in> se_targets s" and "set qs \<subseteq> set (ancestors p)"
  shows "runs (phase s a (\<lambda>fs. restored s D fs \<and> dirs R fs)) (make_parents qs)
    (\<lambda>_. phase s a (\<lambda>fs. restored s D fs \<and> dirs (R \<union> set qs) fs)) (phase s a (restored s {}))"
  using assms(4)
proof (induction qs arbitrary: R)
  case Nil
  show ?case by (simp add: runs_def fdone_def)
next
  case (Cons q qs)
  let ?K = "\<lambda>R fs. restored s D fs \<and> dirs R fs"
  have c: "runs (phase s a (?K R)) (on_files (make_dirs [q])) (\<lambda>_. phase s a (?K (insert q R))) (phase s a (?K R))"
    using Cons.prems by (intro runs_files mkdir_keeps [OF assms(1-3)]) auto
  have "runs (phase s a (?K R)) (\<lambda>st. if dget (kf_files st) q = Some Directory then fdone () st else on_files (make_dirs [q]) st)
    (\<lambda>_. phase s a (?K (insert q R))) (phase s a (restored s {}))"
  proof (rule runs_choice)
    show "runs (\<lambda>st. phase s a (?K R) st \<and> dget (kf_files st) q = Some Directory) (fdone ())
        (\<lambda>_. phase s a (?K (insert q R))) (phase s a (restored s {}))"
      by (simp add: runs_def fdone_def phase_def dirs_def)
    show "runs (\<lambda>st. phase s a (?K R) st \<and> dget (kf_files st) q \<noteq> Some Directory) (on_files (make_dirs [q]))
        (\<lambda>_. phase s a (?K (insert q R))) (phase s a (restored s {}))"
      by (rule runs_weaken [OF c]) (auto intro: phase_forget)
  qed
  then show ?case unfolding make_parents.simps
    using Cons.IH [of "insert q R"] Cons.prems by (intro runs_bind) auto
qed

lemma goes_parents:
  assumes "sound env s" and "D \<subseteq> se_targets s" and "p \<in> se_targets s" and "set qs \<subseteq> set (ancestors p)"
  shows "goes (phase s a (\<lambda>fs. restored s D fs \<and> dirs R fs)) (make_parents qs)
    (\<lambda>_. phase s a (\<lambda>fs. restored s D fs \<and> dirs (R \<union> set qs) fs))"
  using assms(4)
proof (induction qs arbitrary: R)
  case Nil
  show ?case by (simp add: goes_def fdone_def)
next
  case (Cons q qs)
  let ?K = "\<lambda>R fs. restored s D fs \<and> dirs R fs"
  have "\<exists>fs'. make_dirs [q] fs = Inr fs' \<and> ?K (insert q R) fs'" if k: "?K R fs" for fs
  proof -
    from k have "dget fs q = Some Directory \<or> dget fs q = None"
      using littered_dir(2) [OF assms(1) _ assms(3)] Cons.prems by (auto simp: restored_def)
    then obtain fs' where "make_dirs [q] fs = Inr fs'" by auto
    with mkdir_keeps [OF assms(1-3) _ k this] Cons.prems show ?thesis by auto
  qed
  then have c: "goes (phase s a (?K R)) (on_files (make_dirs [q])) (\<lambda>_. phase s a (?K (insert q R)))" by (rule goes_files)
  have "goes (phase s a (?K R)) (\<lambda>st. if dget (kf_files st) q = Some Directory then fdone () st else on_files (make_dirs [q]) st)
    (\<lambda>_. phase s a (?K (insert q R)))"
    using c by (auto simp: goes_def fdone_def phase_def dirs_def)
  then show ?case unfolding make_parents.simps
    using Cons.IH [of "insert q R"] Cons.prems by (intro goes_bind) auto
qed


text \<open>Temporary files.\<close>

abbreviation ready :: "setting \<Rightarrow> path set \<Rightarrow> path \<Rightarrow> filesystem \<Rightarrow> bool" where
  "ready s D p fs \<equiv> restored s D fs \<and> dirs (set (ancestors p)) fs"

lemma make_temp_bind:
  "make_temp env p = (\<lambda>st. (\<lambda>t. fbind (on_files (\<lambda>fs. open_for_writing fs t)) (\<lambda>_. fdone t)) (je_temp env (kf_files st) p) st)"
  by (simp add: make_temp_def fun_eq_iff Let_def)

lemma temp_spare:
  "sound env s \<Longrightarrow> restored s D fs \<Longrightarrow> D \<subseteq> se_targets s \<Longrightarrow> p \<in> se_targets s \<Longrightarrow> spare s p (je_temp env fs p)"
  using restored_temp [OF _ _ _ _ refl, of env s D fs p]
  by (auto simp: spare_def sound_def temps_apart_def Let_def)

lemma runs_temp:
  assumes "sound env s" and "D \<subseteq> se_targets s" and "p \<in> se_targets s"
  shows "runs (phase s a (ready s D p)) (make_temp env p)
    (\<lambda>t st. spare s p t \<and> phase s a (\<lambda>fs. ready s D p fs) st) (phase s a (restored s {}))"
proof -
  have t: "runs (phase s a (ready s D p)) (fbind (on_files (\<lambda>fs. open_for_writing fs t)) (\<lambda>_. fdone t))
      (\<lambda>x st. x = t \<and> phase s a (ready s D p) st) (phase s a (restored s {}))" if "spare s p t" for t
  proof (rule runs_bind)
    have "runs (phase s a (ready s D p)) (on_files (\<lambda>fs. open_for_writing fs t)) (\<lambda>_. phase s a (ready s D p)) (phase s a (ready s D p))"
    proof (rule runs_files)
      fix fs fs' assume r: "ready s D p fs" and o: "open_for_writing fs t = Inr fs'"
      then have fs': "fs' = dset t (RegularFile []) fs" and n: "dget fs t \<noteq> Some Directory"
        by (auto simp: open_for_writing_def split: if_splits)
      with r that assms(2) show "ready s D p fs'" by (auto simp: dirs_def intro: spare_put)
    qed
    then show "runs (phase s a (ready s D p)) (on_files (\<lambda>fs. open_for_writing fs t)) (\<lambda>_. phase s a (ready s D p)) (phase s a (restored s {}))"
      by (rule runs_weaken) (auto intro: phase_forget)
    show "runs (phase s a (ready s D p)) (fdone t) (\<lambda>x st. x = t \<and> phase s a (ready s D p) st) (phase s a (restored s {}))"
      by (simp add: runs_def fdone_def)
  qed
  show ?thesis
  proof (rule runsI)
    fix st x st' assume p: "phase s a (ready s D p) st"
    then have "spare s p (je_temp env (kf_files st) p)" using assms by (auto simp: phase_def intro: temp_spare)
    note r = runsD [OF t [OF this] p]
    show "make_temp env p st = (Done x, st') \<Longrightarrow> spare s p x \<and> phase s a (ready s D p) st'"
      using r(1) \<open>spare s p _\<close> by (auto simp: make_temp_bind)
    show "make_temp env p st = (Raises e, st') \<Longrightarrow> phase s a (restored s {}) st'" for e using r(2) by (auto simp: make_temp_bind)
    show "make_temp env p st = (Crashed, st') \<Longrightarrow> phase s a (restored s {}) st'" using r(3) by (auto simp: make_temp_bind)
  qed
qed

lemma goes_temp:
  assumes "sound env s" and "D \<subseteq> se_targets s" and "p \<in> se_targets s"
  shows "goes (phase s a (ready s D p)) (make_temp env p)
    (\<lambda>t st. (spare s p t \<and> t \<notin> se_targets s) \<and> phase s a (\<lambda>fs. ready s D p fs \<and> dget fs t = Some (RegularFile [])) st)"
  unfolding goes_def
proof (intro allI impI)
  fix st assume p: "phase s a (ready s D p) st \<and> kf_verdicts st = []"
  define t where "t = je_temp env (kf_files st) p"
  have r: "ready s D p (kf_files st)" using p by (simp add: phase_def)
  then have sp: "spare s p t" using assms unfolding t_def by (blast intro: temp_spare)
  have an: "ancestors t = ancestors p" and tn: "t \<noteq> []" "dget (kf_files st) t = None"
    using sp assms(1,3) by (auto simp: spare_def t_def sound_def temps_apart_def Let_def intro!: ancestors_same_dir)
  obtain fs' where o: "open_for_writing (kf_files st) t = Inr fs'"
    using open_ok [of t "kf_files st"] r tn by (auto simp: an dirs_def)
  then have fs': "fs' = dset t (RegularFile []) (kf_files st)" using tn by (auto simp: open_for_writing_def split: if_splits)
  have k: "ready s D p fs'" using r sp tn assms(2) by (auto simp: fs' dirs_def intro: spare_put)
  have v: "st\<lparr>kf_verdicts := []\<rparr> = st" using p by (cases st) simp
  have "make_temp env p st = (Done t, st\<lparr>kf_files := fs'\<rparr>)"
    using p o by (simp add: make_temp_def Let_def flip: t_def) (simp add: fbind_def on_files_def syscall_def v fdone_def)
  with p k sp show "\<exists>x st'. make_temp env p st = (Done x, st') \<and> ((spare s p x \<and> x \<notin> se_targets s) \<and>
      phase s a (\<lambda>fs. ready s D p fs \<and> dget fs x = Some (RegularFile [])) st') \<and> kf_verdicts st' = []"
    by (auto simp: phase_def fs' spare_def)
qed


text \<open>Removing a file that may not be there.\<close>

lemma runs_unlink:
  assumes "\<And>fs. K fs \<Longrightarrow> K' (dpop p fs)" and "\<And>fs. K fs \<Longrightarrow> dget fs p = None \<Longrightarrow> K' fs"
  shows "runs (phase s a K) (unlink_if_there p) (\<lambda>_. phase s a K') (phase s a K)"
proof (rule runsI)
  fix st st' assume p: "phase s a K st"
  then have k: "K (kf_files st)" by (simp add: phase_def)
  note d = unlink_if_there_def ignore_missing_def fcatch_def on_files_def syscall_def os_unlink_def Let_def fdone_def fraise_def
  show "phase s a K' st'" if "unlink_if_there p st = (Done x, st')" for x
    using that p assms(1) [OF k] assms(2) [OF k] unfolding d
    by (auto simp: phase_def split: list.splits io_verdict.splits sum.splits if_splits option.splits fs_node.splits)
  show "phase s a K st'" if "unlink_if_there p st = (Raises e, st')" for e
    using that p unfolding d
    by (auto simp: phase_def split: list.splits io_verdict.splits sum.splits if_splits option.splits fs_node.splits)
  show "phase s a K st'" if "unlink_if_there p st = (Crashed, st')"
    using that p unfolding d
    by (auto simp: phase_def split: list.splits io_verdict.splits sum.splits if_splits option.splits fs_node.splits)
qed

lemma goes_unlink:
  assumes "\<And>fs. K fs \<Longrightarrow> K' (dpop p fs)" and "\<And>fs. K fs \<Longrightarrow> dget fs p = None \<Longrightarrow> K' fs"
    and "\<And>fs. K fs \<Longrightarrow> \<not> blocked fs p \<and> dget fs p \<noteq> Some Directory"
  shows "goes (phase s a K) (unlink_if_there p) (\<lambda>_. phase s a K')"
  unfolding goes_def
proof (intro allI impI)
  fix st assume p: "phase s a K st \<and> kf_verdicts st = []"
  then have k: "K (kf_files st)" and v: "st\<lparr>kf_verdicts := []\<rparr> = st" by (simp add: phase_def, cases st, simp)
  note d = unlink_if_there_def ignore_missing_def fcatch_def on_files_def syscall_def os_unlink_def Let_def fdone_def fraise_def
  show "\<exists>x st'. unlink_if_there p st = (Done x, st') \<and> phase s a K' st' \<and> kf_verdicts st' = []"
    using p assms(1) [OF k] assms(2) [OF k] assms(3) [OF k] unfolding d
    by (auto simp: phase_def v split: option.split fs_node.split)
qed

text \<open>Copies, and putting one back.\<close>

lemma runs_copy:
  "dget (se_copies s) f = Some b \<Longrightarrow> runs (phase s a K) (copy_of (se_tid s) f) (\<lambda>x st. x = b \<and> phase s a K st) (phase s a K)"
  by (auto simp: runs_def copy_of_def phase_def)

lemma goes_copy:
  "dget (se_copies s) f = Some b \<Longrightarrow> goes (phase s a K) (copy_of (se_tid s) f) (\<lambda>x st. x = b \<and> phase s a K st)"
  by (auto simp: goes_def copy_of_def phase_def)

lemma replace_restores:
  assumes "spare s p t" and "D \<subseteq> se_targets s" and "p \<in> se_targets s" and "p \<notin> D" and "dget (se_before s) p = Some (RegularFile b)"
    and "restored s D fs" and "fs' = dset p (RegularFile b) (dpop t fs)"
  shows "restored s (insert p D) fs'"
proof -
  have "restored s D fs'" using target_put [OF assms(3) spare_pop [OF assms(1,6,2)] assms(4)] assms(7) by simp
  with assms(5,7) show ?thesis by (simp add: restored_def)
qed

lemma runs_restore:
  assumes "sound env s" and "D \<subseteq> se_targets s" and "p \<in> se_targets s" and "p \<notin> D"
    and c: "dget (se_copies s) f = Some b" and b: "dget (se_before s) p = Some (RegularFile b)"
  shows "runs (phase s a (restored s D)) (restore_copy env (se_tid s) f p) (\<lambda>_. phase s a (restored s (insert p D))) (phase s a (restored s {}))"
  unfolding restore_copy_def
proof (rule runs_bind)
  show "runs (phase s a (restored s D)) (make_parents (ancestors p)) (\<lambda>_. phase s a (ready s D p)) (phase s a (restored s {}))"
    using runs_parents [OF assms(1-3) subset_refl, of a "{}"] by (rule runs_weaken) (auto simp: dirs_def elim: phase_weaken)
  show "runs (phase s a (ready s D p)) (fbind (make_temp env p) (\<lambda>t. ffinally (fbind (copy_of (se_tid s) f)
      (\<lambda>b. fbind (fill t b) (\<lambda>_. on_files (os_replace t p)))) (unlink_if_there t)))
      (\<lambda>_. phase s a (restored s (insert p D))) (phase s a (restored s {}))" for x :: unit
  proof (rule runs_bind [OF runs_temp [OF assms(1-3)]], rule runs_pure, rule runs_finally)
    fix t assume t: "spare s p t"
    let ?E = "phase s a (restored s {})"
    show "runs (phase s a (restored s (insert p D))) (unlink_if_there t) (\<lambda>_. phase s a (restored s (insert p D))) ?E" for y :: unit
    proof (rule runs_weaken [OF runs_unlink [of "restored s (insert p D)" "restored s (insert p D)"]])
      show "restored s (insert p D) fs \<Longrightarrow> restored s (insert p D) (dpop t fs)" for fs
        using assms(2,3) by (intro spare_pop [OF t]) auto
      show "phase s a (restored s (insert p D)) st \<Longrightarrow> phase s a (restored s {}) st" for st
        by (erule phase_weaken) (simp add: restored_def)
    qed
    show "runs ?E (unlink_if_there t) (\<lambda>_. ?E) ?E"
      by (rule runs_unlink) (auto intro: spare_pop [OF t])
    show "runs (phase s a (ready s D p)) (fbind (copy_of (se_tid s) f) (\<lambda>b. fbind (fill t b) (\<lambda>_. on_files (os_replace t p))))
        (\<lambda>_. phase s a (restored s (insert p D))) ?E"
    proof (rule runs_bind)
      show "runs (phase s a (ready s D p)) (copy_of (se_tid s) f) (\<lambda>x st. x = b \<and> phase s a (ready s D p) st) ?E"
        by (rule runs_weaken [OF runs_copy [OF c, where K = "ready s D p"]]) (auto intro: phase_forget)
      show "runs (\<lambda>st. x = b \<and> phase s a (ready s D p) st) (fbind (fill t x) (\<lambda>_. on_files (os_replace t p)))
          (\<lambda>_. phase s a (restored s (insert p D))) ?E" for x
      proof (rule runs_pure, rule runs_bind)
        assume x: "x = b"
        have "runs (phase s a (ready s D p)) (fill t x) (\<lambda>_. phase s a (\<lambda>fs. restored s D fs \<and> dget fs t = Some (RegularFile b))) (phase s a (ready s D p))"
          unfolding fill_def by (rule runs_files) (auto simp: x intro: spare_put [OF t _ assms(2)])
        then show "runs (phase s a (ready s D p)) (fill t x) (\<lambda>_. phase s a (\<lambda>fs. restored s D fs \<and> dget fs t = Some (RegularFile b))) ?E"
          by (rule runs_weaken) (auto intro: phase_forget)
        have "runs (phase s a (\<lambda>fs. restored s D fs \<and> dget fs t = Some (RegularFile b))) (on_files (os_replace t p))
            (\<lambda>_. phase s a (restored s (insert p D))) (phase s a (\<lambda>fs. restored s D fs \<and> dget fs t = Some (RegularFile b)))"
          by (rule runs_files) (auto simp: os_replace_def split: if_splits intro: replace_restores [OF t assms(2-4) b])
        then show "runs (phase s a (\<lambda>fs. restored s D fs \<and> dget fs t = Some (RegularFile b))) (on_files (os_replace t p))
            (\<lambda>_. phase s a (restored s (insert p D))) ?E" for y :: unit
          by (rule runs_weaken) (auto intro: phase_forget)
      qed
    qed
  qed
qed


lemma goes_restore:
  assumes "sound env s" and "D \<subseteq> se_targets s" and "p \<in> se_targets s" and "p \<notin> D"
    and c: "dget (se_copies s) f = Some b" and b: "dget (se_before s) p = Some (RegularFile b)"
  shows "goes (phase s a (restored s D)) (restore_copy env (se_tid s) f p) (\<lambda>_. phase s a (restored s (insert p D)))"
  unfolding restore_copy_def
proof (rule goes_bind)
  let ?full = "\<lambda>t b fs. ready s D p fs \<and> dget fs t = Some (RegularFile b)"
  let ?fin = "\<lambda>t fs. restored s (insert p D) fs \<and> dirs (set (ancestors p)) fs \<and> dget fs t = None"
  show "goes (phase s a (restored s D)) (make_parents (ancestors p)) (\<lambda>_. phase s a (ready s D p))"
    using goes_parents [OF assms(1-3) subset_refl, of a "{}"] by (rule goes_weaken) (auto simp: dirs_def elim: phase_weaken)
  show "goes (phase s a (ready s D p)) (fbind (make_temp env p) (\<lambda>t. ffinally (fbind (copy_of (se_tid s) f)
      (\<lambda>b. fbind (fill t b) (\<lambda>_. on_files (os_replace t p)))) (unlink_if_there t)))
      (\<lambda>_. phase s a (restored s (insert p D)))" for x :: unit
  proof (rule goes_bind [OF goes_temp [OF assms(1-3)]], rule goes_pure, rule goes_finally)
    fix t assume t': "spare s p t \<and> t \<notin> se_targets s"
    then have t: "spare s p t" ..
    have pe: "p \<noteq> []" using assms(1,3) by (auto simp: sound_def)
    have anc: "ancestors t = ancestors p" using t pe by (intro ancestors_same_dir) (auto simp: spare_def)
    have noself: "q \<in> set (ancestors p) \<Longrightarrow> q \<noteq> p \<and> q \<noteq> t" for q
      using ancestors_prefix [of q p] ancestors_prefix [of q t] anc by auto
    show "goes (phase s a (?full t [])) (fbind (copy_of (se_tid s) f) (\<lambda>b. fbind (fill t b) (\<lambda>_. on_files (os_replace t p))))
        (\<lambda>_. phase s a (?fin t))"
    proof (rule goes_bind [OF goes_copy [OF c]], rule goes_pure, rule goes_bind)
      fix x assume x: "x = b"
      show "goes (phase s a (?full t [])) (fill t x) (\<lambda>_. phase s a (?full t b))"
        unfolding fill_def x using noself by (intro goes_files) (auto simp: dirs_def intro: spare_put [OF t _ assms(2)])
      show "goes (phase s a (?full t b)) (on_files (os_replace t p)) (\<lambda>_. phase s a (?fin t))" for y :: unit
      proof (rule goes_files)
        fix fs assume k: "?full t b fs"
        have "length p > 1 \<Longrightarrow> dget fs (butlast p) = Some Directory" using k parent_ancestor [of p] by (auto simp: dirs_def)
        moreover have "dget fs p \<noteq> Some Directory" using k assms(3) by (auto simp: restored_def littered_def)
        ultimately have "os_replace t p fs = Inr (dset p (RegularFile b) (dpop t fs))" using k by (auto simp: os_replace_def)
        moreover have "?fin t (dset p (RegularFile b) (dpop t fs))"
          using replace_restores [OF t assms(2-4) b, of fs] k noself t' assms(3) by (auto simp: dirs_def)
        ultimately show "\<exists>fs'. os_replace t p fs = Inr fs' \<and> ?fin t fs'" by blast
      qed
    qed
    show "goes (phase s a (?fin t)) (unlink_if_there t) (\<lambda>_. phase s a (restored s (insert p D)))" for y :: unit
    proof (rule goes_unlink)
      show "?fin t fs \<Longrightarrow> restored s (insert p D) (dpop t fs)" for fs
        using assms(2,3) by (intro spare_pop [OF t]) auto
      show "?fin t fs \<Longrightarrow> \<not> blocked fs t \<and> dget fs t \<noteq> Some Directory" for fs
        by (auto simp: blocked_def anc dirs_def list_ex_iff)
    qed auto
  qed
qed

text \<open>Removing the directories a change made; a failure of \<open>rmdir\<close> is ignored.\<close>

lemma runs_rmdirs:
  assumes "sound env s" and "D \<subseteq> se_targets s" and "set qs \<subseteq> set (se_parents s)"
  shows "runs (phase s a (restored s D)) (remove_empty qs) (\<lambda>_. phase s a (restored s D)) (phase s a (restored s D))"
  using assms(3)
proof (induction qs)
  case Nil
  show ?case by (simp add: runs_def fdone_def)
next
  case (Cons q qs)
  have "runs (phase s a (restored s D)) (on_files (os_rmdir q)) (\<lambda>_. phase s a (restored s D)) (phase s a (restored s D))"
  proof (rule runs_files)
    have "q \<in> set (se_parents s)" using Cons.prems by simp
    then show "restored s D fs \<Longrightarrow> os_rmdir q fs = Inr fs' \<Longrightarrow> restored s D fs'" for fs fs'
      by (rule restored_rmdir [OF assms(1) _ assms(2)])
  qed
  then have "runs (phase s a (restored s D)) (fcatch (on_files (os_rmdir q)) (\<lambda>_. fdone ())) (\<lambda>_. phase s a (restored s D)) (phase s a (restored s D))"
    by (rule runs_catch) (simp_all add: runs_def fdone_def)
  with Cons show ?case by (auto intro: runs_bind)
qed

lemma goes_rmdirs:
  assumes "sound env s" and "D \<subseteq> se_targets s" and "set qs \<subseteq> set (se_parents s)"
  shows "goes (phase s a (restored s D)) (remove_empty qs) (\<lambda>_. phase s a (restored s D))"
  using assms(3)
proof (induction qs)
  case Nil
  show ?case by (simp add: goes_def fdone_def)
next
  case (Cons q qs)
  have "goes (phase s a (restored s D)) (fcatch (on_files (os_rmdir q)) (\<lambda>_. fdone ())) (\<lambda>_. phase s a (restored s D))"
    unfolding goes_def
  proof (intro allI impI)
    fix st assume p: "phase s a (restored s D) st \<and> kf_verdicts st = []"
    then have v: "st\<lparr>kf_verdicts := []\<rparr> = st" by (cases st) simp
    show "\<exists>x st'. fcatch (on_files (os_rmdir q)) (\<lambda>_. fdone ()) st = (Done x, st') \<and> phase s a (restored s D) st' \<and> kf_verdicts st' = []"
    proof (cases "os_rmdir q (kf_files st)")
      case (Inl e)
      with p show ?thesis by (simp add: fcatch_def on_files_def syscall_def v fdone_def)
    next
      case (Inr fs')
      have "q \<in> set (se_parents s)" "restored s D (kf_files st)" using p Cons.prems by (simp_all add: phase_def)
      then have "restored s D fs'" using restored_rmdir [OF assms(1) _ assms(2) _ Inr] by blast
      with p Inr show ?thesis by (simp add: fcatch_def on_files_def syscall_def v fdone_def phase_def)
    qed
  qed
  with Cons show ?case by (auto intro: goes_bind)
qed



section \<open>Recovery of a transaction\<close>

definition settled :: "setting \<Rightarrow> kernel_files \<Rightarrow> bool" where
  "settled s st \<longleftrightarrow> phase s ''rolled_back'' (restored s (se_targets s)) st \<or> gone s st"

text \<open>A start of the kernel that may be cut off again.\<close>

definition restart :: "journal_env \<Rightarrow> io_verdict list \<Rightarrow> kernel_files \<Rightarrow> kernel_files" where
  "restart env v st = snd (recover_incomplete env (st\<lparr>kf_verdicts := v\<rparr>))"

lemma undoable_verdicts [simp]: "undoable s (st\<lparr>kf_verdicts := v\<rparr>) = undoable s st"
  by (simp add: undoable_def gone_def)

lemma settled_undoable: "settled s st \<Longrightarrow> undoable s st"
  by (auto simp: settled_def undoable_def)

lemma settled_restored: "settled s st \<Longrightarrow> restored s (se_targets s) (kf_files st)"
  by (auto simp: settled_def gone_def phase_def)

lemma finished_dir:
  assumes "dget (kf_journal st) tid = Some d" and "finished d"
  obtains ids where "recover_dir env tid st = (Done ids, st)"
  | ids where "recover_dir env tid st = (Done ids, st\<lparr>kf_journal := dpop tid (kf_journal st)\<rparr>)"
proof -
  have "\<exists>ids. recover_dir env tid st = (Done ids, st) \<or> recover_dir env tid st = (Done ids, st\<lparr>kf_journal := dpop tid (kf_journal st)\<rparr>)"
  proof (cases "load_pending env tid d")
    case (Inl e)
    with assms(1) show ?thesis by (auto simp: recover_dir_def fdone_def)
  next
    case (Inr x)
    obtain p a where x: "x = (p, a)" by (cases x)
    have "a \<noteq> ''applying''" using Inr x assms(2)
      by (auto simp: load_pending_def finished_def rbind_Inr split: option.splits intent.splits)
    moreover have "abort_pending env p st = (Done (), st\<lparr>kf_journal := dpop tid (kf_journal st)\<rparr>)"
      using Inr x by (auto simp: load_pending_def load_mutation_def load_move_def journal_error_def rbind_Inr abort_mutation_def abort_move_def
          fbind_def fdone_def remove_tree_def split: option.splits intent.splits if_splits)
    ultimately show ?thesis using Inr x assms(1) by (auto simp: recover_dir_def fbind_def fdone_def)
  qed
  with that show ?thesis by blast
qed

lemma other_dir:
  assumes "undoable s st" and "tid \<noteq> se_tid s"
  obtains ids st' where "recover_dir env tid st = (Done ids, st')" and "undoable s st'" and "settled s st \<Longrightarrow> settled s st'"
    and "kf_verdicts st' = kf_verdicts st"
proof (cases "dget (kf_journal st) tid")
  case None
  with assms that [of "[]" st] show ?thesis by (simp add: recover_dir_def fdone_def)
next
  case (Some d)
  then have "finished d" using assms by (auto simp: undoable_def phase_def gone_def)
  have p: "phase s a K (st\<lparr>kf_journal := dpop tid (kf_journal st)\<rparr>)" if "phase s a K st" for a K
    using that assms(2) by (auto simp: phase_def)
  have g: "gone s (st\<lparr>kf_journal := dpop tid (kf_journal st)\<rparr>)" if "gone s st"
    using that by (auto simp: gone_def)
  from Some \<open>finished d\<close> show ?thesis
  proof (rule finished_dir)
    show "recover_dir env tid st = (Done ids, st) \<Longrightarrow> thesis" for ids using that assms(1) by blast
    show "recover_dir env tid st = (Done ids, st\<lparr>kf_journal := dpop tid (kf_journal st)\<rparr>) \<Longrightarrow> thesis" for ids
      using that [of ids "st\<lparr>kf_journal := dpop tid (kf_journal st)\<rparr>"] assms(1) p g unfolding undoable_def settled_def by auto
  qed
qed

text \<open>
  A transaction whose undo works: \<open>undo\<close> puts the targets back, \<open>mark_as\<close> rewrites the intent, and
  the record on disk loads as \<open>pend\<close>.
\<close>

locale undo_plan =
  fixes env :: journal_env and s :: setting and ok :: bool and pend :: pending and undo :: "unit fio" and mark_as :: "string \<Rightarrow> unit fio"
  assumes sound: "ok \<Longrightarrow> sound env s"
    and undo_runs: "ok \<Longrightarrow> runs (phase s ''applying'' (restored s {})) undo (\<lambda>_. phase s ''applying'' (restored s (se_targets s)))
      (phase s ''applying'' (restored s {}))"
    and undo_goes: "ok \<Longrightarrow> goes (phase s ''applying'' (restored s {})) undo (\<lambda>_. phase s ''applying'' (restored s (se_targets s)))"
    and mark_runs: "ok \<Longrightarrow> runs (phase s a K) (mark_as b) (\<lambda>_. phase s b K) (phase s a K)"
    and mark_goes: "ok \<Longrightarrow> goes (phase s a K) (mark_as b) (\<lambda>_. phase s b K)"
    and loads: "ok \<Longrightarrow> load_pending env (se_tid s) \<lparr>jd_copies = se_copies s, jd_intent = Some (se_intent s a)\<rparr> = Inr (pend, a)"
    and rolls: "roll_back_pending env pend = fbind undo (\<lambda>_. fbind (remove_empty (se_parents s)) (\<lambda>_. mark_as ''rolled_back''))"
    and aborts: "abort_pending env pend = fbind (fdone ()) (\<lambda>_. remove_tree (se_tid s))"
begin

lemma rollback_runs:
  assumes ok
  shows "runs (phase s ''applying'' (restored s {})) (roll_back_pending env pend)
    (\<lambda>_. phase s ''rolled_back'' (restored s (se_targets s))) (phase s ''applying'' (restored s {}))"
  unfolding rolls
proof (rule runs_bind [OF undo_runs [OF assms]], rule runs_bind)
  let ?T = "restored s (se_targets s)"
  have w: "phase s a ?T st \<Longrightarrow> phase s a (restored s {}) st" for a st by (erule phase_weaken) (simp add: restored_def)
  show "runs (phase s ''applying'' ?T) (remove_empty (se_parents s)) (\<lambda>_. phase s ''applying'' ?T) (phase s ''applying'' (restored s {}))"
    by (rule runs_weaken [OF runs_rmdirs [OF sound [OF assms] subset_refl subset_refl]]) (auto intro: w)
  show "runs (phase s ''applying'' ?T) (mark_as ''rolled_back'') (\<lambda>_. phase s ''rolled_back'' ?T) (phase s ''applying'' (restored s {}))"
    by (rule runs_weaken [OF mark_runs [OF assms, of "''applying''" ?T]]) (auto intro: w)
qed

lemma rollback_goes:
  assumes ok
  shows "goes (phase s ''applying'' (restored s {})) (roll_back_pending env pend) (\<lambda>_. phase s ''rolled_back'' (restored s (se_targets s)))"
  unfolding rolls
  by (intro goes_bind [OF undo_goes [OF assms]] goes_bind [OF goes_rmdirs [OF sound [OF assms] subset_refl subset_refl]] mark_goes [OF assms])

lemma own_dir:
  assumes ok and "undoable s st"
  shows "recover_dir env (se_tid s) st = (Done [], st) \<and> settled s st \<or>
    recover_dir env (se_tid s) st = fbind (abort_pending env pend) (\<lambda>_. fdone [se_tid s]) st \<and> phase s ''prepared'' (restored s (se_targets s)) st \<or>
    recover_dir env (se_tid s) st = fbind (roll_back_pending env pend) (\<lambda>_. fdone [se_tid s]) st \<and> phase s ''applying'' (restored s {}) st"
  using assms(2) loads [OF assms(1)] unfolding undoable_def restored_none
  by (auto simp: recover_dir_def fdone_def settled_def phase_def gone_def)

lemma aborted:
  "phase s ''prepared'' (restored s (se_targets s)) st \<Longrightarrow>
   \<exists>st'. fbind (abort_pending env pend) (\<lambda>_. fdone [se_tid s]) st = (Done [se_tid s], st') \<and> gone s st' \<and> kf_verdicts st' = kf_verdicts st"
  by (auto simp: aborts fbind_def fdone_def remove_tree_def gone_def phase_def)

lemma recover_dir_runs:
  assumes ok
  shows "runs (undoable s) (recover_dir env tid) (\<lambda>_. undoable s) (undoable s)"
proof (cases "tid = se_tid s")
  case False
  have "\<exists>ids st'. recover_dir env tid st = (Done ids, st') \<and> undoable s st'" if "undoable s st" for st
    using other_dir [OF that False, of env] by metis
  then show ?thesis unfolding runs_def by fastforce
next
  case True
  have "runs (phase s ''applying'' (restored s {})) (fbind (roll_back_pending env pend) (\<lambda>_. fdone [se_tid s])) (\<lambda>_. undoable s) (undoable s)"
    by (rule runs_weaken [OF runs_then [OF rollback_runs [OF assms]]]) (auto simp: undoable_def restored_none)
  note r = runsD [OF this]
  have "runs (undoable s) (recover_dir env (se_tid s)) (\<lambda>_. undoable s) (undoable s)"
  proof (rule runsI)
    fix st st' x e assume u: "undoable s st"
    show "recover_dir env (se_tid s) st = (Done x, st') \<Longrightarrow> undoable s st'"
      using own_dir [OF assms u] aborted [of st] r(1) [of st x st'] u by (auto simp: undoable_def)
    show "recover_dir env (se_tid s) st = (Raises e, st') \<Longrightarrow> undoable s st'"
      using own_dir [OF assms u] aborted [of st] r(2) [of st e st'] by auto
    show "recover_dir env (se_tid s) st = (Crashed, st') \<Longrightarrow> undoable s st'"
      using own_dir [OF assms u] aborted [of st] r(3) [of st st'] by auto
  qed
  with True show ?thesis by simp
qed

lemma recover_runs:
  assumes ok
  shows "runs (undoable s) (recover_dirs env ks) (\<lambda>_. undoable s) (undoable s)"
proof (induction ks)
  case Nil
  show ?case by (simp add: runs_def fdone_def)
next
  case (Cons k ks)
  show ?case unfolding recover_dirs.simps
    by (intro runs_bind [OF recover_dir_runs [OF assms]] runs_bind [OF Cons.IH] runs_done)
qed

lemma restarts_undoable: "ok \<Longrightarrow> undoable s st \<Longrightarrow> undoable s (fold (restart env) vs st)"
proof (induction vs arbitrary: st)
  case (Cons v vs)
  have "undoable s (restart env v st)"
    unfolding restart_def recover_incomplete_def by (rule runs_end [OF recover_runs [OF Cons.prems(1)]]) (simp add: Cons.prems(2))
  with Cons show ?case by simp
qed simp

lemma recover_dir_goes:
  assumes ok
  shows "goes (undoable s) (recover_dir env k) (\<lambda>_ st. undoable s st \<and> (k = se_tid s \<longrightarrow> settled s st))"
    and "goes (settled s) (recover_dir env k) (\<lambda>_. settled s)"
proof -
  have o: "\<exists>ids st'. recover_dir env k st = (Done ids, st') \<and> undoable s st' \<and> (k = se_tid s \<or> settled s st \<longrightarrow> settled s st') \<and> kf_verdicts st' = []"
    if u: "undoable s st" and v: "kf_verdicts st = []" for st
  proof (cases "k = se_tid s")
    case False
    with other_dir [OF u False, of env] v show ?thesis by metis
  next
    case True
    have "\<exists>ids st'. recover_dir env (se_tid s) st = (Done ids, st') \<and> settled s st' \<and> kf_verdicts st' = []"
      using own_dir [OF assms u]
    proof (elim disjE conjE)
      show ?thesis if "recover_dir env (se_tid s) st = (Done [], st)" "settled s st" using that v by blast
      show ?thesis if "recover_dir env (se_tid s) st = fbind (abort_pending env pend) (\<lambda>_. fdone [se_tid s]) st"
        "phase s ''prepared'' (restored s (se_targets s)) st" using aborted [OF that(2)] that(1) v by (auto simp: settled_def)
      show ?thesis if "recover_dir env (se_tid s) st = fbind (roll_back_pending env pend) (\<lambda>_. fdone [se_tid s]) st"
        "phase s ''applying'' (restored s {}) st"
      proof -
        from goes_then [OF rollback_goes [OF assms], of "[se_tid s]"] that(2) v obtain x st' where
          "fbind (roll_back_pending env pend) (\<lambda>_. fdone [se_tid s]) st = (Done x, st')"
          "phase s ''rolled_back'' (restored s (se_targets s)) st'" "kf_verdicts st' = []" unfolding goes_def by blast
        with that(1) show ?thesis by (auto simp: settled_def)
      qed
    qed
    with True settled_undoable show ?thesis by metis
  qed
  then show "goes (undoable s) (recover_dir env k) (\<lambda>_ st. undoable s st \<and> (k = se_tid s \<longrightarrow> settled s st))"
    unfolding goes_def by blast
  from o settled_undoable show "goes (settled s) (recover_dir env k) (\<lambda>_. settled s)" unfolding goes_def by blast
qed

lemma recover_goes:
  assumes ok
  shows "goes (undoable s) (recover_dirs env ks) (\<lambda>_ st. undoable s st \<and> (se_tid s \<in> set ks \<longrightarrow> settled s st)) \<and>
    goes (settled s) (recover_dirs env ks) (\<lambda>_. settled s)"
proof (induction ks)
  case Nil
  show ?case by (simp add: goes_def fdone_def)
next
  case (Cons k ks)
  let ?Q = "\<lambda>ks _ st. undoable s st \<and> (se_tid s \<in> set ks \<longrightarrow> settled s st)"
  note d = recover_dir_goes [OF assms, of k]
  have "goes (undoable s) (fbind (recover_dir env k) (\<lambda>a. fbind (recover_dirs env ks) (\<lambda>b. fdone (a @ b)))) (?Q (k # ks))"
  proof (rule goes_bind [OF d(1)], rule goes_bind)
    show "goes (\<lambda>st. undoable s st \<and> (k = se_tid s \<longrightarrow> settled s st)) (recover_dirs env ks) (?Q (k # ks))"
    proof (cases "k = se_tid s")
      case True
      show ?thesis by (rule goes_weaken [OF Cons.IH [THEN conjunct2]]) (auto simp: True intro: settled_undoable)
    next
      case False
      show ?thesis by (rule goes_weaken [OF Cons.IH [THEN conjunct1]]) (auto simp: False)
    qed
  qed (rule goes_done)
  moreover have "goes (settled s) (fbind (recover_dir env k) (\<lambda>a. fbind (recover_dirs env ks) (\<lambda>b. fdone (a @ b)))) (\<lambda>_. settled s)"
    by (intro goes_bind [OF d(2)] goes_bind [OF Cons.IH [THEN conjunct2]] goes_done)
  ultimately show ?case by simp
qed

text \<open>However often the kernel was cut off while recovering, one whole recovery settles the transaction.\<close>

lemma recovers:
  assumes ok and "undoable s st"
  shows "\<exists>ids st'. recover_incomplete env ((fold (restart env) vs st)\<lparr>kf_verdicts := []\<rparr>) = (Done ids, st') \<and> settled s st'"
proof -
  let ?st = "(fold (restart env) vs st)\<lparr>kf_verdicts := []\<rparr>"
  have u: "undoable s ?st" using restarts_undoable [OF assms] by simp
  have "se_tid s \<in> set (dkeys (kf_journal ?st)) \<or> settled s ?st"
    using u unfolding undoable_def settled_def gone_def phase_def by (metis map_of_eq_None_iff option.distinct(1) set_map)
  then show ?thesis
  proof
    assume "se_tid s \<in> set (dkeys (kf_journal ?st))"
    with u recover_goes [OF assms(1), of "sort (dkeys (kf_journal ?st))", THEN conjunct1] show ?thesis
      unfolding goes_def recover_incomplete_def by fastforce
  next
    assume "settled s ?st"
    with recover_goes [OF assms(1), of "sort (dkeys (kf_journal ?st))", THEN conjunct2] show ?thesis
      unfolding goes_def recover_incomplete_def by fastforce
  qed
qed

end



text \<open>A change under a plan: it returns, or it can be undone.\<close>

locale undoable_change = undo_plan +
  fixes change :: "pyval fio" and after :: "filesystem \<Rightarrow> bool"
  assumes change_runs: "ok \<Longrightarrow> runs (phase s ''prepared'' (restored s (se_targets s))) change (\<lambda>_. phase s ''committed'' after) (undoable s)"
begin

lemma outcome:
  assumes ok and "phase s ''prepared'' (restored s (se_targets s)) st" and "change st = (out, st')"
  shows "(\<exists>v. out = Done v \<and> phase s ''committed'' after st') \<or> (\<forall>v. out \<noteq> Done v) \<and> undoable s st'"
  using runsD [OF change_runs [OF assms(1)] assms(2)] assms(3) by (cases out) auto

lemma interrupted:
  assumes ok and "phase s ''prepared'' (restored s (se_targets s)) st" and "change st = (out, st')" and "\<forall>v. out \<noteq> Done v"
  shows "\<exists>ids st''. recover_incomplete env ((fold (restart env) vs st')\<lparr>kf_verdicts := []\<rparr>) = (Done ids, st'') \<and>
    restored s (se_targets s) (kf_files st'')"
  using recovers [OF assms(1), of st' vs] outcome [OF assms(1-3)] assms(4) settled_restored by metis

end


section \<open>Mutations\<close>

definition mutation_setting :: "journal_env \<Rightarrow> mutation \<Rightarrow> filesystem \<Rightarrow> setting" where
  "mutation_setting env m fs =
     (let copies = (case dget fs (mu_target m) of Some (RegularFile b) \<Rightarrow> [(''before.bin'', b)] | _ \<Rightarrow> []) in
      \<lparr>se_tid = mu_tid m, se_targets = {mu_target m}, se_parents = mu_parents m, se_before = fs, se_copies = copies,
       se_intent = mutation_intent m (map_option (je_sha env) (dget copies ''before.bin''))\<rparr>)"

definition mutation_ok :: "journal_env \<Rightarrow> mutation \<Rightarrow> filesystem \<Rightarrow> bool" where
  "mutation_ok env m fs \<longleftrightarrow> sound env (mutation_setting env m fs) \<and>
     mu_existed m = (dget fs (mu_target m) \<noteq> None) \<and> mu_backup m = (if mu_existed m then Some ''before.bin'' else None)"

definition undo_mutation :: "journal_env \<Rightarrow> mutation \<Rightarrow> unit fio" where
  "undo_mutation env m =
     (if mu_existed m
      then (\<lambda>st. if has_copy (mu_tid m) (mu_backup m) st then restore_copy env (mu_tid m) (the (mu_backup m)) (mu_target m) st
                else fraise ''FileJournalError'' ''inverse backup is missing'' st)
      else unlink_if_there (mu_target m))"

lemma roll_back_split:
  "roll_back env m = fbind (undo_mutation env m) (\<lambda>_. fbind (remove_empty (mu_parents m)) (\<lambda>_. mark env m ''rolled_back''))"
  by (simp add: roll_back_def undo_mutation_def)

lemma setting_fields [simp]:
  "se_tid (mutation_setting env m fs) = mu_tid m" "se_targets (mutation_setting env m fs) = {mu_target m}"
  "se_parents (mutation_setting env m fs) = mu_parents m" "se_before (mutation_setting env m fs) = fs"
  by (simp_all add: mutation_setting_def Let_def)

lemma ok_file:
  assumes "mutation_ok env m fs" and "mu_existed m"
  obtains b where "dget fs (mu_target m) = Some (RegularFile b)"
    and "dget (se_copies (mutation_setting env m fs)) ''before.bin'' = Some b" and "mu_backup m = Some ''before.bin''"
  using assms by (auto simp: mutation_ok_def sound_def mutation_setting_def Let_def split: option.splits fs_node.splits)

lemma runs_intent: "runs (phase s a K) (write_intent (se_tid s) (se_intent s b)) (\<lambda>_. phase s b K) (phase s a K)"
  unfolding write_intent_def on_dir_def by (rule runs_syscall) (auto simp: phase_def)

lemma goes_intent: "goes (phase s a K) (write_intent (se_tid s) (se_intent s b)) (\<lambda>_. phase s b K)"
  unfolding write_intent_def on_dir_def by (rule goes_syscall) (auto simp: phase_def)

lemma digest_of:
  assumes "mutation_ok env m fs" and "phase (mutation_setting env m fs) a K st"
  shows "copy_digest env (mu_tid m) (mu_backup m) st =
    (Done (map_option (je_sha env) (dget (se_copies (mutation_setting env m fs)) ''before.bin'')), st)"
proof (cases "mu_existed m")
  case True
  from ok_file [OF assms(1) True] obtain b where "dget (se_copies (mutation_setting env m fs)) ''before.bin'' = Some b"
    "mu_backup m = Some ''before.bin''" by blast
  with assms(2) show ?thesis by (simp add: copy_digest_def fbind_def copy_of_def phase_def fdone_def)
next
  case False
  with assms show ?thesis
    by (simp add: mutation_ok_def mutation_setting_def copy_digest_def fdone_def Let_def)
qed

lemma mark_is:
  assumes "mutation_ok env m fs" and "phase (mutation_setting env m fs) a K st"
  shows "mark env m b st = write_intent (mu_tid m) (se_intent (mutation_setting env m fs) b) st"
  by (simp add: mark_def fbind_def digest_of [OF assms]) (simp add: mutation_setting_def Let_def)

lemma mutation_mark_runs:
  "mutation_ok env m fs \<Longrightarrow> runs (phase (mutation_setting env m fs) a K) (mark env m b)
     (\<lambda>_. phase (mutation_setting env m fs) b K) (phase (mutation_setting env m fs) a K)"
  using runs_intent [of "mutation_setting env m fs" a K b] by (simp add: runs_def mark_is [of env m fs a K])

lemma mutation_mark_goes:
  "mutation_ok env m fs \<Longrightarrow> goes (phase (mutation_setting env m fs) a K) (mark env m b) (\<lambda>_. phase (mutation_setting env m fs) b K)"
  using goes_intent [of "mutation_setting env m fs" a K b] by (simp add: goes_def mark_is [of env m fs a K])

lemma undo_existing:
  assumes "mutation_ok env m fs" and "mu_existed m" and "phase (mutation_setting env m fs) a K st"
  shows "undo_mutation env m st = restore_copy env (mu_tid m) ''before.bin'' (mu_target m) st"
proof -
  from ok_file [OF assms(1,2)] obtain b where "dget (se_copies (mutation_setting env m fs)) ''before.bin'' = Some b"
    "mu_backup m = Some ''before.bin''" by blast
  with assms(2,3) show ?thesis by (simp add: undo_mutation_def has_copy_def phase_def)
qed

lemma absent_target:
  assumes "mutation_ok env m fs" and "\<not> mu_existed m" and "restored (mutation_setting env m fs) {} gs"
  shows "restored (mutation_setting env m fs) {mu_target m} (dpop (mu_target m) gs)"
    and "dget gs (mu_target m) = None \<Longrightarrow> restored (mutation_setting env m fs) {mu_target m} gs"
    and "\<not> blocked gs (mu_target m) \<and> dget gs (mu_target m) \<noteq> Some Directory"
proof -
  have n: "dget fs (mu_target m) = None" using assms(1,2) by (simp add: mutation_ok_def)
  have "restored (mutation_setting env m fs) {} (dpop (mu_target m) gs)" using assms(3) by (intro target_pop) simp_all
  with n show "restored (mutation_setting env m fs) {mu_target m} (dpop (mu_target m) gs)" by (simp add: restored_def)
  show "dget gs (mu_target m) = None \<Longrightarrow> restored (mutation_setting env m fs) {mu_target m} gs"
    using n assms(3) by (simp add: restored_def)
  have l: "littered (mutation_setting env m fs) gs" using assms(3) by (simp add: restored_def)
  have "sound env (mutation_setting env m fs)" using assms(1) by (simp add: mutation_ok_def)
  from littered_dir(2) [OF this l] l show "\<not> blocked gs (mu_target m) \<and> dget gs (mu_target m) \<noteq> Some Directory"
    by (auto simp: blocked_def list_ex_iff littered_def)
qed

lemma mutation_undo_runs:
  assumes "mutation_ok env m fs"
  defines "s \<equiv> mutation_setting env m fs"
  shows "runs (phase s ''applying'' (restored s {})) (undo_mutation env m) (\<lambda>_. phase s ''applying'' (restored s (se_targets s)))
    (phase s ''applying'' (restored s {}))"
proof (cases "mu_existed m")
  case True
  from ok_file [OF assms(1) True] obtain b where b: "dget fs (mu_target m) = Some (RegularFile b)"
    "dget (se_copies s) ''before.bin'' = Some b" unfolding s_def by blast
  have "runs (phase s ''applying'' (restored s {})) (restore_copy env (se_tid s) ''before.bin'' (mu_target m))
      (\<lambda>_. phase s ''applying'' (restored s {mu_target m})) (phase s ''applying'' (restored s {}))"
    using assms(1) b by (intro runs_restore) (simp_all add: s_def mutation_ok_def)
  then show ?thesis using undo_existing [OF assms(1) True, of "''applying''" "restored s {}"] by (simp add: runs_def s_def)
next
  case False
  then have "undo_mutation env m = unlink_if_there (mu_target m)" by (simp add: undo_mutation_def)
  then show ?thesis using absent_target [OF assms(1) False] by (simp add: s_def runs_unlink)
qed

lemma mutation_undo_goes:
  assumes "mutation_ok env m fs"
  defines "s \<equiv> mutation_setting env m fs"
  shows "goes (phase s ''applying'' (restored s {})) (undo_mutation env m) (\<lambda>_. phase s ''applying'' (restored s (se_targets s)))"
proof (cases "mu_existed m")
  case True
  from ok_file [OF assms(1) True] obtain b where b: "dget fs (mu_target m) = Some (RegularFile b)"
    "dget (se_copies s) ''before.bin'' = Some b" unfolding s_def by blast
  have "goes (phase s ''applying'' (restored s {})) (restore_copy env (se_tid s) ''before.bin'' (mu_target m))
      (\<lambda>_. phase s ''applying'' (restored s {mu_target m}))"
    using assms(1) b by (intro goes_restore) (simp_all add: s_def mutation_ok_def)
  then show ?thesis using undo_existing [OF assms(1) True, of "''applying''" "restored s {}"] by (simp add: goes_def s_def)
next
  case False
  then have "undo_mutation env m = unlink_if_there (mu_target m)" by (simp add: undo_mutation_def)
  then show ?thesis using absent_target [OF assms(1) False] by (simp add: s_def goes_unlink)
qed

lemma mutation_loads:
  assumes "mutation_ok env m fs"
  defines "s \<equiv> mutation_setting env m fs"
  shows "load_pending env (se_tid s) \<lparr>jd_copies = se_copies s, jd_intent = Some (se_intent s a)\<rparr> =
    Inr (PendingMutation (m\<lparr>mu_applied := False\<rparr>), a)"
proof (cases "mu_existed m")
  case True
  from ok_file [OF assms(1) True] obtain b where b: "dget (se_copies s) ''before.bin'' = Some b" "mu_backup m = Some ''before.bin''"
    unfolding s_def by blast
  then show ?thesis by (simp add: s_def load_pending_def load_mutation_def optional_digest_def same_digest_def
        mutation_setting_def mutation_intent_def Let_def)
next
  case False
  with assms(1) show ?thesis by (simp add: s_def mutation_ok_def load_pending_def load_mutation_def optional_digest_def
        mutation_setting_def mutation_intent_def Let_def)
qed

interpretation mutation_plan:
  undo_plan env "mutation_setting env m fs" "mutation_ok env m fs" "PendingMutation (m\<lparr>mu_applied := False\<rparr>)" "undo_mutation env m" "mark env m"
  for env m fs
proof
  show "mutation_ok env m fs \<Longrightarrow> sound env (mutation_setting env m fs)" by (simp add: mutation_ok_def)
  show "roll_back_pending env (PendingMutation (m\<lparr>mu_applied := False\<rparr>)) = fbind (undo_mutation env m) (\<lambda>_.
      fbind (remove_empty (se_parents (mutation_setting env m fs))) (\<lambda>_. mark env m ''rolled_back''))"
    by (simp add: roll_back_def undo_mutation_def mark_def mutation_intent_def cong: if_cong)
  show "abort_pending env (PendingMutation (m\<lparr>mu_applied := False\<rparr>)) = fbind (fdone ()) (\<lambda>_. remove_tree (se_tid (mutation_setting env m fs)))"
    by (simp add: abort_mutation_def)
qed (fact mutation_undo_runs mutation_undo_goes mutation_mark_runs mutation_mark_goes mutation_loads)+


text \<open>The two changes of a prepared mutation.\<close>

lemma runs_disj: "runs P m Q E \<Longrightarrow> runs P' m Q E \<Longrightarrow> runs (\<lambda>st. P st \<or> P' st) m Q E"
  by (auto simp: runs_def)

lemma phase_none: "phase s a (restored s D) st \<Longrightarrow> phase s a (restored s {}) st"
  by (erule phase_weaken) (simp add: restored_def)

lemma undoable_intros:
  "phase s ''prepared'' (restored s (se_targets s)) st \<Longrightarrow> undoable s st"
  "phase s ''applying'' (restored s {}) st \<Longrightarrow> undoable s st"
  "phase s ''rolled_back'' (restored s (se_targets s)) st \<Longrightarrow> undoable s st"
  by (simp_all add: undoable_def restored_none)

lemma mutation_rollback:
  assumes "mutation_ok env m fs"
  defines "s \<equiv> mutation_setting env m fs"
  shows "runs (phase s ''applying'' (restored s {})) (roll_back env m) (\<lambda>_. phase s ''rolled_back'' (restored s (se_targets s)))
    (phase s ''applying'' (restored s {}))"
proof -
  have "roll_back_pending env (PendingMutation (m\<lparr>mu_applied := False\<rparr>)) = roll_back env m"
    unfolding mutation_plan.rolls [of env m fs] roll_back_split by simp
  with mutation_plan.rollback_runs [OF assms(1)] show ?thesis by (simp add: s_def)
qed

text \<open>After a failure: the targets are put back, then the temporary file goes, then the exception is raised again.\<close>

lemma runs_reraise: "runs P m (\<lambda>_. Q) E \<Longrightarrow> (\<And>st. Q st \<Longrightarrow> E st) \<Longrightarrow> runs P (fbind m (\<lambda>_. fraise ty msg)) R E"
  by (erule runs_bind) (simp add: runs_def fraise_def)

lemma write_handler:
  assumes ok: "mutation_ok env m fs" and t: "spare (mutation_setting env m fs) (mu_target m) t"
  defines "s \<equiv> mutation_setting env m fs"
  shows "runs (phase s ''applying'' (restored s {})) (fbind (ffinally (roll_back env m) (unlink_if_there t)) (\<lambda>_. fraise ty msg)) R (undoable s)"
proof -
  let ?A = "phase s ''applying'' (restored s {})" and ?R = "phase s ''rolled_back'' (restored s (se_targets s))"
  let ?E = "\<lambda>st. ?A st \<or> ?R st"
  have u: "runs (phase s a (restored s D)) (unlink_if_there t) (\<lambda>_. phase s a (restored s D)) (phase s a (restored s D))"
    if "D \<subseteq> se_targets s" for a D
    using that t unfolding s_def by (intro runs_unlink) (blast intro: spare_pop)+
  have "runs ?A (ffinally (roll_back env m) (unlink_if_there t)) (\<lambda>_. ?R) ?E"
  proof (rule runs_finally)
    show "runs ?A (roll_back env m) (\<lambda>_. ?R) ?E"
      using mutation_rollback [OF ok] by (rule runs_weaken) (simp_all add: s_def)
    show "runs ?R (unlink_if_there t) (\<lambda>_. ?R) ?E" for x :: unit
      using u [OF subset_refl, of "''rolled_back''"] by (rule runs_weaken) simp_all
    show "runs ?E (unlink_if_there t) (\<lambda>_. ?E) ?E"
      by (rule runs_disj) (rule runs_weaken [OF u [of "{}" "''applying''"]] runs_weaken [OF u [OF subset_refl, of "''rolled_back''"]]; simp)+
  qed
  then have "runs ?A (fbind (ffinally (roll_back env m) (unlink_if_there t)) (\<lambda>_. fraise ty msg)) R ?E"
    by (rule runs_reraise) simp
  then show ?thesis by (rule runs_weaken) (auto intro: undoable_intros)
qed

definition written :: "setting \<Rightarrow> path \<Rightarrow> fs_node option \<Rightarrow> filesystem \<Rightarrow> bool" where
  "written s p nd fs \<longleftrightarrow> restored s {} fs \<and> dget fs p = nd"

lemma write_body:
  assumes ok: "mutation_ok env m fs" and t: "spare (mutation_setting env m fs) (mu_target m) t"
  defines "s \<equiv> mutation_setting env m fs"
  shows "runs (phase s ''applying'' (restored s {}))
    (fbind (fill t b) (\<lambda>_. fbind (on_files (os_replace t (mu_target m))) (\<lambda>_. fbind (mark env m ''committed'') (\<lambda>_. fdone v))))
    (\<lambda>_. phase s ''committed'' (written s (mu_target m) (Some (RegularFile b)))) (phase s ''applying'' (restored s {}))"
proof (rule runs_bind, rule_tac [2] runs_bind, rule_tac [3] runs_then)
  let ?A = "phase s ''applying'' (restored s {})" and ?W = "written s (mu_target m) (Some (RegularFile b))"
  let ?F = "\<lambda>fs. restored s {} fs \<and> dget fs t = Some (RegularFile b)"
  show "runs ?A (fill t b) (\<lambda>_. phase s ''applying'' ?F) ?A"
    unfolding fill_def using t by (intro runs_files) (auto simp: s_def intro: spare_put)
  have r: "restored s {} (dset (mu_target m) (RegularFile b) (dpop t gs))" if "restored s {} gs" for gs
    using that t unfolding s_def by (intro target_put spare_pop) auto
  have "runs (phase s ''applying'' ?F) (on_files (os_replace t (mu_target m))) (\<lambda>_. phase s ''applying'' ?W) (phase s ''applying'' ?F)"
    by (rule runs_files) (auto simp: os_replace_def written_def r split: if_splits)
  then show "runs (phase s ''applying'' ?F) (on_files (os_replace t (mu_target m))) (\<lambda>_. phase s ''applying'' ?W) ?A" for x :: unit
    by (rule runs_weaken) (auto intro: phase_forget)
  have "runs (phase s ''applying'' ?W) (mark env m ''committed'') (\<lambda>_. phase s ''committed'' ?W) (phase s ''applying'' ?W)"
    unfolding s_def by (rule mutation_mark_runs [OF ok])
  then show "runs (phase s ''applying'' ?W) (mark env m ''committed'') (\<lambda>_. phase s ''committed'' ?W) ?A" for x y :: unit
    by (rule runs_weaken) (auto simp: written_def elim: phase_weaken)
qed

lemma write_runs:
  assumes ok: "mutation_ok env m fs"
  defines "s \<equiv> mutation_setting env m fs"
  shows "runs (phase s ''prepared'' (restored s (se_targets s))) (write_mutation env m b)
    (\<lambda>_. phase s ''committed'' (written s (mu_target m) (Some (RegularFile b)))) (undoable s)"
  unfolding write_mutation_def
proof (rule runs_bind)
  have so: "sound env s" "mu_target m \<in> se_targets s" using ok by (simp_all add: mutation_ok_def s_def)
  let ?A = "phase s ''applying'' (restored s {})"
  show "runs (phase s ''prepared'' (restored s (se_targets s))) (mark env m ''applying'') (\<lambda>_. ?A) (undoable s)"
    using mutation_mark_runs [OF ok, of "''prepared''" "restored s (se_targets s)" "''applying''", folded s_def]
    by (rule runs_weaken) (blast intro: undoable_intros phase_none)+
  show "runs ?A (fbind (make_parents (ancestors (mu_target m))) (\<lambda>_. fbind (make_temp env (mu_target m)) (\<lambda>t.
      fcatch (fbind (fill t b) (\<lambda>_. fbind (on_files (os_replace t (mu_target m))) (\<lambda>_. fbind (mark env m ''committed'') (\<lambda>_. fdone (write_result env m b)))))
        (\<lambda>e. fbind (ffinally (roll_back env m) (unlink_if_there t)) (\<lambda>_. fraise (exn_type e) (exn_message e))))))
      (\<lambda>_. phase s ''committed'' (written s (mu_target m) (Some (RegularFile b)))) (undoable s)" for x :: unit
  proof (rule runs_bind, rule_tac [2] runs_bind, rule_tac [3] runs_pure, rule_tac [3] runs_catch)
    show "runs ?A (make_parents (ancestors (mu_target m))) (\<lambda>_. phase s ''applying'' (ready s {} (mu_target m))) (undoable s)"
      using runs_parents [OF so(1) empty_subsetI so(2) subset_refl, of "''applying''" "{}"]
      by (rule runs_weaken) (auto simp: dirs_def elim: phase_weaken intro: undoable_intros)
    show "runs (phase s ''applying'' (ready s {} (mu_target m))) (make_temp env (mu_target m)) (\<lambda>t st. spare s (mu_target m) t \<and> ?A st) (undoable s)" for y :: unit
      using runs_temp [OF so(1) empty_subsetI so(2)] by (rule runs_weaken) (auto intro: undoable_intros phase_forget)
    fix y :: unit and t assume t: "spare s (mu_target m) t"
    show "runs ?A (fbind (fill t b) (\<lambda>_. fbind (on_files (os_replace t (mu_target m))) (\<lambda>_. fbind (mark env m ''committed'') (\<lambda>_. fdone (write_result env m b)))))
        (\<lambda>_. phase s ''committed'' (written s (mu_target m) (Some (RegularFile b)))) ?A"
      unfolding s_def by (rule write_body [OF ok t [unfolded s_def]])
    show "runs ?A (fbind (ffinally (roll_back env m) (unlink_if_there t)) (\<lambda>_. fraise (exn_type e) (exn_message e)))
        (\<lambda>_. phase s ''committed'' (written s (mu_target m) (Some (RegularFile b)))) (undoable s)" for e
      unfolding s_def by (rule write_handler [OF ok t [unfolded s_def]])
  qed (rule undoable_intros)
qed


lemma delete_runs:
  assumes ok: "mutation_ok env m fs"
  defines "s \<equiv> mutation_setting env m fs"
  shows "runs (phase s ''prepared'' (restored s (se_targets s))) (delete_mutation env m)
    (\<lambda>_. phase s ''committed'' (written s (mu_target m) None)) (undoable s)"
  unfolding delete_mutation_def
proof (rule runs_bind, rule_tac [2] runs_catch, rule_tac [2] runs_bind, rule_tac [3] runs_then)
  let ?A = "phase s ''applying'' (restored s {})" and ?W = "written s (mu_target m) None"
  show "runs (phase s ''prepared'' (restored s (se_targets s))) (mark env m ''applying'') (\<lambda>_. ?A) (undoable s)"
    using mutation_mark_runs [OF ok, of "''prepared''" "restored s (se_targets s)" "''applying''", folded s_def]
    by (rule runs_weaken) (blast intro: undoable_intros phase_none)+
  have pop: "restored s {} (dpop (mu_target m) gs)" if "restored s {} gs" for gs
    using that unfolding s_def by (intro target_pop) auto
  have "runs ?A (on_files (os_unlink (mu_target m))) (\<lambda>_. phase s ''applying'' ?W) ?A"
    by (rule runs_files) (auto simp: os_unlink_def written_def pop split: if_splits option.splits fs_node.splits)
  note d = runsD [OF this]
  show "runs ?A (delete_target (mu_target m)) (\<lambda>_. phase s ''applying'' ?W) ?A" for x :: unit
  proof (rule runsI)
    fix st st' assume a: "?A st"
    note e = delete_target_def fdone_def fraise_def
    show "phase s ''applying'' ?W st'" if "delete_target (mu_target m) st = (Done v, st')" for v
      using that a d(1) [OF a] by (cases "dget (kf_files st) (mu_target m)") (auto simp: e phase_def written_def split: if_splits)
    show "?A st'" if "delete_target (mu_target m) st = (Raises y, st')" for y
      using that a d(2) [OF a] by (auto simp: e split: option.splits if_splits)
    show "?A st'" if "delete_target (mu_target m) st = (Crashed, st')"
      using that a d(3) [OF a] by (auto simp: e split: option.splits if_splits)
  qed
  have "runs (phase s ''applying'' ?W) (mark env m ''committed'') (\<lambda>_. phase s ''committed'' ?W) (phase s ''applying'' ?W)"
    unfolding s_def by (rule mutation_mark_runs [OF ok])
  then show "runs (phase s ''applying'' ?W) (mark env m ''committed'') (\<lambda>_. phase s ''committed'' ?W) ?A" for x y :: unit
    by (rule runs_weaken) (auto simp: written_def elim: phase_weaken)
  have "runs ?A (fbind (roll_back env m) (\<lambda>_. fraise ty msg)) (\<lambda>_. phase s ''committed'' ?W) (\<lambda>st. ?A st \<or> phase s ''rolled_back'' (restored s (se_targets s)) st)" for ty msg
    by (rule runs_reraise [of _ _ "phase s ''rolled_back'' (restored s (se_targets s))"])
      (use mutation_rollback [OF ok, folded s_def] in \<open>auto elim: runs_weaken\<close>)
  then show "runs ?A (fbind (roll_back env m) (\<lambda>_. fraise (exn_type e) (exn_message e))) (\<lambda>_. phase s ''committed'' ?W) (undoable s)" for x :: unit and e
    by (rule runs_weaken) (auto intro: undoable_intros)
  show "?A st \<Longrightarrow> undoable s st" for x :: unit and st by (rule undoable_intros)
qed

interpretation write_change:
  undoable_change env "mutation_setting env m fs" "mutation_ok env m fs" "PendingMutation (m\<lparr>mu_applied := False\<rparr>)" "undo_mutation env m" "mark env m"
    "write_mutation env m b" "written (mutation_setting env m fs) (mu_target m) (Some (RegularFile b))"
  for env m fs b
  by unfold_locales (rule write_runs)

interpretation delete_change:
  undoable_change env "mutation_setting env m fs" "mutation_ok env m fs" "PendingMutation (m\<lparr>mu_applied := False\<rparr>)" "undo_mutation env m" "mark env m"
    "delete_mutation env m" "written (mutation_setting env m fs) (mu_target m) None"
  for env m fs
  by unfold_locales (rule delete_runs)



text \<open>What \<open>prepare\<close> leaves is a plan that works.\<close>

lemma missing_parents_filter:
  assumes "rooted fs"
  shows "missing_parents fs p = filter (\<lambda>q. dget fs q = None) (rev (ancestors p))"
  unfolding missing_parents_def
proof (rule takeWhile_eq_filter)
  fix x
  let ?P = "\<lambda>n. dget fs (take n p) = None"
  let ?ns = "rev [1..<length p]"
  assume "x \<in> set (dropWhile (\<lambda>q. dget fs q = None) (rev (ancestors p)))"
  then have "x \<in> (\<lambda>n. take n p) ` set (dropWhile ?P ?ns)"
    by (simp add: ancestors_def rev_map dropWhile_map comp_def)
  then obtain n where n: "x = take n p" "n \<in> set (dropWhile ?P ?ns)" by blast
  from n(2) have "dropWhile ?P ?ns \<noteq> []" by (metis empty_iff list.set(1))
  then obtain h ns where h: "dropWhile ?P ?ns = h # ns" by (meson neq_Nil_conv)
  have "\<not> ?P h" using hd_dropWhile [of ?P ?ns, unfolded h] by (metis list.distinct(1) list.sel(1))
  have "sorted_wrt (>) (takeWhile ?P ?ns @ h # ns)" unfolding h [symmetric] takeWhile_dropWhile_id
    by (simp add: sorted_wrt_rev strict_sorted_iff)
  then have "n \<le> h" using n(2) h by (auto simp: sorted_wrt_append)
  have "set (dropWhile ?P ?ns) \<subseteq> set ?ns" by (rule set_mono_suffix) (rule suffix_dropWhile)
  then have hn: "0 < n" "h < length p" using n(2) h by auto
  show "\<not> dget fs x = None"
  proof (cases "n = h")
    case False
    then have "take n p \<in> set (ancestors (take h p))" using \<open>n \<le> h\<close> hn by (auto simp: ancestors_def intro!: image_eqI [of _ _ n])
    with assms \<open>\<not> ?P h\<close> show ?thesis unfolding n(1) rooted_get by (metis option.distinct(1))
  qed (use \<open>\<not> ?P h\<close> n in simp)
qed

text \<open>The journal's records are whole and none is in progress.\<close>

definition journal_quiet :: "kernel_files \<Rightarrow> bool" where
  "journal_quiet st \<longleftrightarrow> (\<forall>tid d. dget (kf_journal st) tid = Some d \<longrightarrow> finished d)"

lemma fbind_Done: "fbind m f st = (Done a, st') \<longleftrightarrow> (\<exists>x st1. m st = (Done x, st1) \<and> f x st1 = (Done a, st'))"
  by (auto simp: fbind_def split: prod.splits ran.splits)

lemma syscall_Done: "syscall act st = (Done u, st') \<Longrightarrow> act (st\<lparr>kf_verdicts := tl (kf_verdicts st)\<rparr>) = Inr st'"
  by (auto simp: syscall_def Let_def split: list.splits io_verdict.splits sum.splits)

lemma make_dir_Done: "make_dir tid st = (Done u, st') \<Longrightarrow>
    kf_files st' = kf_files st \<and> kf_journal st' = dset tid \<lparr>jd_copies = [], jd_intent = None\<rparr> (kf_journal st)"
  unfolding make_dir_def by (drule syscall_Done) (auto split: if_splits)

lemma keep_copy_Done: "keep_copy tid f p st = (Done u, st') \<Longrightarrow> dget (kf_journal st) tid = Some d \<Longrightarrow>
    \<exists>b. dget (kf_files st) p = Some (RegularFile b) \<and> kf_files st' = kf_files st \<and>
      kf_journal st' = dset tid (d\<lparr>jd_copies := dset f b (jd_copies d)\<rparr>) (kf_journal st)"
  unfolding keep_copy_def by (drule syscall_Done) (auto simp: rbind_Inr read_bytes_def split: option.splits fs_node.splits)

lemma write_intent_Done: "write_intent tid i st = (Done u, st') \<Longrightarrow> dget (kf_journal st) tid = Some d \<Longrightarrow>
    kf_files st' = kf_files st \<and> kf_journal st' = dset tid (d\<lparr>jd_intent := Some i\<rparr>) (kf_journal st)"
  unfolding write_intent_def on_dir_def by (drule syscall_Done) auto

lemma prepared_facts:
  assumes "prepare_mutation env p st0 = (Done m, st1)"
  shows "mu_target m = p" and "mu_existed m = (dget (kf_files st0) p \<noteq> None)"
    and "mu_backup m = (if mu_existed m then Some ''before.bin'' else None)" and "mu_parents m = missing_parents (kf_files st0) p"
    and "kf_files st1 = kf_files st0" and "\<exists>b. dget (kf_files st0) p = Some (RegularFile b) \<or> dget (kf_files st0) p = None"
    and "dget (kf_journal st1) (mu_tid m) = Some \<lparr>jd_copies = se_copies (mutation_setting env m (kf_files st0)),
      jd_intent = Some (se_intent (mutation_setting env m (kf_files st0)) ''prepared'')\<rparr>"
    and "\<And>tid. tid \<noteq> mu_tid m \<Longrightarrow> dget (kf_journal st1) tid = dget (kf_journal st0) tid"
proof -
  let ?fs = "kf_files st0"
  have reg: "dget ?fs p \<noteq> None \<Longrightarrow> regular (the (dget ?fs p))"
    using assms by (auto simp: prepare_mutation_def Let_def fraise_def split: if_splits)
  then have nodes: "(\<exists>b. dget ?fs p = Some (RegularFile b)) \<or> dget ?fs p = None"
    by (cases "dget ?fs p"; cases "the (dget ?fs p)") (simp_all add: regular_def)
  from assms reg obtain tid sa sb sc u where nt: "new_tid env st0 = (Done tid, sa)" and mk: "make_dir tid sa = (Done (), sb)"
    and cp: "(if dget ?fs p \<noteq> None then keep_copy tid ''before.bin'' p else fdone ()) sb = (Done u, sc)"
    and m: "m = \<lparr>mu_tid = tid, mu_target = p, mu_existed = dget ?fs p \<noteq> None,
        mu_backup = (if dget ?fs p \<noteq> None then Some ''before.bin'' else None), mu_parents = missing_parents (kf_files sc) p, mu_applied = False\<rparr>"
    and mr: "mark env m ''prepared'' sc = (Done (), st1)"
    by (auto simp: prepare_mutation_def Let_def fbind_Done fdone_def split: if_splits)
  have sa: "kf_files sa = ?fs" "kf_journal sa = kf_journal st0" using nt by (auto simp: new_tid_def)
  note sb = make_dir_Done [OF mk, unfolded sa]
  have new: "dget (kf_journal sb) tid = Some \<lparr>jd_copies = [], jd_intent = None\<rparr>" using sb by simp
  define c where "c = (case dget ?fs p of Some (RegularFile b) \<Rightarrow> [(''before.bin'', b)] | _ \<Rightarrow> [])"
  have sc: "kf_files sc = ?fs \<and> dget (kf_journal sc) tid = Some \<lparr>jd_copies = c, jd_intent = None\<rparr> \<and>
      (\<forall>t. t \<noteq> tid \<longrightarrow> dget (kf_journal sc) t = dget (kf_journal st0) t)"
    using nodes cp new sb keep_copy_Done [of tid "''before.bin''" p sb u sc, OF _ new] by (auto simp: c_def fdone_def)
  have dg: "copy_digest env tid (mu_backup m) sc = (Done (map_option (je_sha env) (dget c ''before.bin'')), sc)"
    using nodes sc by (auto simp: m c_def copy_digest_def fbind_def copy_of_def fdone_def)
  have "write_intent tid (mutation_intent m (map_option (je_sha env) (dget c ''before.bin'')) ''prepared'') sc = (Done (), st1)"
    using mr dg by (simp add: mark_def fbind_def m)
  from write_intent_Done [OF this] sc have w: "kf_files st1 = ?fs" "dget (kf_journal st1) tid =
      Some \<lparr>jd_copies = c, jd_intent = Some (mutation_intent m (map_option (je_sha env) (dget c ''before.bin'')) ''prepared'')\<rparr>"
    "t \<noteq> tid \<Longrightarrow> dget (kf_journal st1) t = dget (kf_journal st0) t" for t by auto
  show "mu_target m = p" "mu_existed m = (dget ?fs p \<noteq> None)" "mu_backup m = (if mu_existed m then Some ''before.bin'' else None)"
    by (simp_all add: m)
  show "mu_parents m = missing_parents ?fs p" using sc by (simp add: m)
  show "kf_files st1 = ?fs" by (rule w)
  show "\<exists>b. dget ?fs p = Some (RegularFile b) \<or> dget ?fs p = None" using nodes by blast
  show "dget (kf_journal st1) (mu_tid m) = Some \<lparr>jd_copies = se_copies (mutation_setting env m ?fs),
      jd_intent = Some (se_intent (mutation_setting env m ?fs) ''prepared'')\<rparr>"
    using w(2) by (simp add: mutation_setting_def Let_def m flip: c_def)
  show "t \<noteq> mu_tid m \<Longrightarrow> dget (kf_journal st1) t = dget (kf_journal st0) t" for t using w(3) by (simp add: m)
qed

lemma prepared_plan:
  assumes prep: "prepare_mutation env p st0 = (Done m, st1)" and quiet: "journal_quiet st0" and "rooted (kf_files st0)"
    and "\<not> blocked (kf_files st0) p" and "p \<noteq> []" and "temps_apart env {p}"
  defines "s \<equiv> mutation_setting env m (kf_files st0)"
  shows "mutation_ok env m (kf_files st0)" and "phase s ''prepared'' (restored s (se_targets s)) st1"
proof -
  note f = prepared_facts [OF prep]
  have "dget (kf_files st0) q = Some Directory \<or> dget (kf_files st0) q = None \<and> q \<in> set (mu_parents m)" if "q \<in> set (ancestors p)" for q
    using that assms(4) by (auto simp: f(4) missing_parents_filter [OF assms(3)] blocked_def list_ex_iff)
  moreover have "dget (kf_files st0) q = None" if "q \<in> set (mu_parents m)" for q
    using that by (simp add: f(4) missing_parents_filter [OF assms(3)])
  ultimately have "sound env s" using assms(5,6) f(6) by (auto simp: sound_def s_def f(1) prefix_free_def)
  with f(2,3) show "mutation_ok env m (kf_files st0)" by (simp add: mutation_ok_def s_def f(1))
  have "restored s (se_targets s) (kf_files st0)" using f(6) by (auto simp: restored_def littered_def s_def f(1))
  with f(5,7,8) quiet show "phase s ''prepared'' (restored s (se_targets s)) st1"
    by (auto simp: phase_def s_def journal_quiet_def)
qed

text \<open>Either change of a prepared mutation.\<close>

datatype file_change = WriteChange string | DeleteChange

fun enact_change :: "journal_env \<Rightarrow> mutation \<Rightarrow> file_change \<Rightarrow> pyval fio" where
  "enact_change env m (WriteChange b) = write_mutation env m b"
| "enact_change env m DeleteChange = delete_mutation env m"

fun change_node :: "file_change \<Rightarrow> fs_node option" where
  "change_node (WriteChange b) = Some (RegularFile b)"
| "change_node DeleteChange = None"

lemma change_interrupted:
  assumes prep: "prepare_mutation env p st0 = (Done m, st1)" "journal_quiet st0" "rooted (kf_files st0)"
    "\<not> blocked (kf_files st0) p" "p \<noteq> []" "temps_apart env {p}"
    and run: "enact_change env m c (st1\<lparr>kf_verdicts := v\<rparr>) = (out, st2)" and "\<forall>x. out \<noteq> Done x"
  shows "\<exists>ids st3. recover_incomplete env ((fold (restart env) vs st2)\<lparr>kf_verdicts := []\<rparr>) = (Done ids, st3) \<and>
    dget (kf_files st3) p = dget (kf_files st0) p \<and>
    (\<forall>q. dget (kf_files st3) q = dget (kf_files st0) q \<or> dget (kf_files st0) q = None \<and>
       (\<exists>nd. dget (kf_files st3) q = Some nd \<and> leftover (mutation_setting env m (kf_files st0)) q nd))"
proof -
  note ok = prepared_plan [OF prep]
  let ?s = "mutation_setting env m (kf_files st0)"
  have p: "phase ?s ''prepared'' (restored ?s (se_targets ?s)) (st1\<lparr>kf_verdicts := v\<rparr>)" using ok(2) by simp
  have "\<exists>ids st3. recover_incomplete env ((fold (restart env) vs st2)\<lparr>kf_verdicts := []\<rparr>) = (Done ids, st3) \<and>
      restored ?s (se_targets ?s) (kf_files st3)"
  proof (cases c)
    case (WriteChange b)
    with run write_change.interrupted [OF ok(1) p _ assms(8), of b] show ?thesis by simp
  next
    case DeleteChange
    with run delete_change.interrupted [OF ok(1) p _ assms(8)] show ?thesis by simp
  qed
  then obtain ids st3 where r: "recover_incomplete env ((fold (restart env) vs st2)\<lparr>kf_verdicts := []\<rparr>) = (Done ids, st3)"
    "restored ?s (se_targets ?s) (kf_files st3)" by blast
  have t: "se_targets ?s = {p}" using prepared_facts(1) [OF prep(1)] by simp
  from r(2) have d: "dget (kf_files st3) p = dget (kf_files st0) p" unfolding t by (simp add: restored_def)
  have "q \<in> {p} \<or> dget (kf_files st3) q = dget (kf_files st0) q \<or> dget (kf_files st0) q = None \<and>
      (\<exists>nd. dget (kf_files st3) q = Some nd \<and> leftover ?s q nd)" for q
    using littered_elsewhere [of ?s "kf_files st3" q] r(2) unfolding t by (simp add: restored_def)
  with d have "dget (kf_files st3) q = dget (kf_files st0) q \<or> dget (kf_files st0) q = None \<and>
      (\<exists>nd. dget (kf_files st3) q = Some nd \<and> leftover ?s q nd)" for q by (metis singletonD)
  with r(1) d show ?thesis by blast
qed

lemma change_returned:
  assumes prep: "prepare_mutation env p st0 = (Done m, st1)" "journal_quiet st0" "rooted (kf_files st0)"
    "\<not> blocked (kf_files st0) p" "p \<noteq> []" "temps_apart env {p}"
    and run: "enact_change env m c (st1\<lparr>kf_verdicts := v\<rparr>) = (Done x, st2)"
  shows "dget (kf_files st2) p = change_node c \<and> journal_quiet st2"
proof -
  note ok = prepared_plan [OF prep]
  let ?s = "mutation_setting env m (kf_files st0)"
  have p: "phase ?s ''prepared'' (restored ?s (se_targets ?s)) (st1\<lparr>kf_verdicts := v\<rparr>)" using ok(2) by simp
  have "phase ?s ''committed'' (written ?s (mu_target m) (change_node c)) st2"
    using run write_change.outcome [OF ok(1) p] delete_change.outcome [OF ok(1) p] by (cases c) auto
  then have w: "dget (kf_files st2) p = change_node c" and j: "dget (kf_journal st2) (mu_tid m) =
      Some \<lparr>jd_copies = se_copies ?s, jd_intent = Some (se_intent ?s ''committed'')\<rparr>"
    and o: "\<And>tid d. tid \<noteq> mu_tid m \<Longrightarrow> dget (kf_journal st2) tid = Some d \<Longrightarrow> finished d"
    using prepared_facts(1) [OF prep(1)] by (simp_all add: phase_def written_def)
  have "finished \<lparr>jd_copies = se_copies ?s, jd_intent = Some (se_intent ?s ''committed'')\<rparr>"
    by (simp add: finished_def mutation_setting_def mutation_intent_def Let_def)
  with j o have "journal_quiet st2" unfolding journal_quiet_def by (metis option.inject)
  with w show ?thesis ..
qed

end
