(* ===== verification/KernelFiles.thy ===== *)
theory KernelFiles
  imports FileRecovery Broker PluginData
begin

text \<open>
  \<open>security/file_adapter.py\<close>: the kernel's file operations behind the capability broker. An
  adapter resolves an opaque reference to a path below its binding, prepares the operation and
  leaves enactment and abort to the broker.
\<close>

section \<open>Resolving a reference\<close>

text \<open>The adapter's limits, the codecs, \<open>lstat\<close>, and \<open>(binding / Path(*parts)).resolve()\<close>.\<close>

record file_adapter =
  fa_journal :: journal_env
  fa_resolve :: "path \<Rightarrow> string list \<Rightarrow> path"
  fa_encode :: "string \<Rightarrow> string \<Rightarrow> string option"
  fa_decode :: "string \<Rightarrow> string \<Rightarrow> string option"
  fa_str :: "pyval \<Rightarrow> string"
  fa_size :: "path \<Rightarrow> int"
  fa_mtime :: "path \<Rightarrow> int"
  fa_max_read :: int
  fa_max_write :: int
  fa_max_list :: int

text \<open>\<open>__init__\<close> clamps the limits from below.\<close>

definition make_adapter :: "file_adapter \<Rightarrow> file_adapter" where
  "make_adapter a = a\<lparr>fa_max_read := max 1024 (fa_max_read a), fa_max_write := max 1024 (fa_max_write a),
     fa_max_list := max 1 (fa_max_list a)\<rparr>"

definition relative_selector :: "string \<Rightarrow> string \<Rightarrow> string pyres" where
  "relative_selector granted requested =
     (let g = rstrip_slash granted; r = rstrip_slash requested in
      if suffix ''/*'' g
      then (let p = rstrip_slash (take (length g - 2) g) in
            if r = p then Inr '''' else Inr (drop (length p + 1) r))
      else if g = r then Inr ''''
      else Inl (PyExn ''PermissionError'' ''selector is outside the resource binding''))"

definition kernel_request :: "string \<Rightarrow> string \<Rightarrow> string \<Rightarrow> data_label set \<Rightarrow> capability_request" where
  "kernel_request right token selector labels =
     \<lparr>rq_right = right, rq_token = token, rq_selector = selector, rq_destination = [], rq_labels = labels\<rparr>"

definition value_error :: "string \<Rightarrow> 'a pyres" where
  "value_error msg = Inl (PyExn ''ValueError'' msg)"

text \<open>\<open>_target\<close>; a request without a path is one the policy engine will refuse.\<close>

definition file_target ::
    "file_adapter \<Rightarrow> time \<Rightarrow> authority_context \<Rightarrow> string \<Rightarrow> payload \<Rightarrow> kernel_binding registry \<Rightarrow>
     (capability_request \<times> path option) pyres \<times> kernel_binding registry" where
  "file_target fa now auth right payload reg =
     (case (dget payload ''resource'', dget payload ''selector'') of
        (Some (VStr token), Some (VStr selector)) \<Rightarrow>
          (case resolve now token reg of
             (None, reg1) \<Rightarrow> (Inr (kernel_request right token selector {}, None), reg1)
           | (Some ref, reg1) \<Rightarrow>
               (if ref_digest ref \<noteq> ac_digest auth then (Inr (kernel_request right token selector {}, None), reg1)
                else (case binding now token reg1 of
                    (Some (PathBinding base), reg2) \<Rightarrow>
                      (if \<not> selector_contains (ref_selector ref) selector
                       then (Inr (kernel_request right token selector {}, None), reg2)
                       else (rbind (relative_selector (ref_selector ref) selector) (\<lambda>rel.
                         (let target = fa_resolve fa base (split_char (CHR ''/'') rel); base0 = fa_resolve fa base [] in
                          if \<not> prefix base0 target
                          then Inl (PyExn ''PermissionError'' ''resolved target escaped resource binding'')
                          else Inr (kernel_request right token selector (if ref_labels ref = {} then {PUBLIC} else ref_labels ref), Some target))), reg2))
                  | (_, reg2) \<Rightarrow> (value_error ''filesystem resource has no path binding'', reg2))))
      | _ \<Rightarrow> (value_error ''resource and selector must be strings'', reg))"


section \<open>The prepared operations\<close>

type_synonym file_world = "(kernel_binding, kernel_files) world"

type_synonym file_effect = "(kernel_binding, kernel_files) prepared_effect"

text \<open>A program of the journal as an effect; a process that died reports nothing to anyone.\<close>

definition enacts :: "pyval fio \<Rightarrow> file_world \<Rightarrow> pyval pyres \<times> file_world" where
  "enacts m w = (case m (snd w) of
     (Done v, st) \<Rightarrow> (Inr v, (fst w, st))
   | (Raises e, st) \<Rightarrow> (Inl e, (fst w, st))
   | (Crashed, st) \<Rightarrow> (Inl (PyExn ''SystemExit'' ''the process died''), (fst w, st)))"

definition aborts :: "unit fio \<Rightarrow> file_world \<Rightarrow> unit pyres \<times> file_world" where
  "aborts m w = (case m (snd w) of
     (Done v, st) \<Rightarrow> (Inr v, (fst w, st))
   | (Raises e, st) \<Rightarrow> (Inl e, (fst w, st))
   | (Crashed, st) \<Rightarrow> (Inl (PyExn ''SystemExit'' ''the process died''), (fst w, st)))"

definition reads :: "(filesystem \<Rightarrow> pyval pyres) \<Rightarrow> file_world \<Rightarrow> pyval pyres \<times> file_world" where
  "reads f w = (f (kf_files (snd w)), w)"

definition denied_file :: "capability_request \<Rightarrow> file_effect" where
  "denied_file req = \<lparr>pe_request = req, pe_facts = default_facts\<lparr>mf_resource_exists := False\<rparr>,
     pe_enact = (\<lambda>w. (Inr VNone, w)), pe_abort = None\<rparr>"

definition encoding_of :: "file_adapter \<Rightarrow> payload \<Rightarrow> string" where
  "encoding_of fa payload = fa_str fa (py_or (raw_get payload ''encoding'' VNone) (VStr ''utf-8''))"

text \<open>Running a preparation on a resolved target.\<close>

definition with_target ::
    "file_adapter \<Rightarrow> time \<Rightarrow> string \<Rightarrow> (capability_request \<Rightarrow> path \<Rightarrow> payload \<Rightarrow> file_world \<Rightarrow> file_effect pyres \<times> file_world) \<Rightarrow>
     (kernel_binding, kernel_files) adapter" where
  "with_target fa now right prep auth payload w =
     (case file_target fa now auth right payload (fst w) of
        (Inl e, reg) \<Rightarrow> (Inl e, (reg, snd w))
      | (Inr (req, None), reg) \<Rightarrow> (Inr (denied_file req), (reg, snd w))
      | (Inr (req, Some target), reg) \<Rightarrow> prep req target payload (reg, snd w))"

definition read_target :: "file_adapter \<Rightarrow> path \<Rightarrow> string \<Rightarrow> filesystem \<Rightarrow> pyval pyres" where
  "read_target fa p enc fs =
     rbind (read_bytes fs p) (\<lambda>raw.
       if int (length raw) > fa_max_read fa then value_error (''file exceeds '' @ show_int (fa_max_read fa) @ '' read bytes'')
       else case fa_decode fa raw enc of
         None \<Rightarrow> Inl (PyExn ''UnicodeDecodeError'' ''invalid bytes'') | Some t \<Rightarrow> Inr (VStr t))"

definition prepare_read :: "file_adapter \<Rightarrow> time \<Rightarrow> (kernel_binding, kernel_files) adapter" where
  "prepare_read fa now = with_target fa now ''files.read'' (\<lambda>req p payload w.
     (Inr \<lparr>pe_request = req,
        pe_facts = default_facts\<lparr>mf_resource_exists := (case dget (kf_files (snd w)) p of None \<Rightarrow> False | Some nd \<Rightarrow> regular nd)\<rparr>,
        pe_enact = reads (read_target fa p (encoding_of fa payload)), pe_abort = None\<rparr>, w))"

fun node_kind :: "fs_node \<Rightarrow> string" where
  "node_kind Link = ''symlink''" | "node_kind Directory = ''directory''" | "node_kind (RegularFile _) = ''file''"

definition node_size :: "file_adapter \<Rightarrow> path \<Rightarrow> fs_node \<Rightarrow> int" where
  "node_size fa p nd = (case nd of RegularFile b \<Rightarrow> int (length b) | _ \<Rightarrow> fa_size fa p)"

definition node_row :: "file_adapter \<Rightarrow> path \<Rightarrow> path \<times> fs_node \<Rightarrow> pyval" where
  "node_row fa dir0 e = VDict [(''name'', VStr (join_with ''/'' (drop (length dir0) (fst e)))), (''kind'', VStr (node_kind (snd e))),
     (''size'', VInt (node_size fa (fst e) (snd e))), (''modified_ns'', VInt (fa_mtime fa (fst e)))]"

definition list_target :: "file_adapter \<Rightarrow> path \<Rightarrow> bool \<Rightarrow> filesystem \<Rightarrow> pyval pyres" where
  "list_target fa p recursive fs =
     (if dget fs p \<noteq> Some Directory then Inl (PyExn ''FileNotFoundError'' ''filesystem resource is not a directory'')
      else (let found = filter (\<lambda>e. if recursive then strict_prefix p (fst e) else fst e \<noteq> [] \<and> butlast (fst e) = p) fs in
        if int (length found) > fa_max_list fa
        then value_error (''file listing exceeds '' @ show_int (fa_max_list fa) @ '' entries'')
        else Inr (VList (List.map (node_row fa p) found))))"

definition prepare_list :: "file_adapter \<Rightarrow> time \<Rightarrow> (kernel_binding, kernel_files) adapter" where
  "prepare_list fa now = with_target fa now ''files.list'' (\<lambda>req p payload w.
     (case raw_get payload ''recursive'' (VBool False) of
        VBool r \<Rightarrow> (Inr \<lparr>pe_request = req,
          pe_facts = default_facts\<lparr>mf_resource_exists := (dget (kf_files (snd w)) p = Some Directory)\<rparr>,
          pe_enact = reads (list_target fa p r), pe_abort = None\<rparr>, w)
      | _ \<Rightarrow> (value_error ''files.list recursive must be boolean'', w)))"

definition stat_target :: "file_adapter \<Rightarrow> path \<Rightarrow> filesystem \<Rightarrow> pyval pyres" where
  "stat_target fa p fs = (case dget fs p of
     None \<Rightarrow> Inl (PyExn ''FileNotFoundError'' ''No such file or directory'')
   | Some nd \<Rightarrow> Inr (VDict [(''kind'', VStr (node_kind nd)), (''size'', VInt (node_size fa p nd)), (''modified_ns'', VInt (fa_mtime fa p))]))"

definition prepare_stat :: "file_adapter \<Rightarrow> time \<Rightarrow> (kernel_binding, kernel_files) adapter" where
  "prepare_stat fa now = with_target fa now ''files.stat'' (\<lambda>req p payload w.
     (Inr \<lparr>pe_request = req, pe_facts = default_facts\<lparr>mf_resource_exists := (dget (kf_files (snd w)) p \<noteq> None)\<rparr>,
        pe_enact = reads (stat_target fa p), pe_abort = None\<rparr>, w))"

text \<open>Preparing a change writes its inverse before anything is decided.\<close>

definition prepares :: "'m fio \<Rightarrow> ('m \<Rightarrow> file_effect) \<Rightarrow> file_world \<Rightarrow> file_effect pyres \<times> file_world" where
  "prepares m eff w = (case m (snd w) of
     (Done x, st) \<Rightarrow> (Inr (eff x), (fst w, st))
   | (Raises e, st) \<Rightarrow> (Inl e, (fst w, st))
   | (Crashed, st) \<Rightarrow> (Inl (PyExn ''SystemExit'' ''the process died''), (fst w, st)))"

definition change_effect :: "journal_env \<Rightarrow> capability_request \<Rightarrow> (mutation \<Rightarrow> pyval fio) \<Rightarrow> mutation \<Rightarrow> file_effect" where
  "change_effect env req change m = \<lparr>pe_request = req,
     pe_facts = default_facts\<lparr>mf_undo_ready := True, mf_resource_exists := mu_existed m\<rparr>,
     pe_enact = enacts (change m), pe_abort = Some (aborts (abort_mutation env m))\<rparr>"

definition prepare_write :: "file_adapter \<Rightarrow> time \<Rightarrow> (kernel_binding, kernel_files) adapter" where
  "prepare_write fa now = with_target fa now ''files.write'' (\<lambda>req p payload w.
     (case raw_get payload ''content'' VNone of
        VStr content \<Rightarrow>
          (case fa_encode fa content (encoding_of fa payload) of
             None \<Rightarrow> (Inl (PyExn ''UnicodeEncodeError'' ''cannot encode''), w)
           | Some raw \<Rightarrow>
               (if int (length raw) > fa_max_write fa
                then (value_error (''file content exceeds '' @ show_int (fa_max_write fa) @ '' write bytes''), w)
                else prepares (prepare_mutation (fa_journal fa) p)
                  (change_effect (fa_journal fa) req (\<lambda>m. write_mutation (fa_journal fa) m raw)) w))
      | _ \<Rightarrow> (value_error ''files.write content must be text'', w)))"

definition prepare_delete :: "file_adapter \<Rightarrow> time \<Rightarrow> (kernel_binding, kernel_files) adapter" where
  "prepare_delete fa now = with_target fa now ''files.delete'' (\<lambda>req p payload.
     prepares (prepare_mutation (fa_journal fa) p) (change_effect (fa_journal fa) req (delete_mutation (fa_journal fa))))"

definition move_effect :: "journal_env \<Rightarrow> capability_request \<Rightarrow> file_move \<Rightarrow> file_effect" where
  "move_effect env req m = \<lparr>pe_request = req,
     pe_facts = default_facts\<lparr>mf_undo_ready := True, mf_resource_exists := True\<rparr>,
     pe_enact = enacts (run_move env m), pe_abort = Some (aborts (abort_move env m))\<rparr>"

text \<open>The destination is resolved below the same reference; only the source is in the request.\<close>

definition prepare_file_move :: "file_adapter \<Rightarrow> time \<Rightarrow> (kernel_binding, kernel_files) adapter" where
  "prepare_file_move fa now auth =
     with_target fa now ''files.move'' (\<lambda>req source payload w.
       (case dget payload ''destination_selector'' of
          Some (VStr d) \<Rightarrow>
            (case file_target fa now auth ''files.move'' [(''resource'', raw_get payload ''resource'' VNone), (''selector'', VStr d)] (fst w) of
               (Inl e, reg) \<Rightarrow> (Inl e, (reg, snd w))
             | (Inr (_, None), reg) \<Rightarrow> (Inr (denied_file req), (reg, snd w))
             | (Inr (_, Some destination), reg) \<Rightarrow>
                 prepares (prepare_move (fa_journal fa) source destination) (move_effect (fa_journal fa) req) (reg, snd w))
        | _ \<Rightarrow> (value_error ''destination_selector must be a string'', w))) auth"

text \<open>The adapters under the rights the composition root registers them for.\<close>

definition file_adapters :: "file_adapter \<Rightarrow> time \<Rightarrow> (string, (kernel_binding, kernel_files) adapter) pydict" where
  "file_adapters fa now = [(''files.read'', prepare_read fa now), (''files.list'', prepare_list fa now),
     (''files.stat'', prepare_stat fa now), (''files.write'', prepare_write fa now), (''files.delete'', prepare_delete fa now),
     (''files.move'', prepare_file_move fa now)]"



section \<open>What preparing, aborting and enacting touch\<close>

text \<open>A program that leaves the files outside \<open>T\<close> alone.\<close>

definition frame :: "path set \<Rightarrow> 'a fio \<Rightarrow> bool" where
  "frame T m \<longleftrightarrow> (\<forall>st q. q \<notin> T \<longrightarrow> dget (kf_files (snd (m st))) q = dget (kf_files st) q)"

definition keeps_files :: "'a fio \<Rightarrow> bool" where
  "keeps_files m \<longleftrightarrow> (\<forall>st. kf_files (snd (m st)) = kf_files st)"

lemma keeps_bind: "keeps_files m \<Longrightarrow> (\<And>a. keeps_files (f a)) \<Longrightarrow> keeps_files (fbind m f)"
  unfolding keeps_files_def fbind_def by (auto split: prod.split ran.split) (metis snd_conv)+

lemma keeps_syscall: "(\<And>st st'. act st = Inr st' \<Longrightarrow> kf_files st' = kf_files st) \<Longrightarrow> keeps_files (syscall act)"
  by (fastforce simp: keeps_files_def syscall_def Let_def split: list.splits io_verdict.splits sum.splits)

lemma keeps_basic: "keeps_files (fdone a)" "keeps_files (fraise ty msg)" "keeps_files (new_tid env)" "keeps_files (copy_of tid f)"
  "keeps_files (remove_tree tid)"
  by (auto simp: keeps_files_def fdone_def fraise_def new_tid_def copy_of_def remove_tree_def split: option.split)

lemma keeps_journal:
  "keeps_files (make_dir tid)" "keeps_files (keep_copy tid f p)" "keeps_files (write_intent tid i)"
  unfolding make_dir_def keep_copy_def write_intent_def on_dir_def
  by (rule keeps_syscall; auto simp: rbind_Inr split: if_splits option.splits)+

lemma keeps_mark: "keeps_files (mark env m status)" "keeps_files (mark_move env v status)"
  by (auto simp: mark_def mark_move_def copy_digest_def split: option.split intro!: keeps_bind keeps_basic keeps_journal)

lemma keeps_if: "keeps_files m \<Longrightarrow> keeps_files n \<Longrightarrow> keeps_files (if b then m else n)"
  by simp

lemma keeps_at: "(\<And>st. keeps_files (m st)) \<Longrightarrow> keeps_files (\<lambda>st. m st st)"
  by (simp add: keeps_files_def)

lemmas keeps_rules = keeps_bind [unfolded keeps_files_def, rule_format] keeps_basic [unfolded keeps_files_def, rule_format]
  keeps_journal [unfolded keeps_files_def, rule_format]

lemma keeps_prepare: "keeps_files (prepare_mutation env p)"
  unfolding keeps_files_def
proof
  fix st
  have "keeps_files (\<lambda>st1. fbind (mark env (M (kf_files st1)) ''prepared'') (\<lambda>_. fdone (M (kf_files st1))) st1)"
    for M :: "filesystem \<Rightarrow> mutation" by (rule keeps_at) (intro keeps_bind keeps_mark keeps_basic)
  note k = this [unfolded keeps_files_def, rule_format]
  show "kf_files (snd (prepare_mutation env p st)) = kf_files st"
    unfolding prepare_mutation_def Let_def by (auto simp: fraise_def intro!: keeps_rules k)
qed

lemma keeps_prepare_move: "keeps_files (prepare_move env a b)"
  unfolding keeps_files_def
proof
  fix st
  have "keeps_files (\<lambda>st1. fbind (mark_move env (M (kf_files st1)) ''prepared'') (\<lambda>_. fdone (M (kf_files st1))) st1)"
    for M :: "filesystem \<Rightarrow> file_move" by (rule keeps_at) (intro keeps_bind keeps_mark keeps_basic)
  note k = this [unfolded keeps_files_def, rule_format]
  show "kf_files (snd (prepare_move env a b st)) = kf_files st"
    unfolding prepare_move_def Let_def by (auto simp: fraise_def intro!: keeps_rules k)
qed

lemma prepared_unapplied:
  "prepare_mutation env p st = (Done m, st') \<Longrightarrow> \<not> mu_applied m"
  "prepare_move env a b st = (Done v, st') \<Longrightarrow> \<not> fm_applied v"
  by (auto simp: prepare_mutation_def prepare_move_def Let_def fbind_Done fraise_def fdone_def split: if_splits)

lemma keeps_abort: "\<not> mu_applied m \<Longrightarrow> keeps_files (abort_mutation env m)" "\<not> fm_applied v \<Longrightarrow> keeps_files (abort_move env v)"
  by (auto simp: abort_mutation_def abort_move_def intro!: keeps_bind keeps_basic)

text \<open>Nothing an adapter does before the decision, or instead of enactment, reaches a file.\<close>

lemma prepares_quiet:
  assumes "keeps_files m" and "\<And>x st st' ab w'. m st = (Done x, st') \<Longrightarrow> pe_abort (eff x) = Some ab \<Longrightarrow> kf_files (snd (snd (ab w'))) = kf_files (snd w')"
  shows "kf_files (snd (snd (prepares m eff w))) = kf_files (snd w)"
    and "fst (prepares m eff w) = Inr p \<Longrightarrow> pe_abort p = Some ab \<Longrightarrow> kf_files (snd (snd (ab w'))) = kf_files (snd w')"
proof -
  have "kf_files (snd (m (snd w))) = kf_files (snd w)" using assms(1) by (simp add: keeps_files_def)
  then show "kf_files (snd (snd (prepares m eff w))) = kf_files (snd w)" by (auto simp: prepares_def split: prod.split ran.split)
  show "fst (prepares m eff w) = Inr p \<Longrightarrow> pe_abort p = Some ab \<Longrightarrow> kf_files (snd (snd (ab w'))) = kf_files (snd w')"
    using assms(2) by (auto simp: prepares_def split: prod.splits ran.splits)
qed

lemma aborts_files: "keeps_files m \<Longrightarrow> kf_files (snd (snd (aborts m w))) = kf_files (snd w)"
proof -
  assume "keeps_files m"
  then have "kf_files (snd (m (snd w))) = kf_files (snd w)" by (simp add: keeps_files_def)
  then show ?thesis by (auto simp: aborts_def split: prod.split ran.split)
qed

definition quiet_prep :: "(capability_request \<Rightarrow> path \<Rightarrow> payload \<Rightarrow> file_world \<Rightarrow> file_effect pyres \<times> file_world) \<Rightarrow> bool" where
  "quiet_prep prep \<longleftrightarrow> (\<forall>req t payload w. kf_files (snd (snd (prep req t payload w))) = kf_files (snd w) \<and>
     (\<forall>p ab w'. fst (prep req t payload w) = Inr p \<longrightarrow> pe_abort p = Some ab \<longrightarrow> kf_files (snd (snd (ab w'))) = kf_files (snd w')))"

lemma with_target_quiet: "(\<And>auth. quiet_prep (prep auth)) \<Longrightarrow> quiet_adapter kf_files (\<lambda>auth. with_target fa now right (prep auth) auth)"
  unfolding quiet_adapter_def quiet_prep_def with_target_def denied_file_def
  by (auto split: prod.splits sum.splits option.splits)

lemma change_quiet:
  "kf_files (snd (snd (prepares (prepare_mutation env t) (change_effect env req ch) w))) = kf_files (snd w)"
  "fst (prepares (prepare_mutation env t) (change_effect env req ch) w) = Inr p \<Longrightarrow> pe_abort p = Some ab \<Longrightarrow>
     kf_files (snd (snd (ab w'))) = kf_files (snd w')"
  by (rule prepares_quiet [OF keeps_prepare]; auto simp: change_effect_def intro!: aborts_files keeps_abort dest: prepared_unapplied)+

lemma move_quiet:
  "kf_files (snd (snd (prepares (prepare_move env a b) (move_effect env req) w))) = kf_files (snd w)"
  "fst (prepares (prepare_move env a b) (move_effect env req) w) = Inr p \<Longrightarrow> pe_abort p = Some ab \<Longrightarrow>
     kf_files (snd (snd (ab w'))) = kf_files (snd w')"
  by (rule prepares_quiet [OF keeps_prepare_move]; auto simp: move_effect_def intro!: aborts_files keeps_abort dest: prepared_unapplied)+

lemmas quiet_aborts = change_quiet(2) [where w' = "(r, st)" for r st, simplified snd_conv]
  move_quiet(2) [where w' = "(r, st)" for r st, simplified snd_conv]

lemma file_adapters_quiet: "dget (file_adapters fa now) r = Some ad \<Longrightarrow> quiet_adapter kf_files ad"
proof -
  have "quiet_adapter kf_files (prepare_read fa now)" "quiet_adapter kf_files (prepare_stat fa now)"
    "quiet_adapter kf_files (prepare_list fa now)"
    unfolding prepare_read_def prepare_stat_def prepare_list_def
    by (rule with_target_quiet [of "\<lambda>_. _"]; auto simp: quiet_prep_def value_error_def split: pyval.splits bool.splits)+
  moreover have "quiet_adapter kf_files (prepare_write fa now)" "quiet_adapter kf_files (prepare_delete fa now)"
    unfolding prepare_write_def prepare_delete_def
    by (rule with_target_quiet [of "\<lambda>_. _"]; auto simp: quiet_prep_def value_error_def change_quiet(1) split: pyval.splits option.splits if_splits intro: quiet_aborts)+
  moreover have "quiet_adapter kf_files (prepare_file_move fa now)"
    unfolding prepare_file_move_def
    by (rule with_target_quiet) (auto simp: quiet_prep_def value_error_def denied_file_def move_quiet(1)
        split: pyval.splits option.splits sum.splits prod.splits intro: quiet_aborts)
  ultimately show "dget (file_adapters fa now) r = Some ad \<Longrightarrow> quiet_adapter kf_files ad"
    by (auto simp: file_adapters_def split: if_splits)
qed


section \<open>What an enacted change touches\<close>

text \<open>The target, the directories on the way to it, and temporary files beside it.\<close>

definition touched :: "path \<Rightarrow> path set" where
  "touched p = {q. q = p \<or> strict_prefix q p \<or> q \<noteq> [] \<and> butlast q = butlast p}"

lemma frame_bind:
  assumes "frame T m" and "\<And>a. frame T (f a)"
  shows "frame T (fbind m f)"
  unfolding frame_def
proof (intro allI impI)
  fix st q assume q: "q \<notin> T"
  obtain r st1 where m: "m st = (r, st1)" by (cases "m st")
  have "dget (kf_files st1) q = dget (kf_files st) q" using assms(1) q m unfolding frame_def by (metis snd_conv)
  with assms(2) q show "dget (kf_files (snd (fbind m f st))) q = dget (kf_files st) q"
    by (cases r) (auto simp: fbind_def m frame_def)
qed

lemma frame_catch:
  assumes "frame T m" and "\<And>e. frame T (h e)"
  shows "frame T (fcatch m h)"
  unfolding frame_def
proof (intro allI impI)
  fix st q assume q: "q \<notin> T"
  obtain r st1 where m: "m st = (r, st1)" by (cases "m st")
  have "dget (kf_files st1) q = dget (kf_files st) q" using assms(1) q m unfolding frame_def by (metis snd_conv)
  with assms(2) q show "dget (kf_files (snd (fcatch m h st))) q = dget (kf_files st) q"
    by (cases r) (auto simp: fcatch_def m frame_def)
qed

lemma frame_keeps: "keeps_files m \<Longrightarrow> frame T m"
  by (simp add: keeps_files_def frame_def)

lemmas frame_basic = keeps_basic [THEN frame_keeps] keeps_mark [THEN frame_keeps]

lemma frame_finally:
  assumes "frame T m" and "frame T f"
  shows "frame T (ffinally m f)"
  unfolding frame_def
proof (intro allI impI)
  fix st q assume q: "q \<notin> T"
  obtain r st1 where m: "m st = (r, st1)" by (cases "m st")
  have "dget (kf_files st1) q = dget (kf_files st) q" using assms(1) q m unfolding frame_def by (metis snd_conv)
  moreover have "dget (kf_files (snd (fbind f (\<lambda>_ st2. (x, st2)) st1))) q = dget (kf_files st1) q" for x :: "'b ran"
    using frame_bind [OF assms(2), of "\<lambda>_ st2. (x, st2)"] q by (simp add: frame_def)
  ultimately show "dget (kf_files (snd (ffinally m f st))) q = dget (kf_files st) q"
    by (cases r) (simp_all add: ffinally_def m fdone_def [abs_def])
qed

lemma frame_files: "(\<And>fs fs' q. act fs = Inr fs' \<Longrightarrow> q \<notin> T \<Longrightarrow> dget fs' q = dget fs q) \<Longrightarrow> frame T (on_files act)"
  by (auto simp: frame_def on_files_def syscall_def Let_def rbind_def split: list.split io_verdict.split sum.split)

lemma frame_choice: "frame T m \<Longrightarrow> frame T n \<Longrightarrow> frame T (\<lambda>st. if b st then m st else n st)"
  by (simp add: frame_def)

lemma frame_parents: "set qs \<subseteq> T \<Longrightarrow> frame T (make_parents qs)"
proof (induction qs)
  case Nil
  show ?case by (simp add: frame_keeps keeps_basic)
next
  case (Cons q qs)
  have "frame T (on_files (make_dirs [q]))" using Cons.prems by (intro frame_files) (auto split: option.splits fs_node.splits)
  with Cons show ?case by (auto intro!: frame_bind frame_choice frame_basic)
qed

lemma frame_rmdirs: "set qs \<subseteq> T \<Longrightarrow> frame T (remove_empty qs)"
proof (induction qs)
  case Nil
  show ?case by (simp add: frame_keeps keeps_basic)
next
  case (Cons q qs)
  have "frame T (on_files (os_rmdir q))" using Cons.prems by (intro frame_files) (auto simp: os_rmdir_def split: if_splits)
  with Cons show ?case by (auto intro!: frame_bind frame_catch frame_basic)
qed

lemma frame_unlink: "p \<in> T \<Longrightarrow> frame T (unlink_if_there p)"
  unfolding unlink_if_there_def ignore_missing_def
  by (intro frame_catch frame_files) (auto simp: os_unlink_def intro!: frame_keeps keeps_basic split: if_splits option.splits fs_node.splits)

lemma frame_fill: "t \<in> T \<Longrightarrow> frame T (fill t b)"
  unfolding fill_def by (rule frame_files) auto

lemma frame_replace: "t \<in> T \<Longrightarrow> p \<in> T \<Longrightarrow> frame T (on_files (os_replace t p))"
  by (rule frame_files) (auto simp: os_replace_def split: option.splits fs_node.splits if_splits)

lemma frame_temp:
  assumes "\<And>fs. je_temp env fs p \<in> T" and "\<And>t. t \<in> T \<Longrightarrow> frame T (f t)"
  shows "frame T (fbind (make_temp env p) f)"
  unfolding frame_def
proof (intro allI impI)
  fix st :: kernel_files and q assume q: "q \<notin> T"
  let ?t = "je_temp env (kf_files st) p"
  have "frame T (fbind (on_files (\<lambda>fs. open_for_writing fs ?t)) (\<lambda>_. f ?t))"
    using assms by (intro frame_bind frame_files) (auto simp: open_get)
  moreover have "fbind (make_temp env p) f st = fbind (on_files (\<lambda>fs. open_for_writing fs ?t)) (\<lambda>_. f ?t) st"
    by (simp add: make_temp_def Let_def fbind_def fdone_def split: prod.split ran.split)
  ultimately show "dget (kf_files (snd (fbind (make_temp env p) f st))) q = dget (kf_files st) q"
    using q by (simp add: frame_def)
qed

definition temps_beside :: "journal_env \<Rightarrow> path \<Rightarrow> bool" where
  "temps_beside env p \<longleftrightarrow> (\<forall>fs. je_temp env fs p \<noteq> [] \<and> butlast (je_temp env fs p) = butlast p)"

lemma frame_restore:
  assumes "temps_beside env p" and "touched p \<subseteq> T"
  shows "frame T (restore_copy env tid f p)"
  unfolding restore_copy_def
proof (rule frame_bind)
  have p: "p \<in> T" using assms(2) by (auto simp: touched_def)
  show "frame T (make_parents (ancestors p))"
    using assms(2) ancestors_prefix by (intro frame_parents) (auto simp: touched_def)
  show "frame T (fbind (make_temp env p) (\<lambda>t. ffinally (fbind (copy_of tid f) (\<lambda>b. fbind (fill t b) (\<lambda>_. on_files (os_replace t p)))) (unlink_if_there t)))"
    for x :: unit
  proof (rule frame_temp)
    show "je_temp env fs p \<in> T" for fs using assms by (auto simp: temps_beside_def touched_def)
    show "frame T (ffinally (fbind (copy_of tid f) (\<lambda>b. fbind (fill t b) (\<lambda>_. on_files (os_replace t p)))) (unlink_if_there t))" if "t \<in> T" for t
      by (intro frame_finally frame_bind frame_basic frame_fill frame_replace p frame_unlink that)
  qed
qed

lemma frame_change:
  assumes "temps_beside env p" and "mu_target m = p" and "set (mu_parents m) \<subseteq> touched p"
  shows "frame (touched p) (write_mutation env m b)" and "frame (touched p) (delete_mutation env m)"
proof -
  have t: "je_temp env fs p \<in> touched p" for fs using assms(1) by (auto simp: temps_beside_def touched_def)
  have a: "set (ancestors p) \<subseteq> touched p" using ancestors_prefix by (auto simp: touched_def)
  have p: "p \<in> touched p" by (simp add: touched_def)
  have restore: "frame (touched p) (restore_copy env tid f p)" for tid f using assms(1) subset_refl by (rule frame_restore)
  have roll: "frame (touched p) (roll_back env m)" unfolding roll_back_split
    by (auto simp: undo_mutation_def assms(2) intro!: frame_bind frame_choice restore frame_basic frame_unlink p frame_rmdirs assms(3))
  show "frame (touched p) (write_mutation env m b)" unfolding write_mutation_def assms(2)
    by (intro frame_bind frame_parents a frame_temp t frame_catch frame_finally frame_fill frame_replace p frame_unlink roll frame_basic)
  have "frame (touched p) (delete_target p)"
    unfolding frame_def
  proof (intro allI impI)
    fix st q assume q: "q \<notin> touched p"
    have "frame (touched p) (on_files (os_unlink p))"
      using p by (intro frame_files) (auto simp: os_unlink_def split: if_splits option.splits fs_node.splits)
    with q have "dget (kf_files (snd (on_files (os_unlink p) st))) q = dget (kf_files st) q" by (simp add: frame_def)
    then show "dget (kf_files (snd (delete_target p st))) q = dget (kf_files st) q"
      by (cases "dget (kf_files st) p") (simp_all add: delete_target_def fdone_def fraise_def)
  qed
  then show "frame (touched p) (delete_mutation env m)" unfolding delete_mutation_def assms(2)
    by (intro frame_bind frame_catch roll frame_basic)
qed


lemma touched_parents:
  assumes "prepare_mutation env p st = (Done m, st')"
  shows "set (mu_parents m) \<subseteq> touched p"
proof
  fix q assume "q \<in> set (mu_parents m)"
  then have "q \<in> set (ancestors p)"
    unfolding prepared_facts(4) [OF assms] missing_parents_def by (auto dest: set_takeWhileD)
  then show "q \<in> touched p" using ancestors_prefix [of q p] by (simp add: touched_def)
qed

lemma frame_move:
  assumes "temps_beside env a" and "temps_beside env b" and "fm_source m = a" and "fm_destination m = b"
    and "set (fm_parents m) \<subseteq> touched b"
  shows "frame (touched a \<union> touched b) (run_move env m)"
proof -
  let ?T = "touched a \<union> touched b"
  have anc: "set (ancestors b) \<subseteq> ?T" using ancestors_prefix by (auto simp: touched_def)
  have p: "a \<in> ?T" "b \<in> ?T" by (simp_all add: touched_def)
  have restore: "frame ?T (restore_copy env tid f a)" "frame ?T (restore_copy env tid f b)" for tid f
    using assms(1,2) by (auto intro: frame_restore)
  have "set (fm_parents m) \<subseteq> ?T" using assms(5) by auto
  then have roll: "frame ?T (roll_back_move env m)" unfolding roll_back_move_def assms(3,4)
    by (auto intro!: frame_bind restore frame_basic frame_unlink p frame_rmdirs split: option.split)
  show ?thesis unfolding run_move_def assms(3,4)
    by (intro frame_bind frame_catch frame_parents anc frame_replace p roll frame_basic)
qed

lemma prepared_move_facts:
  assumes "prepare_move env a b st = (Done m, st')"
  shows "fm_source m = a" and "fm_destination m = b" and "set (fm_parents m) \<subseteq> touched b"
proof -
  from assms obtain fs where m: "fm_source m = a" "fm_destination m = b" "fm_parents m = missing_parents fs b"
    by (auto simp: prepare_move_def Let_def fbind_Done fraise_def fdone_def split: if_splits)
  then show "fm_source m = a" "fm_destination m = b" by simp_all
  have "set (missing_parents fs b) \<subseteq> set (ancestors b)" by (auto simp: missing_parents_def dest: set_takeWhileD)
  with m(3) show "set (fm_parents m) \<subseteq> touched b" using ancestors_prefix by (auto simp: touched_def)
qed

text \<open>
  A target lies below the binding of a live reference of the caller's artifact that covers the
  selector; whatever an adapter prepared touches such targets only.
\<close>

definition bound_target ::
    "file_adapter \<Rightarrow> time \<Rightarrow> authority_context \<Rightarrow> payload \<Rightarrow> kernel_binding registry \<Rightarrow> path \<Rightarrow> bool" where
  "bound_target fa now auth payload reg target \<longleftrightarrow> (\<exists>token ref base selector.
     dget payload ''resource'' = Some (VStr token) \<and> dget (rr_items reg) token = Some ref \<and> \<not> ref_expired ref now \<and>
     ref_digest ref = ac_digest auth \<and> dget (rr_bindings reg) token = Some (PathBinding base) \<and>
     selector_contains (ref_selector ref) selector \<and> prefix (fa_resolve fa base []) target)"

lemma file_target_bound:
  assumes "file_target fa now auth right payload reg = (Inr (req, Some target), reg')"
  shows "bound_target fa now auth payload reg target \<and> reg' = reg"
  using assms unfolding bound_target_def
  by (auto simp: file_target_def resolve_def binding_def kernel_request_def value_error_def rbind_Inr Let_def
      split: option.splits pyval.splits if_splits prod.splits kernel_binding.splits)

lemma prepares_Inr:
  assumes "prepares m eff w = (Inr p, w')"
  obtains x where "m (snd w) = (Done x, snd w')" and "p = eff x"
  using assms by (auto simp: prepares_def split: prod.splits ran.splits)

lemma enacts_frame: "frame T m \<Longrightarrow> q \<notin> T \<Longrightarrow> dget (kf_files (snd (snd (enacts m w)))) q = dget (kf_files (snd w)) q"
proof -
  assume "frame T m" "q \<notin> T"
  then have "dget (kf_files (snd (m (snd w)))) q = dget (kf_files (snd w)) q" by (simp add: frame_def)
  then show ?thesis by (auto simp: enacts_def split: prod.split ran.split)
qed

definition changes_at :: "path \<Rightarrow> file_effect \<Rightarrow> bool" where
  "changes_at q p \<longleftrightarrow> (\<exists>w. dget (kf_files (snd (snd (pe_enact p w)))) q \<noteq> dget (kf_files (snd w)) q)"

lemma change_at:
  assumes "\<And>t. temps_beside env t" and "ch \<in> {delete_mutation env} \<union> range (\<lambda>b m. write_mutation env m b)"
    and "prepares (prepare_mutation env t) (change_effect env req ch) w = (Inr p, w')" and "changes_at q p"
  shows "q \<in> touched t"
proof -
  from assms(3) obtain m where m: "prepare_mutation env t (snd w) = (Done m, snd w')" "p = change_effect env req ch m"
    by (rule prepares_Inr)
  note f = frame_change [OF assms(1) prepared_facts(1) [OF m(1)] touched_parents [OF m(1)]]
  from f assms(2) have "frame (touched t) (ch m)" by auto
  note e = enacts_frame [OF this, of q]
  obtain x where "dget (kf_files (snd (snd (pe_enact p x)))) q \<noteq> dget (kf_files (snd x)) q" using assms(4) unfolding changes_at_def by blast
  then have "dget (kf_files (snd (snd (enacts (ch m) x)))) q \<noteq> dget (kf_files (snd x)) q" by (simp add: m(2) change_effect_def)
  with e show ?thesis by blast
qed

lemma move_at:
  assumes "\<And>t. temps_beside env t" and "prepares (prepare_move env a b) (move_effect env req) w = (Inr p, w')" and "changes_at q p"
  shows "q \<in> touched a \<union> touched b"
proof -
  from assms(2) obtain m where m: "prepare_move env a b (snd w) = (Done m, snd w')" "p = move_effect env req m"
    by (rule prepares_Inr)
  have "frame (touched a \<union> touched b) (run_move env m)" by (rule frame_move [OF assms(1,1) prepared_move_facts [OF m(1)]])
  note e = enacts_frame [OF this, of q]
  obtain x where "dget (kf_files (snd (snd (pe_enact p x)))) q \<noteq> dget (kf_files (snd x)) q" using assms(3) unfolding changes_at_def by blast
  then have "dget (kf_files (snd (snd (enacts (run_move env m) x)))) q \<noteq> dget (kf_files (snd x)) q" by (simp add: m(2) move_effect_def)
  with e show ?thesis by blast
qed

lemma with_target_at:
  assumes "with_target fa now right prep auth payload w = (Inr p, w')" and "changes_at q p"
  obtains req target where "file_target fa now auth right payload (fst w) = (Inr (req, Some target), fst w)"
    and "bound_target fa now auth payload (fst w) target" and "prep req target payload w = (Inr p, w')"
proof -
  obtain x reg where t: "file_target fa now auth right payload (fst w) = (x, reg)" by force
  have "\<not> changes_at q (denied_file req)" for req by (simp add: changes_at_def denied_file_def)
  with assms t obtain req target where x: "x = Inr (req, Some target)" and p: "prep req target payload (reg, snd w) = (Inr p, w')"
    by (auto simp: with_target_def split: sum.splits prod.splits option.splits)
  from file_target_bound [OF t [unfolded x]] t x p that [of req target] show thesis by simp
qed

lemma file_adapters_confined:
  assumes temps: "\<And>t. temps_beside (fa_journal fa) t" and ad: "dget (file_adapters fa now) right = Some ad"
    and prep: "ad auth payload w = (Inr p, w')" and at: "changes_at q p"
  shows "\<exists>target. bound_target fa now auth payload (fst w) target \<and> q \<in> touched target"
proof -
  from ad consider "ad = prepare_read fa now" | "ad = prepare_list fa now" | "ad = prepare_stat fa now"
    | "ad = prepare_write fa now" | "ad = prepare_delete fa now" | "ad = prepare_file_move fa now"
    by (auto simp: file_adapters_def split: if_splits)
  then show ?thesis
  proof cases
    case 1
    from prep [unfolded 1 prepare_read_def] at show ?thesis by (rule with_target_at) (use at in \<open>auto simp: changes_at_def reads_def\<close>)
  next
    case 2
    from prep [unfolded 2 prepare_list_def] at show ?thesis
      by (rule with_target_at) (use at in \<open>auto simp: changes_at_def reads_def value_error_def split: pyval.splits\<close>)
  next
    case 3
    from prep [unfolded 3 prepare_stat_def] at show ?thesis by (rule with_target_at) (use at in \<open>auto simp: changes_at_def reads_def\<close>)
  next
    case 4
    from prep [unfolded 4 prepare_write_def] at obtain req target raw where "bound_target fa now auth payload (fst w) target"
      "prepares (prepare_mutation (fa_journal fa) target) (change_effect (fa_journal fa) req (\<lambda>m. write_mutation (fa_journal fa) m raw)) w = (Inr p, w')"
      by (rule with_target_at) (auto simp: value_error_def split: pyval.splits option.splits if_splits)
    with change_at [OF temps _ this(2) at] show ?thesis by blast
  next
    case 5
    from prep [unfolded 5 prepare_delete_def] at obtain req target where "bound_target fa now auth payload (fst w) target"
      "prepares (prepare_mutation (fa_journal fa) target) (change_effect (fa_journal fa) req (delete_mutation (fa_journal fa))) w = (Inr p, w')"
      by (rule with_target_at) auto
    with change_at [OF temps _ this(2) at] show ?thesis by blast
  next
    case 6
    from prep [unfolded 6 prepare_file_move_def] at show ?thesis
    proof (rule with_target_at)
      fix req a
      assume a: "bound_target fa now auth payload (fst w) a"
        and p: "(case dget payload ''destination_selector'' of
          Some (VStr d) \<Rightarrow>
            (case file_target fa now auth ''files.move'' [(''resource'', raw_get payload ''resource'' VNone), (''selector'', VStr d)] (fst w) of
               (Inl e, reg) \<Rightarrow> (Inl e, (reg, snd w))
             | (Inr (_, None), reg) \<Rightarrow> (Inr (denied_file req), (reg, snd w))
             | (Inr (_, Some destination), reg) \<Rightarrow>
                 prepares (prepare_move (fa_journal fa) a destination) (move_effect (fa_journal fa) req) (reg, snd w))
        | _ \<Rightarrow> (value_error ''destination_selector must be a string'', w)) = (Inr p, w')"
      have "\<not> changes_at q (denied_file req)" for req by (simp add: changes_at_def denied_file_def)
      with p at obtain d req' b reg where
        t: "file_target fa now auth ''files.move'' [(''resource'', raw_get payload ''resource'' VNone), (''selector'', VStr d)] (fst w) = (Inr (req', Some b), reg)"
        and pr: "prepares (prepare_move (fa_journal fa) a b) (move_effect (fa_journal fa) req) (reg, snd w) = (Inr p, w')"
        by (auto simp: value_error_def split: option.splits pyval.splits sum.splits prod.splits)
      have "bound_target fa now auth payload (fst w) b" using file_target_bound [OF t] a by (auto simp: bound_target_def split: option.splits)
      with a move_at [OF temps pr at] show ?thesis by blast
    qed
  qed
qed


section \<open>Through the broker\<close>

lemma settle_keeps:
  assumes "settle inv_id auth p d br = (out, br')" and "\<And>w. obs (snd (snd (pe_enact p w))) = obs (snd w)"
    and "\<forall>ab rw. pe_abort p = Some ab \<longrightarrow> obs (snd (snd (ab rw))) = obs (snd rw)"
  shows "obs (br_world br') = obs (br_world br)"
proof (cases "pd_allowed d")
  case False
  then show ?thesis by (rule settle_quiet [OF assms(1) _ assms(3)])
next
  case True
  have "br_world br' = snd (snd (pe_enact p (br_state (if pd_observes d then br\<lparr>br_taint := dset inv_id (ac_taint auth \<union> pd_labels d) (br_taint br)\<rparr> else br))))"
    using assms(1) True by (auto simp: settle_def run_enact_def Let_def split: prod.splits sum.splits)
  then show ?thesis using assms(2) by (simp add: br_state_def)
qed

lemma fulfill_enacts:
  assumes f: "fulfill consume add approver now later inv_id m auth right payload br = (out, br')"
    and ask: "\<And>ask. approver = Some ask \<Longrightarrow> quiet_approver obs ask"
    and ad: "\<forall>r ad. dget (br_adapters br) r = Some ad \<longrightarrow> quiet_adapter obs ad"
    and changed: "obs (br_world br') \<noteq> obs (br_world br)"
  shows "\<exists>ad auth' p rw w. dget (br_adapters br) right = Some ad \<and> ac_digest auth' = ac_digest auth \<and>
    ad auth' payload (br_state br) = (Inr p, rw) \<and> obs (snd (snd (pe_enact p w))) \<noteq> obs (snd w)"
proof -
  obtain res br1 where b: "fulfill_begin inv_id auth right payload br = (res, br1)" by force
  have q: "obs (br_world br1) = obs (br_world br)" by (rule fulfill_begin_quiet(1) [OF b ad])
  show ?thesis
  proof (cases res)
    case (Inl e)
    with f b q changed show ?thesis by (auto simp: fulfill_def)
  next
    case (Inr ap)
    obtain auth' p where ap: "ap = (auth', p)" by (cases ap)
    with Inr b f have c: "fulfill_conclude consume add approver now later inv_id m auth' p br1 = (out, br')" by (simp add: fulfill_def)
    have ab: "\<forall>ab rw. pe_abort p = Some ab \<longrightarrow> obs (snd (snd (ab rw))) = obs (snd rw)"
      using fulfill_begin_quiet(2) [OF b ad] Inr ap by blast
    have "\<exists>w. obs (snd (snd (pe_enact p w))) \<noteq> obs (snd w)"
    proof (rule ccontr)
      assume "\<nexists>w. obs (snd (snd (pe_enact p w))) \<noteq> obs (snd w)"
      then have e: "obs (snd (snd (pe_enact p w))) = obs (snd w)" for w by blast
      have k: "settle i a p d br2 = (o', br3) \<Longrightarrow> obs (br_world br3) = obs (br_world br2)" for i a d br2 o' br3
        by (erule settle_keeps [OF _ e ab])
      have qa: "ask m auth' (pe_request p) d s = (r, rw) \<Longrightarrow> approver = Some ask \<Longrightarrow> obs (snd rw) = obs (snd s)" for ask d s r rw
        using ask unfolding quiet_approver_def by (metis snd_conv)
      from c have "obs (br_world br') = obs (br_world br1)"
      proof (cases rule: fulfill_conclude_cases)
        case (settled t d brd brs)
        then show ?thesis using k [OF settled(6)] decide_for_fields [OF settled(2)] qa decide_for_fields
          by (metis br_state_world)
      next
        case (asked ask d br2 rw)
        then show ?thesis using k [OF asked(5)] qa [OF asked(4,1)] decide_for_fields [OF asked(2)] by simp
      next
        case (stopped ask d br2 e l rw)
        then show ?thesis using qa decide_for_fields [OF stopped(2)] by (metis br_state_world put_state_fields(6))
      qed
      with q changed show False by simp
    qed
    moreover from fulfill_begin_fields(4) [OF b, of auth' p] Inr ap obtain ad rw where "ac_digest auth' = ac_digest auth"
      "dget (br_adapters br) right = Some ad" "ad auth' payload (br_state br) = (Inr p, rw)" by auto
    ultimately show ?thesis by blast
  qed
qed

lemma brokered_files_confined:
  fixes br br' :: "(kernel_binding, 's, kernel_files) broker"
  assumes "fulfill consume add approver now later inv_id m auth right payload br = (out, br')"
    and "br_adapters br = file_adapters fa t0" and "\<And>t. temps_beside (fa_journal fa) t"
    and ask: "\<And>ask. approver = Some ask \<Longrightarrow> quiet_approver kf_files ask"
    and "dget (kf_files (br_world br')) q \<noteq> dget (kf_files (br_world br)) q"
  shows "\<exists>target. bound_target fa t0 auth payload (en_resources (br_engine br)) target \<and> q \<in> touched target"
proof -
  let ?obs = "\<lambda>w. dget (kf_files w) q"
  have "quiet_adapter kf_files ad \<Longrightarrow> quiet_adapter ?obs ad" for ad :: "(kernel_binding, kernel_files) adapter"
    unfolding quiet_adapter_def by metis
  then have qd: "\<forall>r ad. dget (br_adapters br) r = Some ad \<longrightarrow> quiet_adapter ?obs ad"
    unfolding assms(2) using file_adapters_quiet by blast
  have qa: "approver = Some ask \<Longrightarrow> quiet_approver ?obs ask" for ask using ask [of ask] unfolding quiet_approver_def by simp
  from fulfill_enacts [OF assms(1) qa qd assms(5)] obtain ad auth' p rw w where
    1: "dget (file_adapters fa t0) right = Some ad" "ac_digest auth' = ac_digest auth"
    "ad auth' payload (br_state br) = (Inr p, rw)" "?obs (snd (snd (pe_enact p w))) \<noteq> ?obs (snd w)"
    unfolding assms(2) by blast
  from 1(4) have "changes_at q p" unfolding changes_at_def by blast
  from file_adapters_confined [OF assms(3) 1(1,3) this] 1(2) show ?thesis by (simp add: bound_target_def br_state_def)
qed

end
