(* ===== verification/FileSamples.thy ===== *)
theory FileSamples
  imports KernelFiles Scenarios
begin

text \<open>
  A small file kernel used to exercise the theorems: a directory with one file, an environment whose
  temporary names are longer than every name there is, a reference for the directory and the lease that
  lets one plugin write below it.
\<close>

section \<open>An environment\<close>

definition longest_name :: "filesystem \<Rightarrow> nat" where
  "longest_name fs = fold max (map (\<lambda>q. length (last q)) (dkeys fs)) 0"

definition long_temp :: "filesystem \<Rightarrow> path \<Rightarrow> path" where
  "long_temp fs p = butlast p @ [last p @ ''.'' @ replicate (longest_name fs) (CHR ''x'')]"

definition demo_journal_env :: journal_env where
  "demo_journal_env = \<lparr>je_gen = (\<lambda>n. ''t'' @ show_nat n), je_temp = long_temp, je_sha = id, je_text = join_with ''/''\<rparr>"

lemma fold_max_ge: "(m :: nat) \<le> fold max ns m \<and> (n \<in> set ns \<longrightarrow> n \<le> fold max ns m)"
proof (induction ns arbitrary: m)
  case (Cons a ns)
  from Cons.IH [of "max a m"] show ?case by auto
qed simp

lemma long_temp_apart: "p \<noteq> [] \<Longrightarrow> temps_apart demo_journal_env {p}"
proof -
  assume p: "p \<noteq> []"
  have "dget fs (long_temp fs p) = None" for fs
  proof (rule ccontr)
    assume "dget fs (long_temp fs p) \<noteq> None"
    then have "long_temp fs p \<in> set (dkeys fs)" by (simp add: map_of_eq_None_iff)
    then have "length (last (long_temp fs p)) \<le> longest_name fs"
      using fold_max_ge [of 0 "map (\<lambda>q. length (last q)) (dkeys fs)"] unfolding longest_name_def by (metis (no_types, lifting) image_eqI list.set_map)
    then show False by (simp add: long_temp_def)
  qed
  moreover have "\<not> prefix (long_temp fs p) p" for fs
  proof
    assume "prefix (long_temp fs p) p"
    moreover have "length (long_temp fs p) = length p" using p by (simp add: long_temp_def)
    ultimately have "long_temp fs p = p" by (metis append_Nil2 append_eq_append_conv prefixE)
    with p have "last p @ ''.'' @ replicate (longest_name fs) (CHR ''x'') = last p"
      unfolding long_temp_def by (metis append_butlast_last_id last_snoc)
    then show False by simp
  qed
  ultimately show ?thesis by (simp add: temps_apart_def demo_journal_env_def Let_def long_temp_def)
qed

lemma long_temp_beside: "temps_beside demo_journal_env p"
  by (simp add: temps_beside_def demo_journal_env_def long_temp_def)


section \<open>A write that is cut off\<close>

definition demo_kernel :: kernel_files where
  "demo_kernel = \<lparr>kf_files = [([''w''], Directory), ([''w'', ''a''], RegularFile ''old'')], kf_journal = [], kf_verdicts = [], kf_draws = 0\<rparr>"

definition demo_mutation :: mutation where
  "demo_mutation = (case fst (prepare_mutation demo_journal_env [''w'', ''a''] demo_kernel) of Done m \<Rightarrow> m)"

lemma demo_prepared:
  "\<exists>st. prepare_mutation demo_journal_env [''w'', ''a''] demo_kernel = (Done demo_mutation, st) \<and>
    st = snd (prepare_mutation demo_journal_env [''w'', ''a''] demo_kernel)"
proof -
  have "(case fst (prepare_mutation demo_journal_env [''w'', ''a''] demo_kernel) of Done m \<Rightarrow> True | _ \<Rightarrow> False)" by code_simp
  then show ?thesis unfolding demo_mutation_def
    by (cases "prepare_mutation demo_journal_env [''w'', ''a''] demo_kernel") (auto split: ran.splits)
qed

lemma demo_kernel_ok: "journal_quiet demo_kernel" "rooted (kf_files demo_kernel)" "\<not> blocked (kf_files demo_kernel) [''w'', ''a'']"
  by (simp add: journal_quiet_def demo_kernel_def) code_simp+

text \<open>The process dies after the new bytes are in place and before the record says so.\<close>

definition demo_cut :: kernel_files where
  "demo_cut = snd (write_mutation demo_journal_env demo_mutation ''new''
     ((snd (prepare_mutation demo_journal_env [''w'', ''a''] demo_kernel))\<lparr>kf_verdicts := [Works, Works, Works, Works, Dies]\<rparr>))"

lemma demo_cut_off:
  "(case fst (write_mutation demo_journal_env demo_mutation ''new''
      ((snd (prepare_mutation demo_journal_env [''w'', ''a''] demo_kernel))\<lparr>kf_verdicts := [Works, Works, Works, Works, Dies]\<rparr>)) of
     Crashed \<Rightarrow> True | _ \<Rightarrow> False)"
  "dget (kf_files demo_cut) [''w'', ''a''] = Some (RegularFile ''new'')"
  by code_simp+


section \<open>A write through the broker\<close>

fun walk_to :: "path \<Rightarrow> string list \<Rightarrow> path" where
  "walk_to p [] = p"
| "walk_to p (s # ss) = walk_to (if s = '''' \<or> s = ''.'' then p else if s = ''..'' then butlast p else p @ [s]) ss"

definition demo_file_adapter :: file_adapter where
  "demo_file_adapter = make_adapter \<lparr>fa_journal = demo_journal_env, fa_resolve = walk_to, fa_encode = (\<lambda>s _. Some s),
     fa_decode = (\<lambda>b _. Some b), fa_str = (\<lambda>v. case v of VStr s \<Rightarrow> s | _ \<Rightarrow> ''''), fa_size = (\<lambda>_. 0), fa_mtime = (\<lambda>_. 0),
     fa_max_read = 4096, fa_max_write = 4096, fa_max_list = 100\<rparr>"

definition demo_docs :: "kernel_binding registry" where
  "demo_docs = snd (issue (\<lambda>_. ''tok'') ''d1'' ''user'' [''files.write''] ''docs/*'' ''docs'' {} None None None None 0
     (Some (PathBinding [''w''])) empty_registry)"

definition file_manifest :: plugin_manifest where
  "file_manifest = demo_manifest\<lparr>pm_capabilities := [\<lparr>cp_right = ''files.write'', cp_resource = ''docs/*'', cp_destinations = [],
     cp_labels = [], cp_constraints = []\<rparr>]\<rparr>"

definition file_lease :: grant_lease where
  "file_lease = (demo_lease None)\<lparr>gl_right := ''files.write'', gl_selector := ''docs/*'', gl_destination := ''''\<rparr>"

definition write_payload :: "string \<Rightarrow> payload" where
  "write_payload sel = [(''resource'', VStr ''tok''), (''selector'', VStr sel), (''content'', VStr ''new'')]"

definition file_broker :: "(kernel_binding, lease_table, kernel_files) broker" where
  "file_broker = \<lparr>br_engine = \<lparr>en_resources = demo_docs, en_leases = [(file_lease, 0)], en_audit = []\<rparr>,
     br_adapters = file_adapters demo_file_adapter 1, br_taint = [], br_world = demo_kernel\<rparr>"

abbreviation file_fulfill :: "string \<Rightarrow> outcome \<times> (kernel_binding, lease_table, kernel_files) broker" where
  "file_fulfill sel \<equiv> fulfill sql_find_and_consume sql_lease_add None 1 2 ''i1'' file_manifest demo_authority
     ''files.write'' (write_payload sel) file_broker"

lemma file_leases_wf: "lease_table_wf (en_leases (br_engine file_broker))"
  by (simp add: lease_table_wf_def file_broker_def)

lemma file_written:
  "(case file_fulfill ''docs/a'' of (Value v, br) \<Rightarrow> dget (kf_files (br_world br)) [''w'', ''a''] = Some (RegularFile ''new'') | _ \<Rightarrow> False)"
  by code_simp

text \<open>A selector the reference does not cover is refused before a path exists for it; one that climbs out of the binding raises.\<close>

lemma file_outside_refused:
  "(case file_fulfill ''other/a'' of (Denied r e, br) \<Rightarrow> kf_files (br_world br) = kf_files demo_kernel | _ \<Rightarrow> False)"
  "(case file_fulfill ''docs/../../etc/passwd'' of (Raised e, br) \<Rightarrow> exn_type e = ''PermissionError'' | _ \<Rightarrow> False)"
  by code_simp+


section \<open>Two things the journal leaves behind\<close>

text \<open>
  A write that fails after its directories were made puts the target back but keeps the directories:
  the rollback removes them while the temporary file is still inside, and the file is unlinked after it.
\<close>

definition demo_new :: mutation where
  "demo_new = (case fst (prepare_mutation demo_journal_env [''w'', ''d'', ''n''] demo_kernel) of Done m \<Rightarrow> m)"

lemma failed_write_keeps_directory:
  "(let r = write_mutation demo_journal_env demo_new ''x''
        ((snd (prepare_mutation demo_journal_env [''w'', ''d'', ''n''] demo_kernel))\<lparr>kf_verdicts := [Works, Works, Works, Works, Fails]\<rparr>)
    in (case fst r of Raises e \<Rightarrow> True | _ \<Rightarrow> False) \<and> mu_parents demo_new = [[''w'', ''d'']] \<and>
       dget (kf_files (snd r)) [''w'', ''d''] = Some Directory \<and> dget (kf_files (snd r)) [''w'', ''d'', ''n''] = None \<and>
       length (kf_files (snd r)) = 3)"
  by code_simp

text \<open>
  A write below a regular file: preparing works, since the path does not exist; making its directories
  raises outside the \<open>try\<close>, so the record stays \<open>applying\<close>; and the recovery of the next start raises
  \<open>NotADirectoryError\<close> from the unlink, which only ignores a missing file. The start of the kernel calls
  the recovery unguarded.
\<close>

definition demo_below :: mutation where
  "demo_below = (case fst (prepare_mutation demo_journal_env [''w'', ''a'', ''b''] demo_kernel) of Done m \<Rightarrow> m)"

lemma write_below_file_blocks_recovery:
  "(let st = snd (write_mutation demo_journal_env demo_below ''x'' (snd (prepare_mutation demo_journal_env [''w'', ''a'', ''b''] demo_kernel)));
        r = recover_incomplete demo_journal_env st
    in (case fst r of Raises e \<Rightarrow> exn_type e = ''NotADirectoryError'' | _ \<Rightarrow> False) \<and>
       (case fst (recover_incomplete demo_journal_env (snd r)) of Raises e \<Rightarrow> exn_type e = ''NotADirectoryError'' | _ \<Rightarrow> False))"
  by code_simp

end
