(* ===== verification/Spec2Isabelle.thy ===== *)
theory Spec2Isabelle
  imports Samples EffectSamples TurnSamples FileSamples
begin

text \<open>
  Second Brain is a personal assistant built as a kernel with plugins, written in Python. This
  development models the kernel: who may do what (\<open>security/\<close>, \<open>effects/\<close>, \<open>sandbox/\<close>), how a conversation
  between the user and the agent advances (\<open>state_machine/\<close>, the agent loop and the hooks of \<open>runtime/\<close>), and how
  files flow through the task pipeline (\<open>pipeline/\<close>). All paths are below \<open>src/\<close>.

  \<^bold>\<open>How the parts interact.\<close> A plugin reaches the outside through one of two doors. A plugin of the capability
  contract asks the broker, which has the policy engine decide on the manifest, the resource references, the
  leases and the taint of the invocation, asks a human once if a lease is missing, and lets an adapter enact or
  abort. A plugin of the effects contract yields requests, which the interpreter checks against its
  declarations, gates, fulfils and journals; the body runs in the process or in a child behind a pipe. The agent
  loop asks the model for a move, enacts it through the conversation state machine, writes down the rows and
  ends the turn; its rows are what the next start of the program reads back. The pipeline's watcher reports
  files, the orchestrator queues, claims and dispatches the tasks that read them, and invalidates what was
  derived from a result that no longer holds.

  \<^bold>\<open>Foundations.\<close>
  \<^item> \<open>Prelude\<close>: dictionaries as association lists in insertion order, exceptions as \<open>Inl (PyExn type message)\<close>,
    strings, the collections of rewrite rules. \<open>PyValue\<close>: dynamically typed values with truth, equality and conversion.

  \<^bold>\<open>Security.\<close>
  \<^item> \<open>Manifest\<close> (\<open>security/manifest.py\<close>), \<open>Capabilities\<close> (\<open>vocabulary.py\<close>, the data of \<open>capabilities.py\<close>), \<open>Registry\<close>
    (the resource registry, and the locale of token registries), \<open>Leases\<close> (the in-memory and the durable lease
    store, and the contract of lease stores as a locale interpreted on both), \<open>Policy\<close> (the reference monitor),
    \<open>Broker\<close> (\<open>broker.py\<close>, proved once over the lease contract), \<open>Artifacts\<close> (digests, dependency locks, signatures),
    \<open>Delegation\<close>, \<open>PluginData\<close> (\<open>data.py\<close>), \<open>Secrets\<close>, \<open>Trust\<close>.
  \<^item> \<open>FileJournal\<close> (\<open>security/file_journal.py\<close>: every system call works, fails or is where the process dies, by a list of
    verdicts; so a crash is a value of the model), \<open>FileRecovery\<close> (triples over such runs, and two locales: the
    journal of one mutation, and a change that can be undone, interpreted on the mutations of the code), \<open>KernelFiles\<close>
    (\<open>security/file_adapter.py\<close>, the adapters the broker drives). The name of a temporary file is a parameter,
    assumed new, beside its file and apart from what a journal is about.

  \<^bold>\<open>Conversation.\<close>
  \<^item> \<open>Conversation\<close>, \<open>Forms\<close>, \<open>Actions\<close>, \<open>Enact\<close>: the state \<open>conv_state\<close>, form fields, every action with its guards, and
    \<open>enact\<close>. \<open>StateMachine\<close>: the invariant \<open>conv_ok\<close> and termination; \<open>Flows\<close>: failures, approvals and forms.
  \<^item> \<open>Serialization\<close> (\<open>state_machine/serialization.py\<close>): saved rows, checkpoints, and the repair of a history.
  \<^item> \<open>Hooks\<close> (\<open>runtime/hooks.py\<close>), \<open>AgentLoop\<close> (\<open>runtime/conversation_loop.py\<close>), \<open>TurnProofs\<close> (its invariants, as one
    locale interpreted for each), \<open>TokenFilter\<close> (\<open>runtime/token_stripper.py\<close>).

  \<^bold>\<open>Pipeline.\<close>
  \<^item> \<open>Database\<close>, \<open>TaskQueue\<close> (\<open>pipeline/database.py\<close>: tables, and the two queues as one locale), \<open>PriorityLock\<close> (its lock,
    every schedule a list of events), \<open>Orchestrator\<close>, \<open>Dispatch\<close>, \<open>Pipeline\<close> (\<open>pipeline/orchestrator.py\<close>).

  \<^bold>\<open>Effects.\<close>
  \<^item> \<open>Vocabulary\<close> (\<open>effects/vocabulary.py\<close>, \<open>declarations.py\<close>), \<open>FileEffects\<close> (\<open>fs_search.py\<close> and the file requests), \<open>Effects\<close>
    (\<open>effects/interpreter.py\<close> and the gate and context of \<open>plugins/EffectsContract.py\<close>), \<open>Sandbox\<close> (\<open>sandbox/driver.py\<close>,
    \<open>local.py\<close>, the pump of \<open>runner.py\<close>, the pool of \<open>worker.py\<close>).

  \<open>Scenarios\<close>, \<open>Samples\<close>, \<open>EffectSamples\<close>, \<open>TurnSamples\<close> and \<open>FileSamples\<close> hold the concrete states the theorems are applied to, and
  lemmas on concrete inputs that show where the code does not do what it says.

  \<^bold>\<open>What this file shows.\<close> Security: effects and successes are decided, audited and tainted; budgets bound grants;
  delegation only narrows; a digest fixes the content; data of an undone turn is restored,
  a file change cut off by a crash is undone at the next start, and a brokered file change stays in what was granted. Conversation: the
  state stays well formed under every action, failures are reported, the turn is respected, a guarded command
  runs only when approved, \<open>enact\<close> ends, and a saved conversation resumes. Pipeline: no work is handed out
  twice, the queue drains in the order of the index and refines an abstract map, gates, limits and slots hold under
  every interleaving, and invalidation reaches exactly the closure. Lock and rows: mutual exclusion with
  priority and progress, the cuts of a stream do not matter, saved rows read back. Effects: nothing changes
  undeclared, unapproved or outside the roots, a turn rolls back, and both run modes agree. Agent loop: rows
  are whole pairs, tool limits hold, the turn is bounded and handed back.

  \<^bold>\<open>Bounds and fuel.\<close> \<open>enact\<close> recurses with the height of the phase stack as fuel, which is proved enough
  (\<open>StateMachine.enact_fuel\<close>). The walk of \<open>Dispatch.delete_file\<close> and the walks of directories recurse over the nesting. The
  agent loop recurses over its own iteration count, four times the tool calls allowed and four more. \<open>Sandbox.drive\<close>
  and \<open>Sandbox.pump\<close> run a body that may never end and are partial functions: \<open>None\<close> is not returning. Everything
  else recurses structurally or with a proved measure.

  \<^bold>\<open>Parameters.\<close> TOML, JSON, hashing, Ed25519, the Python parser, SQL beyond the statements written out, HTTP,
  processes, model and embedding services, the clock, random tokens, and the handlers of plugins are arguments of the
  definitions that use them. Operations that hold a lock are one step; where a lock is released, at an \<open>await\<close> or a
  model call, other threads may act in between. Characters are those of Isabelle's \<open>char\<close>; texts for people and
  for the model are shortened or written in ASCII. Floats are rationals.

  \<^bold>\<open>Not modelled.\<close> Frontends, commands and the conversation runtime around the loop (threads, sessions, streams to
  the screen); plugin discovery and packages; the network, output, hook and activation adapters behind the broker; the
  file watcher, event bus and triggers; users, the action ledger's queries and conversations in the database; the
  child process's import hooks and limits; prompts, attachments and configuration. They are input and output,
  process control or glue around libraries, or they are left for later.
\<close>

section \<open>Security: the capability kernel\<close>





text \<open>C3: A refused request consumes nothing: the leases are untouched, no reference appears, and the refusal
  says that a lease is missing exactly when everything else about the request was in order.\<close>

theorem refusal_consumes_nothing:
  assumes "lease_table_wf (en_leases eng)" and "decide sql_find_and_consume m now auth req facts eng = (d, eng')"
    and "\<not> pd_allowed d"
  shows "en_leases eng' = en_leases eng \<and> ref_of (en_resources eng') \<subseteq>\<^sub>m ref_of (en_resources eng) \<and>
    (pd_reason d = no_lease_reason \<longleftrightarrow> authorised m now auth req (en_resources eng))"
  using durable_leases.decide_denied [OF assms] by blast

theorem refusal_consumes_nothing_witness:
  "en_leases (snd (decide sql_find_and_consume demo_manifest 1 demo_authority (demo_request\<lparr>rq_destination := ''evil.org''\<rparr>)
     demo_facts (br_engine (demo_broker demo_rows)))) = demo_rows"
proof -
  let ?d = "decide sql_find_and_consume demo_manifest 1 demo_authority (demo_request\<lparr>rq_destination := ''evil.org''\<rparr>)
     demo_facts (br_engine (demo_broker demo_rows))"
  have d: "?d = (fst ?d, snd ?d)" by simp
  have "\<not> pd_allowed (fst ?d)" by code_simp
  from refusal_consumes_nothing [OF _ d this] demo_rows_wf show ?thesis by (simp add: demo_broker_def)
qed

text \<open>C4: A lease with a counted budget authorises at most that many requests, whatever sequence of requests
  is made and however the other leases answer.\<close>

theorem lease_budget_bounds_grants:
  assumes "lease_table_wf rows" and "sql_lease_budget rows lid = Some n" and "0 \<le> n"
  shows "int (fst (lease_grants sql_find_and_consume lid rows reqs)) \<le> n"
  using durable_leases.grants_bounded [OF assms] .

theorem lease_budget_bounds_grants_witness:
  "fst (lease_grants sql_find_and_consume ''l1'' demo_rows (replicate 5 (1, demo_authority, demo_request, {USER_PRIVATE}))) = 2"
proof -
  let ?g = "lease_grants sql_find_and_consume ''l1'' demo_rows (replicate 5 (1, demo_authority, demo_request, {USER_PRIVATE}))"
  have "sql_lease_budget demo_rows ''l1'' = Some 2" by code_simp
  from lease_budget_bounds_grants [OF demo_rows_wf this, of "replicate 5 (1, demo_authority, demo_request, {USER_PRIVATE})"]
  have "fst ?g \<le> 2" by simp
  moreover have "fst ?g \<ge> 2" by code_simp
  ultimately show ?thesis by simp
qed




text \<open>C6: A delegation that fails leaves nothing behind: unless the failure is the cycle check, which comes after
  the references were created, every reference of the registry afterwards was there before.\<close>

theorem failed_delegation_leaves_nothing:
  assumes "delegate gen now later parent child handler requested unattended reg = (Inl e, reg')"
    and "\<And>c. e \<noteq> ProvenanceFailed c"
  shows "ref_of reg' \<subseteq>\<^sub>m ref_of reg"
  using delegate_all_or_nothing [OF assms] .

theorem failed_delegation_leaves_nothing_witness:
  "ref_of (snd (delegate demo_gen 1 2 demo_parent demo_artifact demo_handler (demo_delegated [''docs/a'', ''secrets''])
     False demo_registry)) \<subseteq>\<^sub>m ref_of demo_registry"
proof -
  let ?d = "delegate demo_gen 1 2 demo_parent demo_artifact demo_handler (demo_delegated [''docs/a'', ''secrets'']) False demo_registry"
  have c: "(case fst ?d of Inl (PermissionError m) \<Rightarrow> True | _ \<Rightarrow> False)" by code_simp
  then obtain m where "?d = (Inl (PermissionError m), snd ?d)"
    by (cases ?d) (auto split: sum.splits delegation_error.splits)
  then show ?thesis by (rule failed_delegation_leaves_nothing) simp
qed



text \<open>C8: The digest of an artifact binds its content: two directories that build to the same digest have the
  same files with the same bytes, provided the hash does not collide on the contents and the two streams in
  question; in particular no renaming, truncation or regrouping of bytes between names and contents goes
  unnoticed.\<close>

theorem digest_binds_content:
  assumes "build_artifact sha toml fl max_total_bytes loc tree = Inr a"
    and "build_artifact sha toml fl' max_total_bytes loc' tree' = Inr a'"
    and "ai_digest (pa_identity a) = ai_digest (pa_identity a')"
    and "\<And>raw. raw \<in> snd ` (set (artifact_entries tree) \<union> set (artifact_entries tree')) \<Longrightarrow> length (sha raw) = 32"
    and "inj_on sha (snd ` (set (artifact_entries tree) \<union> set (artifact_entries tree')))"
    and "inj_on sha {artifact_stream sha tree, artifact_stream sha tree'}"
  shows "artifact_entries tree = artifact_entries tree' \<and> pa_files a = pa_files a' \<and>
         pa_total_bytes a = pa_total_bytes a'"
  using artifact_identity_binds [OF assms] .

theorem digest_binds_content_witness:
  "\<exists>a. build_artifact demo_sha demo_toml 4096 max_total_bytes ''/plugins/demo'' demo_tree = Inr a \<and> pa_files a = pa_files a"
proof -
  obtain a where b: "build_artifact demo_sha demo_toml 4096 max_total_bytes ''/plugins/demo'' demo_tree = Inr a"
    using demo_built by blast
  have "inj_on demo_sha {[1], [2]}" "\<And>raw. raw \<in> {[1], [2]} \<Longrightarrow> length (demo_sha raw) = 32"
    by (auto simp: demo_sha_def)
  then have "pa_files a = pa_files a"
    using digest_binds_content [OF b b refl] by (simp add: demo_entries insert_commute)
  with b show ?thesis by blast
qed

text \<open>A dependency lock that loads pins every package: each locked artifact is a file of the plugin with
  exactly the digest the lock names, no two entries share a normalised name or an artifact, and no wheel lies
  in the directory that the lock does not name.\<close>

lemma loaded_lock_pins_packages:
  assumes "load_dependency_lock sha toml tree = Inr lock"
  shows "(\<forall>p \<in> set (dl_packages lock). relative_posix (lp_artifact p) \<and> matches_sha256 (lp_sha256 p) \<and>
        (\<exists>raw. file_at tree (lp_artifact p) = Some raw \<and> hex_bytes (sha raw) = lp_sha256 p)) \<and>
     distinct (map (normalized_name \<circ> lp_name) (dl_packages lock)) \<and>
     distinct (map lp_artifact (dl_packages lock)) \<and>
     (\<forall>path \<in> set (all_files '''' tree). suffix ''.whl'' path \<longrightarrow> path \<in> lp_artifact ` set (dl_packages lock))"
  using load_dependency_lock_ok [OF assms] by (simp add: lock_ok_def)

lemma loaded_lock_pins_packages_demo:
  "\<forall>path \<in> set (all_files '''' demo_tree). \<not> suffix ''.whl'' path"
  using loaded_lock_pins_packages [OF demo_locked] by auto

text \<open>A secret is resolved only for the plugin it was issued to, for a destination its selector contains,
  and before it expires; then the result is the value that was issued.\<close>

lemma secret_bound_to_holder:
  assumes "secret_issue gen digest destination value expires reg = (Inr ref, reg')"
  shows "fst (secret_resolve now (sr_token ref) caller dest reg') = Inr v \<longleftrightarrow>
     v = value \<and> caller = digest \<and> selector_contains destination dest \<and>
     (\<forall>e. expires = Some e \<longrightarrow> now < e)"
  using secret_issued [OF assms] .

lemma secret_bound_to_holder_demo:
  "\<exists>ref reg'. secret_issue demo_gen ''d1'' ''example.org'' ''hunter2'' (Some 10) empty_secrets = (Inr ref, reg') \<and>
     fst (secret_resolve 9 (sr_token ref) ''d1'' ''example.org'' reg') = Inr ''hunter2'' \<and>
     fst (secret_resolve 9 (sr_token ref) ''d2'' ''example.org'' reg') \<noteq> Inr ''hunter2'' \<and>
     fst (secret_resolve 10 (sr_token ref) ''d1'' ''example.org'' reg') \<noteq> Inr ''hunter2''"
proof -
  obtain ref reg' where i: "secret_issue demo_gen ''d1'' ''example.org'' ''hunter2'' (Some 10) empty_secrets = (Inr ref, reg')"
    by (simp add: secret_issue_def Let_def)
  from secret_bound_to_holder [OF i] i show ?thesis by (simp add: selector_contains_refl)
qed

text \<open>A store signature that verifies was made over this artifact by a trusted key: the key is one of the
  configured ones, filed under the digest of its own bytes, and the message it signed is the artifact's
  identity and no other's.\<close>

lemma verified_signature_binds:
  assumes "make_verifier sha public_key trusted = Inr keys"
    and "verify_signature ed_verify keys a parsed = Inr s"
  shows "\<exists>raw k. (ss_key_id s, raw) \<in> set trusted \<and> hex_bytes (sha raw) = ss_key_id s \<and> public_key raw = Some k \<and>
      ed_verify k (ss_signature s) (signature_message (pa_identity a)) \<and>
      (\<forall>i. matches_sha256 (ai_digest i) \<and> signature_message i = signature_message (pa_identity a) \<longrightarrow> i = pa_identity a)"
  using verified_signature [OF assms] .

lemma verified_signature_binds_demo:
  "\<exists>keys s. make_verifier demo_sha Some [demo_key] = Inr keys \<and>
     verify_signature (\<lambda>k sig msg. k = snd demo_key) keys demo_artifact (Inr demo_signature) = Inr s \<and>
     (ss_key_id s, snd demo_key) \<in> set [demo_key]"
proof -
  obtain keys where k: "make_verifier demo_sha Some [demo_key] = Inr keys" using demo_keys ..
  obtain s where s: "verify_signature (\<lambda>k sig msg. k = snd demo_key) keys demo_artifact (Inr demo_signature) = Inr s"
    using demo_signed [OF k] ..
  from verified_signature_binds [OF k s] k s show ?thesis by (auto simp: prod_eq_iff)
qed

text \<open>C9: A plugin's data survives an undone turn: rolling back the transactions of any sequence of writes and
  deletions, last first, leaves every row and every transaction still pending as they were before it, the
  operations that failed in between included.\<close>

theorem undone_turn_restores_data:
  assumes "apply_all (apply_kv gen) ops st = (tids, st')"
  shows "dget (ds_rows (undo_all store_rollback (rev tids) st')) = dget (ds_rows st) \<and>
    kv_pending (undo_all store_rollback (rev tids) st') = kv_pending st"
  using plugin_data.undo_restores [OF assms] by (simp add: kv_view_def)

theorem undone_turn_restores_data_witness:
  "let (tids, st) = apply_all (apply_kv demo_gen)
       [Put 1 (''p'', ''ns'', ''k'') (VInt 1) {} None, Put 2 (''p'', ''ns'', ''k'') (VInt 2) {} (Some 7), Delete 3 (''p'', ''ns'', ''k'') None] empty_store
   in length tids = 2 \<and> dget (ds_rows (undo_all store_rollback (rev tids) st)) (''p'', ''ns'', ''k'') = None"
proof -
  let ?ops = "[Put 1 (''p'', ''ns'', ''k'') (VInt 1) {} None, Put 2 (''p'', ''ns'', ''k'') (VInt 2) {} (Some 7), Delete 3 (''p'', ''ns'', ''k'') None]"
  obtain tids st where a: "apply_all (apply_kv demo_gen) ?ops empty_store = (tids, st)" by force
  have "length (fst (apply_all (apply_kv demo_gen) ?ops empty_store)) = 2" by code_simp
  with a undone_turn_restores_data [OF a] show ?thesis by (simp add: empty_store_def)
qed





section \<open>The conversation state machine\<close>

text \<open>C12: An action, legal or not, whatever its handlers do within their contract, leaves the conversation
  well formed: the turn belongs to a participant of the roster, and the phase is the one on top of the stack,
  or the base phase exactly when the stack is empty.\<close>

theorem conversation_stays_well_formed:
  assumes "handlers_ok env" and "conv_ok cs" and "enact env a content who cs = (r, cs')"
  shows "dget (cs_participants cs') (cs_turn_priority cs') \<noteq> None \<and> cs_turn_order cs' = dkeys (cs_participants cs') \<and>
    cs_phase cs' = (if cs_frames cs' = [] then base_phase else fr_phase (last (cs_frames cs')))"
proof -
  from enact_ok [OF assms(1,2), of a content who] assms(3) have "conv_ok cs'" by simp
  then have "cs_turn_priority cs' \<in> dom (dget (cs_participants cs'))"
    by (simp add: conv_ok_def roster_ok_def dom_map_of_conv_image_fst)
  with \<open>conv_ok cs'\<close> show ?thesis by (auto simp: conv_ok_def roster_ok_def stack_ok_def)
qed

theorem conversation_stays_well_formed_witness:
  "dget (cs_participants demo_pending) (cs_turn_priority demo_pending) \<noteq> None \<and>
   cs_phase demo_pending = fr_phase (last (cs_frames demo_pending))"
proof -
  have "enact demo_env ''call_command'' wipe_call None demo_conv =
    (fst (enact demo_env ''call_command'' wipe_call None demo_conv), demo_pending)" by (simp add: demo_pending_def)
  from conversation_stays_well_formed [OF demo_handlers_ok demo_conv_ok(1) this] show ?thesis
    by (simp add: demo_pending_facts)
qed

text \<open>C13: A failure is never silent: an unsuccessful result carries an error, the state remembers that error as
  its last one, the message shown is the error's, and the history ends with an error event.\<close>

theorem failures_are_reported:
  assumes "enact env a content who cs = (r, cs')" and "\<not> ar_ok r"
  shows "\<exists>e. ar_error r = Some e \<and> cs_last_error cs' = Some e \<and> ar_message r = Some (er_message e) \<and>
    cs_history cs' \<noteq> [] \<and> dget (last (cs_history cs')) ''type'' = Some (VStr ''error'')"
  using enact_reported [OF assms(1)] assms(2) by (simp add: reported_def)

theorem failures_are_reported_witness:
  "cs_last_error (snd (enact demo_env ''call_command'' (VDict [(''name'', VStr ''nope'')]) None demo_conv)) \<noteq> None"
proof -
  let ?e = "enact demo_env ''call_command'' (VDict [(''name'', VStr ''nope'')]) None demo_conv"
  have "?e = (fst ?e, snd ?e)" by simp
  moreover have "\<not> ar_ok (fst ?e)" by code_simp
  ultimately have "\<exists>e. ar_error (fst ?e) = Some e \<and> cs_last_error (snd ?e) = Some e \<and>
    ar_message (fst ?e) = Some (er_message e) \<and> cs_history (snd ?e) \<noteq> [] \<and>
    dget (last (cs_history (snd ?e))) ''type'' = Some (VStr ''error'')" by (rule failures_are_reported)
  then show ?thesis by auto
qed

text \<open>C14: A participant who does not hold the turn changes nothing: any action known in the phase is refused
  with the wrong-turn error, and apart from the error on record the conversation is as it was.\<close>

theorem only_turn_holder_acts:
  assumes "dget (cs_participants cs) actor \<noteq> None" and "actor \<noteq> []" and "actor \<noteq> cs_turn_priority cs"
    and "create_action cs a \<noteq> InvalidAction" and "enact env a content (Some actor) cs = (r, cs')"
  shows "\<exists>e ev. \<not> ar_ok r \<and> er_code e = ''wrong_turn'' \<and>
    cs' = cs\<lparr>cs_last_error := Some e, cs_history := cs_history cs @ [ev]\<rparr>"
proof -
  note i = illegal_isolated [OF wrong_turn_refused [OF assms(1-4)] assms(5)]
  from i(3) obtain ev where "cs' = cs\<lparr>cs_last_error := Some (make_error cs ''wrong_turn''
      (''It is not this participant'' @ [CHR 0x27] @ ''s turn.'') []), cs_history := cs_history cs @ [ev]\<rparr>" ..
  moreover have "er_code (make_error cs ''wrong_turn'' msg []) = ''wrong_turn''" for msg by (simp add: make_error_def)
  ultimately show ?thesis using i(1) by blast
qed

theorem only_turn_holder_acts_witness:
  "cs_phase (snd (enact demo_env ''answer_approval'' (VBool True) (Some ''user'') demo_pending)) = approving_request \<and>
   cs_attachments (snd (enact demo_env ''answer_approval'' (VBool True) (Some ''user'') demo_pending)) = []"
proof -
  let ?e = "enact demo_env ''answer_approval'' (VBool True) (Some ''user'') demo_pending"
  have e: "?e = (fst ?e, snd ?e)" by simp
  have p: "dget (cs_participants demo_pending) ''user'' \<noteq> None" by code_simp
  have a: "create_action demo_pending ''answer_approval'' \<noteq> InvalidAction"
    by (simp add: answer_action demo_pending_facts)
  have t: "''user'' \<noteq> cs_turn_priority demo_pending" by (simp add: demo_pending_facts)
  from only_turn_holder_acts [OF p _ t a e] obtain er ev where
    "snd ?e = demo_pending\<lparr>cs_last_error := Some er, cs_history := cs_history demo_pending @ [ev]\<rparr>" by auto
  then show ?thesis by (simp add: demo_pending_facts)
qed




text \<open>C16: A denied request is dropped: nothing is called (no event leaves, no attachment changes), the stack is
  empty, the phase is the base phase, and the turn is back with the participant who asked.\<close>

theorem denial_calls_nothing:
  assumes "pending_request cs f p author" and "p \<noteq> []" and "stale_request f content = None"
    and "coerce_answer env f content cs = (Inr (VBool False), cs)"
    and "enact env ''answer_approval'' content None cs = (r, cs')"
  shows "ar_ok r \<and> ar_message r = Some ''Denied.'' \<and> cs_frames cs' = [] \<and> cs_phase cs' = base_phase \<and>
    cs_turn_priority cs' = author \<and> cs_bus cs' = cs_bus cs \<and> cs_attachments cs' = cs_attachments cs"
  using denied_request [OF assms] by simp

theorem denial_calls_nothing_witness:
  "cs_attachments (snd (enact demo_env ''answer_approval'' (VBool False) None demo_pending)) = [] \<and>
   cs_turn_priority (snd (enact demo_env ''answer_approval'' (VBool False) None demo_pending)) = ''user''"
proof -
  let ?e = "enact demo_env ''answer_approval'' (VBool False) None demo_pending"
  have e: "?e = (fst ?e, snd ?e)" by simp
  from denial_calls_nothing [OF demo_is_pending _ demo_pending_facts(8) demo_answer e] show ?thesis
    by (simp add: demo_pending_facts)
qed

text \<open>C17: An approved request resumes the call that was pending: answering yes is enacting the stored action
  again for the participant who made it, marked as approved, with the turn back at that participant and the
  request off the stack; only the answer's own event is put in front of the result's.\<close>

theorem approval_resumes_call:
  assumes "pending_request cs f p author" and "stale_request f content = None"
    and "coerce_answer env f content cs = (Inr (VBool True), cs)"
    and "dget p ''content'' = Some (VDict payload)" and "dget p ''type'' = Some (VStr ty)"
  shows "\<exists>ev. enact env ''answer_approval'' content None cs =
    (case enact env ty (VDict (dset ''_approved'' (VBool True) payload)) (Some author)
            (record_event ev (handed_back author cs)) of (r, cs') \<Rightarrow> (prepend_event ev r, cs'))"
  using approved_request [OF assms] .

theorem approval_resumes_call_witness:
  "\<exists>ev. snd (enact demo_env ''answer_approval'' (VBool True) None demo_pending) =
     snd (enact demo_env ''call_command'' (VDict (wipe_payload @ [(''_approved'', VBool True)])) (Some ''user'')
            (record_event ev (handed_back ''user'' demo_pending))) \<and>
   cs_attachments (snd (enact demo_env ''answer_approval'' (VBool True) None demo_pending)) = [VStr ''user'']"
proof -
  have c: "dget wipe_pending ''content'' = Some (VDict wipe_payload)" "dget wipe_pending ''type'' = Some (VStr ''call_command'')"
    by simp_all
  have d: "dset ''_approved'' (VBool True) wipe_payload = wipe_payload @ [(''_approved'', VBool True)]" by code_simp
  have a: "cs_attachments (snd (enact demo_env ''answer_approval'' (VBool True) None demo_pending)) = [VStr ''user'']"
    by code_simp
  from approval_resumes_call [OF demo_is_pending demo_pending_facts(8) demo_answer c] obtain ev where
    "enact demo_env ''answer_approval'' (VBool True) None demo_pending =
       (case enact demo_env ''call_command'' (VDict (wipe_payload @ [(''_approved'', VBool True)])) (Some ''user'')
          (record_event ev (handed_back ''user'' demo_pending)) of (r, cs') \<Rightarrow> (prepend_event ev r, cs'))"
    unfolding d by blast
  then have "snd (enact demo_env ''answer_approval'' (VBool True) None demo_pending) =
     snd (enact demo_env ''call_command'' (VDict (wipe_payload @ [(''_approved'', VBool True)])) (Some ''user'')
            (record_event ev (handed_back ''user'' demo_pending)))" by (simp split: prod.splits)
  with a show ?thesis by blast
qed

text \<open>C18: Resuming a pending call is a recursion of the interpreter; it ends, because each resumption took a
  frame off the stack: one more level than there are frames is enough, and more levels change nothing.\<close>

theorem enact_terminates:
  assumes "length (cs_frames cs) < n"
  shows "enact_upto n env a content who cs = enact env a content who cs"
  using enact_fuel [OF assms] .

theorem enact_terminates_witness:
  "enact_upto 7 demo_env ''answer_approval'' (VBool True) None demo_pending =
   enact demo_env ''answer_approval'' (VBool True) None demo_pending"
  by (rule enact_terminates) (simp add: demo_pending_facts)



text \<open>The value a form step accepts has the type the step declares and is one of its options: a required or
  non-blank value that is coerced without error is an integer, a number or a boolean as declared, or, where
  the step lists options, one of them.\<close>

lemma accepted_value_is_typed:
  assumes "coerce h st v = Inr w" and "\<not> (is_blank v \<and> \<not> fs_required st)"
  shows "(case fs_enum st of Some (o1 # os) \<Rightarrow> py_in w (o1 # os) | Some [] \<Rightarrow> True | None \<Rightarrow> has_type (fs_type st) w)"
  using coerce_type [OF assms(1) _ assms(2)] coerce_in_enum [OF assms(1) _ _ assms(2)]
  by (auto split: option.splits list.splits)

lemma accepted_value_is_typed_demo:
  "has_type ''integer'' (case coerce demo_host (plain_step ''n'' ''How many?'' True ''integer'') (VStr '' 42 '') of Inr w \<Rightarrow> w)"
proof -
  let ?st = "plain_step ''n'' ''How many?'' True ''integer''"
  have "\<not> isl (coerce demo_host ?st (VStr '' 42 ''))" by code_simp
  then obtain w where c: "coerce demo_host ?st (VStr '' 42 '') = Inr w" by (cases "coerce demo_host ?st (VStr '' 42 '')") auto
  from accepted_value_is_typed [OF c] c show ?thesis by (simp add: plain_step_def is_blank_def)
qed

text \<open>When the last missing value of a form is given, the command the form was opened for is called with
  the collected arguments plus that value, for the same actor, under the same name and call id, with the turn
  unchanged.\<close>

lemma form_completion_calls_command:
  assumes "frame_args f = Inr args" and "form_history f = Inr hist"
    and "find_spec env cs (fr_actor f) (fr_action_type f) (opt_text (fr_name f)) = Inr (Some spec)"
    and "steps_of spec (dset (fs_name st) v args) = (\<lambda>_. Inr [])"
  shows "\<exists>f2 cs2. advance_form env resume ty msg actor f st v cs =
           replay_form resume f2 (dset (fs_name st) v args) cs2 \<and>
         fr_name f2 = fr_name f \<and> fr_action_type f2 = fr_action_type f \<and> fr_actor f2 = fr_actor f \<and>
         frame_call_id f2 = frame_call_id f \<and> cs_frames cs2 = butlast (cs_frames cs) @ [f2] \<and>
         cs_turn_priority cs2 = cs_turn_priority cs"
  using last_value_calls [OF assms] .

lemma form_completion_calls_command_demo:
  "\<exists>f2 cs2. advance_form demo_env (enact demo_env) ''submit_form_text'' None ''user'' demo_form (plain_step ''n'' ''n?'' True ''integer'')
      (VInt 3) demo_conv = replay_form (enact demo_env) f2 [(''n'', VInt 3)] cs2 \<and> fr_name f2 = Some ''wipe''"
proof -
  have a: "frame_args demo_form = Inr []" "form_history demo_form = Inr []" "fr_name demo_form = Some ''wipe''"
    by (simp_all add: demo_form_def frame_args_def form_history_def)
  have s: "steps_of wipe_spec args = (\<lambda>_. Inr [])" for args by (simp add: steps_of_def wipe_spec_def fun_eq_iff)
  have n: "dset (fs_name (plain_step ''n'' ''n?'' True ''integer'')) (VInt 3) [] = [(''n'', VInt 3)]"
    by (simp add: plain_step_def)
  from form_completion_calls_command [OF a(1,2) demo_form_spec s, of "enact demo_env" "''submit_form_text''" None "''user''"
      "plain_step ''n'' ''n?'' True ''integer''" "VInt 3"] a(3) show ?thesis unfolding n by auto
qed

text \<open>An approver that is no participant hands the decision to the one who asked: the request frame is
  pushed before the approver is looked up, the lookup fails, and what is left is a request pending with the
  turn at its author, who can answer it.\<close>

lemma requester_can_answer_own_request:
  assumes "sp_approval_actor spec = Some approver" and "approver \<noteq> []"
    and "dget (cs_participants cs) approver = None" and "actor \<noteq> []"
    and "actor = cs_turn_priority cs" and "dget (cs_participants cs) actor \<noteq> None"
    and "request_approval c actor payload spec cs = (r, cs')"
  shows "pending_request cs' (last (cs_frames cs')) [(''type'', VStr (class_type c)), (''actor_id'', VStr actor),
      (''content'', VDict payload)] actor \<and> cs_turn_priority cs' = actor"
  using requester_may_answer [OF assms] .

lemma requester_can_answer_own_request_demo:
  "cs_turn_priority (snd (request_approval CallCommand ''user'' wipe_payload (wipe_spec\<lparr>sp_approval_actor := Some ''ghost''\<rparr>) demo_conv)) = ''user''"
proof -
  let ?spec = "wipe_spec\<lparr>sp_approval_actor := Some ''ghost''\<rparr>"
  have p: "dget (cs_participants demo_conv) ''ghost'' = None" "''user'' = cs_turn_priority demo_conv"
    "dget (cs_participants demo_conv) ''user'' \<noteq> None" by code_simp+
  have "request_approval CallCommand ''user'' wipe_payload ?spec demo_conv =
    (fst (request_approval CallCommand ''user'' wipe_payload ?spec demo_conv), snd (request_approval CallCommand ''user'' wipe_payload ?spec demo_conv))"
    by simp
  from requester_can_answer_own_request [OF _ _ p(1) _ p(2,3) this] show ?thesis by simp
qed

section \<open>The task pipeline\<close>

text \<open>C20: A path is handed to the workers of a task at most once, whatever is interleaved with the claims:
  between two claims of the same entry something put it back (a retry, an invalidation, a time-out, a
  worker returning it) or deleted the file.\<close>

theorem work_handed_out_once:
  assumes "queue_ok q" and "\<forall>(now, x) \<in> set ops. \<not> puts_back x p t"
  shows "count_list (fst (run_ops roots ops q)) (p, t) \<le> 1"
  using handed_out_once [OF assms] .

theorem work_handed_out_once_witness:
  "count_list (fst (run_ops [] [(1, Enqueue ''a'' ''t''), (2, Claim ''t'' 5), (3, Claim ''t'' 5), (4, queue_op.Complete ''a'' ''t'')] []))
     (''a'', ''t'') = 1"
proof -
  let ?ops = "[(1, Enqueue ''a'' ''t''), (2, Claim ''t'' 5), (3, Claim ''t'' 5), (4, queue_op.Complete ''a'' ''t'')] :: (time \<times> queue_op) list"
  have "count_list (fst (run_ops [] ?ops [])) (''a'', ''t'') \<le> 1"
    by (rule work_handed_out_once) (simp_all add: queue_ok_def queue_wf_def)
  moreover have "(''a'', ''t'') \<in> set (fst (run_ops [] ?ops []))" by code_simp
  then have "count_list (fst (run_ops [] ?ops [])) (''a'', ''t'') \<noteq> 0" by (simp only: count_list_0_iff not_not)
  ultimately show ?thesis by linarith
qed

text \<open>C21: Claiming again and again drains the queue of a task: with a batch size other than 0, as many rounds
  as there are pending paths hand out every one of them, each once, and leave none pending.\<close>

theorem pending_work_drained:
  assumes "queue_wf q" and "rounds (\<lambda>now n q. claim_tasks now task n q) ts n q = (ks, q')" and "n \<noteq> 0"
    and "card {p. get_task_status p task q = Some PENDING} \<le> length ts"
  shows "set ks = {p. get_task_status p task q = Some PENDING} \<and> distinct ks \<and>
    (\<forall>p. get_task_status p task q' \<noteq> Some PENDING)"
  using file_queue.rounds_drain [OF assms] file_queue.rounds_sound [OF assms(1,2)] by blast

theorem pending_work_drained_witness:
  "set (fst (rounds (\<lambda>now n q. claim_tasks now ''t'' n q) [5, 6] 1 (snd (run_ops [] [(1, Enqueue ''a'' ''t''), (2, Enqueue ''b'' ''t'')] []))))
     = {''a'', ''b''}"
proof -
  let ?q = "snd (run_ops [] [(1, Enqueue ''a'' ''t''), (2, Enqueue ''b'' ''t'')] [])"
  let ?r = "rounds (\<lambda>now n q. claim_tasks now ''t'' n q) [5, 6] 1 ?q"
  have w: "queue_wf ?q" by code_simp
  have q: "?q = [new_row [] 1 ''a'' ''t'', new_row [] 2 ''b'' ''t'']" by code_simp
  have p: "{p. get_task_status p ''t'' ?q = Some PENDING} = {''a'', ''b''}"
    unfolding q by (auto simp: get_task_status_def queue_key_def new_row_def)
  then have c: "card {p. get_task_status p ''t'' ?q = Some PENDING} \<le> length [5 :: time, 6]" by simp
  have e: "?r = (fst ?r, snd ?r)" by simp
  from pending_work_drained [OF w e _ c] p show ?thesis by simp
qed

text \<open>The order of dispatch is the order of the index: nothing a claim leaves pending has a higher
  priority than something it takes, or the same priority and an earlier creation time.\<close>

lemma dispatch_in_order:
  assumes "queue_wf q" and "claim_tasks now task n q = (ps, q')"
    and "r \<in> set q" and "tq_task r = task" and "tq_path r \<in> set ps"
    and "r' \<in> set q" and "tq_task r' = task" and "tq_status r' = PENDING" and "tq_path r' \<notin> set ps"
  shows "tq_priority r' < tq_priority r \<or> tq_priority r' = tq_priority r \<and> tq_created r \<le> tq_created r'"
  using claim_in_order [OF assms] by (auto simp: dispatch_order_def less_eq_prod_def)

lemma dispatch_in_order_demo:
  "fst (claim_tasks 5 ''t'' 1 [new_row [] 2 ''b'' ''t'', new_row [] 1 ''a'' ''t'']) = [''a''] \<and>
   tq_created (new_row [] 1 ''a'' ''t'') \<le> tq_created (new_row [] 2 ''b'' ''t'')"
proof -
  let ?q = "[new_row [] 2 ''b'' ''t'', new_row [] 1 ''a'' ''t'']"
  have w: "queue_wf ?q" by code_simp
  have f: "fst (claim_tasks 5 ''t'' 1 ?q) = [''a'']" by code_simp
  then obtain q' where c: "claim_tasks 5 ''t'' 1 ?q = ([''a''], q')" by (cases "claim_tasks 5 ''t'' 1 ?q") simp
  have "tq_priority (new_row [] 2 ''b'' ''t'') < tq_priority (new_row [] 1 ''a'' ''t'') \<or>
    tq_priority (new_row [] 2 ''b'' ''t'') = tq_priority (new_row [] 1 ''a'' ''t'') \<and>
    tq_created (new_row [] 1 ''a'' ''t'') \<le> tq_created (new_row [] 2 ''b'' ''t'')"
    by (rule dispatch_in_order [OF w c]) (simp_all add: new_row_def)
  moreover have "\<not> tq_priority (new_row [] 2 ''b'' ''t'') < tq_priority (new_row [] 1 ''a'' ''t'')" by code_simp
  ultimately show ?thesis using f by blast
qed




text \<open>C23: However the orchestrator's handlers interleave (registration, file events, dispatch, workers that
  begin and finish in any order, pauses, stops), the queue keeps its invariant: one row for a path and a
  task, a start time on everything in progress and a completion time on everything finished.\<close>

theorem pipeline_keeps_queue:
  assumes "(pipeline_step ops fi roots)\<^sup>*\<^sup>* s s'" and "orch_ok s"
  shows "distinct (map queue_key (db_queue (or_db s'))) \<and>
    (\<forall>r \<in> set (db_queue (or_db s')). (tq_status r = PROCESSING \<longrightarrow> tq_started r \<noteq> None) \<and>
       (tq_status r \<in> {DONE, FAILED} \<longrightarrow> tq_completed r \<noteq> None))"
  using steps_ok [OF assms] by (simp add: orch_ok_def queue_ok_def queue_wf_def row_ok_def)

theorem pipeline_keeps_queue_witness:
  "\<exists>s'. (pipeline_step demo_ops demo_files [])\<^sup>*\<^sup>* demo_running s' \<and> or_jobs s' \<noteq> [] \<and>
     distinct (map queue_key (db_queue (or_db s')))"
proof -
  let ?s = "snd (snd (run_dispatch 2 2 demo_running))"
  have s: "(pipeline_step demo_ops demo_files [])\<^sup>*\<^sup>* demo_running ?s"
    by (rule r_into_rtranclp) (rule step_dispatch)
  have "or_jobs ?s \<noteq> []" by code_simp
  with s pipeline_keeps_queue [OF s demo_running_ok(1)] show ?thesis by blast
qed

text \<open>C24: A call is submitted only through every gate: its task is not paused, each service it needs is
  loaded, a slot of its semaphore was free, each of its paths was pending and is now in progress, and, for a
  task that reads tables, the dependencies of each path hold at that moment.\<close>

theorem dispatch_respects_gates:
  assumes "orch_ok s" and "dispatch_path_task now t s = (True, s')"
  shows "\<exists>paths i. or_jobs s' = or_jobs s @ [PathJob t paths i] \<and> paths \<noteq> [] \<and> ts_name t \<notin> or_paused s \<and>
     (\<forall>nm \<in> set (ts_services t). dget (or_services s) nm = Some True) \<and>
     dget (or_sem_of s) (ts_name t) = Some i \<and> 0 < or_sems s ! i \<and>
     (\<forall>p \<in> set paths. get_task_status p (ts_name t) (db_queue (or_db s)) = Some PENDING \<and>
        get_task_status p (ts_name t) (db_queue (or_db s')) = Some PROCESSING \<and>
        (ts_reads t \<noteq> [] \<longrightarrow> deps_met p t s'))"
  using submitted_through_gates [OF assms] .

theorem dispatch_respects_gates_witness:
  "\<exists>s' paths i. dispatch_path_task 2 parse_task demo_running = (True, s') \<and> or_jobs s' = [PathJob parse_task paths i] \<and>
     paths \<noteq> [] \<and> (\<forall>p \<in> set paths. get_task_status p ''parse'' (db_queue (or_db s')) = Some PROCESSING)"
proof -
  obtain s' where d: "dispatch_path_task 2 parse_task demo_running = (True, s')"
    using demo_dispatched by (cases "dispatch_path_task 2 parse_task demo_running") auto
  have "or_jobs demo_running = []" "ts_name parse_task = ''parse''" by code_simp+
  with d dispatch_respects_gates [OF demo_running_ok(1) d] show ?thesis by fastforce
qed



text \<open>C26: Only stopping loses a slot: under every other step the free slots of a semaphore and the calls that
  hold it add up to what they did before, so that every way out of a dispatch or a worker gives its slot back.\<close>

theorem slots_conserved:
  assumes "pipeline_step ops fi roots s s'" and "sem_ok s" and "i < length (or_sems s)"
    and "\<nexists>cancelled. s' = stop_orchestrator cancelled s"
  shows "or_sems s' ! i + int (length (filter (\<lambda>j. job_sem j = i) (or_jobs s'))) =
    or_sems s ! i + int (length (filter (\<lambda>j. job_sem j = i) (or_jobs s)))"
  using step_conserves [OF assms(1)] assms(2-4) by (auto simp: conserves_def balance_def outstanding_def)

theorem slots_conserved_witness:
  "let s' = snd (snd (run_dispatch 2 2 demo_running)) in
     or_sems s' ! 0 = 0 \<and> length (filter (\<lambda>j. job_sem j = 0) (or_jobs s')) = 1"
proof -
  let ?s = "snd (snd (run_dispatch 2 2 demo_running))"
  have st: "pipeline_step demo_ops demo_files [] demo_running ?s" by (rule step_dispatch)
  have c: "or_sems demo_running ! 0 = 1" "or_jobs demo_running = []" "0 < length (or_sems demo_running)"
    "length (or_jobs ?s) = 1" "or_sems ?s ! 0 = 0" "or_paused ?s = {}" by code_simp+
  have "?s \<noteq> stop_orchestrator cancelled demo_running" for cancelled
  proof
    assume "?s = stop_orchestrator cancelled demo_running"
    then have "or_paused ?s = or_paused (stop_orchestrator cancelled demo_running)" by simp
    moreover have "''parse'' \<in> or_paused (stop_orchestrator cancelled demo_running)"
      using demo_running_ok(4) by (force simp: stop_orchestrator_def parse_task_def demo_task_def dest: map_of_SomeD)
    ultimately show False using c(6) by simp
  qed
  from slots_conserved [OF st demo_running_ok(2) c(3)] this c show ?thesis by (simp add: Let_def)
qed


text \<open>C27: The set of tasks to invalidate is the transitive closure of the graph: exactly the tasks reached
  from the failed one by following written tables to their path-keyed readers, each listed once; the
  worklist loop terminates on every graph, cycles included.\<close>

theorem downstream_is_closure:
  assumes "tasks_wf (or_tasks s)" and "dget (or_tasks s) nm = Some t" and "is_path t"
  shows "set (get_all_downstream nm s) = {d. (nm, d) \<in> (feeds (or_tasks s))\<^sup>+} \<and> distinct (get_all_downstream nm s)"
  using downstream_closure [OF assms] by auto

theorem downstream_is_closure_witness:
  "(''parse'', ''embed'') \<in> (feeds (or_tasks demo_running))\<^sup>+ \<and> (''parse'', ''parse'') \<notin> (feeds (or_tasks demo_running))\<^sup>+"
proof -
  have "is_path parse_task" by code_simp
  note c = downstream_is_closure [OF demo_running_ok(3,4) this, THEN conjunct1, unfolded set_eq_iff mem_Collect_eq]
  have e: "get_all_downstream ''parse'' demo_running = [''embed'']" by code_simp
  have "''embed'' \<in> set (get_all_downstream ''parse'' demo_running)"
    "''parse'' \<notin> set (get_all_downstream ''parse'' demo_running)" unfolding e by simp_all
  then show ?thesis using c by blast
qed

text \<open>C28: When the call of a batch fails, no task computed from its outputs is left done, failed or in
  progress for any of its paths: everything transitively downstream is pending again.\<close>

theorem failure_invalidates_downstream:
  assumes "tasks_wf (or_tasks s)" and "dget (or_tasks s) (ts_name t) = Some t" and "is_path t"
    and "(ts_name t, d) \<in> (feeds (or_tasks s))\<^sup>+" and "p \<in> set paths"
  shows "get_task_status p d (db_queue (or_db (execute_end ops fi roots now dur t paths (Inl e) s))) \<in> {None, Some PENDING}"
  using failed_batch_invalidates [OF assms] .

theorem failure_invalidates_downstream_witness:
  "get_task_status ''a.txt'' ''embed'' (db_queue (or_db (execute_end demo_ops demo_files [] 9 0 parse_task [''a.txt''] (Inl ''boom'')
     (on_queue (complete_task 8 ''a.txt'' ''embed'' \<circ> enqueue_task [] 7 ''a.txt'' ''embed'') demo_running)))) = Some PENDING"
proof -
  let ?s = "on_queue (complete_task 8 ''a.txt'' ''embed'' \<circ> enqueue_task [] 7 ''a.txt'' ''embed'') demo_running"
  have n: "ts_name parse_task = ''parse''" and p: "is_path parse_task" by code_simp+
  have "is_path embed_task" "set (ts_writes parse_task) \<inter> set (ts_reads embed_task) \<noteq> {}" by code_simp+
  with demo_running_ok(4,5) have "(''parse'', ''embed'') \<in> feeds (or_tasks demo_running)"
    unfolding feeds_def by blast
  then have "(ts_name parse_task, ''embed'') \<in> (feeds (or_tasks ?s))\<^sup>+" unfolding n by simp
  from failure_invalidates_downstream [OF _ _ p this, of "''a.txt''" "[''a.txt'']" demo_ops demo_files "[]" 9 0 "''boom''"]
  have "get_task_status ''a.txt'' ''embed'' (db_queue (or_db (execute_end demo_ops demo_files [] 9 0 parse_task [''a.txt'']
      (Inl ''boom'') ?s))) \<in> {None, Some PENDING}" using demo_running_ok(3,4) by (simp add: n)
  moreover have "get_task_status ''a.txt'' ''embed'' (db_queue (or_db (execute_end demo_ops demo_files [] 9 0 parse_task [''a.txt'']
      (Inl ''boom'') ?s))) \<noteq> None" by code_simp
  ultimately show ?thesis by auto
qed



section \<open>The database lock and the saved conversation\<close>

text \<open>C30: Under every schedule of entering, waking, leaving and changing priority the database lock has at
  most one thread inside; while an interactive thread waits, a background thread does not get in; and a
  lock that is free while threads wait can be taken by one of them, an interactive one if there is one.\<close>

theorem interactive_threads_first:
  assumes "lock_run es (idle_lock ps) = Some st" and "\<not> list_ex is_interrupt es"
  shows "(\<forall>i < length (snd st). \<forall>j < length (snd st).
       lt_pc (snd st ! i) = Inside \<and> lt_pc (snd st ! j) = Inside \<longrightarrow> i = j) \<and>
     (\<forall>e st'. lock_fire e st = Some st' \<and> lt_pc (snd st ! event_thread e) \<noteq> Inside \<and>
       lt_pc (snd st' ! event_thread e) = Inside \<and> (\<exists>t \<in> set (snd st). waiting_high t) \<longrightarrow>
       lt_high (snd st' ! event_thread e)) \<and>
     (\<not> pl_held (fst st) \<and> (\<exists>t \<in> set (snd st). waiting t) \<longrightarrow>
       (\<exists>i st'. lock_fire (Retest i) st = Some st' \<and> lt_pc (snd st' ! i) = Inside))"
proof -
  have safe: "lock_safe st" and live: "no_stranded st"
    using run_safe [OF assms(1)] run_no_stranded [OF assms(1) _ assms(2)] idle_lock_safe by auto
  have "\<exists>i st'. lock_fire (Retest i) st = Some st' \<and> lt_pc (snd st' ! i) = Inside"
    if "\<not> pl_held (fst st)" "\<exists>t \<in> set (snd st). waiting t"
    using free_lock_is_taken [OF safe live that] by blast
  then show ?thesis using inside_unique [OF safe] entering_respects_priority [OF safe] by blast
qed

theorem interactive_threads_first_witness:
  "\<exists>i st'. lock_fire (Retest i) (the (lock_run [Enter 0, Enter 1, Enter 2, Leave 0] (idle_lock [False, False, True]))) = Some st' \<and>
     lt_pc (snd st' ! i) = Inside"
proof -
  let ?es = "[Enter 0, Enter 1, Enter 2, Leave 0]" and ?st = "the (lock_run [Enter 0, Enter 1, Enter 2, Leave 0] (idle_lock [False, False, True]))"
  have "lock_run ?es (idle_lock [False, False, True]) = Some ?st" "\<not> list_ex is_interrupt ?es"
    "\<not> pl_held (fst ?st)" "\<exists>t \<in> set (snd ?st). waiting t" by code_simp+
  with interactive_threads_first [of ?es "[False, False, True]" ?st] show ?thesis by blast
qed

text \<open>C31: What is shown of a streamed response does not depend on how it was cut into fragments: it is what
  an automaton reading the whole text a character at a time displays, thinking blocks and tokens removed.\<close>

theorem stream_cuts_do_not_matter:
  "displayed fragments = reference_display (concat fragments)"
  by (rule displayed_is_reference)



section \<open>Effects of plugins and their isolation\<close>








section \<open>The agent's turn\<close>



text \<open>C38: A tool with a call limit is enacted at most that often in a turn, whoever asked for the calls: the
  model, in one batch or over many, or a hook that queued them.\<close>

theorem tool_calls_within_limit:
  assumes "drive_turn h cs history shared = (st', out)" and "dget (lh_limits h) nm = Some limit"
  shows "enacted_calls nm st' \<le> limit"
  using drive_within_budget [OF assms(1)] assms(2) unfolding within_budget_def by (meson le_trans)

theorem tool_calls_within_limit_witness:
  "enacted_calls ''stat'' (fst demo_turn) \<le> 1 \<and> length (ls_new (fst demo_turn)) = 5"
proof -
  obtain st' out where d: "demo_turn = (st', out)" by (cases demo_turn)
  have "dget (lh_limits demo_loop) ''stat'' = Some 1" by (simp add: demo_loop_def)
  from tool_calls_within_limit [OF d this] d demo_turn_facts show ?thesis by simp
qed





end
